(* ===== verification/Prelude.thy ===== *)
theory Prelude
  imports Main "HOL-Library.Word" "HOL-Library.AList" "HOL-Library.Char_ord"
    "HOL-Library.List_Lexorder" "HOL-Library.Sublist"
begin

text \<open>
  Shared vocabulary of the development: Python exceptions as values, bytes and the big-endian
  \<open>struct\<close> formats, Python slices, the string methods the program uses, dictionaries with
  insertion order, and the generic interfaces (\<open>wire_codec\<close>, \<open>step_machine\<close>,
  \<open>last_value_cache\<close>) that several components implement.

  A Python \<open>str\<close> is modelled by the HOL string of its UTF-8 bytes. The character predicates
  (\<open>isalnum\<close>, \<open>isdigit\<close>, whitespace, case) are those of Python on ASCII; beyond ASCII no
  byte is alphanumeric, a digit or a space.
\<close>

section \<open>Exceptions as values\<close>

datatype py_error =
    ValueError
  | UnicodeError
  | StructError
  | KeyError
  | IndexError
  | TypeError
  | OverflowError
  | OSError
  | RuntimeError
  | AttributeError

type_synonym 'a py = "py_error + 'a"

definition bindE :: "'e + 'a \<Rightarrow> ('a \<Rightarrow> 'e + 'b) \<Rightarrow> 'e + 'b" where
  "bindE m f = (case m of Inl e \<Rightarrow> Inl e | Inr x \<Rightarrow> f x)"

lemma bindE_simps [simp]:
  "bindE (Inl e) f = Inl e"
  "bindE (Inr x) f = f x"
  by (simp_all add: bindE_def)

lemma bindE_Inr_iff: "bindE m f = Inr y \<longleftrightarrow> (\<exists>x. m = Inr x \<and> f x = Inr y)"
  by (cases m) auto

lemma bindE_Inl_iff: "bindE m f = Inl e \<longleftrightarrow> m = Inl e \<or> (\<exists>x. m = Inr x \<and> f x = Inl e)"
  by (cases m) auto

section \<open>Bytes and slices\<close>

type_synonym byte = "8 word"
type_synonym bytes = "byte list"

text \<open>
  A Python slice bound: negative values count from the end, everything is clamped to the
  length. \<open>py_slice xs i j\<close> is \<open>xs[i:j]\<close>.
\<close>

definition py_bound :: "int \<Rightarrow> int \<Rightarrow> int" where
  "py_bound n i = (if i < 0 then max 0 (n + i) else min n i)"

definition py_slice :: "'a list \<Rightarrow> int \<Rightarrow> int \<Rightarrow> 'a list" where
  "py_slice xs i j =
     (let n = int (length xs); a = py_bound n i; b = py_bound n j
      in take (nat (b - a)) (drop (nat a) xs))"

definition py_from :: "'a list \<Rightarrow> int \<Rightarrow> 'a list" where
  "py_from xs i = py_slice xs i (int (length xs))"

lemma py_slice_exact:
  assumes "0 \<le> i" "i \<le> j" "j \<le> int (length xs)"
  shows "py_slice xs i j = take (nat (j - i)) (drop (nat i) xs)"
  using assms by (simp add: py_slice_def py_bound_def Let_def)

lemma length_py_slice:
  "0 \<le> i \<Longrightarrow> i \<le> j \<Longrightarrow> j \<le> int (length xs) \<Longrightarrow> int (length (py_slice xs i j)) = j - i"
  by (simp add: py_slice_exact)

lemma py_from_nat: "py_from xs (int n) = drop n xs"
  by (simp add: py_from_def py_slice_def py_bound_def Let_def min_def)

section \<open>The struct module\<close>

text \<open>
  \<open>struct.pack\<close> of an unsigned field raises \<open>struct.error\<close> out of range, and
  \<open>unpack_from\<close> raises it when the buffer is too short: the latter is \<open>None\<close> here.
\<close>

definition be16 :: "int \<Rightarrow> bytes" where
  "be16 n = [word_of_int (n div 256), word_of_int n]"

definition un16 :: "byte \<Rightarrow> byte \<Rightarrow> int" where
  "un16 hi lo = 256 * uint hi + uint lo"

definition pack_H :: "int \<Rightarrow> bytes py" where
  "pack_H n = (if 0 \<le> n \<and> n \<le> 65535 then Inr (be16 n) else Inl StructError)"

definition pack_B :: "int \<Rightarrow> bytes py" where
  "pack_B n = (if 0 \<le> n \<and> n \<le> 255 then Inr [word_of_int n] else Inl StructError)"

definition u8_at :: "bytes \<Rightarrow> int \<Rightarrow> int option" where
  "u8_at b i = (if 0 \<le> i \<and> i + 1 \<le> int (length b) then Some (uint (b ! nat i)) else None)"

definition u16_at :: "bytes \<Rightarrow> int \<Rightarrow> int option" where
  "u16_at b i =
     (if 0 \<le> i \<and> i + 2 \<le> int (length b) then Some (un16 (b ! nat i) (b ! nat (i + 1))) else None)"

definition bytes_at :: "bytes \<Rightarrow> int \<Rightarrow> int \<Rightarrow> bytes option" where
  "bytes_at b i n =
     (if 0 \<le> i \<and> i + n \<le> int (length b) then Some (take (nat n) (drop (nat i) b)) else None)"

lemma uint_byte_bounds: "0 \<le> uint (x :: byte)" "uint (x :: byte) < 256"
  using uint_lt2p [of x] by simp_all

lemma un16_bounds: "0 \<le> un16 a b" "un16 a b \<le> 65535"
  using uint_byte_bounds [of a] uint_byte_bounds [of b] by (simp_all add: un16_def)

lemma length_be16 [simp]: "length (be16 n) = 2"
  by (simp add: be16_def)

lemma un16_be16:
  assumes "0 \<le> n" "n \<le> 65535"
  shows "un16 (word_of_int (n div 256)) (word_of_int n) = n"
proof -
  have "uint (word_of_int (n div 256) :: byte) = n div 256"
    using assms by (simp add: uint_word_of_int)
  moreover have "uint (word_of_int n :: byte) = n mod 256"
    by (simp add: uint_word_of_int)
  ultimately show ?thesis by (simp add: un16_def)
qed

lemma be16_un16: "be16 (un16 a b) = [a, b]"
proof -
  have "un16 a b div 256 = uint a"
    using uint_byte_bounds [of b] by (simp add: un16_def)
  moreover have "(word_of_int (un16 a b) :: byte) = b"
  proof (rule word_uint_eqI)
    have "un16 a b mod 256 = uint b"
      using uint_byte_bounds [of b] by (simp add: un16_def)
    then show "uint (word_of_int (un16 a b) :: byte) = uint b"
      by (simp only: uint_word_of_int) simp
  qed
  ultimately show ?thesis by (simp add: be16_def)
qed

lemma pack_H_Inr_iff: "pack_H n = Inr b \<longleftrightarrow> 0 \<le> n \<and> n \<le> 65535 \<and> b = be16 n"
  by (auto simp: pack_H_def)

lemma pack_B_Inr_iff: "pack_B n = Inr b \<longleftrightarrow> 0 \<le> n \<and> n \<le> 255 \<and> b = [word_of_int n]"
  by (auto simp: pack_B_def)

lemma uint_word_of_int_byte: "0 \<le> n \<Longrightarrow> n \<le> 255 \<Longrightarrow> uint (word_of_int n :: byte) = n"
  by (simp add: uint_word_of_int)

lemma u16_at_append:
  assumes "i = int (length xs)"
  shows "u16_at (xs @ a # b # ys) i = Some (un16 a b)"
  using assms by (simp add: u16_at_def nat_add_distrib nth_append)

lemma u16_at_be16:
  assumes "i = int (length xs)" "0 \<le> n" "n \<le> 65535"
  shows "u16_at (xs @ be16 n @ ys) i = Some n"
  using assms u16_at_append [of i xs "word_of_int (n div 256)" "word_of_int n" ys]
  by (simp add: be16_def un16_be16)

lemma u8_at_append: "i = int (length xs) \<Longrightarrow> u8_at (xs @ a # ys) i = Some (uint a)"
  by (simp add: u8_at_def)

lemma bytes_at_append:
  "i = int (length xs) \<Longrightarrow> n = int (length ys) \<Longrightarrow> bytes_at (xs @ ys @ zs) i n = Some ys"
  by (simp add: bytes_at_def)

text \<open>Reading past a prefix, and reading at its end: the rules a parser's proof rewrites with.\<close>

lemma u16_at_skip: "int (length xs) \<le> i \<Longrightarrow> u16_at (xs @ ys) i = u16_at ys (i - int (length xs))"
  by (auto simp: u16_at_def nth_append nat_diff_distrib nat_add_distrib algebra_simps intro!: arg_cong2 [where f = un16])

lemma u8_at_skip: "int (length xs) \<le> i \<Longrightarrow> u8_at (xs @ ys) i = u8_at ys (i - int (length xs))"
  by (auto simp: u8_at_def nth_append nat_diff_distrib)

lemma bytes_at_skip: "int (length xs) \<le> i \<Longrightarrow> bytes_at (xs @ ys) i n = bytes_at ys (i - int (length xs)) n"
  by (auto simp: bytes_at_def nat_diff_distrib)

lemma u16_at_head: "0 \<le> n \<Longrightarrow> n \<le> 65535 \<Longrightarrow> u16_at (be16 n @ ys) 0 = Some n"
  using u16_at_be16 [of 0 "[]" n ys] by simp

lemma u8_at_head: "u8_at (x # ys) 0 = Some (uint x)"
  using u8_at_append [of 0 "[]" x ys] by simp

lemma bytes_at_head: "n = int (length xs) \<Longrightarrow> bytes_at (xs @ ys) 0 n = Some xs"
  using bytes_at_append [of 0 "[]" n xs ys] by simp

lemma u16_at_skip_byte: "1 \<le> i \<Longrightarrow> u16_at (x # ys) i = u16_at ys (i - 1)"
  using u16_at_skip [of "[x]" i ys] by simp

lemma u8_at_skip_byte: "1 \<le> i \<Longrightarrow> u8_at (x # ys) i = u8_at ys (i - 1)"
  using u8_at_skip [of "[x]" i ys] by simp

lemma bytes_at_skip_byte: "1 \<le> i \<Longrightarrow> bytes_at (x # ys) i n = bytes_at ys (i - 1) n"
  using bytes_at_skip [of "[x]" i ys n] by simp

lemmas wire_reads =
  u16_at_skip u8_at_skip bytes_at_skip u16_at_head u8_at_head bytes_at_head
  u16_at_skip_byte u8_at_skip_byte bytes_at_skip_byte

lemma py_slice_append:
  "i = int (length xs) \<Longrightarrow> j = i + int (length ys) \<Longrightarrow> py_slice (xs @ ys @ zs) i j = ys"
  by (simp add: py_slice_exact nat_add_distrib)

lemma u16_at_Some_iff:
  "u16_at b i = Some n \<longleftrightarrow>
   0 \<le> i \<and> i + 2 \<le> int (length b) \<and> n = un16 (b ! nat i) (b ! nat (i + 1))"
  by (auto simp: u16_at_def)

lemma u16_at_bounds: "u16_at b i = Some n \<Longrightarrow> 0 \<le> n \<and> n \<le> 65535"
  by (auto simp: u16_at_def un16_bounds split: if_splits)

lemma u8_at_bounds: "u8_at b i = Some n \<Longrightarrow> 0 \<le> n \<and> n \<le> 255"
  using uint_byte_bounds [of "b ! nat i"] by (auto simp: u8_at_def split: if_splits)

lemma take_2_2_drop:
  "take 2 (drop k xs) @ take 2 (drop (k + 2) xs) @ take n (drop (k + 4) xs) = take (4 + n) (drop k xs)"
proof -
  have "take (2 + (2 + n)) (drop k xs) =
      take 2 (drop k xs) @ take 2 (drop 2 (drop k xs)) @ take n (drop 2 (drop 2 (drop k xs)))"
    by (simp only: take_add)
  then show ?thesis by (simp add: add.commute eval_nat_numeral)
qed

lemma be16_take_drop:
  assumes "u16_at b i = Some n"
  shows "be16 n = take 2 (drop (nat i) b)"
proof -
  from assms have i: "0 \<le> i" "nat i + 2 \<le> length b"
    and n: "n = un16 (b ! nat i) (b ! Suc (nat i))"
    by (auto simp: u16_at_Some_iff nat_add_distrib)
  have "take 2 (drop (nat i) b) = [b ! nat i, b ! Suc (nat i)]"
    using i by (simp add: numeral_2_eq_2 take_Suc_conv_app_nth)
  then show ?thesis by (simp add: n be16_un16)
qed

section \<open>Strings\<close>

definition byte_of_char :: "char \<Rightarrow> byte" where
  "byte_of_char c = word_of_nat (of_char c)"

definition char_of_byte :: "byte \<Rightarrow> char" where
  "char_of_byte b = char_of (unat b)"

definition is_ascii :: "char \<Rightarrow> bool" where
  "is_ascii c \<longleftrightarrow> of_char c < (128 :: nat)"

text \<open>\<open>s.encode("ascii")\<close> and the three error modes of \<open>b.decode("ascii", ...)\<close>.\<close>

definition encode_ascii :: "string \<Rightarrow> bytes py" where
  "encode_ascii s = (if list_all is_ascii s then Inr (map byte_of_char s) else Inl UnicodeError)"

definition decode_ignore :: "bytes \<Rightarrow> string" where
  "decode_ignore b = map char_of_byte (filter (\<lambda>x. x < 128) b)"

definition decode_strict :: "bytes \<Rightarrow> string option" where
  "decode_strict b = (if list_all (\<lambda>x. x < 128) b then Some (map char_of_byte b) else None)"

text \<open>U+FFFD, the replacement character, in UTF-8.\<close>

definition replacement_char :: string where
  "replacement_char = [CHR 0xEF, CHR 0xBF, CHR 0xBD]"

definition decode_replace :: "bytes \<Rightarrow> string" where
  "decode_replace b = concat (map (\<lambda>x. if x < 128 then [char_of_byte x] else replacement_char) b)"

lemma char_of_byte_of_char [simp]: "char_of_byte (byte_of_char c) = c"
proof -
  have "of_char c < (256 :: nat)" by (rule nat_of_char_less_256)
  then have "unat (word_of_nat (of_char c) :: byte) = of_char c"
    by (simp add: unat_of_nat)
  then show ?thesis by (simp add: char_of_byte_def byte_of_char_def)
qed

lemma byte_of_char_less: "is_ascii c \<Longrightarrow> byte_of_char c < 128"
  by (simp add: byte_of_char_def is_ascii_def word_less_nat_alt unat_of_nat)

lemma byte_of_char_eq_0 [simp]: "byte_of_char c = 0 \<longleftrightarrow> c = CHR 0x00"
proof
  assume "byte_of_char c = 0"
  then have "char_of_byte (byte_of_char c) = char_of_byte 0" by (rule arg_cong)
  also have "char_of_byte 0 = CHR 0x00" by code_simp
  finally show "c = CHR 0x00" by simp
qed (simp add: byte_of_char_def)

lemma encode_ascii_Inr_iff:
  "encode_ascii s = Inr b \<longleftrightarrow> list_all is_ascii s \<and> b = map byte_of_char s"
  by (auto simp: encode_ascii_def)

lemma decode_ignore_append [simp]: "decode_ignore (a @ b) = decode_ignore a @ decode_ignore b"
  by (simp add: decode_ignore_def)

lemma decode_ignore_encode: "list_all is_ascii s \<Longrightarrow> decode_ignore (map byte_of_char s) = s"
  by (induction s) (auto simp: decode_ignore_def byte_of_char_less)

lemma decode_replace_encode: "list_all is_ascii s \<Longrightarrow> decode_replace (map byte_of_char s) = s"
  by (induction s) (auto simp: decode_replace_def byte_of_char_less)

lemma decode_strict_encode: "list_all is_ascii s \<Longrightarrow> decode_strict (map byte_of_char s) = Some s"
  by (auto simp: decode_strict_def byte_of_char_less list_all_iff comp_def)

lemma decode_ignore_zeros: "decode_ignore (replicate n 0) = replicate n (CHR 0x00)"
proof -
  have "char_of_byte 0 = CHR 0x00" by code_simp
  then show ?thesis by (simp add: decode_ignore_def)
qed

text \<open>Stripping a set of characters at both ends, \<open>str.strip\<close>.\<close>

definition rstrip_by :: "('a \<Rightarrow> bool) \<Rightarrow> 'a list \<Rightarrow> 'a list" where
  "rstrip_by p s = rev (dropWhile p (rev s))"

definition strip_by :: "('a \<Rightarrow> bool) \<Rightarrow> 'a list \<Rightarrow> 'a list" where
  "strip_by p s = rstrip_by p (dropWhile p s)"

definition py_space :: "char \<Rightarrow> bool" where
  "py_space c \<longleftrightarrow>
     (let n = of_char c :: nat in (9 \<le> n \<and> n \<le> 13) \<or> (28 \<le> n \<and> n \<le> 32))"

definition py_strip :: "string \<Rightarrow> string" where
  "py_strip = strip_by py_space"

definition strip_nul :: "string \<Rightarrow> string" where
  "strip_nul = strip_by (\<lambda>c. c = CHR 0x00)"

definition rstrip_zero :: "bytes \<Rightarrow> bytes" where
  "rstrip_zero = rstrip_by (\<lambda>x. x = 0)"

lemma rstrip_by_append_all: "list_all p ys \<Longrightarrow> rstrip_by p (xs @ ys) = rstrip_by p xs"
  unfolding rstrip_by_def rev_append by (subst dropWhile_append2) (auto simp: list_all_iff)

lemma rstrip_by_last: "xs \<noteq> [] \<Longrightarrow> \<not> p (last xs) \<Longrightarrow> rstrip_by p xs = xs"
  by (cases xs rule: rev_cases) (auto simp: rstrip_by_def)

lemma rstrip_by_idem [simp]: "rstrip_by p (rstrip_by p xs) = rstrip_by p xs"
  by (simp add: rstrip_by_def dropWhile_idem)

lemma rstrip_by_Nil [simp]: "rstrip_by p [] = []"
  by (simp add: rstrip_by_def)

lemma strip_by_padded:
  assumes "list_all p ys" and "xs = [] \<or> \<not> p (hd xs) \<and> \<not> p (last xs)"
  shows "strip_by p (xs @ ys) = xs"
proof (cases xs)
  case Nil
  have "dropWhile p ys = []" using assms(1) by (simp add: list_all_iff)
  then show ?thesis unfolding strip_by_def Nil append_Nil by (simp only: rstrip_by_Nil)
next
  case (Cons c cs)
  with assms have "dropWhile p (xs @ ys) = xs @ ys" by simp
  then have "strip_by p (xs @ ys) = rstrip_by p (xs @ ys)" by (simp add: strip_by_def)
  also have "\<dots> = rstrip_by p xs" using assms(1) by (rule rstrip_by_append_all)
  also have "\<dots> = xs" using assms(2) Cons by (intro rstrip_by_last) auto
  finally show ?thesis .
qed

lemma strip_by_ends:
  assumes "strip_by p s \<noteq> []"
  shows "\<not> p (hd (strip_by p s))" "\<not> p (last (strip_by p s))"
proof -
  let ?d = "dropWhile p s"
  have tail: "\<exists>zs. ?d = rstrip_by p ?d @ zs"
    unfolding rstrip_by_def
    by (metis rev_append rev_rev_ident takeWhile_dropWhile_id)
  then have "hd (strip_by p s) = hd ?d"
    using assms by (metis hd_append2 strip_by_def)
  moreover have "?d \<noteq> []"
  proof
    assume "?d = []"
    then have "strip_by p s = []" by (simp only: strip_by_def rstrip_by_Nil)
    with assms show False ..
  qed
  ultimately show "\<not> p (hd (strip_by p s))" by (simp add: hd_dropWhile)
  have "dropWhile p (rev ?d) \<noteq> []" using assms by (simp add: strip_by_def rstrip_by_def)
  then show "\<not> p (last (strip_by p s))"
    by (simp add: strip_by_def rstrip_by_def last_rev hd_dropWhile)
qed

lemma strip_by_idem [simp]: "strip_by p (strip_by p s) = strip_by p s"
  using strip_by_padded [of p "[]" "strip_by p s"] strip_by_ends [of p s]
  by (cases "strip_by p s = []") auto

lemma set_strip_by: "set (strip_by p s) \<subseteq> set s"
  unfolding strip_by_def rstrip_by_def by (auto dest!: set_dropWhileD)

text \<open>A serial the fixed-width fields carry without loss: ASCII, no NUL at either end.\<close>

definition wire_serial :: "nat \<Rightarrow> string \<Rightarrow> bool" where
  "wire_serial n s \<longleftrightarrow>
     list_all is_ascii s \<and> length s \<le> n \<and>
     (s = [] \<or> hd s \<noteq> CHR 0x00 \<and> last s \<noteq> CHR 0x00)"

lemma strip_nul_padded:
  assumes "wire_serial n s"
  shows "strip_nul (decode_ignore (map byte_of_char s @ replicate k 0)) = s"
proof -
  have "decode_ignore (map byte_of_char s @ replicate k 0) = s @ replicate k (CHR 0x00)"
    using assms by (simp add: wire_serial_def decode_ignore_encode decode_ignore_zeros)
  then show ?thesis
    using assms unfolding strip_nul_def wire_serial_def
    by (simp only:) (rule strip_by_padded, auto simp: list_all_iff)
qed

lemma decode_rstrip_zero_padded:
  assumes "wire_serial n s"
  shows "decode_replace (rstrip_zero (map byte_of_char s @ replicate k 0)) = s"
proof -
  have "rstrip_zero (map byte_of_char s @ replicate k 0) = rstrip_zero (map byte_of_char s)"
    unfolding rstrip_zero_def by (rule rstrip_by_append_all) (simp add: list_all_iff)
  also have "\<dots> = map byte_of_char s"
  proof (cases s)
    case (Cons c cs)
    with assms have "last s \<noteq> CHR 0x00" by (simp add: wire_serial_def)
    with Cons show ?thesis
      unfolding rstrip_zero_def by (intro rstrip_by_last) (auto simp: last_map)
  qed (simp add: rstrip_zero_def)
  finally show ?thesis
    using assms by (simp add: wire_serial_def decode_replace_encode)
qed

text \<open>Case mapping, character classes, \<open>split\<close> and \<open>join\<close>.\<close>

definition lower_char :: "char \<Rightarrow> char" where
  "lower_char c = (let n = of_char c :: nat in if 65 \<le> n \<and> n \<le> 90 then char_of (n + 32) else c)"

definition upper_char :: "char \<Rightarrow> char" where
  "upper_char c = (let n = of_char c :: nat in if 97 \<le> n \<and> n \<le> 122 then char_of (n - 32) else c)"

definition py_lower :: "string \<Rightarrow> string" where
  "py_lower = map lower_char"

definition py_upper :: "string \<Rightarrow> string" where
  "py_upper = map upper_char"

definition is_digit :: "char \<Rightarrow> bool" where
  "is_digit c \<longleftrightarrow> (let n = of_char c :: nat in 48 \<le> n \<and> n \<le> 57)"

definition is_alnum :: "char \<Rightarrow> bool" where
  "is_alnum c \<longleftrightarrow>
     (let n = of_char c :: nat
      in (48 \<le> n \<and> n \<le> 57) \<or> (65 \<le> n \<and> n \<le> 90) \<or> (97 \<le> n \<and> n \<le> 122))"

definition ascii_letter :: "char \<Rightarrow> bool" where
  "ascii_letter c \<longleftrightarrow> (let n = of_char c :: nat in (65 \<le> n \<and> n \<le> 90) \<or> (97 \<le> n \<and> n \<le> 122))"

fun split_on :: "char \<Rightarrow> string \<Rightarrow> string list" where
  "split_on sep [] = [[]]"
| "split_on sep (c # cs) =
     (if c = sep then [] # split_on sep cs
      else case split_on sep cs of [] \<Rightarrow> [[c]] | w # ws \<Rightarrow> (c # w) # ws)"

fun join_with :: "string \<Rightarrow> string list \<Rightarrow> string" where
  "join_with sep [] = []"
| "join_with sep [w] = w"
| "join_with sep (w # v # ws) = w @ sep @ join_with sep (v # ws)"

lemma split_on_nonempty [simp]: "split_on sep s \<noteq> []"
  by (cases s) (auto split: list.splits)

lemma split_on_no_sep: "sep \<notin> set w \<Longrightarrow> split_on sep w = [w]"
  by (induction w) auto

lemma split_on_append: "sep \<notin> set w \<Longrightarrow> split_on sep (w @ sep # rest) = w # split_on sep rest"
  by (induction w) auto

lemma split_join:
  assumes "ws \<noteq> []" "\<forall>w\<in>set ws. sep \<notin> set w"
  shows "split_on sep (join_with [sep] ws) = ws"
  using assms
proof (induction ws rule: induct_list012)
  case (3 w v ws)
  then show ?case by (simp add: split_on_append)
qed (auto simp: split_on_no_sep)

lemma split_on_pieces: "w \<in> set (split_on sep s) \<Longrightarrow> sep \<notin> set w"
  by (induction s arbitrary: w) (auto split: if_splits list.splits)

text \<open>Decimal text: \<open>str(n)\<close> and \<open>int(s)\<close>; \<open>None\<close> is \<open>ValueError\<close>.\<close>

definition digit_char :: "nat \<Rightarrow> char" where
  "digit_char d = char_of (48 + d)"

definition digit_val :: "char \<Rightarrow> nat" where
  "digit_val c = of_char c - 48"

fun str_of_nat :: "nat \<Rightarrow> string" where
  "str_of_nat n = (if n < 10 then [digit_char n] else str_of_nat (n div 10) @ [digit_char (n mod 10)])"

declare str_of_nat.simps [simp del]

definition str_of_int :: "int \<Rightarrow> string" where
  "str_of_int n = (if n < 0 then CHR ''-'' # str_of_nat (nat (- n)) else str_of_nat (nat n))"

fun int_digits :: "nat \<Rightarrow> bool \<Rightarrow> string \<Rightarrow> nat option" where
  "int_digits acc ok [] = (if ok then Some acc else None)"
| "int_digits acc ok (c # cs) =
     (if is_digit c then int_digits (10 * acc + digit_val c) True cs
      else if c = CHR ''_'' \<and> ok then int_digits acc False cs
      else None)"

definition py_int_of_str :: "string \<Rightarrow> int option" where
  "py_int_of_str s =
     (case py_strip s of
        [] \<Rightarrow> None
      | c # cs \<Rightarrow>
          if c = CHR ''-'' then map_option (\<lambda>n. - int n) (int_digits 0 False cs)
          else if c = CHR ''+'' then map_option int (int_digits 0 False cs)
          else map_option int (int_digits 0 False (c # cs)))"

lemma digit_char_props:
  assumes "d < 10"
  shows "of_char (digit_char d) = 48 + d" "is_digit (digit_char d)" "digit_val (digit_char d) = d"
    "is_ascii (digit_char d)" "\<not> py_space (digit_char d)"
proof -
  show code: "of_char (digit_char d) = 48 + d"
    using assms by (simp add: digit_char_def of_char_of)
  show "is_digit (digit_char d)" "digit_val (digit_char d) = d" "is_ascii (digit_char d)"
    "\<not> py_space (digit_char d)"
    using assms code
    by (simp_all add: is_digit_def digit_val_def is_ascii_def py_space_def Let_def)
qed

lemma str_of_nat_nonempty [simp]: "str_of_nat n \<noteq> []"
  by (subst str_of_nat.simps) simp

lemma str_of_nat_digits: "\<forall>c\<in>set (str_of_nat n). is_digit c"
proof (induction n rule: str_of_nat.induct)
  case (1 n)
  then show ?case
    by (subst str_of_nat.simps) (auto simp: digit_char_props)
qed

lemma int_digits_append:
  "list_all is_digit xs \<Longrightarrow> xs \<noteq> [] \<or> ok \<Longrightarrow>
   int_digits acc ok (xs @ ys) = int_digits (fold (\<lambda>c a. 10 * a + digit_val c) xs acc) True ys"
proof (induction xs arbitrary: acc ok)
  case (Cons x xs)
  then show ?case using Cons.IH [of True "10 * acc + digit_val x"] by simp
qed auto

lemma str_of_nat_value: "fold (\<lambda>c a. 10 * a + digit_val c) (str_of_nat n) 0 = n"
proof (induction n rule: str_of_nat.induct)
  case (1 n)
  then show ?case
    by (subst str_of_nat.simps) (auto simp: digit_char_props)
qed

lemma int_digits_str_of_nat: "int_digits 0 False (str_of_nat n) = Some n"
  using int_digits_append [of "str_of_nat n" False 0 "[]"] str_of_nat_digits [of n]
  by (simp add: str_of_nat_value list_all_iff)

lemma is_digit_not_space: "is_digit c \<Longrightarrow> \<not> py_space c"
  by (auto simp: is_digit_def py_space_def Let_def)

lemma py_strip_id: "s \<noteq> [] \<Longrightarrow> \<not> py_space (hd s) \<Longrightarrow> \<not> py_space (last s) \<Longrightarrow> py_strip s = s"
  using strip_by_padded [of py_space "[]" s] by (simp add: py_strip_def)

lemma py_strip_str_of_nat: "py_strip (str_of_nat n) = str_of_nat n"
  using str_of_nat_digits [of n] by (intro py_strip_id) (auto simp: is_digit_not_space)

lemma py_strip_neg: "py_strip (CHR ''-'' # str_of_nat n) = CHR ''-'' # str_of_nat n"
proof (rule py_strip_id)
  show "\<not> py_space (last (CHR ''-'' # str_of_nat n))"
    using str_of_nat_digits [of n] last_in_set [OF str_of_nat_nonempty [of n]]
    by (auto simp: is_digit_not_space)
qed (simp_all add: py_space_def)

lemma py_int_str_of_int: "py_int_of_str (str_of_int n) = Some n"
proof (cases "n < 0")
  case True
  then show ?thesis
    by (simp add: str_of_int_def py_int_of_str_def py_strip_neg int_digits_str_of_nat)
next
  case False
  obtain c cs where cs: "str_of_nat (nat n) = c # cs"
    by (cases "str_of_nat (nat n)") auto
  have "is_digit c" using str_of_nat_digits [of "nat n"] cs by simp
  then have "c \<noteq> CHR ''-''" "c \<noteq> CHR ''+''" by (auto simp: is_digit_def)
  then show ?thesis
    using False cs int_digits_str_of_nat [of "nat n"] py_strip_str_of_nat [of "nat n"]
    by (simp add: str_of_int_def py_int_of_str_def)
qed

lemma str_of_int_inj: "str_of_int m = str_of_int n \<Longrightarrow> m = n"
  by (metis option.inject py_int_str_of_int)

lemma str_of_int_no_slash: "CHR ''/'' \<notin> set (str_of_int n)"
  using str_of_nat_digits [of "nat n"] str_of_nat_digits [of "nat (- n)"]
  by (auto simp: str_of_int_def is_digit_def)

text \<open>\<open>bytes.hex()\<close>: two lower-case hexadecimal digits per byte.\<close>

definition hex_char :: "int \<Rightarrow> char" where
  "hex_char d = (if d < 10 then char_of (nat (48 + d)) else char_of (nat (87 + d)))"

definition py_hex :: "bytes \<Rightarrow> string" where
  "py_hex b = concat (map (\<lambda>x. [hex_char (uint x div 16), hex_char (uint x mod 16)]) b)"

section \<open>Dictionaries with insertion order\<close>

text \<open>
  A Python dict is an association list with distinct keys: \<open>AList.update\<close> overwrites in
  place and appends a new key at the end, \<open>AList.delete\<close> is \<open>pop(key, None)\<close>, and
  iteration goes through the list.
\<close>

type_synonym ('k, 'v) dict = "('k \<times> 'v) list"

abbreviation dict_get :: "('k, 'v) dict \<Rightarrow> 'k \<Rightarrow> 'v option" where
  "dict_get \<equiv> map_of"

abbreviation dict_set :: "'k \<Rightarrow> 'v \<Rightarrow> ('k, 'v) dict \<Rightarrow> ('k, 'v) dict" where
  "dict_set \<equiv> AList.update"

abbreviation dict_pop :: "'k \<Rightarrow> ('k, 'v) dict \<Rightarrow> ('k, 'v) dict" where
  "dict_pop \<equiv> AList.delete"

definition dict_wf :: "('k, 'v) dict \<Rightarrow> bool" where
  "dict_wf d \<longleftrightarrow> distinct (map fst d)"

lemma dict_wf_Nil [simp]: "dict_wf []"
  by (simp add: dict_wf_def)

lemma dict_wf_set [simp]: "dict_wf d \<Longrightarrow> dict_wf (dict_set k v d)"
  by (simp add: dict_wf_def distinct_update)

lemma dict_wf_pop [simp]: "dict_wf d \<Longrightarrow> dict_wf (dict_pop k d)"
  by (simp add: dict_wf_def distinct_delete)

lemma dict_get_set [simp]: "dict_get (dict_set k v d) = (dict_get d)(k \<mapsto> v)"
  by (rule update_conv')

lemma dict_set_fresh: "dict_get d k = None \<Longrightarrow> dict_set k v d = d @ [(k, v)]"
  by (induction d) (auto split: if_splits)

lemma dict_get_pop [simp]: "dict_get (dict_pop k d) = (dict_get d)(k := None)"
  by (rule delete_conv')

text \<open>\<open>dict.update(other)\<close>: every pair of \<open>other\<close> in order.\<close>

definition dict_update :: "('k, 'v) dict \<Rightarrow> ('k, 'v) dict \<Rightarrow> ('k, 'v) dict" where
  "dict_update d e = fold (\<lambda>(k, v). dict_set k v) e d"

lemma dict_get_update: "dict_get (dict_update d e) = dict_get d ++ map_of (rev e)"
proof (induction e arbitrary: d)
  case (Cons kv e)
  then show ?case
    by (cases kv) (auto simp: dict_update_def fun_eq_iff map_add_def split: option.splits)
qed (simp add: dict_update_def)

lemma map_of_rev_keys: "distinct (map fst e) \<Longrightarrow> map_of (rev e) = map_of e"
proof (induction e)
  case (Cons kv e)
  then have "map_of e (fst kv) = None" by (simp add: map_of_eq_None_iff)
  with Cons show ?case by (cases kv) (auto simp: map_add_def fun_eq_iff split: option.splits)
qed simp

lemma dict_wf_update: "dict_wf d \<Longrightarrow> dict_wf (dict_update d e)"
  by (induction e arbitrary: d) (auto simp: dict_update_def)

section \<open>Interfaces\<close>

text \<open>
  A wire codec: an encoder that may raise, a decoder that answers \<open>None\<close> for malformed
  input, and the values the encoding keeps. The client's facts are what every user of a codec
  needs: valid values do encode, and two valid values never share a packet.
\<close>

locale wire_codec =
  fixes enc :: "'a \<Rightarrow> bytes py"
    and dec :: "bytes \<Rightarrow> 'a option"
    and valid :: "'a \<Rightarrow> bool"
  assumes enc_total: "valid x \<Longrightarrow> \<exists>b. enc x = Inr b"
    and dec_enc: "valid x \<Longrightarrow> enc x = Inr b \<Longrightarrow> dec b = Some x"
begin

lemma enc_no_error: "valid x \<Longrightarrow> enc x \<noteq> Inl e"
  using enc_total [of x] by auto

lemma enc_inj: "valid x \<Longrightarrow> valid y \<Longrightarrow> enc x = enc y \<Longrightarrow> x = y"
  by (metis dec_enc enc_total option.inject)

lemma roundtrip: "valid x \<Longrightarrow> \<exists>b. enc x = Inr b \<and> dec b = Some x"
  using enc_total dec_enc by blast

end

text \<open>
  A machine with deterministic handlers and an invariant every handler keeps: the invariant
  then holds along every sequence of events, in whatever order they arrive.
\<close>

locale step_machine =
  fixes step :: "'s \<Rightarrow> 'e \<Rightarrow> 's"
    and inv :: "'s \<Rightarrow> bool"
  assumes step_inv: "inv s \<Longrightarrow> inv (step s e)"
begin

lemma run_inv: "inv s \<Longrightarrow> inv (foldl step s es)"
  by (induction es arbitrary: s) (auto intro: step_inv)

end

text \<open>
  A last-value cache that suppresses repeated publications: \<open>fresh\<close> asks whether a value is
  new for its key, \<open>commit\<close> records it, \<open>reset\<close> forgets everything; \<open>same\<close> is the equality of
  the language on the values.
\<close>

locale last_value_cache =
  fixes fresh :: "'c \<Rightarrow> 'k \<Rightarrow> 'v \<Rightarrow> bool"
    and commit :: "'c \<Rightarrow> 'k \<Rightarrow> 'v \<Rightarrow> 'c"
    and reset :: "'c \<Rightarrow> 'c"
    and same :: "'v \<Rightarrow> 'v \<Rightarrow> bool"
  assumes fresh_commit: "fresh (commit c k v) k' v' \<longleftrightarrow> (if k' = k then \<not> same v v' else fresh c k' v')"
    and fresh_reset: "fresh (reset c) k v"
begin

lemma duplicate_suppressed: "same v v' \<Longrightarrow> \<not> fresh (commit c k v) k v'"
  by (simp add: fresh_commit)

lemma change_published: "\<not> same v v' \<Longrightarrow> fresh (commit c k v) k v'"
  by (simp add: fresh_commit)

lemma other_key_unaffected: "k' \<noteq> k \<Longrightarrow> fresh (commit c k v) k' v' = fresh c k' v'"
  by (simp add: fresh_commit)

end

end
