(* ===== verification/PacketBuilder.thy ===== *)
theory PacketBuilder
  imports Prelude
begin

text \<open>
  \<open>grobro/grobro/builder.py\<close>: the scrambling of packets with the repeating XOR mask, the
  CRC trailer and the two configuration packets. The CRC itself is the third-party package
  \<open>crc\<close>: it is the parameter \<open>crc16\<close> of every definition that uses it. What is relied on
  is that it fits 16 bits (\<open>crc_ok\<close>).
\<close>

section \<open>Definitions\<close>

definition scramble_mask :: bytes where
  "scramble_mask = map byte_of_char ''Growatt''"

definition scramble_mask_len :: nat where
  "scramble_mask_len = length scramble_mask"

definition config_header :: bytes where
  "config_header = [0, 1, 0, 7]"

definition config_read_type :: int where
  "config_read_type = 0x0119"

definition config_write_type :: int where
  "config_write_type = 0x0118"

text \<open>The loop over \<open>out[8:]\<close>, with the running \<open>mask_index\<close> that wraps at the mask's length.\<close>

fun scramble_loop :: "nat \<Rightarrow> bytes \<Rightarrow> bytes" where
  "scramble_loop mask_index [] = []"
| "scramble_loop mask_index (x # xs) =
     xor x (scramble_mask ! mask_index) #
     scramble_loop (let m = mask_index + 1 in if m = scramble_mask_len then 0 else m) xs"

definition scramble :: "bytes \<Rightarrow> bytes" where
  "scramble pkt = take 8 pkt @ scramble_loop 0 (drop 8 pkt)"

definition append_crc :: "(bytes \<Rightarrow> int) \<Rightarrow> bytes \<Rightarrow> bytes py" where
  "append_crc crc16 pkt = bindE (pack_H (crc16 pkt)) (\<lambda>csum. Inr (pkt @ csum))"

definition config_device_field :: "string \<Rightarrow> bytes py" where
  "config_device_field device_id =
     bindE (encode_ascii device_id) (\<lambda>encoded.
       if length encoded > 16 then Inl ValueError
       else Inr (encoded @ replicate (16 - length encoded) 0))"

definition finalize_config_packet :: "(bytes \<Rightarrow> int) \<Rightarrow> int \<Rightarrow> string \<Rightarrow> bytes \<Rightarrow> bytes py" where
  "finalize_config_packet crc16 message_type device_id payload =
     (let message_length = int (length payload) + 18 in
      if message_length > 0xFFFF then Inl ValueError
      else bindE (pack_H message_length) (\<lambda>ml.
           bindE (pack_H message_type) (\<lambda>mt.
           bindE (config_device_field device_id) (\<lambda>dev.
             append_crc crc16 (scramble (config_header @ ml @ mt @ dev @ payload))))))"

definition build_config_read_packet :: "(bytes \<Rightarrow> int) \<Rightarrow> string \<Rightarrow> int \<Rightarrow> bytes py" where
  "build_config_read_packet crc16 device_id register_no =
     (if \<not> (0 \<le> register_no \<and> register_no \<le> 0xFFFF) then Inl ValueError
      else bindE (pack_H 1) (\<lambda>one. bindE (pack_H register_no) (\<lambda>reg.
           finalize_config_packet crc16 config_read_type device_id (replicate 14 0 @ one @ reg))))"

definition config_write_tlv :: "int \<Rightarrow> bytes \<Rightarrow> bytes py" where
  "config_write_tlv register_no value_bytes =
     bindE (pack_H 1) (\<lambda>one.
     bindE (pack_H (int (length value_bytes) + 4)) (\<lambda>tlv_len.
     bindE (pack_H register_no) (\<lambda>reg.
     bindE (pack_H (int (length value_bytes))) (\<lambda>value_len.
       Inr (one @ tlv_len @ reg @ value_len @ value_bytes)))))"

definition build_config_write_packet ::
    "(bytes \<Rightarrow> int) \<Rightarrow> string \<Rightarrow> int \<Rightarrow> string \<Rightarrow> bytes py" where
  "build_config_write_packet crc16 device_id register_no value =
     (if \<not> (0 \<le> register_no \<and> register_no \<le> 0xFFFF) then Inl ValueError
      else bindE (encode_ascii value) (\<lambda>value_bytes.
        if int (length value_bytes) > 0xFFFF - 40 then Inl ValueError
        else bindE (config_write_tlv register_no value_bytes) (\<lambda>tlv.
          finalize_config_packet crc16 config_write_type device_id (replicate 14 0 @ tlv))))"

section \<open>Scrambling\<close>

lemma scramble_mask_len [simp]: "scramble_mask_len = 7" "length scramble_mask = 7"
  by (simp_all add: scramble_mask_len_def scramble_mask_def)

lemma length_scramble_loop [simp]: "length (scramble_loop m xs) = length xs"
  by (induction m xs rule: scramble_loop.induct) simp_all

lemma length_scramble [simp]: "length (scramble pkt) = length pkt"
  by (simp add: scramble_def)

lemma scramble_loop_nth:
  "m < 7 \<Longrightarrow> i < length xs \<Longrightarrow>
   scramble_loop m xs ! i = xor (xs ! i) (scramble_mask ! ((m + i) mod 7))"
proof (induction m xs arbitrary: i rule: scramble_loop.induct)
  case (2 m x xs)
  let ?m = "if m = 6 then 0 else Suc m"
  have next_m: "(?m + j) mod 7 = (m + Suc j) mod 7" for j
    by (auto simp: mod_simps)
  show ?case
  proof (cases i)
    case 0
    then show ?thesis using \<open>m < 7\<close> by simp
  next
    case (Suc j)
    have "scramble_loop ?m xs ! j = xor (xs ! j) (scramble_mask ! ((?m + j) mod 7))"
      using "2.IH" [of j] "2.prems" Suc by (auto simp: Let_def)
    then have "scramble_loop ?m xs ! j = xor (xs ! j) (scramble_mask ! ((m + Suc j) mod 7))"
      by (simp only: next_m)
    with Suc show ?thesis by (simp add: Let_def)
  qed
qed simp

text \<open>
  The scrambled packet in closed form: the first eight bytes are the packet's own, the byte at
  index \<open>i\<close> of the rest is masked with the letter number \<open>(i - 8) mod 7\<close>.
\<close>

lemma scramble_nth:
  "i < length pkt \<Longrightarrow>
   scramble pkt ! i = (if i < 8 then pkt ! i else xor (pkt ! i) (scramble_mask ! ((i - 8) mod 7)))"
  by (auto simp: scramble_def nth_append scramble_loop_nth min_def)

lemma scramble_scramble [simp]: "scramble (scramble pkt) = pkt"
  by (rule nth_equalityI) (simp_all add: scramble_nth xor.assoc)

lemma take_8_scramble: "take 8 (scramble pkt) = take 8 pkt"
  by (cases "8 \<le> length pkt") (simp_all add: scramble_def)

lemma scramble_append_tail: "8 \<le> length pkt \<Longrightarrow> take (length pkt) (scramble (pkt @ t)) = scramble pkt"
  by (rule nth_equalityI) (auto simp: scramble_nth nth_append)

section \<open>Configuration packets\<close>

definition crc_ok :: "(bytes \<Rightarrow> int) \<Rightarrow> bool" where
  "crc_ok crc16 \<longleftrightarrow> (\<forall>b. 0 \<le> crc16 b \<and> crc16 b \<le> 65535)"

lemma append_crc_ok: "crc_ok crc16 \<Longrightarrow> append_crc crc16 pkt = Inr (pkt @ be16 (crc16 pkt))"
  by (simp add: append_crc_def crc_ok_def pack_H_def)

lemma append_crc_length: "append_crc crc16 pkt = Inr b \<Longrightarrow> length b = length pkt + 2"
  by (auto simp: append_crc_def bindE_Inr_iff pack_H_Inr_iff)

lemma config_device_field_Inr_iff:
  "config_device_field d = Inr b \<longleftrightarrow>
   list_all is_ascii d \<and> length d \<le> 16 \<and> b = map byte_of_char d @ replicate (16 - length d) 0"
  by (auto simp: config_device_field_def bindE_Inr_iff encode_ascii_Inr_iff)

text \<open>The plain bytes of a configuration packet, before scrambling.\<close>

definition config_raw :: "int \<Rightarrow> string \<Rightarrow> bytes \<Rightarrow> bytes" where
  "config_raw message_type device_id payload =
     config_header @ be16 (int (length payload) + 18) @ be16 message_type @
     (map byte_of_char device_id @ replicate (16 - length device_id) 0) @ payload"

lemma finalize_config_packet_Inr:
  assumes "crc_ok crc16" "list_all is_ascii d" "length d \<le> 16"
    and "int (length payload) + 18 \<le> 65535" "0 \<le> mt" "mt \<le> 65535"
  shows "finalize_config_packet crc16 mt d payload =
    Inr (scramble (config_raw mt d payload) @ be16 (crc16 (scramble (config_raw mt d payload))))"
proof -
  have "config_device_field d = Inr (map byte_of_char d @ replicate (16 - length d) 0)"
    using assms by (simp add: config_device_field_Inr_iff)
  then show ?thesis
    using assms by (simp add: finalize_config_packet_def config_raw_def append_crc_ok pack_H_def Let_def)
qed

lemma length_config_raw: "length d \<le> 16 \<Longrightarrow> length (config_raw mt d p) = 24 + length p"
  by (simp add: config_raw_def config_header_def)

text \<open>
  Unscrambling a finished packet gives back its plain bytes; the trailer that follows is
  scrambled noise, which every parser cuts off.
\<close>

lemma unscramble_config_packet:
  assumes "length d \<le> 16"
  shows "\<exists>t. length t = 2 \<and>
    scramble (scramble (config_raw mt d p) @ be16 c) = config_raw mt d p @ t"
proof -
  let ?s = "scramble (config_raw mt d p)"
  let ?u = "scramble (?s @ be16 c)"
  have len: "8 \<le> length ?s" using length_config_raw [OF assms, of mt p] by simp
  have "take (length ?s) ?u = scramble ?s" using len by (rule scramble_append_tail)
  then have "?u = config_raw mt d p @ drop (length ?s) ?u"
    by (metis append_take_drop_id scramble_scramble)
  moreover have "length (drop (length ?s) ?u) = 2" by simp
  ultimately show ?thesis by blast
qed

text \<open>The bytes of a write packet, and when building one succeeds.\<close>

definition config_write_payload :: "int \<Rightarrow> bytes \<Rightarrow> bytes" where
  "config_write_payload reg v =
     replicate 14 0 @ be16 1 @ be16 (int (length v) + 4) @ be16 reg @ be16 (int (length v)) @ v"

lemma build_config_write_packet_Inr:
  assumes "crc_ok crc16" "list_all is_ascii d" "length d \<le> 16" "0 \<le> reg" "reg \<le> 65535"
    and "list_all is_ascii v" "length v \<le> 65495"
  shows "build_config_write_packet crc16 d reg v =
    (let raw = config_raw config_write_type d (config_write_payload reg (map byte_of_char v))
     in Inr (scramble raw @ be16 (crc16 (scramble raw))))"
  using assms
  by (simp add: build_config_write_packet_def encode_ascii_def config_write_tlv_def pack_H_def
      finalize_config_packet_Inr config_write_payload_def config_write_type_def Let_def)

lemma build_config_write_packet_error:
  assumes "\<not> (0 \<le> reg \<and> reg \<le> 65535) \<or> length v > 65495 \<or> \<not> list_all is_ascii v
    \<or> length d > 16 \<or> \<not> list_all is_ascii d"
  shows "\<exists>e \<in> {ValueError, UnicodeError}. build_config_write_packet crc16 d reg v = Inl e"
  using assms
  by (auto simp: build_config_write_packet_def encode_ascii_def config_write_tlv_def pack_H_def
      finalize_config_packet_def config_device_field_def config_write_type_def Let_def)

lemma build_config_read_packet_Inr:
  assumes "crc_ok crc16" "list_all is_ascii d" "length d \<le> 16" "0 \<le> reg" "reg \<le> 65535"
  shows "build_config_read_packet crc16 d reg =
    (let raw = config_raw config_read_type d (replicate 14 0 @ be16 1 @ be16 reg)
     in Inr (scramble raw @ be16 (crc16 (scramble raw))))"
  using assms
  by (simp add: build_config_read_packet_def pack_H_def finalize_config_packet_Inr
      config_read_type_def Let_def)

text \<open>The over-long check of \<open>finalize_config_packet\<close> can never fire behind the length check.\<close>

lemma config_write_fits: "length v \<le> 65495 \<Longrightarrow> int (length (config_write_payload reg v)) + 18 \<le> 65535"
  by (simp add: config_write_payload_def)

section \<open>Properties\<close>

text \<open>Scrambling is its own inverse, keeps the length and the eight header bytes, and masks the
  byte at position \<open>i\<close> of the rest with letter \<open>(i - 8) mod 7\<close> of the mask.\<close>

theorem scramble_involution:
  "scramble (scramble pkt) = pkt \<and> length (scramble pkt) = length pkt \<and>
   take 8 (scramble pkt) = take 8 pkt \<and>
   drop 8 (scramble pkt) =
     map (\<lambda>i. xor (pkt ! (i + 8)) (scramble_mask ! (i mod 7))) [0..<length pkt - 8]"
proof -
  have "drop 8 (scramble pkt) =
      map (\<lambda>i. xor (pkt ! (i + 8)) (scramble_mask ! (i mod 7))) [0..<length pkt - 8]"
    by (rule nth_equalityI) (auto simp: scramble_nth add.commute)
  then show ?thesis by (simp add: take_8_scramble)
qed

text \<open>Building a configuration write succeeds exactly for a 16-bit register, an ASCII value of
  at most 65495 bytes and an ASCII serial of at most 16 bytes; every other request is refused
  with \<open>ValueError\<close> or \<open>UnicodeError\<close> and no packet is produced.\<close>

theorem config_write_total:
  assumes "crc_ok crc16"
  shows "(\<exists>b. build_config_write_packet crc16 d reg v = Inr b) \<longleftrightarrow>
    0 \<le> reg \<and> reg \<le> 65535 \<and> length v \<le> 65495 \<and> list_all is_ascii v \<and>
    length d \<le> 16 \<and> list_all is_ascii d"
proof -
  consider (ok) "0 \<le> reg \<and> reg \<le> 65535 \<and> length v \<le> 65495 \<and> list_all is_ascii v \<and>
      length d \<le> 16 \<and> list_all is_ascii d"
    | (bad) "\<not> (0 \<le> reg \<and> reg \<le> 65535) \<or> length v > 65495 \<or> \<not> list_all is_ascii v \<or>
        length d > 16 \<or> \<not> list_all is_ascii d"
    by linarith
  then show ?thesis
  proof cases
    case ok
    then show ?thesis using assms by (simp add: build_config_write_packet_Inr Let_def)
  next
    case bad
    then obtain e where "build_config_write_packet crc16 d reg v = Inl e"
      using build_config_write_packet_error by blast
    then show ?thesis using bad by auto
  qed
qed

theorem config_write_total_witness:
  "(\<exists>b. build_config_write_packet (\<lambda>b. 0) ''QMN000'' 31 ''x'' = Inr b) \<and>
   \<not> (\<exists>b. build_config_write_packet (\<lambda>b. 0) ''QMN000'' 65536 ''x'' = Inr b)"
  using config_write_total [of "\<lambda>b. 0" "''QMN000''" 31 "''x''"]
    config_write_total [of "\<lambda>b. 0" "''QMN000''" 65536 "''x''"]
  by (simp add: crc_ok_def is_ascii_def)

end
