(* ===== verification/Registers.thy ===== *)
theory Registers
  imports Prelude
begin

text \<open>
  \<open>grobro/model/growatt_registers.py\<close>: the typed register definitions, the decoding of one
  register's raw bytes, and the adjustments the module makes to the register maps it loads.

  Python floats are IEEE doubles, which the library does not have. Every operation the program
  applies to a float is a field of the record \<open>float_ops\<close>, and the type of floats is the type
  parameter \<open>'f\<close>; integers stay exact integers, and an operation on two integers never goes
  through a float, as in Python. The register maps (the JSON files) are arguments.
\<close>

section \<open>Values\<close>

record 'f float_ops =
  fl_of_int :: "int \<Rightarrow> 'f"
  fl_mul :: "'f \<Rightarrow> 'f \<Rightarrow> 'f"
  fl_add :: "'f \<Rightarrow> 'f \<Rightarrow> 'f"
  fl_round3 :: "'f \<Rightarrow> 'f"
  fl_finite :: "'f \<Rightarrow> bool"
  fl_round_int :: "'f \<Rightarrow> int"
  fl_trunc :: "'f \<Rightarrow> int"
  fl_less :: "'f \<Rightarrow> 'f \<Rightarrow> bool"
  fl_eq :: "'f \<Rightarrow> 'f \<Rightarrow> bool"
  fl_str :: "'f \<Rightarrow> string"
  fl_minus_273_1 :: 'f

datatype 'f pynum = NInt int | NFloat 'f

datatype 'f pyval = VNone | VBool bool | VInt int | VFloat 'f | VStr string

fun val_of_num :: "'f pynum \<Rightarrow> 'f pyval" where
  "val_of_num (NInt n) = VInt n"
| "val_of_num (NFloat x) = VFloat x"

fun num_float :: "('f, 'x) float_ops_scheme \<Rightarrow> 'f pynum \<Rightarrow> 'f" where
  "num_float F (NInt n) = fl_of_int F n"
| "num_float F (NFloat x) = x"

text \<open>Mixed arithmetic: two integers stay integers, otherwise both are taken to floats.\<close>

fun num_mul :: "('f, 'x) float_ops_scheme \<Rightarrow> 'f pynum \<Rightarrow> 'f pynum \<Rightarrow> 'f pynum" where
  "num_mul F (NInt a) (NInt b) = NInt (a * b)"
| "num_mul F a b = NFloat (fl_mul F (num_float F a) (num_float F b))"

fun num_add :: "('f, 'x) float_ops_scheme \<Rightarrow> 'f pynum \<Rightarrow> 'f pynum \<Rightarrow> 'f pynum" where
  "num_add F (NInt a) (NInt b) = NInt (a + b)"
| "num_add F a b = NFloat (fl_add F (num_float F a) (num_float F b))"

fun num_round3 :: "('f, 'x) float_ops_scheme \<Rightarrow> 'f pynum \<Rightarrow> 'f pynum" where
  "num_round3 F (NInt n) = NInt n"
| "num_round3 F (NFloat x) = NFloat (fl_round3 F x)"

fun py_num :: "'f pyval \<Rightarrow> 'f pynum option" where
  "py_num (VBool b) = Some (NInt (if b then 1 else 0))"
| "py_num (VInt n) = Some (NInt n)"
| "py_num (VFloat x) = Some (NFloat x)"
| "py_num _ = None"

fun num_eq :: "('f, 'x) float_ops_scheme \<Rightarrow> 'f pynum \<Rightarrow> 'f pynum \<Rightarrow> bool" where
  "num_eq F (NInt a) (NInt b) = (a = b)"
| "num_eq F a b = fl_eq F (num_float F a) (num_float F b)"

fun num_less :: "('f, 'x) float_ops_scheme \<Rightarrow> 'f pynum \<Rightarrow> 'f pynum \<Rightarrow> bool" where
  "num_less F (NInt a) (NInt b) = (a < b)"
| "num_less F a b = fl_less F (num_float F a) (num_float F b)"

text \<open>Python's \<open>==\<close> on payload values.\<close>

definition py_eq :: "('f, 'x) float_ops_scheme \<Rightarrow> 'f pyval \<Rightarrow> 'f pyval \<Rightarrow> bool" where
  "py_eq F v w =
     (case (py_num v, py_num w) of
        (Some a, Some b) \<Rightarrow> num_eq F a b
      | (None, None) \<Rightarrow> v = w
      | _ \<Rightarrow> False)"

section \<open>Register definitions\<close>

datatype reg_data_type =
  DT_ENUM | DT_STRING | DT_FLOAT | DT_INT | DT_SIGNED_FLOAT | DT_SIGNED_INT | DT_TIME_HHMM

datatype reg_enum_type = INT_MAP | BITFIELD

record 'f float_options =
  fo_delta :: "'f pynum"
  fo_multiplier :: "'f pynum"

record enum_options =
  eo_type :: reg_enum_type
  eo_values :: "(int, string) dict"

record 'f register_data =
  rd_type :: reg_data_type
  rd_float_options :: "'f float_options option"
  rd_enum_options :: "enum_options option"
  rd_mult :: "'f pynum option"

record register_position =
  pos_register :: int
  pos_offset :: int
  pos_size :: int

record 'f growatt_register =
  gr_position :: register_position
  gr_data :: "'f register_data"

record ha_holding_register =
  hh_name :: string
  hh_publish :: bool
  hh_type :: string
  hh_min :: "int option"
  hh_max :: "int option"
  hh_step :: "int option"
  hh_state_class :: "string option"
  hh_device_class :: "string option"
  hh_unit :: "string option"
  hh_icon :: "string option"
  hh_options :: "(string, string) dict option"

record ha_input_register =
  hi_name :: string
  hi_publish :: bool
  hi_state_class :: "string option"
  hi_device_class :: "string option"
  hi_unit :: "string option"
  hi_icon :: "string option"
  hi_precision :: "int option"

record 'f input_register =
  ir_growatt :: "'f growatt_register"
  ir_ha :: ha_input_register

record 'f holding_register =
  hr_growatt :: "'f growatt_register option"
  hr_ha :: ha_holding_register

record 'f config_register =
  cr_register :: int
  cr_data :: "'f register_data"
  cr_ha :: ha_holding_register

record 'f register_map =
  input_registers :: "(string, 'f input_register) dict"
  holding_registers :: "(string, 'f holding_register) dict"
  config_registers :: "(string, 'f config_register) dict"

record 'f holding_value =
  hv_name :: string
  hv_value :: "'f pyval"
  hv_register :: ha_holding_register

record 'f holding_input =
  hin_device :: string
  hin_payload :: "'f holding_value list"

record 'f input_state =
  ist_device :: string
  ist_payload :: "(string, 'f pyval) dict"

section \<open>Decoding one register\<close>

definition unsigned_be :: "bytes \<Rightarrow> int" where
  "unsigned_be b = foldl (\<lambda>acc x. 256 * acc + uint x) 0 b"

definition signed_be :: "bytes \<Rightarrow> int" where
  "signed_be b =
     (let v = unsigned_be b; m = 2 ^ (8 * length b) in if 2 * v < m then v else v - m)"

definition is_signed_type :: "reg_data_type \<Rightarrow> bool" where
  "is_signed_type dt \<longleftrightarrow> dt = DT_SIGNED_INT \<or> dt = DT_SIGNED_FLOAT"

definition is_float_type :: "reg_data_type \<Rightarrow> bool" where
  "is_float_type dt \<longleftrightarrow> dt = DT_FLOAT \<or> dt = DT_SIGNED_FLOAT"

definition is_int_type :: "reg_data_type \<Rightarrow> bool" where
  "is_int_type dt \<longleftrightarrow> dt = DT_INT \<or> dt = DT_SIGNED_INT"

definition unpack_register :: "reg_data_type \<Rightarrow> bytes \<Rightarrow> int option" where
  "unpack_register dt raw =
     (if length raw \<in> {1, 2, 4}
      then Some (if is_signed_type dt then signed_be raw else unsigned_be raw)
      else None)"

definition two_digits :: "int \<Rightarrow> string" where
  "two_digits n = (if 0 \<le> n \<and> n < 10 then CHR ''0'' # str_of_int n else str_of_int n)"

definition scale_register ::
    "('f, 'x) float_ops_scheme \<Rightarrow> 'f register_data \<Rightarrow> int \<Rightarrow> 'f pynum" where
  "scale_register F rd value =
     num_round3 F
       (case rd_mult rd of
          Some m \<Rightarrow> num_mul F (NInt value) m
        | None \<Rightarrow>
            (case rd_float_options rd of
               Some fo \<Rightarrow> num_add F (num_mul F (NInt value) (fo_multiplier fo)) (fo_delta fo)
             | None \<Rightarrow> NInt value))"

definition parse_register ::
    "('f, 'x) float_ops_scheme \<Rightarrow> 'f register_data \<Rightarrow> bytes option \<Rightarrow> 'f pyval option" where
  "parse_register F rd data_raw =
     (case data_raw of
        None \<Rightarrow> None
      | Some [] \<Rightarrow> None
      | Some raw \<Rightarrow>
          (let dt = rd_type rd in
           if dt = DT_STRING then Some (VStr (strip_nul (decode_ignore raw)))
           else (case unpack_register dt raw of
               None \<Rightarrow> None
             | Some value \<Rightarrow>
                 if is_float_type dt then Some (val_of_num (scale_register F rd value))
                 else if dt = DT_TIME_HHMM then
                   (let hour = (value div 256) mod 256; minute = value mod 256 in
                    if hour > 23 \<or> minute > 59 then None
                    else Some (VStr (two_digits hour @ '':'' @ two_digits minute)))
                 else if is_int_type dt then Some (VInt value)
                 else if dt = DT_ENUM then
                   (case rd_enum_options rd of
                      None \<Rightarrow> None
                    | Some opts \<Rightarrow>
                        (case eo_type opts of
                           BITFIELD \<Rightarrow> None
                         | INT_MAP \<Rightarrow>
                             Some (VStr (case dict_get (eo_values opts) value of
                               Some s \<Rightarrow> s | None \<Rightarrow> ''unknown''))))
                 else None)))"

section \<open>The runtime register maps\<close>

text \<open>
  The module-level code after loading: NOAH gets NEXA's state-of-health register when it has
  none of its own, as a whole percentage; \<open>mqtt_ip\<close> is hidden for NOAH, NEO and NEXA; three
  experimental NOAH inputs are removed.
\<close>

definition noah_with_soh :: "'f register_map \<Rightarrow> 'f register_map \<Rightarrow> 'f register_map py" where
  "noah_with_soh noah nexa =
     (case dict_get (input_registers noah) ''batterySoh'' of
        Some _ \<Rightarrow> Inr noah
      | None \<Rightarrow>
          (case dict_get (input_registers nexa) ''batterySoh'' of
             None \<Rightarrow> Inl KeyError
           | Some r \<Rightarrow>
               Inr (noah\<lparr>input_registers := dict_set ''batterySoh'' r (input_registers noah)\<rparr>)))"

definition soh_as_int :: "'f input_register \<Rightarrow> 'f input_register" where
  "soh_as_int r =
     (let g = ir_growatt r;
          d = (gr_data g)\<lparr>rd_type := DT_INT, rd_float_options := None, rd_mult := None\<rparr>
      in r\<lparr>ir_growatt := g\<lparr>gr_data := d\<rparr>\<rparr>)"

definition noah_soh_int :: "'f register_map \<Rightarrow> 'f register_map" where
  "noah_soh_int noah =
     (case dict_get (input_registers noah) ''batterySoh'' of
        None \<Rightarrow> noah
      | Some r \<Rightarrow>
          noah\<lparr>input_registers := dict_set ''batterySoh'' (soh_as_int r) (input_registers noah)\<rparr>)"

definition hide_mqtt_ip :: "'f register_map \<Rightarrow> 'f register_map" where
  "hide_mqtt_ip m = m\<lparr>config_registers := dict_pop ''mqtt_ip'' (config_registers m)\<rparr>"

definition removed_noah_inputs :: "string list" where
  "removed_noah_inputs = [''pv1Temp'', ''pv2Temp'', ''systemTemp'']"

definition runtime_noah_map :: "'f register_map \<Rightarrow> 'f register_map \<Rightarrow> 'f register_map py" where
  "runtime_noah_map noah nexa =
     bindE (noah_with_soh noah nexa) (\<lambda>m.
       let m' = hide_mqtt_ip (noah_soh_int m)
       in Inr (m'\<lparr>input_registers := fold dict_pop removed_noah_inputs (input_registers m')\<rparr>))"

section \<open>Lemmas\<close>

lemma unsigned_be_append: "unsigned_be (b @ [x]) = 256 * unsigned_be b + uint x"
  by (simp add: unsigned_be_def)

lemma unsigned_be_bounds: "0 \<le> unsigned_be b \<and> unsigned_be b < 256 ^ length b"
proof (induction b rule: rev_induct)
  case (snoc x b)
  then show ?case
    using uint_byte_bounds [of x] by (simp add: unsigned_be_append)
qed (simp add: unsigned_be_def)

lemma unsigned_be_be16: "0 \<le> n \<Longrightarrow> n \<le> 65535 \<Longrightarrow> unsigned_be (be16 n) = n"
  using un16_be16 [of n] by (simp add: unsigned_be_def be16_def un16_def)

lemma signed_be_bounds:
  "- (2 ^ (8 * length b)) \<le> 2 * signed_be b \<and> 2 * signed_be b < 2 ^ (8 * length b)"
proof -
  have "unsigned_be b < 2 ^ (8 * length b)" "0 \<le> unsigned_be b"
    using unsigned_be_bounds [of b] by (simp_all add: power_mult)
  then show ?thesis by (auto simp: signed_be_def Let_def)
qed

lemma signed_be_16: "length b = 2 \<Longrightarrow> -32768 \<le> signed_be b \<and> signed_be b \<le> 32767"
  using signed_be_bounds [of b] by simp

lemma unpack_register_Some_iff:
  "unpack_register dt raw = Some v \<longleftrightarrow>
   length raw \<in> {1, 2, 4} \<and> v = (if is_signed_type dt then signed_be raw else unsigned_be raw)"
  by (auto simp: unpack_register_def)

lemma parse_register_None_iff_empty: "parse_register F rd None = None" "parse_register F rd (Some []) = None"
  by (simp_all add: parse_register_def)

lemma parse_register_bad_length:
  "rd_type rd \<noteq> DT_STRING \<Longrightarrow> length raw \<notin> {1, 2, 4} \<Longrightarrow> parse_register F rd (Some raw) = None"
  by (auto simp: parse_register_def unpack_register_def Let_def split: list.splits)

lemma parse_register_int:
  assumes "rd_type rd = DT_INT" "raw \<noteq> []"
  shows "parse_register F rd (Some raw) =
    (if length raw \<in> {1, 2, 4} then Some (VInt (unsigned_be raw)) else None)"
  using assms
  by (cases raw) (auto simp: parse_register_def unpack_register_def is_signed_type_def
      is_float_type_def is_int_type_def Let_def)

lemma parse_register_time:
  assumes "rd_type rd = DT_TIME_HHMM" "0 \<le> h" "h \<le> 23" "0 \<le> m" "m \<le> 59"
  shows "parse_register F rd (Some (be16 (h * 256 + m))) =
    Some (VStr (two_digits h @ '':'' @ two_digits m))"
proof -
  have v: "unsigned_be (be16 (h * 256 + m)) = h * 256 + m"
    using assms by (simp add: unsigned_be_be16)
  obtain a b where ab: "be16 (h * 256 + m) = [a, b]" by (simp add: be16_def)
  have "unsigned_be [a, b] = h * 256 + m" using v ab by simp
  then show ?thesis
    using assms unfolding ab
    by (simp add: parse_register_def unpack_register_def is_signed_type_def is_float_type_def Let_def)
qed

lemma runtime_noah_map_mqtt_ip:
  "runtime_noah_map noah nexa = Inr m \<Longrightarrow> dict_get (config_registers m) ''mqtt_ip'' = None"
  by (auto simp: runtime_noah_map_def bindE_Inr_iff Let_def hide_mqtt_ip_def)

lemma runtime_noah_map_inputs:
  assumes "runtime_noah_map noah nexa = Inr m"
  shows "(\<forall>k\<in>set removed_noah_inputs. dict_get (input_registers m) k = None) \<and>
    (\<exists>r. dict_get (input_registers m) ''batterySoh'' = Some r \<and>
      rd_type (gr_data (ir_growatt r)) = DT_INT)"
  using assms
  by (auto simp: runtime_noah_map_def bindE_Inr_iff Let_def hide_mqtt_ip_def noah_with_soh_def
      noah_soh_int_def soh_as_int_def removed_noah_inputs_def split: option.splits)

end
