(* ===== verification/ModbusMessage.thy ===== *)
theory ModbusMessage
  imports Registers
begin

text \<open>
  \<open>grobro/model/modbus_message.py\<close>: register blocks, telemetry metadata, write
  acknowledgements and the whole Growatt Modbus message, each with its parser and its builder.
  Parsers answer \<open>None\<close> where the code returns \<open>None\<close>, also where an exception of
  \<open>struct\<close> is caught; builders are fallible.
\<close>

section \<open>Serials and blocks\<close>

definition encode_modbus_device_id :: "string \<Rightarrow> bytes py" where
  "encode_modbus_device_id device_id =
     bindE (encode_ascii device_id) (\<lambda>encoded.
       if length encoded > 30 then Inl ValueError
       else Inr (encoded @ replicate (30 - length encoded) 0))"

definition parse_serial :: "bytes \<Rightarrow> string" where
  "parse_serial raw = strip_nul (decode_ignore raw)"

record modbus_block =
  blk_start :: int
  blk_end :: int
  blk_values :: bytes

definition block_size :: "modbus_block \<Rightarrow> int" where
  "block_size b = 4 + int (length (blk_values b))"

definition block_parse :: "bytes \<Rightarrow> int \<Rightarrow> modbus_block option" where
  "block_parse buffer offset =
     (let buffer_len = int (length buffer) in
      if offset < 0 \<or> buffer_len - offset < 4 then None
      else (case (u16_at buffer offset, u16_at buffer (offset + 2)) of
          (Some start, Some stop) \<Rightarrow>
            if stop < start then None
            else (let register_count = stop - start + 1;
                      expected_size = 4 + register_count * 2;
                      available = buffer_len - offset in
                  if available < expected_size then None
                  else Some \<lparr>blk_start = start, blk_end = stop,
                             blk_values = py_slice buffer (offset + 4) (offset + expected_size)\<rparr>)
        | _ \<Rightarrow> None))"

definition block_build :: "modbus_block \<Rightarrow> bytes py" where
  "block_build b =
     bindE (pack_H (blk_start b)) (\<lambda>s. bindE (pack_H (blk_end b)) (\<lambda>e.
       Inr (s @ e @ blk_values b)))"

section \<open>Function codes\<close>

datatype modbus_function =
    READ_HOLDING_REGISTER
  | READ_INPUT_REGISTER
  | READ_SINGLE_REGISTER
  | PRESET_SINGLE_REGISTER
  | PRESET_MULTIPLE_REGISTER
  | VENDOR_100

fun fn_code :: "modbus_function \<Rightarrow> int" where
  "fn_code READ_HOLDING_REGISTER = 3"
| "fn_code READ_INPUT_REGISTER = 4"
| "fn_code READ_SINGLE_REGISTER = 5"
| "fn_code PRESET_SINGLE_REGISTER = 6"
| "fn_code PRESET_MULTIPLE_REGISTER = 16"
| "fn_code VENDOR_100 = 100"

definition all_functions :: "modbus_function list" where
  "all_functions = [READ_HOLDING_REGISTER, READ_INPUT_REGISTER, READ_SINGLE_REGISTER,
     PRESET_SINGLE_REGISTER, PRESET_MULTIPLE_REGISTER, VENDOR_100]"

definition fn_of_code :: "int \<Rightarrow> modbus_function option" where
  "fn_of_code n = find (\<lambda>f. fn_code f = n) all_functions"

section \<open>Metadata\<close>

record datetime =
  dt_year :: int
  dt_month :: int
  dt_day :: int
  dt_hour :: int
  dt_minute :: int
  dt_second :: int
  dt_micro :: int

definition leap_year :: "int \<Rightarrow> bool" where
  "leap_year y \<longleftrightarrow> y mod 4 = 0 \<and> (y mod 100 \<noteq> 0 \<or> y mod 400 = 0)"

definition days_in_month :: "int \<Rightarrow> int \<Rightarrow> int" where
  "days_in_month y m =
     (if m = 2 then (if leap_year y then 29 else 28)
      else if m \<in> {4, 6, 9, 11} then 30 else 31)"

text \<open>The range checks of Python's \<open>datetime\<close> constructor; out of range is \<open>ValueError\<close>.\<close>

definition valid_datetime :: "datetime \<Rightarrow> bool" where
  "valid_datetime t \<longleftrightarrow>
     1 \<le> dt_year t \<and> dt_year t \<le> 9999 \<and> 1 \<le> dt_month t \<and> dt_month t \<le> 12 \<and>
     1 \<le> dt_day t \<and> dt_day t \<le> days_in_month (dt_year t) (dt_month t) \<and>
     0 \<le> dt_hour t \<and> dt_hour t \<le> 23 \<and> 0 \<le> dt_minute t \<and> dt_minute t \<le> 59 \<and>
     0 \<le> dt_second t \<and> dt_second t \<le> 59 \<and> 0 \<le> dt_micro t \<and> dt_micro t \<le> 999999"

definition make_datetime :: "int \<Rightarrow> int \<Rightarrow> int \<Rightarrow> int \<Rightarrow> int \<Rightarrow> int \<Rightarrow> int \<Rightarrow> datetime option" where
  "make_datetime y mo d h mi s us =
     (let t = \<lparr>dt_year = y, dt_month = mo, dt_day = d, dt_hour = h, dt_minute = mi,
               dt_second = s, dt_micro = us\<rparr>
      in if valid_datetime t then Some t else None)"

record metadata =
  md_device_sn :: string
  md_timestamp :: "datetime option"

definition metadata_size :: int where
  "metadata_size = 37"

definition metadata_parse :: "bytes \<Rightarrow> int \<Rightarrow> metadata option" where
  "metadata_parse buffer offset =
     (if offset < 0 \<or> int (length buffer) - offset < metadata_size then None
      else (case bytes_at buffer offset 30 of
          None \<Rightarrow> None
        | Some raw \<Rightarrow>
            (case (u8_at buffer (offset + 30), u8_at buffer (offset + 31), u8_at buffer (offset + 32),
                   u8_at buffer (offset + 33), u8_at buffer (offset + 34), u8_at buffer (offset + 35),
                   u8_at buffer (offset + 36)) of
               (Some year, Some month, Some day, Some hour, Some minute, Some second, Some millis) \<Rightarrow>
                 Some \<lparr>md_device_sn = parse_serial raw,
                       md_timestamp = make_datetime (year + 2000) month day hour minute second
                                        (millis * 1000)\<rparr>
             | _ \<Rightarrow> None)))"

fun pack_Bs :: "int list \<Rightarrow> bytes py" where
  "pack_Bs [] = Inr []"
| "pack_Bs (n # ns) = bindE (pack_B n) (\<lambda>b. bindE (pack_Bs ns) (\<lambda>bs. Inr (b @ bs)))"

text \<open>
  \<open>int(microsecond / 1000)\<close> goes through a float; for the range 0..999999 the quotient is at
  least a thousandth away from the next integer, so the result is the integer division.
\<close>

definition metadata_build :: "metadata \<Rightarrow> bytes py" where
  "metadata_build md =
     (case md_timestamp md of
        None \<Rightarrow> Inl ValueError
      | Some t \<Rightarrow>
          bindE (encode_modbus_device_id (md_device_sn md)) (\<lambda>sn.
          bindE (pack_Bs [dt_year t - 2000, dt_month t, dt_day t, dt_hour t, dt_minute t,
                          dt_second t, dt_micro t div 1000]) (\<lambda>ts.
            Inr (sn @ ts))))"

section \<open>Write acknowledgements\<close>

record write_ack =
  ack_register :: int
  ack_value :: int
  ack_status :: int

definition write_ack_size :: int where
  "write_ack_size = 5"

definition write_ack_parse :: "bytes \<Rightarrow> int \<Rightarrow> write_ack option" where
  "write_ack_parse buffer offset =
     (if offset < 0 \<or> int (length buffer) - offset < write_ack_size then None
      else (case (u16_at buffer offset, u8_at buffer (offset + 2), u16_at buffer (offset + 3)) of
          (Some register_no, Some status, Some value) \<Rightarrow>
            Some \<lparr>ack_register = register_no, ack_value = value, ack_status = status\<rparr>
        | _ \<Rightarrow> None))"

definition write_ack_build :: "write_ack \<Rightarrow> bytes py" where
  "write_ack_build a =
     bindE (pack_H (ack_register a)) (\<lambda>r. bindE (pack_B (ack_status a)) (\<lambda>s.
     bindE (pack_H (ack_value a)) (\<lambda>v. Inr (r @ s @ v))))"

section \<open>Messages\<close>

record modbus_message =
  msg_unknown :: int
  msg_device_id :: string
  msg_metadata :: "metadata option"
  msg_function :: modbus_function
  msg_blocks :: "modbus_block list"
  msg_write_ack :: "write_ack option"

definition trailer_size :: int where
  "trailer_size = 2"

definition header_size :: int where
  "header_size = 38"

definition min_block_size :: int where
  "min_block_size = 6"

definition msg_len :: "modbus_message \<Rightarrow> int" where
  "msg_len m =
     32 + (case msg_metadata m of None \<Rightarrow> 0 | Some _ \<Rightarrow> metadata_size)
        + sum_list (map block_size (msg_blocks m))
        + (case msg_write_ack m of None \<Rightarrow> 0 | Some _ \<Rightarrow> write_ack_size)"

definition block_data :: "modbus_block \<Rightarrow> register_position \<Rightarrow> bytes option" where
  "block_data b pos =
     (let block_pos = (pos_register pos - blk_start b) * 2 + pos_offset pos;
          end_pos = block_pos + pos_size pos in
      if block_pos < 0 \<or> end_pos > int (length (blk_values b)) then None
      else Some (py_slice (blk_values b) block_pos end_pos))"

definition block_misses :: "modbus_block \<Rightarrow> register_position \<Rightarrow> bool" where
  "block_misses b pos \<longleftrightarrow> blk_start b > pos_register pos \<or> blk_end b < pos_register pos"

fun get_data_loop :: "modbus_block list \<Rightarrow> register_position \<Rightarrow> bytes option" where
  "get_data_loop [] pos = None"
| "get_data_loop (b # bs) pos = (if block_misses b pos then get_data_loop bs pos else block_data b pos)"

definition get_data :: "modbus_message \<Rightarrow> register_position \<Rightarrow> bytes option" where
  "get_data m pos =
     (case msg_blocks m of
        [b] \<Rightarrow> if block_misses b pos then None else block_data b pos
      | blocks \<Rightarrow> get_data_loop blocks pos)"

text \<open>The loop over register blocks; each block moves the offset forward by at least four bytes.\<close>

function parse_blocks ::
    "bytes \<Rightarrow> int \<Rightarrow> modbus_block list \<Rightarrow> (modbus_block list \<times> int) option" where
  "parse_blocks buffer offset acc =
     (if int (length buffer) - offset \<ge> min_block_size then
        (case block_parse buffer offset of
           None \<Rightarrow> None
         | Some b \<Rightarrow> parse_blocks buffer (offset + block_size b) (acc @ [b]))
      else Some (acc, offset))"
  by pat_completeness auto
termination
  by (relation "measure (\<lambda>(buffer, offset, acc). nat (int (length buffer) - offset))")
     (auto simp: block_size_def min_block_size_def)

declare parse_blocks.simps [simp del]

definition parse_body ::
    "bytes \<Rightarrow> int \<Rightarrow> string \<Rightarrow> modbus_function \<Rightarrow> metadata option \<Rightarrow> int \<Rightarrow> modbus_message option" where
  "parse_body buffer unknown device_id function md offset =
     (if function = PRESET_SINGLE_REGISTER then
        (let remaining = int (length buffer) - offset in
         if remaining \<noteq> write_ack_size \<and> remaining \<noteq> write_ack_size + trailer_size then None
         else (case write_ack_parse buffer offset of
             None \<Rightarrow> None
           | Some ack \<Rightarrow>
               Some \<lparr>msg_unknown = unknown, msg_device_id = device_id, msg_metadata = md,
                     msg_function = function, msg_blocks = [], msg_write_ack = Some ack\<rparr>))
      else (case parse_blocks buffer offset [] of
          None \<Rightarrow> None
        | Some (blocks, offset') \<Rightarrow>
            (let remaining = int (length buffer) - offset' in
             if remaining \<noteq> 0 \<and> remaining \<noteq> trailer_size then None
             else Some \<lparr>msg_unknown = unknown, msg_device_id = device_id, msg_metadata = md,
                        msg_function = function, msg_blocks = blocks, msg_write_ack = None\<rparr>)))"

definition message_parse :: "bytes \<Rightarrow> modbus_message option" where
  "message_parse buffer =
     (let buffer_len = int (length buffer) in
      if buffer_len < header_size then None
      else (case (u16_at buffer 0, u16_at buffer 2, u16_at buffer 4, u8_at buffer 7, bytes_at buffer 8 30) of
          (Some unknown, Some constant_7, Some len_field, Some fcode, Some device_id_raw) \<Rightarrow>
            if constant_7 \<noteq> 7 then None
            else if len_field \<noteq> buffer_len - 8 then None
            else (case fn_of_code fcode of
                None \<Rightarrow> None
              | Some function \<Rightarrow>
                  (let device_id = parse_serial device_id_raw in
                   if function = READ_INPUT_REGISTER then
                     (case metadata_parse buffer header_size of
                        None \<Rightarrow> None
                      | Some md \<Rightarrow>
                          parse_body buffer unknown device_id function (Some md)
                            (header_size + metadata_size))
                   else parse_body buffer unknown device_id function None header_size))
        | _ \<Rightarrow> None))"

fun build_all :: "('a \<Rightarrow> bytes py) \<Rightarrow> 'a list \<Rightarrow> bytes py" where
  "build_all f [] = Inr []"
| "build_all f (x # xs) = bindE (f x) (\<lambda>b. bindE (build_all f xs) (\<lambda>bs. Inr (b @ bs)))"

definition message_build :: "modbus_message \<Rightarrow> bytes py" where
  "message_build m =
     bindE (encode_modbus_device_id (msg_device_id m)) (\<lambda>dev.
     bindE (pack_H (msg_unknown m)) (\<lambda>u.
     bindE (pack_H 7) (\<lambda>c7.
     bindE (pack_H (msg_len m)) (\<lambda>ml.
     bindE (pack_Bs [1, fn_code (msg_function m)]) (\<lambda>fc.
     bindE (build_all metadata_build (case msg_metadata m of None \<Rightarrow> [] | Some md \<Rightarrow> [md])) (\<lambda>mdb.
     bindE (build_all block_build (msg_blocks m)) (\<lambda>bsb.
     bindE (build_all write_ack_build (case msg_write_ack m of None \<Rightarrow> [] | Some a \<Rightarrow> [a])) (\<lambda>ackb.
       Inr (u @ c7 @ ml @ fc @ dev @ mdb @ bsb @ ackb)))))))))"

section \<open>Blocks on the wire\<close>

lemma encode_modbus_device_id_Inr_iff:
  "encode_modbus_device_id d = Inr b \<longleftrightarrow>
   list_all is_ascii d \<and> length d \<le> 30 \<and> b = map byte_of_char d @ replicate (30 - length d) 0"
  by (auto simp: encode_modbus_device_id_def bindE_Inr_iff encode_ascii_Inr_iff)

lemma encode_modbus_device_id_serial:
  "wire_serial 30 d \<Longrightarrow>
   encode_modbus_device_id d = Inr (map byte_of_char d @ replicate (30 - length d) 0)"
  by (simp add: encode_modbus_device_id_Inr_iff wire_serial_def)

lemma parse_serial_padded:
  "wire_serial n d \<Longrightarrow> parse_serial (map byte_of_char d @ replicate k 0) = d"
  unfolding parse_serial_def by (rule strip_nul_padded)

definition valid_block :: "modbus_block \<Rightarrow> bool" where
  "valid_block b \<longleftrightarrow>
     0 \<le> blk_start b \<and> blk_start b \<le> blk_end b \<and> blk_end b \<le> 65535 \<and>
     int (length (blk_values b)) = 2 * (blk_end b - blk_start b + 1)"

definition block_bytes :: "modbus_block \<Rightarrow> bytes" where
  "block_bytes b = be16 (blk_start b) @ be16 (blk_end b) @ blk_values b"

lemma length_block_bytes: "int (length (block_bytes b)) = block_size b"
  by (simp add: block_bytes_def block_size_def)

lemma block_build_valid: "valid_block b \<Longrightarrow> block_build b = Inr (block_bytes b)"
  by (simp add: block_build_def valid_block_def block_bytes_def pack_H_def)

lemma block_parse_head:
  assumes "valid_block b"
  shows "block_parse (block_bytes b @ rest) 0 = Some b"
proof -
  have reads: "u16_at (block_bytes b @ rest) 0 = Some (blk_start b)"
    "u16_at (block_bytes b @ rest) 2 = Some (blk_end b)"
    using assms by (simp_all add: block_bytes_def valid_block_def wire_reads)
  have slice: "py_slice (block_bytes b @ rest) 4 (4 + (blk_end b - blk_start b + 1) * 2) = blk_values b"
    using py_slice_append [of 4 "be16 (blk_start b) @ be16 (blk_end b)"
        "4 + (blk_end b - blk_start b + 1) * 2" "blk_values b" rest] assms
    by (simp add: block_bytes_def valid_block_def)
  show ?thesis
    using assms reads slice length_block_bytes [of b]
    by (simp add: block_parse_def Let_def valid_block_def block_size_def)
qed

lemma block_parse_skip:
  assumes "int (length pre) \<le> off"
  shows "block_parse (pre @ buf) off = block_parse buf (off - int (length pre))"
proof -
  have slice: "py_slice (pre @ buf) i j = py_slice buf (i - int (length pre)) (j - int (length pre))"
    if "int (length pre) \<le> i" "i \<le> j" "j \<le> int (length (pre @ buf))" for i j
    using that by (simp add: py_slice_exact nat_diff_distrib)
  show ?thesis
    using assms
    by (auto simp: block_parse_def Let_def u16_at_skip slice algebra_simps split: option.splits)
qed

lemma block_parse_at:
  "valid_block b \<Longrightarrow> off = int (length pre) \<Longrightarrow> block_parse (pre @ block_bytes b @ rest) off = Some b"
  by (simp add: block_parse_skip block_parse_head)

text \<open>The other direction: what the parser accepts is valid and is rebuilt byte for byte.\<close>

lemma block_parse_valid:
  assumes "block_parse buf off = Some b"
  shows "valid_block b \<and> 0 \<le> off \<and> off + block_size b \<le> int (length buf) \<and>
    block_bytes b = take (nat (block_size b)) (drop (nat off) buf)"
proof -
  from assms obtain s e where off: "0 \<le> off" "u16_at buf off = Some s" "u16_at buf (off + 2) = Some e"
    and se: "s \<le> e" and len: "off + 4 + (e - s + 1) * 2 \<le> int (length buf)"
    and b: "b = \<lparr>blk_start = s, blk_end = e,
      blk_values = py_slice buf (off + 4) (off + 4 + (e - s + 1) * 2)\<rparr>"
    by (auto simp: block_parse_def Let_def algebra_simps split: if_splits option.splits)
  let ?n = "nat ((e - s + 1) * 2)"
  have ends: "blk_start b = s" "blk_end b = e" by (simp_all add: b)
  have vals: "blk_values b = take ?n (drop (nat off + 4) buf)"
    using off(1) se len by (simp add: b py_slice_exact nat_add_distrib)
  have size: "block_size b = 4 + int ?n"
    using off(1) se len by (simp add: block_size_def vals nat_add_distrib of_nat_diff)
  have "block_bytes b = take 2 (drop (nat off) buf) @ take 2 (drop (nat off + 2) buf)
      @ take ?n (drop (nat off + 4) buf)"
    using be16_take_drop [OF off(2)] be16_take_drop [OF off(3)] off(1)
    by (simp add: block_bytes_def vals ends nat_add_distrib)
  also have "\<dots> = take (4 + ?n) (drop (nat off) buf)"
    by (rule take_2_2_drop)
  finally have bytes: "block_bytes b = take (nat (block_size b)) (drop (nat off) buf)"
    by (simp add: size nat_add_distrib)
  have "valid_block b"
    using u16_at_bounds [OF off(2)] u16_at_bounds [OF off(3)] se len off(1)
    by (simp add: valid_block_def vals ends of_nat_diff nat_add_distrib)
  then show ?thesis using off(1) len bytes size se by simp
qed

lemma block_parse_build: "block_parse buf off = Some b \<Longrightarrow>
    block_build b = Inr (take (nat (block_size b)) (drop (nat off) buf))"
  using block_parse_valid [of buf off b] by (simp add: block_build_valid)

lemma valid_block_size: "valid_block b \<Longrightarrow> min_block_size \<le> block_size b"
  by (simp add: valid_block_def block_size_def min_block_size_def)

interpretation block_codec: wire_codec block_build "\<lambda>b. block_parse b 0" valid_block
proof unfold_locales
  fix x b
  show "valid_block x \<Longrightarrow> \<exists>b. block_build x = Inr b" by (simp add: block_build_valid)
  show "valid_block x \<Longrightarrow> block_build x = Inr b \<Longrightarrow> block_parse b 0 = Some x"
    using block_parse_head [of x "[]"] by (auto simp: block_build_valid)
qed

lemma build_all_blocks:
  "\<forall>b\<in>set bs. valid_block b \<Longrightarrow> build_all block_build bs = Inr (concat (map block_bytes bs))"
  by (induction bs) (simp_all add: block_build_valid)

lemma parse_blocks_end:
  "int (length buf) - off < min_block_size \<Longrightarrow> parse_blocks buf off acc = Some (acc, off)"
  by (subst parse_blocks.simps) simp

lemma parse_blocks_concat:
  assumes "\<forall>b\<in>set bs. valid_block b" "length t < 6" "off = int (length pre)"
  shows "parse_blocks (pre @ concat (map block_bytes bs) @ t) off acc =
    Some (acc @ bs, off + sum_list (map block_size bs))"
  using assms
proof (induction bs arbitrary: pre off acc)
  case Nil
  then show ?case by (simp add: parse_blocks_end min_block_size_def)
next
  case (Cons b bs)
  let ?rest = "concat (map block_bytes bs) @ t"
  have b: "block_parse (pre @ block_bytes b @ ?rest) off = Some b"
    using Cons.prems by (intro block_parse_at) simp_all
  have guard: "min_block_size \<le> int (length (pre @ block_bytes b @ ?rest)) - off"
    using Cons.prems valid_block_size [of b] length_block_bytes [of b] by simp
  have "parse_blocks ((pre @ block_bytes b) @ ?rest) (off + block_size b) (acc @ [b]) =
      Some ((acc @ [b]) @ bs, (off + block_size b) + sum_list (map block_size bs))"
    using Cons.prems length_block_bytes [of b] by (intro Cons.IH) simp_all
  then have "parse_blocks (pre @ block_bytes b @ ?rest) off acc =
      Some (acc @ b # bs, off + (block_size b + sum_list (map block_size bs)))"
    using b guard by (subst parse_blocks.simps) (simp add: add.assoc)
  then show ?case by simp
qed

section \<open>Metadata, acknowledgements and whole messages on the wire\<close>

lemma fn_of_code_fn_code [simp]: "fn_of_code (fn_code f) = Some f"
  by (cases f) (simp_all add: fn_of_code_def all_functions_def)

lemma fn_of_code_Some: "fn_of_code n = Some f \<Longrightarrow> fn_code f = n"
  by (auto simp: fn_of_code_def find_Some_iff)

lemma fn_code_byte: "0 \<le> fn_code f" "fn_code f \<le> 255"
  by (cases f; simp)+

text \<open>The timestamps the seven bytes carry exactly: years 2000 to 2255, whole milliseconds up to 255.\<close>

definition wire_timestamp :: "datetime \<Rightarrow> bool" where
  "wire_timestamp t \<longleftrightarrow>
     valid_datetime t \<and> 2000 \<le> dt_year t \<and> dt_year t \<le> 2255 \<and>
     dt_micro t mod 1000 = 0 \<and> dt_micro t \<le> 255000"

definition valid_metadata :: "metadata \<Rightarrow> bool" where
  "valid_metadata md \<longleftrightarrow>
     wire_serial 30 (md_device_sn md) \<and>
     (case md_timestamp md of None \<Rightarrow> False | Some t \<Rightarrow> wire_timestamp t)"

definition timestamp_bytes :: "datetime \<Rightarrow> bytes" where
  "timestamp_bytes t =
     map word_of_int [dt_year t - 2000, dt_month t, dt_day t, dt_hour t, dt_minute t, dt_second t,
       dt_micro t div 1000]"

definition serial_field :: "string \<Rightarrow> bytes" where
  "serial_field d = map byte_of_char d @ replicate (30 - length d) 0"

definition metadata_bytes :: "metadata \<Rightarrow> bytes" where
  "metadata_bytes md =
     serial_field (md_device_sn md) @
     (case md_timestamp md of None \<Rightarrow> [] | Some t \<Rightarrow> timestamp_bytes t)"

lemma pack_Bs_Inr:
  "list_all (\<lambda>n. 0 \<le> n \<and> n \<le> 255) ns \<Longrightarrow> pack_Bs ns = Inr (map word_of_int ns)"
  by (induction ns) (simp_all add: pack_B_def)

lemma length_serial_field: "length d \<le> 30 \<Longrightarrow> length (serial_field d) = 30"
  by (simp add: serial_field_def)

lemma wire_timestamp_fields:
  assumes "wire_timestamp t"
  shows "list_all (\<lambda>n. 0 \<le> n \<and> n \<le> 255) [dt_year t - 2000, dt_month t, dt_day t, dt_hour t,
    dt_minute t, dt_second t, dt_micro t div 1000]"
  using assms
  by (auto simp: wire_timestamp_def valid_datetime_def days_in_month_def split: if_splits)

lemma metadata_build_valid: "valid_metadata md \<Longrightarrow> metadata_build md = Inr (metadata_bytes md)"
  using pack_Bs_Inr [OF wire_timestamp_fields]
  by (auto simp: metadata_build_def valid_metadata_def metadata_bytes_def serial_field_def
      timestamp_bytes_def encode_modbus_device_id_serial split: option.splits)

lemma length_metadata_bytes: "valid_metadata md \<Longrightarrow> int (length (metadata_bytes md)) = metadata_size"
  by (auto simp: valid_metadata_def metadata_bytes_def timestamp_bytes_def serial_field_def
      metadata_size_def wire_serial_def split: option.splits)

lemma make_datetime_wire:
  assumes "wire_timestamp t"
  shows "make_datetime (dt_year t - 2000 + 2000) (dt_month t) (dt_day t) (dt_hour t) (dt_minute t)
    (dt_second t) (dt_micro t div 1000 * 1000) = Some t"
proof -
  have "dt_micro t div 1000 * 1000 = dt_micro t"
    using assms by (simp add: wire_timestamp_def minus_mod_eq_div_mult [symmetric])
  moreover have "\<lparr>dt_year = dt_year t, dt_month = dt_month t, dt_day = dt_day t, dt_hour = dt_hour t,
      dt_minute = dt_minute t, dt_second = dt_second t, dt_micro = dt_micro t\<rparr> = t"
    by simp
  ultimately show ?thesis
    using assms by (cases t) (simp add: make_datetime_def wire_timestamp_def Let_def valid_datetime_def)
qed

lemma metadata_parse_head:
  assumes "valid_metadata md"
  shows "metadata_parse (metadata_bytes md @ rest) 0 = Some md"
proof -
  from assms obtain t where sn: "wire_serial 30 (md_device_sn md)"
    and t: "md_timestamp md = Some t" "wire_timestamp t"
    by (auto simp: valid_metadata_def split: option.splits)
  let ?ns = "[dt_year t - 2000, dt_month t, dt_day t, dt_hour t, dt_minute t, dt_second t,
    dt_micro t div 1000]"
  have len: "length (serial_field (md_device_sn md)) = 30"
    using sn by (simp add: serial_field_def wire_serial_def)
  have fields: "uint (word_of_int n :: byte) = n" if "n \<in> set ?ns" for n
    using wire_timestamp_fields [OF t(2)] that by (auto intro!: uint_word_of_int_byte)
  have "parse_serial (serial_field (md_device_sn md)) = md_device_sn md"
    using sn unfolding serial_field_def by (rule parse_serial_padded)
  moreover have "\<lparr>md_device_sn = md_device_sn md, md_timestamp = Some t\<rparr> = md"
    using t by simp
  ultimately show ?thesis
    using len fields make_datetime_wire [OF t(2)] length_metadata_bytes [OF assms]
    by (simp add: metadata_parse_def metadata_bytes_def t timestamp_bytes_def wire_reads
        del: of_int_diff)
qed

lemma metadata_parse_skip:
  assumes "int (length pre) \<le> off"
  shows "metadata_parse (pre @ buf) off = metadata_parse buf (off - int (length pre))"
proof -
  have shift: "off + k - int (length pre) = off - int (length pre) + k" for k by simp
  show ?thesis
    using assms
    by (cases "bytes_at buf (off - int (length pre)) 30")
       (simp_all add: metadata_parse_def wire_reads shift)
qed

definition valid_ack :: "write_ack \<Rightarrow> bool" where
  "valid_ack a \<longleftrightarrow>
     0 \<le> ack_register a \<and> ack_register a \<le> 65535 \<and> 0 \<le> ack_value a \<and> ack_value a \<le> 65535 \<and>
     0 \<le> ack_status a \<and> ack_status a \<le> 255"

definition ack_bytes :: "write_ack \<Rightarrow> bytes" where
  "ack_bytes a = be16 (ack_register a) @ [word_of_int (ack_status a)] @ be16 (ack_value a)"

lemma write_ack_build_valid: "valid_ack a \<Longrightarrow> write_ack_build a = Inr (ack_bytes a)"
  by (simp add: write_ack_build_def valid_ack_def ack_bytes_def pack_H_def pack_B_def)

lemma write_ack_parse_head: "valid_ack a \<Longrightarrow> write_ack_parse (ack_bytes a @ rest) 0 = Some a"
  by (simp add: write_ack_parse_def ack_bytes_def valid_ack_def wire_reads write_ack_size_def
      uint_word_of_int_byte)

lemma write_ack_parse_skip:
  "int (length pre) \<le> off \<Longrightarrow>
   write_ack_parse (pre @ buf) off = write_ack_parse buf (off - int (length pre))"
  by (simp add: write_ack_parse_def wire_reads algebra_simps)

interpretation ack_codec: wire_codec write_ack_build "\<lambda>b. write_ack_parse b 0" valid_ack
proof unfold_locales
  fix x b
  show "valid_ack x \<Longrightarrow> \<exists>b. write_ack_build x = Inr b" by (simp add: write_ack_build_valid)
  show "valid_ack x \<Longrightarrow> write_ack_build x = Inr b \<Longrightarrow> write_ack_parse b 0 = Some x"
    using write_ack_parse_head [of x "[]"] by (auto simp: write_ack_build_valid)
qed

interpretation metadata_codec: wire_codec metadata_build "\<lambda>b. metadata_parse b 0" valid_metadata
proof unfold_locales
  fix x b
  show "valid_metadata x \<Longrightarrow> \<exists>b. metadata_build x = Inr b" by (simp add: metadata_build_valid)
  show "valid_metadata x \<Longrightarrow> metadata_build x = Inr b \<Longrightarrow> metadata_parse b 0 = Some x"
    using metadata_parse_head [of x "[]"] by (auto simp: metadata_build_valid)
qed

text \<open>
  The shape of the messages devices send: metadata exactly on input-register telemetry, an
  acknowledgement and no block exactly on single writes, at most 64 KiB.
\<close>

definition valid_message :: "modbus_message \<Rightarrow> bool" where
  "valid_message m \<longleftrightarrow>
     0 \<le> msg_unknown m \<and> msg_unknown m \<le> 65535 \<and> wire_serial 30 (msg_device_id m) \<and>
     msg_len m \<le> 65535 \<and>
     (case msg_metadata m of None \<Rightarrow> msg_function m \<noteq> READ_INPUT_REGISTER
        | Some md \<Rightarrow> msg_function m = READ_INPUT_REGISTER \<and> valid_metadata md) \<and>
     (case msg_write_ack m of None \<Rightarrow> msg_function m \<noteq> PRESET_SINGLE_REGISTER
        | Some a \<Rightarrow> msg_function m = PRESET_SINGLE_REGISTER \<and> valid_ack a \<and> msg_blocks m = []) \<and>
     (\<forall>b\<in>set (msg_blocks m). valid_block b)"

definition body_bytes :: "modbus_message \<Rightarrow> bytes" where
  "body_bytes m =
     (case msg_metadata m of None \<Rightarrow> [] | Some md \<Rightarrow> metadata_bytes md) @
     concat (map block_bytes (msg_blocks m)) @
     (case msg_write_ack m of None \<Rightarrow> [] | Some a \<Rightarrow> ack_bytes a)"

definition header_bytes :: "modbus_message \<Rightarrow> bytes" where
  "header_bytes m =
     be16 (msg_unknown m) @ be16 7 @ be16 (msg_len m) @
     [1, word_of_int (fn_code (msg_function m))] @ serial_field (msg_device_id m)"

lemma length_concat_blocks:
  "int (length (concat (map block_bytes bs))) = sum_list (map block_size bs)"
  using length_block_bytes by (induction bs) simp_all

lemma sum_block_size_nonneg: "0 \<le> sum_list (map block_size bs)"
  by (simp add: length_concat_blocks [symmetric])

lemma msg_len_body: "valid_message m \<Longrightarrow> msg_len m = 32 + int (length (body_bytes m))"
  using length_concat_blocks [of "msg_blocks m"]
  by (auto simp: valid_message_def msg_len_def body_bytes_def length_metadata_bytes ack_bytes_def
      write_ack_size_def split: option.splits)

lemma message_build_valid:
  assumes "valid_message m"
  shows "message_build m = Inr (header_bytes m @ body_bytes m)"
proof -
  have "pack_Bs [1, fn_code (msg_function m)] = Inr [1, word_of_int (fn_code (msg_function m))]"
    using fn_code_byte by (simp add: pack_B_def)
  moreover have "0 \<le> msg_len m" using msg_len_body [OF assms] by simp
  ultimately show ?thesis
    using assms
    by (auto simp: message_build_def valid_message_def header_bytes_def body_bytes_def pack_H_def
        encode_modbus_device_id_serial serial_field_def metadata_build_valid build_all_blocks
        write_ack_build_valid split: option.splits)
qed

text \<open>
  The header of a built message followed by any trailer: the length field is \<open>msg_len\<close>, which
  counts 32 bytes more than the body, so it matches \<open>buffer_len - 8\<close> for a trailer of two
  bytes and for no other.
\<close>

lemma message_parse_header:
  assumes "valid_message m"
  shows "message_parse (header_bytes m @ body_bytes m @ t) =
    (if length t \<noteq> 2 then None
     else if msg_function m = READ_INPUT_REGISTER then
       (case metadata_parse (body_bytes m @ t) 0 of
          None \<Rightarrow> None
        | Some md \<Rightarrow> parse_body (header_bytes m @ body_bytes m @ t) (msg_unknown m) (msg_device_id m)
            (msg_function m) (Some md) 75)
     else parse_body (header_bytes m @ body_bytes m @ t) (msg_unknown m) (msg_device_id m)
            (msg_function m) None 38)"
proof -
  have v: "0 \<le> msg_unknown m" "msg_unknown m \<le> 65535" "wire_serial 30 (msg_device_id m)"
    "msg_len m \<le> 65535"
    using assms by (simp_all add: valid_message_def)
  have field: "length (serial_field (msg_device_id m)) = 30"
    using v by (simp add: serial_field_def wire_serial_def)
  have serial: "parse_serial (serial_field (msg_device_id m)) = msg_device_id m"
    using v(3) unfolding serial_field_def by (rule parse_serial_padded)
  have len: "length (header_bytes m) = 38" using field by (simp add: header_bytes_def)
  have code: "uint (word_of_int (fn_code (msg_function m)) :: byte) = fn_code (msg_function m)"
    using fn_code_byte by (rule uint_word_of_int_byte)
  have md: "metadata_parse (header_bytes m @ body_bytes m @ t) 38 = metadata_parse (body_bytes m @ t) 0"
    using metadata_parse_skip [of "header_bytes m" 38 "body_bytes m @ t"] len by simp
  have reads: "u16_at (header_bytes m @ body_bytes m @ t) 0 = Some (msg_unknown m)"
    "u16_at (header_bytes m @ body_bytes m @ t) 2 = Some 7"
    "u16_at (header_bytes m @ body_bytes m @ t) 4 = Some (msg_len m)"
    "u8_at (header_bytes m @ body_bytes m @ t) 7 = Some (fn_code (msg_function m))"
    "bytes_at (header_bytes m @ body_bytes m @ t) 8 30 = Some (serial_field (msg_device_id m))"
    using v field code msg_len_body [OF assms] by (simp_all add: header_bytes_def wire_reads)
  show ?thesis
    using len msg_len_body [OF assms]
    by (simp add: message_parse_def reads serial md Let_def header_size_def metadata_size_def
        split: option.splits)
qed

lemma parse_body_valid:
  assumes m: "valid_message m" and t: "length t = 2"
    and pre: "off = int (length pre)"
      "pre @ concat (map block_bytes (msg_blocks m)) @
        (case msg_write_ack m of None \<Rightarrow> [] | Some a \<Rightarrow> ack_bytes a) @ t = buf"
  shows "parse_body buf (msg_unknown m) (msg_device_id m) (msg_function m) (msg_metadata m) off = Some m"
proof (cases "msg_write_ack m")
  case None
  have nonack: "msg_function m \<noteq> PRESET_SINGLE_REGISTER"
    using m None by (simp add: valid_message_def)
  have "parse_blocks buf off [] = Some ([] @ msg_blocks m, off + sum_list (map block_size (msg_blocks m)))"
    using parse_blocks_concat [of "msg_blocks m" t off pre "[]"] m t pre None
    by (simp add: valid_message_def)
  moreover have "int (length buf) = off + sum_list (map block_size (msg_blocks m)) + 2"
    using pre t None length_concat_blocks [of "msg_blocks m"] by auto
  moreover have "\<lparr>msg_unknown = msg_unknown m, msg_device_id = msg_device_id m,
      msg_metadata = msg_metadata m, msg_function = msg_function m, msg_blocks = msg_blocks m,
      msg_write_ack = None\<rparr> = m"
    using None by simp
  ultimately show ?thesis
    using nonack by (simp add: parse_body_def trailer_size_def)
next
  case (Some a)
  then have a: "msg_function m = PRESET_SINGLE_REGISTER" "valid_ack a" "msg_blocks m = []"
    using m by (simp_all add: valid_message_def)
  have buf: "buf = pre @ ack_bytes a @ t" using pre Some a by simp
  have "write_ack_parse buf off = Some a"
    using write_ack_parse_skip [of pre off "ack_bytes a @ t"] write_ack_parse_head [OF a(2), of t] pre buf
    by simp
  moreover have "int (length buf) - off = 7" using buf pre t by (simp add: ack_bytes_def)
  moreover have "\<lparr>msg_unknown = msg_unknown m, msg_device_id = msg_device_id m,
      msg_metadata = msg_metadata m, msg_function = PRESET_SINGLE_REGISTER, msg_blocks = [],
      msg_write_ack = Some a\<rparr> = m"
    using Some a by simp
  ultimately show ?thesis
    using a by (simp add: parse_body_def write_ack_size_def trailer_size_def)
qed

lemma message_parse_built:
  assumes "valid_message m"
  shows "message_parse (header_bytes m @ body_bytes m @ t) = (if length t = 2 then Some m else None)"
proof (cases "length t = 2")
  case False
  then show ?thesis by (simp add: message_parse_header [OF assms])
next
  case True
  have len: "length (header_bytes m) = 38"
    using assms by (simp add: header_bytes_def valid_message_def serial_field_def wire_serial_def)
  show ?thesis
  proof (cases "msg_metadata m")
    case None
    then have "msg_function m \<noteq> READ_INPUT_REGISTER" using assms by (simp add: valid_message_def)
    moreover have "parse_body (header_bytes m @ body_bytes m @ t) (msg_unknown m) (msg_device_id m)
        (msg_function m) (msg_metadata m) 38 = Some m"
      using len None by (intro parse_body_valid [OF assms True]) (simp_all add: body_bytes_def)
    ultimately show ?thesis using True None by (simp add: message_parse_header [OF assms])
  next
    case (Some md)
    then have md: "msg_function m = READ_INPUT_REGISTER" "valid_metadata md"
      using assms by (simp_all add: valid_message_def)
    have "metadata_parse (body_bytes m @ t) 0 = Some md"
      using metadata_parse_head [OF md(2)] Some by (simp add: body_bytes_def)
    moreover have "parse_body (header_bytes m @ body_bytes m @ t) (msg_unknown m) (msg_device_id m)
        (msg_function m) (msg_metadata m) 75 = Some m"
      using len Some length_metadata_bytes [OF md(2)]
      by (intro parse_body_valid [OF assms True, where pre = "header_bytes m @ metadata_bytes md"])
         (simp_all add: body_bytes_def metadata_size_def)
    ultimately show ?thesis using True md Some by (simp add: message_parse_header [OF assms])
  qed
qed

text \<open>A two-byte trailer makes the pair a codec.\<close>

definition message_build_with :: "bytes \<Rightarrow> modbus_message \<Rightarrow> bytes py" where
  "message_build_with t m = bindE (message_build m) (\<lambda>b. Inr (b @ t))"

lemma message_codec_laws:
  "length t = 2 \<Longrightarrow> wire_codec (message_build_with t) message_parse valid_message"
  by unfold_locales (auto simp: message_build_with_def message_build_valid message_parse_built)

interpretation message_codec: wire_codec "message_build_with [0, 0]" message_parse valid_message
  by (rule message_codec_laws) simp

text \<open>The reference reading of a register: the first block whose range contains it.\<close>

definition register_block :: "modbus_message \<Rightarrow> int \<Rightarrow> modbus_block option" where
  "register_block m r = find (\<lambda>b. blk_start b \<le> r \<and> r \<le> blk_end b) (msg_blocks m)"

lemma get_data_loop_find:
  "get_data_loop bs pos =
   (case find (\<lambda>b. blk_start b \<le> pos_register pos \<and> pos_register pos \<le> blk_end b) bs of
      None \<Rightarrow> None | Some b \<Rightarrow> block_data b pos)"
  by (induction bs) (auto simp: block_misses_def)

lemma get_data_register_block:
  "get_data m pos =
   (case register_block m (pos_register pos) of None \<Rightarrow> None | Some b \<Rightarrow> block_data b pos)"
proof (cases "msg_blocks m")
  case Nil
  then show ?thesis by (simp add: get_data_def register_block_def)
next
  case (Cons b bs)
  then show ?thesis
    by (cases bs) (auto simp: get_data_def register_block_def get_data_loop_find block_misses_def)
qed

lemma block_data_word:
  assumes "valid_block b" "blk_start b \<le> r" "r \<le> blk_end b"
  shows "block_data b \<lparr>pos_register = r, pos_offset = 0, pos_size = 2\<rparr> =
    Some (take 2 (drop (nat (2 * (r - blk_start b))) (blk_values b)))"
  using assms by (simp add: block_data_def Let_def valid_block_def py_slice_exact algebra_simps)

text \<open>
  What the block loop accepts is exactly the bytes between the two offsets: the blocks, glued
  together again, are that part of the buffer.
\<close>

lemma parse_blocks_exact:
  assumes "parse_blocks buf off acc = Some (acc', off')" "0 \<le> off" "off \<le> int (length buf)"
  shows "\<exists>bs. acc' = acc @ bs \<and> (\<forall>b\<in>set bs. valid_block b) \<and> off \<le> off' \<and>
    off' \<le> int (length buf) \<and>
    drop (nat off) buf = concat (map block_bytes bs) @ drop (nat off') buf"
  using assms
proof (induction buf off acc rule: parse_blocks.induct)
  case (1 buf off acc)
  show ?case
  proof (cases "int (length buf) - off \<ge> min_block_size")
    case False
    with "1.prems" show ?thesis by (subst (asm) parse_blocks.simps) simp
  next
    case True
    with "1.prems"(1) obtain b where b: "block_parse buf off = Some b"
      and rec: "parse_blocks buf (off + block_size b) (acc @ [b]) = Some (acc', off')"
      by (subst (asm) parse_blocks.simps) (simp split: option.splits)
    note val = block_parse_valid [OF b]
    have size: "0 \<le> block_size b" by (simp add: block_size_def)
    obtain bs where bs: "acc' = (acc @ [b]) @ bs" "\<forall>b\<in>set bs. valid_block b"
      "off + block_size b \<le> off'" "off' \<le> int (length buf)"
      "drop (nat (off + block_size b)) buf = concat (map block_bytes bs) @ drop (nat off') buf"
      using "1.IH" [OF True b rec] val "1.prems"(2) size by auto
    have "drop (nat off) buf = take (nat (block_size b)) (drop (nat off) buf)
        @ drop (nat (block_size b)) (drop (nat off) buf)"
      by (rule append_take_drop_id [symmetric])
    also have "drop (nat (block_size b)) (drop (nat off) buf) = drop (nat (off + block_size b)) buf"
      using "1.prems"(2) size by (simp add: nat_add_distrib add.commute)
    finally have "drop (nat off) buf = block_bytes b @ drop (nat (off + block_size b)) buf"
      using val by simp
    then show ?thesis using bs val size by (intro exI [of _ "b # bs"]) simp
  qed
qed

lemma message_parse_blocks:
  assumes "message_parse buf = Some m" "msg_function m \<noteq> PRESET_SINGLE_REGISTER"
  shows "\<exists>t. length t \<in> {0, 2} \<and> (\<forall>b\<in>set (msg_blocks m). valid_block b) \<and>
    drop (if msg_function m = READ_INPUT_REGISTER then 75 else 38) buf =
    concat (map block_bytes (msg_blocks m)) @ t"
proof -
  let ?k = "if msg_function m = READ_INPUT_REGISTER then 75 else 38 :: nat"
  have long: "?k \<le> length buf"
    using assms(1) by (auto simp: message_parse_def parse_body_def metadata_parse_def header_size_def
        metadata_size_def Let_def split: if_splits option.splits)
  have "\<exists>off'. parse_blocks buf (int ?k) [] = Some (msg_blocks m, off') \<and>
      (int (length buf) - off' = 0 \<or> int (length buf) - off' = 2)"
    using assms by (auto simp: message_parse_def parse_body_def header_size_def metadata_size_def
        trailer_size_def Let_def split: if_splits option.splits)
  then obtain off' where off': "parse_blocks buf (int ?k) [] = Some (msg_blocks m, off')"
    "int (length buf) - off' = 0 \<or> int (length buf) - off' = 2" by blast
  have "\<exists>bs. msg_blocks m = [] @ bs \<and> (\<forall>b\<in>set bs. valid_block b) \<and> int ?k \<le> off' \<and>
      off' \<le> int (length buf) \<and>
      drop (nat (int ?k)) buf = concat (map block_bytes bs) @ drop (nat off') buf"
    using long by (intro parse_blocks_exact [OF off'(1)]) auto
  then have exact: "\<forall>b\<in>set (msg_blocks m). valid_block b" "int ?k \<le> off'"
    "drop ?k buf = concat (map block_bytes (msg_blocks m)) @ drop (nat off') buf"
    by auto
  have "length (drop (nat off') buf) \<in> {0, 2}" using off'(2) exact(2) by auto
  then show ?thesis using exact by (intro exI [of _ "drop (nat off') buf"]) simp
qed

text \<open>An acknowledgement that is read is the five bytes at its place.\<close>

lemma write_ack_parse_exact:
  assumes "write_ack_parse buf 0 = Some a"
  shows "\<exists>t. buf = ack_bytes a @ t"
proof -
  have "5 \<le> length buf" using assms by (simp add: write_ack_parse_def write_ack_size_def split: if_splits)
  then obtain a0 a1 a2 a3 a4 t where buf: "buf = a0 # a1 # a2 # a3 # a4 # t"
    by (metis Suc_le_length_iff numeral_eq_Suc pred_numeral_simps BitM.simps(1,2,3) Suc_le_mono le0)
  have "ack_bytes a = [a0, a1, a2, a3, a4]"
    using assms by (auto simp: buf write_ack_parse_def write_ack_size_def u16_at_def u8_at_def ack_bytes_def be16_un16)
  then show ?thesis by (simp add: buf)
qed

lemma message_parse_ack:
  assumes "message_parse buf = Some m" "msg_function m = PRESET_SINGLE_REGISTER"
  shows "\<exists>a t. msg_write_ack m = Some a \<and> msg_blocks m = [] \<and> length t \<in> {0, 2} \<and> drop 38 buf = ack_bytes a @ t"
proof -
  have body: "\<exists>a. msg_write_ack m = Some a \<and> msg_blocks m = [] \<and> write_ack_parse buf 38 = Some a \<and>
      int (length buf) - 38 \<in> {5, 7}" "38 \<le> length buf"
    using assms by (auto simp: message_parse_def parse_body_def header_size_def metadata_size_def write_ack_size_def
        trailer_size_def Let_def split: if_splits option.splits)
  then obtain a where a: "msg_write_ack m = Some a" "msg_blocks m = []" "write_ack_parse buf 38 = Some a"
    "int (length buf) - 38 \<in> {5, 7}" by blast
  have "write_ack_parse (drop 38 buf) 0 = Some a"
    using write_ack_parse_skip [of "take 38 buf" 38 "drop 38 buf"] a(3) body(2) by simp
  then obtain t where t: "drop 38 buf = ack_bytes a @ t" using write_ack_parse_exact by blast
  have "length (drop 38 buf) \<in> {5, 7}" using a(4) body(2) by auto
  then have "length t \<in> {0, 2}" unfolding t by (auto simp: ack_bytes_def)
  then show ?thesis using a t by blast
qed

lemma message_parse_no_ack:
  "message_parse buf = Some m \<Longrightarrow> msg_function m \<noteq> PRESET_SINGLE_REGISTER \<Longrightarrow> msg_write_ack m = None"
  by (auto simp: message_parse_def parse_body_def Let_def split: if_splits option.splits)

section \<open>Properties\<close>

text \<open>C5: A valid message builds, and the packet followed by a trailer parses back to the very
  message exactly when the trailer has two bytes; with any other tail, the empty one included, it
  is rejected.\<close>

theorem modbus_message_roundtrip:
  assumes "valid_message m"
  shows "\<exists>b. message_build m = Inr b \<and>
    (\<forall>t. message_parse (b @ t) = (if length t = 2 then Some m else None))"
  using message_build_valid [OF assms] message_parse_built [OF assms] by auto

theorem modbus_message_roundtrip_witness:
  "\<exists>b. message_build \<lparr>msg_unknown = 1, msg_device_id = ''QMN1'', msg_metadata = None,
      msg_function = READ_HOLDING_REGISTER,
      msg_blocks = [\<lparr>blk_start = 3, blk_end = 3, blk_values = [0, 7]\<rparr>], msg_write_ack = None\<rparr> = Inr b \<and>
    message_parse (b @ [1, 2]) \<noteq> None \<and> message_parse b = None"
proof -
  let ?m = "\<lparr>msg_unknown = 1, msg_device_id = ''QMN1'', msg_metadata = None,
      msg_function = READ_HOLDING_REGISTER,
      msg_blocks = [\<lparr>blk_start = 3, blk_end = 3, blk_values = [0, 7]\<rparr>], msg_write_ack = None\<rparr>"
  have "valid_message ?m" by code_simp
  then obtain b where b: "message_build ?m = Inr b"
    "\<forall>t. message_parse (b @ t) = (if length t = 2 then Some ?m else None)"
    using modbus_message_roundtrip by blast
  have "message_parse (b @ [1, 2]) \<noteq> None" using b(2) by simp
  moreover have "message_parse b = None" using spec [OF b(2), of "[]"] by simp
  ultimately show ?thesis using b(1) by auto
qed

text \<open>C10: Whatever message the parser accepts, what it reads are exactly the bytes of the packet after the header
  (and the metadata of an input-register message), up to an absent or two-byte trailer: the register
  blocks, well formed and laid end to end, or, for the acknowledgement of a single write, the five bytes of
  the acknowledgement. No byte is skipped, repeated or made up.\<close>

theorem modbus_message_exact:
  assumes "message_parse buf = Some m"
  shows "\<exists>t. length t \<in> {0, 2} \<and> (\<forall>b\<in>set (msg_blocks m). valid_block b) \<and>
    drop (if msg_function m = READ_INPUT_REGISTER then 75 else 38) buf =
      (case msg_write_ack m of
         None \<Rightarrow> concat (map block_bytes (msg_blocks m))
       | Some a \<Rightarrow> be16 (ack_register a) @ [word_of_int (ack_status a)] @ be16 (ack_value a)) @ t \<and>
    (msg_write_ack m = None) = (msg_function m \<noteq> PRESET_SINGLE_REGISTER) \<and>
    (if msg_write_ack m = None then True else msg_blocks m = [])"
proof (cases "msg_function m = PRESET_SINGLE_REGISTER")
  case True
  then show ?thesis using message_parse_ack [OF assms True] by (auto simp: ack_bytes_def)
next
  case False
  show ?thesis
    using message_parse_blocks [OF assms False] message_parse_no_ack [OF assms False] False by simp
qed

definition sample_packet :: bytes where
  "sample_packet =
     be16 1 @ be16 7 @ be16 38 @ [1, 3] @ serial_field ''QMN1'' @ be16 3 @ be16 3 @ [0, 7, 9, 9]"

definition sample_ack_packet :: bytes where
  "sample_ack_packet =
     be16 1 @ be16 7 @ be16 37 @ [1, 6] @ serial_field ''QMN1'' @ be16 30 @ [0] @ be16 513 @ [9, 9]"

theorem modbus_message_exact_witness:
  "(case message_parse sample_packet of
      None \<Rightarrow> False
    | Some m \<Rightarrow> \<exists>t. length t \<in> {0, 2} \<and> drop 38 sample_packet = concat (map block_bytes (msg_blocks m)) @ t) \<and>
   (case message_parse sample_ack_packet of
      None \<Rightarrow> False
    | Some m \<Rightarrow> \<exists>t. length t \<in> {0, 2} \<and> drop 38 sample_ack_packet = be16 30 @ [0] @ be16 513 @ t)"
proof -
  have eq: "message_parse sample_packet =
      Some \<lparr>msg_unknown = 1, msg_device_id = ''QMN1'', msg_metadata = None,
        msg_function = READ_HOLDING_REGISTER,
        msg_blocks = [\<lparr>blk_start = 3, blk_end = 3, blk_values = [0, 7]\<rparr>], msg_write_ack = None\<rparr>"
    "message_parse sample_ack_packet =
      Some \<lparr>msg_unknown = 1, msg_device_id = ''QMN1'', msg_metadata = None,
        msg_function = PRESET_SINGLE_REGISTER, msg_blocks = [],
        msg_write_ack = Some \<lparr>ack_register = 30, ack_value = 513, ack_status = 0\<rparr>\<rparr>"
    by code_simp+
  show ?thesis using modbus_message_exact [OF eq(1)] modbus_message_exact [OF eq(2)] by (auto simp: eq)
qed

text \<open>Reading a register of a message finds the first block whose range contains it and returns
  its two bytes at twice the distance from the block's start; the single-block fast path agrees
  with the general loop.\<close>

theorem get_data_spec:
  assumes "\<forall>b\<in>set (msg_blocks m). valid_block b"
  shows "get_data m \<lparr>pos_register = r, pos_offset = 0, pos_size = 2\<rparr> =
    map_option (\<lambda>b. take 2 (drop (nat (2 * (r - blk_start b))) (blk_values b))) (register_block m r)"
proof (cases "register_block m r")
  case None
  then show ?thesis by (simp add: get_data_register_block)
next
  case (Some b)
  then have "b \<in> set (msg_blocks m)" "blk_start b \<le> r" "r \<le> blk_end b"
    by (auto simp: register_block_def find_Some_iff)
  then show ?thesis using assms Some by (simp add: get_data_register_block block_data_word)
qed

theorem get_data_spec_witness:
  "get_data \<lparr>msg_unknown = 1, msg_device_id = ''QMN1'', msg_metadata = None,
      msg_function = READ_HOLDING_REGISTER,
      msg_blocks = [\<lparr>blk_start = 3, blk_end = 3, blk_values = [0, 7]\<rparr>,
                    \<lparr>blk_start = 10, blk_end = 11, blk_values = [1, 2, 3, 4]\<rparr>],
      msg_write_ack = None\<rparr> \<lparr>pos_register = 11, pos_offset = 0, pos_size = 2\<rparr> = Some [3, 4]"
  by (subst get_data_spec) (simp_all add: valid_block_def register_block_def)

end
