(* ===== verification/ModbusFunction.thy ===== *)
theory ModbusFunction
  imports ModbusMessage
begin

text \<open>
  \<open>grobro/model/modbus_function.py\<close>: the commands that read or write registers, with their
  common 42-byte header, and \<open>make_modbus_command\<close> of \<open>grobro/ha/client.py\<close>, which
  builds the single-register ones. A command is accepted with and without a two-byte trailer.
\<close>

section \<open>Definitions\<close>

record command_header =
  ch_msg_len :: int
  ch_function :: modbus_function
  ch_device_raw :: bytes
  ch_first :: int
  ch_second :: int

definition modbus_command_size :: int where
  "modbus_command_size = 42"

definition unpack_command_header :: "bytes \<Rightarrow> (command_header \<times> int) option" where
  "unpack_command_header buffer =
     (let buffer_len = int (length buffer) in
      if buffer_len < modbus_command_size then None
      else (case (u16_at buffer 0, u16_at buffer 2, u16_at buffer 4, u8_at buffer 6, u8_at buffer 7,
                  bytes_at buffer 8 30, u16_at buffer 38, u16_at buffer 40) of
          (Some header_id, Some constant_7, Some len_field, Some device_address, Some function_no,
           Some device_raw, Some first, Some second) \<Rightarrow>
            if header_id \<noteq> 1 \<or> constant_7 \<noteq> 7 \<or> device_address \<noteq> 1 then None
            else (case fn_of_code function_no of
                None \<Rightarrow> None
              | Some function \<Rightarrow>
                  (let core_length = len_field + 6 in
                   if core_length < modbus_command_size then None
                   else if buffer_len \<noteq> core_length \<and> buffer_len \<noteq> core_length + trailer_size
                   then None
                   else Some (\<lparr>ch_msg_len = len_field, ch_function = function,
                               ch_device_raw = device_raw, ch_first = first, ch_second = second\<rparr>,
                              core_length)))
        | _ \<Rightarrow> None))"

record function_multiple =
  fm_device_id :: string
  fm_function :: modbus_function
  fm_start :: int
  fm_end :: int
  fm_values :: bytes

definition multiple_parse :: "bytes \<Rightarrow> function_multiple option" where
  "multiple_parse buffer =
     (case unpack_command_header buffer of
        None \<Rightarrow> None
      | Some (h, core_length) \<Rightarrow>
          if ch_second h < ch_first h then None
          else (let vals = py_slice buffer modbus_command_size core_length in
                if ch_function h = PRESET_MULTIPLE_REGISTER \<and>
                   int (length vals) \<noteq> (ch_second h - ch_first h + 1) * 2 then None
                else Some \<lparr>fm_device_id = parse_serial (ch_device_raw h),
                           fm_function = ch_function h, fm_start = ch_first h,
                           fm_end = ch_second h, fm_values = vals\<rparr>))"

definition pack_command ::
    "int \<Rightarrow> modbus_function \<Rightarrow> string \<Rightarrow> int \<Rightarrow> int \<Rightarrow> bytes py" where
  "pack_command len_field function device_id first second =
     bindE (encode_modbus_device_id device_id) (\<lambda>dev.
     bindE (pack_H 1) (\<lambda>one.
     bindE (pack_H 7) (\<lambda>c7.
     bindE (pack_H len_field) (\<lambda>ml.
     bindE (pack_Bs [1, fn_code function]) (\<lambda>fc.
     bindE (pack_H first) (\<lambda>a.
     bindE (pack_H second) (\<lambda>b.
       Inr (one @ c7 @ ml @ fc @ dev @ a @ b))))))))"

definition multiple_build :: "function_multiple \<Rightarrow> bytes py" where
  "multiple_build m =
     bindE (pack_command (36 + int (length (fm_values m))) (fm_function m) (fm_device_id m)
              (fm_start m) (fm_end m)) (\<lambda>header.
       Inr (header @ fm_values m))"

record function_single =
  fs_device_id :: string
  fs_function :: modbus_function
  fs_register :: int
  fs_value :: int

definition single_parse :: "bytes \<Rightarrow> function_single option" where
  "single_parse buffer =
     (case unpack_command_header buffer of
        None \<Rightarrow> None
      | Some (h, core_length) \<Rightarrow>
          if core_length \<noteq> modbus_command_size then None
          else Some \<lparr>fs_device_id = parse_serial (ch_device_raw h), fs_function = ch_function h,
                     fs_register = ch_first h, fs_value = ch_second h\<rparr>)"

definition single_build :: "function_single \<Rightarrow> bytes py" where
  "single_build s = pack_command 36 (fs_function s) (fs_device_id s) (fs_register s) (fs_value s)"

text \<open>A command without a value repeats the register number in the value field.\<close>

definition make_modbus_command ::
    "string \<Rightarrow> modbus_function \<Rightarrow> int \<Rightarrow> int option \<Rightarrow> function_single" where
  "make_modbus_command device_id func register_no val =
     \<lparr>fs_device_id = device_id, fs_function = func, fs_register = register_no,
      fs_value = (case val of Some v \<Rightarrow> v | None \<Rightarrow> register_no)\<rparr>"

section \<open>The common header on the wire\<close>

definition command_bytes :: "int \<Rightarrow> modbus_function \<Rightarrow> string \<Rightarrow> int \<Rightarrow> int \<Rightarrow> bytes" where
  "command_bytes len_field function device_id first second =
     be16 1 @ be16 7 @ be16 len_field @ [1, word_of_int (fn_code function)] @
     serial_field device_id @ be16 first @ be16 second"

lemma length_command_bytes: "length d \<le> 30 \<Longrightarrow> length (command_bytes n f d a b) = 42"
  by (simp add: command_bytes_def length_serial_field)

lemma pack_command_Inr:
  assumes "wire_serial 30 d" "0 \<le> n" "n \<le> 65535" "0 \<le> a" "a \<le> 65535" "0 \<le> b" "b \<le> 65535"
  shows "pack_command n f d a b = Inr (command_bytes n f d a b)"
  using assms fn_code_byte [of f]
  by (simp add: pack_command_def command_bytes_def pack_H_def pack_B_def serial_field_def
      encode_modbus_device_id_serial)

lemma unpack_command_header_bytes:
  assumes "wire_serial 30 d" "36 \<le> n" "n \<le> 65535" "0 \<le> a" "a \<le> 65535" "0 \<le> b" "b \<le> 65535"
  shows "unpack_command_header (command_bytes n f d a b @ rest) =
    (if int (length rest) \<in> {n - 36, n - 34}
     then Some (\<lparr>ch_msg_len = n, ch_function = f, ch_device_raw = serial_field d, ch_first = a,
                 ch_second = b\<rparr>, n + 6)
     else None)"
proof -
  let ?buf = "command_bytes n f d a b @ rest"
  have field: "length (serial_field d) = 30"
    using assms by (simp add: wire_serial_def length_serial_field)
  have code: "uint (word_of_int (fn_code f) :: byte) = fn_code f"
    using fn_code_byte by (rule uint_word_of_int_byte)
  have reads: "u16_at ?buf 0 = Some 1" "u16_at ?buf 2 = Some 7" "u16_at ?buf 4 = Some n"
    "u8_at ?buf 6 = Some 1" "u8_at ?buf 7 = Some (fn_code f)"
    "bytes_at ?buf 8 30 = Some (serial_field d)" "u16_at ?buf 38 = Some a" "u16_at ?buf 40 = Some b"
    using assms field code by (simp_all add: command_bytes_def wire_reads)
  have len: "length (command_bytes n f d a b) = 42"
    using assms by (simp add: wire_serial_def length_command_bytes)
  show ?thesis
    using assms len
    by (auto simp: unpack_command_header_def reads Let_def modbus_command_size_def trailer_size_def)
qed

section \<open>Round trips\<close>

definition valid_single :: "function_single \<Rightarrow> bool" where
  "valid_single s \<longleftrightarrow>
     wire_serial 30 (fs_device_id s) \<and> 0 \<le> fs_register s \<and> fs_register s \<le> 65535 \<and>
     0 \<le> fs_value s \<and> fs_value s \<le> 65535"

definition single_bytes :: "function_single \<Rightarrow> bytes" where
  "single_bytes s = command_bytes 36 (fs_function s) (fs_device_id s) (fs_register s) (fs_value s)"

lemma single_build_valid: "valid_single s \<Longrightarrow> single_build s = Inr (single_bytes s)"
  by (simp add: single_build_def single_bytes_def valid_single_def pack_command_Inr)

lemma single_parse_bytes:
  assumes "valid_single s"
  shows "single_parse (single_bytes s @ t) = (if length t \<in> {0, 2} then Some s else None)"
proof -
  have serial: "parse_serial (serial_field (fs_device_id s)) = fs_device_id s"
    unfolding serial_field_def using assms
    by (intro parse_serial_padded [where n = 30]) (simp add: valid_single_def)
  have "int (length t) \<in> {36 - 36, 36 - 34} \<longleftrightarrow> length t \<in> {0, 2}" by auto
  then show ?thesis
    using assms serial
    by (simp add: single_parse_def single_bytes_def valid_single_def unpack_command_header_bytes
        modbus_command_size_def)
qed

interpretation single_codec: wire_codec single_build single_parse valid_single
proof unfold_locales
  fix x b
  show "valid_single x \<Longrightarrow> \<exists>b. single_build x = Inr b" by (simp add: single_build_valid)
  show "valid_single x \<Longrightarrow> single_build x = Inr b \<Longrightarrow> single_parse b = Some x"
    using single_parse_bytes [of x "[]"] by (auto simp: single_build_valid)
qed

text \<open>
  A read-back command carries no values; a multiple write carries two bytes per register, and
  a value field of another size is refused.
\<close>

definition valid_multiple :: "function_multiple \<Rightarrow> bool" where
  "valid_multiple m \<longleftrightarrow>
     wire_serial 30 (fm_device_id m) \<and> 0 \<le> fm_start m \<and> fm_start m \<le> fm_end m \<and>
     fm_end m \<le> 65535 \<and> int (length (fm_values m)) \<le> 65499 \<and>
     (fm_function m = PRESET_MULTIPLE_REGISTER \<longrightarrow>
        int (length (fm_values m)) = (fm_end m - fm_start m + 1) * 2)"

definition multiple_bytes :: "function_multiple \<Rightarrow> bytes" where
  "multiple_bytes m =
     command_bytes (36 + int (length (fm_values m))) (fm_function m) (fm_device_id m) (fm_start m)
       (fm_end m) @ fm_values m"

lemma multiple_build_valid: "valid_multiple m \<Longrightarrow> multiple_build m = Inr (multiple_bytes m)"
  by (simp add: multiple_build_def multiple_bytes_def valid_multiple_def pack_command_Inr)

lemma multiple_parse_bytes:
  assumes "valid_multiple m"
  shows "multiple_parse (multiple_bytes m @ t) = (if length t \<in> {0, 2} then Some m else None)"
proof -
  let ?n = "36 + int (length (fm_values m))"
  let ?head = "command_bytes ?n (fm_function m) (fm_device_id m) (fm_start m) (fm_end m)"
  have serial: "parse_serial (serial_field (fm_device_id m)) = fm_device_id m"
    unfolding serial_field_def using assms
    by (intro parse_serial_padded [where n = 30]) (simp add: valid_multiple_def)
  have len: "length ?head = 42"
    using assms by (simp add: valid_multiple_def wire_serial_def length_command_bytes)
  have slice: "py_slice (?head @ fm_values m @ t) 42 (?n + 6) = fm_values m"
    using len by (intro py_slice_append) simp_all
  have "int (length (fm_values m @ t)) \<in> {?n - 36, ?n - 34} \<longleftrightarrow> length t \<in> {0, 2}" by auto
  moreover have "unpack_command_header (?head @ (fm_values m @ t)) =
      (if int (length (fm_values m @ t)) \<in> {?n - 36, ?n - 34}
       then Some (\<lparr>ch_msg_len = ?n, ch_function = fm_function m,
          ch_device_raw = serial_field (fm_device_id m), ch_first = fm_start m,
          ch_second = fm_end m\<rparr>, ?n + 6)
       else None)"
    using assms by (intro unpack_command_header_bytes) (simp_all add: valid_multiple_def)
  ultimately show ?thesis
    using assms serial slice
    by (auto simp: multiple_parse_def multiple_bytes_def valid_multiple_def Let_def
        modbus_command_size_def)
qed

interpretation multiple_codec: wire_codec multiple_build multiple_parse valid_multiple
proof unfold_locales
  fix x b
  show "valid_multiple x \<Longrightarrow> \<exists>b. multiple_build x = Inr b" by (simp add: multiple_build_valid)
  show "valid_multiple x \<Longrightarrow> multiple_build x = Inr b \<Longrightarrow> multiple_parse b = Some x"
    using multiple_parse_bytes [of x "[]"] by (auto simp: multiple_build_valid)
qed

text \<open>Whatever the parsers accept has a header of the exact form and the declared length.\<close>

lemma unpack_command_header_Some:
  "unpack_command_header buf = Some (h, core) \<Longrightarrow>
   core = ch_msg_len h + 6 \<and> 42 \<le> core \<and>
   (int (length buf) = core \<or> int (length buf) = core + 2) \<and>
   0 \<le> ch_first h \<and> ch_first h \<le> 65535 \<and> 0 \<le> ch_second h \<and> ch_second h \<le> 65535"
  by (auto simp: unpack_command_header_def Let_def modbus_command_size_def trailer_size_def
      u16_at_bounds split: if_splits option.splits dest: u16_at_bounds)

lemma multiple_parse_values:
  assumes "multiple_parse buf = Some m"
  shows "fm_start m \<le> fm_end m \<and>
    (fm_function m = PRESET_MULTIPLE_REGISTER \<longrightarrow>
       int (length (fm_values m)) = 2 * (fm_end m - fm_start m + 1))"
  using assms by (auto simp: multiple_parse_def Let_def split: option.splits if_splits)

section \<open>Properties\<close>

text \<open>A single-register command with a well-formed serial and 16-bit fields builds, and parses
  back to itself bare or with a two-byte trailer and with no other tail.\<close>

theorem single_command_roundtrip:
  assumes "valid_single s"
  shows "\<exists>b. single_build s = Inr b \<and> length b = 42 \<and>
    (\<forall>t. single_parse (b @ t) = (if length t \<in> {0, 2} then Some s else None))"
proof -
  have "length (single_bytes s) = 42"
    using assms by (simp add: single_bytes_def valid_single_def wire_serial_def length_command_bytes)
  then show ?thesis using single_build_valid [OF assms] single_parse_bytes [OF assms] by auto
qed

theorem single_command_roundtrip_witness:
  "\<exists>b. single_build (make_modbus_command ''0PVP1'' READ_SINGLE_REGISTER 250 None) = Inr b \<and>
    single_parse b = Some (make_modbus_command ''0PVP1'' READ_SINGLE_REGISTER 250 None)"
proof -
  let ?s = "make_modbus_command ''0PVP1'' READ_SINGLE_REGISTER 250 None"
  have "valid_single ?s" by code_simp
  then obtain b where b: "single_build ?s = Inr b"
    "\<forall>t. single_parse (b @ t) = (if length t \<in> {0, 2} then Some ?s else None)"
    using single_command_roundtrip by blast
  have "single_parse b = Some ?s" using spec [OF b(2), of "[]"] by simp
  with b(1) show ?thesis by auto
qed

text \<open>A multiple-register command builds and parses back to itself bare or with a two-byte
  trailer and with no other tail, and no accepted multiple write carries a value field of a size
  other than two bytes per register.\<close>

theorem multiple_command_roundtrip:
  assumes "valid_multiple m"
  shows "(\<exists>b. multiple_build m = Inr b \<and>
      (\<forall>t. multiple_parse (b @ t) = (if length t \<in> {0, 2} then Some m else None))) \<and>
    (\<forall>buf m'. multiple_parse buf = Some m' \<and> fm_function m' = PRESET_MULTIPLE_REGISTER \<longrightarrow>
      int (length (fm_values m')) = 2 * (fm_end m' - fm_start m' + 1))"
  using multiple_build_valid [OF assms] multiple_parse_bytes [OF assms] multiple_parse_values
  by auto

theorem multiple_command_roundtrip_witness:
  "\<exists>b. multiple_build \<lparr>fm_device_id = ''0PVP1'', fm_function = PRESET_MULTIPLE_REGISTER,
      fm_start = 254, fm_end = 255, fm_values = [0, 1, 0, 2]\<rparr> = Inr b \<and> multiple_parse b \<noteq> None"
proof -
  let ?m = "\<lparr>fm_device_id = ''0PVP1'', fm_function = PRESET_MULTIPLE_REGISTER,
      fm_start = 254, fm_end = 255, fm_values = [0, 1, 0, 2]\<rparr>"
  have "valid_multiple ?m" by code_simp
  then obtain b where b: "multiple_build ?m = Inr b"
    "\<forall>t. multiple_parse (b @ t) = (if length t \<in> {0, 2} then Some ?m else None)"
    using multiple_command_roundtrip [of ?m] by blast
  have "multiple_parse b = Some ?m" using spec [OF b(2), of "[]"] by simp
  with b(1) show ?thesis by auto
qed

end
