(* ===== verification/DeviceFamily.thy ===== *)
theory DeviceFamily
  imports Registers
begin

text \<open>
  \<open>grobro/model/device_family.py\<close>: the registry of device families, the lookup of a serial
  by its prefix and the capabilities derived from the family. The register maps are named by
  \<open>map_id\<close>; what each holds is the argument \<open>maps\<close> of the definitions that look inside
  one, and \<open>runtime_maps\<close> applies the module-level adjustments of
  \<open>growatt_registers.py\<close> to the maps read from the JSON files.
\<close>

section \<open>Definitions\<close>

datatype map_id = NOAH_MAP | NEXA_MAP | NEO_MAP | SPF_MAP | XH2_MAP | MOD_MAP

record device_family =
  df_key :: string
  df_display_name :: string
  df_prefixes :: "string list"
  df_registers :: map_id
  df_dynamic_pv_count :: bool
  df_is_gateway :: bool
  df_noah_protocol :: bool

definition mk_family :: "string \<Rightarrow> string \<Rightarrow> string list \<Rightarrow> map_id \<Rightarrow> device_family" where
  "mk_family key name serials regs =
     \<lparr>df_key = key, df_display_name = name, df_prefixes = serials, df_registers = regs,
      df_dynamic_pv_count = False, df_is_gateway = False, df_noah_protocol = False\<rparr>"

definition device_families :: "device_family list" where
  "device_families =
     [(mk_family ''noah'' ''NOAH'' [''0PVP''] NOAH_MAP)\<lparr>df_noah_protocol := True\<rparr>,
      (mk_family ''nexa'' ''NEXA'' [''0HVR''] NEXA_MAP)\<lparr>df_noah_protocol := True\<rparr>,
      (mk_family ''neo'' ''NEO'' [''QMN'', ''PTQ''] NEO_MAP)\<lparr>df_dynamic_pv_count := True\<rparr>,
      (mk_family ''shinewelink'' ''ShineWeLink'' [''RAQ''] NEO_MAP)\<lparr>df_is_gateway := True\<rparr>,
      mk_family ''spf'' ''SPF'' [''HAQ''] SPF_MAP,
      mk_family ''min_xh2'' ''MIN-XH2'' [''ZGQ''] XH2_MAP,
      (mk_family ''mod'' ''MOD'' [''VWQ''] MOD_MAP)\<lparr>df_dynamic_pv_count := True\<rparr>]"

definition prefix_to_family :: "(string, device_family) dict" where
  "prefix_to_family = concat (map (\<lambda>f. map (\<lambda>p. (p, f)) (df_prefixes f)) device_families)"

definition prefix_lengths :: "nat list" where
  "prefix_lengths = rev (sort (remdups (map (\<lambda>(p, f). length p) prefix_to_family)))"

fun find_family :: "nat list \<Rightarrow> string \<Rightarrow> device_family option" where
  "find_family [] device_id = None"
| "find_family (n # ns) device_id =
     (case dict_get prefix_to_family (take n device_id) of
        Some f \<Rightarrow> Some f
      | None \<Rightarrow> find_family ns device_id)"

definition get_device_family :: "string \<Rightarrow> device_family option" where
  "get_device_family device_id = find_family prefix_lengths device_id"

definition family_test :: "(device_family \<Rightarrow> bool) \<Rightarrow> string \<Rightarrow> bool" where
  "family_test p device_id = (case get_device_family device_id of None \<Rightarrow> False | Some f \<Rightarrow> p f)"

definition is_known_device :: "string \<Rightarrow> bool" where
  "is_known_device device_id \<longleftrightarrow> get_device_family device_id \<noteq> None"

definition is_family :: "string \<Rightarrow> string \<Rightarrow> bool" where
  "is_family device_id family_key = family_test (\<lambda>f. df_key f = family_key) device_id"

definition is_gateway :: "string \<Rightarrow> bool" where
  "is_gateway = family_test df_is_gateway"

definition get_known_registers :: "string \<Rightarrow> map_id option" where
  "get_known_registers device_id = map_option df_registers (get_device_family device_id)"

definition get_device_type_name :: "string \<Rightarrow> string" where
  "get_device_type_name device_id =
     (case get_device_family device_id of Some f \<Rightarrow> df_display_name f | None \<Rightarrow> ''UNKNOWN'')"

definition time_sync_register :: int where
  "time_sync_register = 31"

definition register_map_supports_time_sync :: "'f register_map \<Rightarrow> bool" where
  "register_map_supports_time_sync m =
     (case dict_get (config_registers m) ''system_time'' of
        None \<Rightarrow> False
      | Some r \<Rightarrow> cr_register r = time_sync_register \<and> rd_type (cr_data r) = DT_STRING)"

definition supports_time_sync :: "(map_id \<Rightarrow> 'f register_map) \<Rightarrow> string \<Rightarrow> bool" where
  "supports_time_sync maps =
     family_test (\<lambda>f. \<not> df_is_gateway f \<and> register_map_supports_time_sync (maps (df_registers f)))"

definition uses_dynamic_pv_count :: "string \<Rightarrow> bool" where
  "uses_dynamic_pv_count = family_test df_dynamic_pv_count"

definition uses_noah_protocol :: "string \<Rightarrow> bool" where
  "uses_noah_protocol = family_test df_noah_protocol"

text \<open>The maps as the module leaves them, from the maps the JSON files hold.\<close>

definition runtime_maps ::
    "(map_id \<Rightarrow> 'f register_map) \<Rightarrow> (map_id \<Rightarrow> 'f register_map) py" where
  "runtime_maps raw =
     bindE (runtime_noah_map (raw NOAH_MAP) (raw NEXA_MAP)) (\<lambda>noah.
       Inr (raw(NOAH_MAP := noah, NEO_MAP := hide_mqtt_ip (raw NEO_MAP),
                NEXA_MAP := hide_mqtt_ip (raw NEXA_MAP))))"

section \<open>Lemmas\<close>

lemma prefix_lengths_eq: "prefix_lengths = [4, 3]"
  by code_simp

lemma prefix_to_family_eq:
  "map (\<lambda>(p, f). (p, df_key f)) prefix_to_family =
   [(''0PVP'', ''noah''), (''0HVR'', ''nexa''), (''QMN'', ''neo''), (''PTQ'', ''neo''),
    (''RAQ'', ''shinewelink''), (''HAQ'', ''spf''), (''ZGQ'', ''min_xh2''), (''VWQ'', ''mod'')]"
  by code_simp

lemma prefix_table_distinct: "distinct (map fst prefix_to_family)"
  by code_simp

lemma prefix_table_lengths: "\<forall>(p, f)\<in>set prefix_to_family. length p \<in> {3, 4}"
  by code_simp

text \<open>No prefix of the table is a prefix of another: a serial has at most one.\<close>

lemma prefix_table_free:
  "\<forall>(p, f)\<in>set prefix_to_family. \<forall>(q, g)\<in>set prefix_to_family. prefix p q \<longrightarrow> p = q"
  by code_simp

lemma prefix_take_iff: "prefix p d \<longleftrightarrow> take (length p) d = p"
  by (metis append_eq_conv_conj prefix_def take_is_prefix)

lemma prefix_to_family_iff:
  "(p, f) \<in> set prefix_to_family \<longleftrightarrow> f \<in> set device_families \<and> p \<in> set (df_prefixes f)"
  by (auto simp: prefix_to_family_def)

lemma get_family_Some_iff:
  "get_device_family d = Some f \<longleftrightarrow> (\<exists>p. (p, f) \<in> set prefix_to_family \<and> prefix p d)"
proof
  assume "get_device_family d = Some f"
  then have "dict_get prefix_to_family (take 4 d) = Some f \<or> dict_get prefix_to_family (take 3 d) = Some f"
    by (auto simp: get_device_family_def prefix_lengths_eq split: option.splits)
  then obtain n where "dict_get prefix_to_family (take n d) = Some f" by blast
  then have "(take n d, f) \<in> set prefix_to_family" by (rule map_of_SomeD)
  then show "\<exists>p. (p, f) \<in> set prefix_to_family \<and> prefix p d" using take_is_prefix by blast
next
  assume "\<exists>p. (p, f) \<in> set prefix_to_family \<and> prefix p d"
  then obtain p where p: "(p, f) \<in> set prefix_to_family" "prefix p d" by blast
  have hit: "dict_get prefix_to_family p = Some f"
    using p(1) prefix_table_distinct by simp
  have len: "length p = 3 \<or> length p = 4" using p(1) prefix_table_lengths by auto
  have tk: "take (length p) d = p" using p(2) by (simp add: prefix_take_iff)
  have "dict_get prefix_to_family (take 4 d) = None" if "length p = 3" "take 4 d \<noteq> p"
  proof (rule ccontr)
    assume "dict_get prefix_to_family (take 4 d) \<noteq> None"
    then obtain g where "(take 4 d, g) \<in> set prefix_to_family" by (auto dest: map_of_SomeD)
    moreover have "prefix p (take 4 d)"
      using take_is_prefix [of 3 "take 4 d"] tk that(1) by (simp add: min_def)
    ultimately show False using p(1) prefix_table_free that(2) by blast
  qed
  then show "get_device_family d = Some f"
    using len tk hit
    by (cases "take 4 d = p") (auto simp: get_device_family_def prefix_lengths_eq split: option.splits)
qed

lemma get_family_spec:
  "get_device_family d = Some f \<longleftrightarrow>
   f \<in> set device_families \<and> (\<exists>p\<in>set (df_prefixes f). prefix p d)"
  by (auto simp: get_family_Some_iff prefix_to_family_iff)

lemma family_test_iff: "family_test p d \<longleftrightarrow> (\<exists>f. get_device_family d = Some f \<and> p f)"
  by (auto simp: family_test_def split: option.splits)

lemma time_sync_not_gateway: "supports_time_sync maps d \<Longrightarrow> \<not> is_gateway d"
  by (auto simp: supports_time_sync_def is_gateway_def family_test_iff)

text \<open>A capability of the family is a set of serial prefixes.\<close>

lemma family_test_prefixes:
  "family_test p d \<longleftrightarrow> (\<exists>q\<in>set (concat (map df_prefixes (filter p device_families))). prefix q d)"
  by (auto simp: family_test_iff get_family_spec)

lemma capability_prefixes:
  "concat (map df_prefixes (filter df_is_gateway device_families)) = [''RAQ'']"
  "concat (map df_prefixes (filter df_noah_protocol device_families)) = [''0PVP'', ''0HVR'']"
  "concat (map df_prefixes (filter df_dynamic_pv_count device_families)) = [''QMN'', ''PTQ'', ''VWQ'']"
  by code_simp+

lemma gateway_prefix: "is_gateway d \<longleftrightarrow> prefix ''RAQ'' d"
  unfolding is_gateway_def family_test_prefixes capability_prefixes by simp

lemma noah_protocol_prefix: "uses_noah_protocol d \<longleftrightarrow> prefix ''0PVP'' d \<or> prefix ''0HVR'' d"
  unfolding uses_noah_protocol_def family_test_prefixes capability_prefixes by simp

lemma dynamic_pv_prefix:
  "uses_dynamic_pv_count d \<longleftrightarrow> prefix ''QMN'' d \<or> prefix ''PTQ'' d \<or> prefix ''VWQ'' d"
  unfolding uses_dynamic_pv_count_def family_test_prefixes capability_prefixes by simp

lemma known_device_prefix:
  "is_known_device d \<longleftrightarrow> (\<exists>p\<in>set (map fst prefix_to_family). prefix p d)"
  unfolding is_known_device_def not_None_eq get_family_Some_iff by force

lemma runtime_maps_hide_mqtt_ip:
  "runtime_maps raw = Inr maps \<Longrightarrow> mid \<in> {NOAH_MAP, NEO_MAP, NEXA_MAP} \<Longrightarrow>
   dict_get (config_registers (maps mid)) ''mqtt_ip'' = None"
  by (auto simp: runtime_maps_def bindE_Inr_iff hide_mqtt_ip_def runtime_noah_map_mqtt_ip)

section \<open>Properties\<close>

text \<open>The prefix lookup finds a family exactly when the serial starts with one of the family's
  prefixes; no serial belongs to two families.\<close>

theorem device_family_lookup:
  "(get_device_family d = Some f \<longleftrightarrow>
      f \<in> set device_families \<and> (\<exists>p\<in>set (df_prefixes f). prefix p d)) \<and>
   card {f \<in> set device_families. \<exists>p\<in>set (df_prefixes f). prefix p d} \<le> 1"
proof -
  let ?F = "{f \<in> set device_families. \<exists>p\<in>set (df_prefixes f). prefix p d}"
  have "?F = set_option (get_device_family d)"
    by (auto simp: get_family_spec [symmetric])
  moreover have "card (set_option (get_device_family d)) \<le> 1"
    by (cases "get_device_family d") simp_all
  ultimately have "card ?F \<le> 1" by simp
  then show ?thesis using get_family_spec [of d f] by simp
qed

text \<open>The shared clock write is never offered for a gateway serial, nor for a serial of no known
  family, whatever the register maps hold.\<close>

theorem time_sync_safe:
  "{d. supports_time_sync maps d} \<subseteq> {d. is_known_device d} - {d. prefix ''RAQ'' d}"
  using time_sync_not_gateway
  by (auto simp: gateway_prefix supports_time_sync_def family_test_iff is_known_device_def)

end
