(* ===== verification/Storage.thy ===== *)
theory Storage
  imports Registers
begin

text \<open>
  What the program stores on disk: JSON values as \<open>json.load\<close> returns them, what reading a file
  can answer, and the atomic replacement of a file. A write is the list of file systems a crash
  could leave behind, step by step, with every call that can fail decided by \<open>fs_faults\<close>.
\<close>

section \<open>JSON values\<close>

datatype 'f json =
    JNull
  | JBool bool
  | JInt int
  | JFloat 'f
  | JStr string
  | JArr "'f json list"
  | JObj "(string \<times> 'f json) list"

text \<open>
  \<open>str(v)\<close>; the text of a nested list or object is the argument \<open>rp\<close>, Python's \<open>repr\<close>.
\<close>

definition json_str :: "('f, 'x) float_ops_scheme \<Rightarrow> ('f json \<Rightarrow> string) \<Rightarrow> 'f json \<Rightarrow> string" where
  "json_str F rp v =
     (case v of
        JNull \<Rightarrow> ''None''
      | JBool b \<Rightarrow> (if b then ''True'' else ''False'')
      | JInt n \<Rightarrow> str_of_int n
      | JFloat x \<Rightarrow> fl_str F x
      | JStr s \<Rightarrow> s
      | _ \<Rightarrow> rp v)"

text \<open>\<open>int(v)\<close>; \<open>None\<close> stands for the \<open>TypeError\<close>, \<open>ValueError\<close> or \<open>OverflowError\<close>.\<close>

definition json_int :: "('f, 'x) float_ops_scheme \<Rightarrow> 'f json \<Rightarrow> int option" where
  "json_int F v =
     (case v of
        JBool b \<Rightarrow> Some (if b then 1 else 0)
      | JInt n \<Rightarrow> Some n
      | JFloat x \<Rightarrow> (if fl_finite F x then Some (fl_trunc F x) else None)
      | JStr s \<Rightarrow> py_int_of_str s
      | _ \<Rightarrow> None)"

text \<open>A concrete instance for examples: the floats that are integers.\<close>

definition whole_floats :: "int float_ops" where
  "whole_floats =
     \<lparr>fl_of_int = id, fl_mul = (*), fl_add = (+), fl_round3 = id, fl_finite = (\<lambda>x. True),
      fl_round_int = id, fl_trunc = id, fl_less = (<), fl_eq = (=),
      fl_str = (\<lambda>x. str_of_int x @ ''.0''), fl_minus_273_1 = -273\<rparr>"

definition no_repr :: "int json \<Rightarrow> string" where
  "no_repr v = []"

section \<open>Files\<close>

type_synonym files = "string \<Rightarrow> string option"

datatype file_read = Missing | ReadFails | FileText string

definition read_text :: "files \<Rightarrow> string \<Rightarrow> file_read" where
  "read_text fs path = (case fs path of None \<Rightarrow> Missing | Some t \<Rightarrow> FileText t)"

text \<open>
  Which call of a write fails: \<open>makedirs\<close>, \<open>open\<close>, \<open>write\<close> (after so many characters),
  \<open>flush\<close> or \<open>fsync\<close>, \<open>chmod\<close> (ignored by the code), \<open>replace\<close>, and the final
  \<open>remove\<close> (ignored too).
\<close>

record fs_faults =
  ff_makedirs :: bool
  ff_open :: bool
  ff_write :: "nat option"
  ff_fsync :: bool
  ff_chmod :: bool
  ff_replace :: bool
  ff_remove :: bool

definition no_faults :: fs_faults where
  "no_faults = \<lparr>ff_makedirs = False, ff_open = False, ff_write = None, ff_fsync = False,
     ff_chmod = False, ff_replace = False, ff_remove = False\<rparr>"

definition temp_path :: "string \<Rightarrow> string" where
  "temp_path path = path @ ''.tmp''"

definition remove_temp :: "fs_faults \<Rightarrow> string \<Rightarrow> files \<Rightarrow> files" where
  "remove_temp ft path fs =
     (case fs (temp_path path) of
        None \<Rightarrow> fs
      | Some _ \<Rightarrow> if ff_remove ft then fs else fs(temp_path path := None))"

text \<open>The states the file system goes through and how the call ends.\<close>

definition atomic_write ::
    "fs_faults \<Rightarrow> string \<Rightarrow> string \<Rightarrow> files \<Rightarrow> files list \<times> unit py" where
  "atomic_write ft path content fs =
     (if ff_makedirs ft then ([fs], Inl OSError)
      else if ff_open ft then ([fs, remove_temp ft path fs], Inl OSError)
      else (let opened = fs(temp_path path \<mapsto> '''') in
        (case ff_write ft of
           Some n \<Rightarrow>
             (let part = opened(temp_path path \<mapsto> take n content)
              in ([fs, opened, part, remove_temp ft path part], Inl OSError))
         | None \<Rightarrow>
             (let full = opened(temp_path path \<mapsto> content) in
              if ff_fsync ft \<or> ff_replace ft
              then ([fs, opened, full, remove_temp ft path full], Inl OSError)
              else (let swapped = full(path \<mapsto> content, temp_path path := None)
                    in ([fs, opened, full, swapped, remove_temp ft path swapped], Inr ()))))))"

definition write_result :: "files list \<times> unit py \<Rightarrow> files \<times> unit py" where
  "write_result tr = (last (fst tr), snd tr)"

section \<open>Lemmas\<close>

lemma temp_path_neq [simp]: "temp_path path \<noteq> path" "path \<noteq> temp_path path"
  by (simp_all add: temp_path_def)

lemma remove_temp_other [simp]: "q \<noteq> temp_path path \<Longrightarrow> remove_temp ft path fs q = fs q"
  by (simp add: remove_temp_def split: option.splits)

lemma atomic_write_crash:
  assumes "s \<in> set (fst (atomic_write ft path content fs))"
  shows "s path = fs path \<or> s path = Some content"
    and "q \<noteq> path \<Longrightarrow> q \<noteq> temp_path path \<Longrightarrow> s q = fs q"
  using assms by (auto simp: atomic_write_def Let_def split: if_splits option.splits)

lemma atomic_write_ends:
  "write_result (atomic_write ft path content fs) = (fs', r) \<Longrightarrow>
   (case r of Inr _ \<Rightarrow> fs' path = Some content \<and> fs' (temp_path path) = None
    | Inl e \<Rightarrow> e = OSError \<and> fs' path = fs path \<and>
        (ff_makedirs ft \<or> ff_remove ft \<or> fs' (temp_path path) = None)) \<and>
   (\<forall>q. q \<noteq> path \<longrightarrow> q \<noteq> temp_path path \<longrightarrow> fs' q = fs q)"
  by (auto simp: write_result_def atomic_write_def remove_temp_def Let_def
      split: if_splits option.splits)

lemma atomic_write_no_faults:
  "snd (write_result (atomic_write ft path content fs)) = Inr () \<longleftrightarrow>
   \<not> ff_makedirs ft \<and> \<not> ff_open ft \<and> ff_write ft = None \<and> \<not> ff_fsync ft \<and> \<not> ff_replace ft"
  by (auto simp: write_result_def atomic_write_def Let_def split: option.splits)

section \<open>Properties\<close>

text \<open>C38: Replacing a file is atomic: whichever call fails and wherever a crash stops it, the target
  holds its old content or the complete new one and no other file but the temporary one changes;
  a write that reports success leaves the new content and no temporary file, and a failed one the
  old content.\<close>

theorem atomic_write_safe:
  "list_all (\<lambda>s. s path \<in> {fs path, Some content}) (fst (atomic_write ft path content fs)) \<and>
   (case write_result (atomic_write ft path content fs) of
      (fs', Inr _) \<Rightarrow> fs' = (fs(path \<mapsto> content))(temp_path path := None)
    | (fs', Inl e) \<Rightarrow> e = OSError \<and> fs'(temp_path path := None) = fs(temp_path path := None))"
proof -
  have "list_all (\<lambda>s. s path \<in> {fs path, Some content}) (fst (atomic_write ft path content fs))"
    using atomic_write_crash(1) [of _ ft path content fs] by (auto simp: list_all_iff)
  moreover obtain fs' r where eq: "write_result (atomic_write ft path content fs) = (fs', r)"
    by fastforce
  have "case r of Inr _ \<Rightarrow> fs' = (fs(path \<mapsto> content))(temp_path path := None)
    | Inl e \<Rightarrow> e = OSError \<and> fs'(temp_path path := None) = fs(temp_path path := None)"
    using atomic_write_ends [OF eq] by (cases r) (auto simp: fun_eq_iff)
  ultimately show ?thesis by (simp add: eq)
qed

end
