(* ===== verification/DeviceConfig.thy ===== *)
theory DeviceConfig
  imports Storage
begin

text \<open>
  \<open>grobro/model/device_config.py\<close> and \<open>grobro/ha/config_runtime.py\<close>: the configuration a
  device reports, its storage in \<open>config_<device>.json\<close>, and the cache around it. A
  configuration is the dictionary of its set fields in the order of the class, so two of them are
  equal exactly when Python's dumps of them are. \<open>pydantic\<close>'s JSON text of a dump is the
  argument \<open>dump\<close> and \<open>json.load\<close> the argument \<open>parse\<close>.
\<close>

section \<open>The model class\<close>

type_synonym device_config = "(string, string) dict"

definition device_config_fields :: "string list" where
  "device_config_fields =
     [''data_interval'', ''unknown_5'', ''unknown_6'', ''password'', ''serial_number'',
      ''protocol_version'', ''unknown_10'', ''unknown_11'', ''dns_address'', ''device_type'',
      ''local_ip'', ''unknown_port'', ''mac_address'', ''remote_ip'', ''remote_port'',
      ''remote_url'', ''model_id'', ''sw_version'', ''hw_version'', ''unknown_23'', ''unknown_24'',
      ''subnet_mask'', ''default_gateway'', ''unknown_27'', ''unknown_28'', ''unknown_29'',
      ''timezone'', ''datetime'', ''wifi_signal'', ''raw'']"

definition fill_config :: "(string \<Rightarrow> string option) \<Rightarrow> device_config" where
  "fill_config g = List.map_filter (\<lambda>f. map_option (Pair f) (g f)) device_config_fields"

definition reject_placeholder_serial :: "string option \<Rightarrow> string option" where
  "reject_placeholder_serial v =
     (case v of
        None \<Rightarrow> None
      | Some s \<Rightarrow>
          (let stripped = strip_nul (py_strip s) in
           if stripped = [] then None
           else if list_all (\<lambda>c. c = CHR ''X'') (py_upper stripped) then None
           else Some stripped))"

text \<open>\<open>DeviceConfig(**data)\<close> on string values; keys that are no field are ignored.\<close>

definition make_device_config :: "(string, string) dict \<Rightarrow> device_config" where
  "make_device_config d =
     fill_config (\<lambda>f. if f = ''serial_number'' then reject_placeholder_serial (dict_get d f)
                      else dict_get d f)"

text \<open>
  The same on a decoded JSON object: a field that is neither a string nor null is refused, except
  that the serial number's validator first turns whatever it gets into text.
\<close>

definition config_field_ok :: "(string, 'f json) dict \<Rightarrow> string \<Rightarrow> bool" where
  "config_field_ok d f \<longleftrightarrow>
     f = ''serial_number'' \<or>
     (case dict_get d f of None \<Rightarrow> True | Some JNull \<Rightarrow> True | Some (JStr _) \<Rightarrow> True | _ \<Rightarrow> False)"

definition config_field_text ::
    "('f, 'x) float_ops_scheme \<Rightarrow> ('f json \<Rightarrow> string) \<Rightarrow> (string, 'f json) dict \<Rightarrow> string \<Rightarrow>
     string option" where
  "config_field_text F rp d f =
     (case dict_get d f of
        None \<Rightarrow> None
      | Some JNull \<Rightarrow> None
      | Some v \<Rightarrow>
          if f = ''serial_number'' then reject_placeholder_serial (Some (json_str F rp v))
          else Some (json_str F rp v))"

definition device_config_of_json ::
    "('f, 'x) float_ops_scheme \<Rightarrow> ('f json \<Rightarrow> string) \<Rightarrow> 'f json \<Rightarrow> device_config option" where
  "device_config_of_json F rp j =
     (case j of
        JObj d \<Rightarrow>
          if list_all (config_field_ok d) device_config_fields
          then Some (fill_config (config_field_text F rp d)) else None
      | _ \<Rightarrow> None)"

definition config_device_id :: "device_config \<Rightarrow> string option" where
  "config_device_id cfg = dict_get cfg ''serial_number''"

text \<open>\<open>model_dump(include=...)\<close> with \<open>exclude_none\<close>.\<close>

definition dump_fields :: "string set \<Rightarrow> device_config \<Rightarrow> device_config" where
  "dump_fields names cfg = filter (\<lambda>(k, v). k \<in> names) cfg"

definition persisted_fields :: "device_config \<Rightarrow> device_config" where
  "persisted_fields cfg = filter (\<lambda>(k, v). k \<notin> {''password'', ''raw''}) cfg"

definition config_to_file ::
    "(device_config \<Rightarrow> string) \<Rightarrow> fs_faults \<Rightarrow> string \<Rightarrow> device_config \<Rightarrow> files \<Rightarrow>
     files list \<times> unit py" where
  "config_to_file dump ft path cfg fs = atomic_write ft path (dump (persisted_fields cfg)) fs"

definition config_from_file ::
    "('f, 'x) float_ops_scheme \<Rightarrow> ('f json \<Rightarrow> string) \<Rightarrow> (string \<Rightarrow> 'f json option) \<Rightarrow>
     file_read \<Rightarrow> device_config option" where
  "config_from_file F rp parse r =
     (case r of
        Missing \<Rightarrow> None
      | ReadFails \<Rightarrow> None
      | FileText t \<Rightarrow>
          (case parse t of None \<Rightarrow> None | Some j \<Rightarrow> device_config_of_json F rp j))"

section \<open>The runtime around it\<close>

definition stable_device_fields :: "string set" where
  "stable_device_fields =
     {''serial_number'', ''device_type'', ''model_id'', ''sw_version'', ''hw_version'',
      ''mac_address'', ''protocol_version''}"

definition persisted_runtime_fields :: "string set" where
  "persisted_runtime_fields = insert ''data_interval'' (insert ''local_ip'' stable_device_fields)"

definition persisted_config_data :: "device_config option \<Rightarrow> device_config" where
  "persisted_config_data cfg =
     (case cfg of None \<Rightarrow> [] | Some c \<Rightarrow> dump_fields (stable_device_fields - {''password'', ''raw''}) c)"

definition persisted_runtime_data :: "device_config option \<Rightarrow> device_config" where
  "persisted_runtime_data cfg =
     (case cfg of None \<Rightarrow> [] | Some c \<Rightarrow> dump_fields persisted_runtime_fields c)"

text \<open>The local address is present, as \<open>None\<close> or text, exactly when there is a configuration.\<close>

definition discovery_config_data ::
    "device_config option \<Rightarrow> device_config \<times> string option option" where
  "discovery_config_data cfg =
     (persisted_config_data cfg, map_option (\<lambda>c. dict_get c ''local_ip'') cfg)"

definition merge_config :: "device_config option \<Rightarrow> device_config \<Rightarrow> device_config" where
  "merge_config previous incoming =
     (case previous of
        None \<Rightarrow> incoming
      | Some p \<Rightarrow> make_device_config (dict_update p incoming))"

record 'sig config_store =
  cs_cache :: "(string, device_config) dict"
  cs_snapshots :: "(string, 'sig \<times> device_config) dict"
  cs_dirty :: "string set"

text \<open>The disk as one call sees it: \<open>os.stat\<close> of a path and what loading it answers.\<close>

record 'sig disk_view =
  dv_stat :: "string \<Rightarrow> 'sig option"
  dv_load :: "string \<Rightarrow> device_config option"

definition load_persisted_config ::
    "'sig disk_view \<Rightarrow> string \<Rightarrow> 'sig config_store \<Rightarrow> 'sig config_store \<times> device_config option" where
  "load_persisted_config dv path st =
     (case dv_stat dv path of
        None \<Rightarrow> (st\<lparr>cs_snapshots := dict_pop path (cs_snapshots st)\<rparr>, dv_load dv path)
      | Some signature \<Rightarrow>
          (case dict_get (cs_snapshots st) path of
             Some (s, c) \<Rightarrow>
               if s = signature then (st, Some c)
               else (case dv_load dv path of
                   Some c' \<Rightarrow> (st\<lparr>cs_snapshots := dict_set path (signature, c') (cs_snapshots st)\<rparr>, Some c')
                 | None \<Rightarrow> (st\<lparr>cs_snapshots := dict_pop path (cs_snapshots st)\<rparr>, None))
           | None \<Rightarrow>
               (case dv_load dv path of
                   Some c' \<Rightarrow> (st\<lparr>cs_snapshots := dict_set path (signature, c') (cs_snapshots st)\<rparr>, Some c')
                 | None \<Rightarrow> (st\<lparr>cs_snapshots := dict_pop path (cs_snapshots st)\<rparr>, None))))"

definition config_path :: "string \<Rightarrow> string" where
  "config_path device_id = ''config_'' @ device_id @ ''.json''"

definition persist_device_config ::
    "(device_config \<Rightarrow> string) \<Rightarrow> fs_faults \<Rightarrow> string \<Rightarrow> device_config \<Rightarrow>
     'sig config_store \<times> files \<Rightarrow> ('sig config_store \<times> files) \<times> bool" where
  "persist_device_config dump ft device_id cfg w =
     (case w of (st, fs) \<Rightarrow>
       (case write_result (config_to_file dump ft (config_path device_id) cfg fs) of
          (fs', Inl _) \<Rightarrow> ((st\<lparr>cs_dirty := insert device_id (cs_dirty st)\<rparr>, fs'), False)
        | (fs', Inr _) \<Rightarrow> ((st\<lparr>cs_dirty := cs_dirty st - {device_id}\<rparr>, fs'), True)))"

definition retry_pending_device_config ::
    "(device_config \<Rightarrow> string) \<Rightarrow> fs_faults \<Rightarrow> string \<Rightarrow>
     'sig config_store \<times> files \<Rightarrow> 'sig config_store \<times> files" where
  "retry_pending_device_config dump ft device_id w =
     (if device_id \<in> cs_dirty (fst w)
      then (case dict_get (cs_cache (fst w)) device_id of
          None \<Rightarrow> w
        | Some cfg \<Rightarrow> fst (persist_device_config dump ft device_id cfg w))
      else w)"

text \<open>
  The start-up scan of the working directory: every file \<open>config_<id>.json\<close> that loads is cached
  under its id; the ids are also reported to the inventory, in order.
\<close>

definition config_file_device :: "string \<Rightarrow> string option" where
  "config_file_device filename =
     (if prefix ''config_'' filename \<and> suffix ''.json'' filename \<and>
         length filename > 12
      then Some (take (length filename - 12) (drop 7 filename)) else None)"

fun restore_config_cache ::
    "(string \<Rightarrow> device_config option) \<Rightarrow> string list \<Rightarrow> 'sig config_store \<times> string list \<Rightarrow>
     'sig config_store \<times> string list" where
  "restore_config_cache load [] acc = acc"
| "restore_config_cache load (filename # rest) (st, seen) =
     restore_config_cache load rest
       (case config_file_device filename of
          None \<Rightarrow> (st, seen)
        | Some device_id \<Rightarrow>
            (case load filename of
               None \<Rightarrow> (st, seen)
             | Some cfg \<Rightarrow>
                 (st\<lparr>cs_cache := dict_set device_id cfg (cs_cache st)\<rparr>, seen @ [device_id])))"

section \<open>Lemmas\<close>

lemma device_config_fields_distinct: "distinct device_config_fields"
  by code_simp

lemma map_of_map_filter:
  "distinct fs \<Longrightarrow> map_of (List.map_filter (\<lambda>f. map_option (Pair f) (g f)) fs) f =
   (if f \<in> set fs then g f else None)"
proof (induction fs)
  case (Cons a fs)
  then show ?case by (cases "g a") (auto simp: map_filter_simps)
qed (simp add: map_filter_simps)

lemma fill_config_get:
  "dict_get (fill_config g) f = (if f \<in> set device_config_fields then g f else None)"
  unfolding fill_config_def by (rule map_of_map_filter [OF device_config_fields_distinct])

lemma fill_config_cong:
  "(\<And>f. f \<in> set device_config_fields \<Longrightarrow> g f = h f) \<Longrightarrow> fill_config g = fill_config h"
proof -
  assume eq: "\<And>f. f \<in> set device_config_fields \<Longrightarrow> g f = h f"
  have "\<forall>f\<in>set fs. g f = h f \<Longrightarrow>
      List.map_filter (\<lambda>f. map_option (Pair f) (g f)) fs = List.map_filter (\<lambda>f. map_option (Pair f) (h f)) fs" for fs
    by (induction fs) (auto simp: map_filter_simps split: option.splits)
  then show ?thesis using eq by (simp add: fill_config_def)
qed

lemma filter_fill_config:
  "filter (\<lambda>(k, v). P k) (fill_config g) = fill_config (\<lambda>f. if P f then g f else None)"
proof -
  have "filter (\<lambda>(k, v). P k) (List.map_filter (\<lambda>f. map_option (Pair f) (g f)) fs) =
      List.map_filter (\<lambda>f. map_option (Pair f) (if P f then g f else None)) fs" for fs
    by (induction fs) (auto simp: map_filter_simps split: option.splits)
  then show ?thesis by (simp add: fill_config_def)
qed

text \<open>
  The configurations the program holds: built by the class, hence a fixed point of it once the
  serial number's validator leaves the serial alone.
\<close>

definition canonical_config :: "device_config \<Rightarrow> bool" where
  "canonical_config cfg \<longleftrightarrow> make_device_config cfg = cfg"

lemma make_device_config_get:
  "dict_get (make_device_config d) f =
   (if f \<in> set device_config_fields
    then if f = ''serial_number'' then reject_placeholder_serial (dict_get d f) else dict_get d f
    else None)"
  by (simp add: make_device_config_def fill_config_get)

lemma canonical_serial:
  "canonical_config cfg \<Longrightarrow>
   reject_placeholder_serial (dict_get cfg ''serial_number'') = dict_get cfg ''serial_number''"
  using make_device_config_get [of cfg "''serial_number''"]
  by (simp add: canonical_config_def device_config_fields_def)

lemma canonical_fill: "canonical_config cfg \<Longrightarrow> fill_config (dict_get cfg) = cfg"
  unfolding canonical_config_def
  by (metis (no_types, lifting) fill_config_cong fill_config_get make_device_config_def)

lemma persisted_fields_get:
  "dict_get (persisted_fields cfg) f = (if f \<in> {''password'', ''raw''} then None else dict_get cfg f)"
  by (induction cfg) (auto simp: persisted_fields_def)

lemma persisted_fields_canonical:
  assumes "canonical_config cfg"
  shows "canonical_config (persisted_fields cfg)"
proof -
  have "make_device_config (persisted_fields cfg) =
      fill_config (\<lambda>f. if f \<notin> {''password'', ''raw''} then dict_get cfg f else None)"
    unfolding make_device_config_def using canonical_serial [OF assms]
    by (intro fill_config_cong) (auto simp: persisted_fields_get)
  also have "\<dots> = persisted_fields (fill_config (dict_get cfg))"
    unfolding persisted_fields_def by (rule filter_fill_config [symmetric])
  finally show ?thesis by (simp add: canonical_config_def canonical_fill [OF assms])
qed

text \<open>Reading back the JSON object of a dump is building the class from the dump.\<close>

definition json_of_config :: "device_config \<Rightarrow> 'f json" where
  "json_of_config cfg = JObj (map (\<lambda>(k, v). (k, JStr v)) cfg)"

lemma map_of_JStr: "map_of (map (\<lambda>(k, v). (k, JStr v)) d) f = map_option JStr (map_of d f)"
  by (induction d) auto

lemma device_config_of_dump: "device_config_of_json F rp (json_of_config cfg) = Some (make_device_config cfg)"
proof -
  have "list_all (config_field_ok (map (\<lambda>(k, v). (k, JStr v)) cfg)) device_config_fields"
    by (auto simp: list_all_iff config_field_ok_def map_of_JStr split: option.splits)
  moreover have "fill_config (config_field_text F rp (map (\<lambda>(k, v). (k, JStr v)) cfg)) =
      make_device_config cfg"
    unfolding make_device_config_def
    by (rule fill_config_cong)
       (auto simp: config_field_text_def map_of_JStr json_str_def reject_placeholder_serial_def
         split: option.splits)
  ultimately show ?thesis by (simp add: device_config_of_json_def json_of_config_def)
qed

lemma merge_config_get:
  assumes "f \<in> set device_config_fields" "f \<noteq> ''serial_number''" "distinct (map fst incoming)"
  shows "dict_get (merge_config (Some p) incoming) f =
    (case dict_get incoming f of Some v \<Rightarrow> Some v | None \<Rightarrow> dict_get p f)"
proof -
  have "map_of (rev incoming) = map_of incoming"
    using assms(3) by (rule map_of_rev_keys)
  then show ?thesis
    using assms by (simp add: merge_config_def make_device_config_get dict_get_update map_add_def
        split: option.splits)
qed

text \<open>
  What is assumed of the disk, while it changes between the loads: the stat of a path (its time and size)
  stands for the configuration a load of it gives, \<open>content\<close>. A path without a stat may hold anything.
\<close>

definition stat_names_content ::
    "(string \<Rightarrow> 'sig \<Rightarrow> device_config option) \<Rightarrow> 'sig disk_view \<times> string \<Rightarrow> bool" where
  "stat_names_content content load =
     (case load of (dv, path) \<Rightarrow>
        case dv_stat dv path of None \<Rightarrow> True | Some s \<Rightarrow> dv_load dv path = content path s)"

text \<open>The answers of a sequence of loads, each on the disk of its time.\<close>

fun cached_loads :: "('sig disk_view \<times> string) list \<Rightarrow> 'sig config_store \<Rightarrow> device_config option list" where
  "cached_loads [] st = []"
| "cached_loads ((dv, path) # loads) st =
     (let (st1, answer) = load_persisted_config dv path st in answer # cached_loads loads st1)"

definition snapshots_name ::
    "(string \<Rightarrow> 'sig \<Rightarrow> device_config option) \<Rightarrow> 'sig config_store \<Rightarrow> bool" where
  "snapshots_name content st \<longleftrightarrow>
     (\<forall>path s c. dict_get (cs_snapshots st) path = Some (s, c) \<longrightarrow> content path s = Some c)"

lemma load_persisted_config_sound:
  assumes "snapshots_name content st" "stat_names_content content (dv, path)"
  shows "snapshots_name content (fst (load_persisted_config dv path st)) \<and>
    snd (load_persisted_config dv path st) = dv_load dv path"
  using assms
  by (auto simp: load_persisted_config_def snapshots_name_def stat_names_content_def split: option.splits if_splits prod.splits)

lemma cached_loads_fresh:
  "snapshots_name content st \<Longrightarrow> list_all (stat_names_content content) loads \<Longrightarrow>
   cached_loads loads st = map (\<lambda>(dv, path). dv_load dv path) loads"
proof (induction loads arbitrary: st)
  case (Cons load loads)
  obtain dv path where l: "load = (dv, path)" by fastforce
  then have "stat_names_content content (dv, path)" using Cons.prems(2) by simp
  note sound = load_persisted_config_sound [OF Cons.prems(1) this]
  show ?case using Cons.IH [OF conjunct1 [OF sound]] Cons.prems(2) sound by (simp add: l split_def Let_def)
qed simp

lemma persist_device_config_result:
  "persist_device_config dump ft device_id cfg (st, fs) = ((st', fs'), ok) \<Longrightarrow>
   cs_cache st' = cs_cache st \<and> cs_snapshots st' = cs_snapshots st \<and>
   (\<forall>d. d \<noteq> device_id \<longrightarrow> (d \<in> cs_dirty st') = (d \<in> cs_dirty st)) \<and>
   (device_id \<in> cs_dirty st') = (\<not> ok) \<and>
   (if ok then fs' (config_path device_id) = Some (dump (persisted_fields cfg))
    else fs' (config_path device_id) = fs (config_path device_id))"
  using atomic_write_ends [of ft "config_path device_id" "dump (persisted_fields cfg)" fs]
  by (auto simp: persist_device_config_def config_to_file_def split: prod.splits sum.splits)

section \<open>Properties\<close>

text \<open>A device configuration that was saved successfully is loaded back as it was, without the
  password and the raw packet, whatever happened to be in the file before.\<close>

theorem config_save_load:
  assumes "canonical_config cfg"
    and "parse (dump (persisted_fields cfg)) = Some (json_of_config (persisted_fields cfg))"
    and "write_result (config_to_file dump ft path cfg fs) = (fs', Inr ())"
  shows "config_from_file F rp parse (read_text fs' path) = Some (persisted_fields cfg)"
proof -
  have "fs' path = Some (dump (persisted_fields cfg))"
    using atomic_write_ends [OF assms(3) [unfolded config_to_file_def]] by simp
  then show ?thesis
    using assms(2) persisted_fields_canonical [OF assms(1)]
    by (simp add: config_from_file_def read_text_def device_config_of_dump canonical_config_def)
qed

theorem config_save_load_witness:
  "config_from_file whole_floats no_repr (\<lambda>t. Some (json_of_config [(''serial_number'', ''QMN1'')]))
     (read_text (fst (write_result (config_to_file (\<lambda>c. ''text'') no_faults ''config_QMN1.json''
        [(''password'', ''secret''), (''serial_number'', ''QMN1'')] (\<lambda>p. None)))) ''config_QMN1.json'') =
   Some [(''serial_number'', ''QMN1'')]"
proof -
  let ?cfg = "[(''password'', ''secret''), (''serial_number'', ''QMN1'')]"
  let ?w = "config_to_file (\<lambda>c. ''text'') no_faults ''config_QMN1.json'' ?cfg (\<lambda>p. None)"
  have pf: "persisted_fields ?cfg = [(''serial_number'', ''QMN1'')]" by code_simp
  have canon: "canonical_config ?cfg" by code_simp
  have "snd (write_result ?w) = Inr ()"
    by (simp add: config_to_file_def atomic_write_no_faults no_faults_def)
  then have w: "write_result ?w = (fst (write_result ?w), Inr ())" by (simp add: prod_eq_iff)
  have "config_from_file whole_floats no_repr (\<lambda>t. Some (json_of_config [(''serial_number'', ''QMN1'')]))
      (read_text (fst (write_result ?w)) ''config_QMN1.json'') = Some (persisted_fields ?cfg)"
    by (rule config_save_load [OF canon _ w]) (simp only: pf)
  then show ?thesis by (simp only: pf)
qed

text \<open>C33: Over any sequence of loads of any files, while the disk changes in between, every load through the
  snapshots answers what a fresh load of the file would at that moment. What the code relies on is that the
  stat of a file stands for its content: two moments with the same stat have the same content.\<close>

theorem persisted_config_cache:
  assumes "list_all (stat_names_content content) loads" "cs_snapshots st = []"
  shows "cached_loads loads st = map (\<lambda>(dv, path). dv_load dv path) loads"
  using assms by (intro cached_loads_fresh) (simp_all add: snapshots_name_def)

text \<open>A file that is read, read again from its snapshot, changed, removed, and back with its first content.\<close>

theorem persisted_config_cache_witness:
  "let at = (\<lambda>stat c. (\<lparr>dv_stat = \<lambda>p. stat, dv_load = \<lambda>p. c\<rparr> :: nat disk_view, ''a''));
       old = Some [(''raw'', ''00'')]; new = Some [(''raw'', ''01'')]
   in cached_loads [at (Some 5) old, at (Some 5) old, at (Some 6) new, at None None, at (Some 5) old]
        \<lparr>cs_cache = [], cs_snapshots = [], cs_dirty = {}\<rparr> = [old, old, new, None, old]"
proof -
  let ?at = "\<lambda>stat c. (\<lparr>dv_stat = \<lambda>p. stat, dv_load = \<lambda>p. c\<rparr> :: nat disk_view, ''a'')"
  let ?old = "Some [(''raw'', ''00'')]" and ?new = "Some [(''raw'', ''01'')]"
  let ?loads = "[?at (Some 5) ?old, ?at (Some 5) ?old, ?at (Some 6) ?new, ?at None None, ?at (Some 5) ?old]"
  have "list_all (stat_names_content (\<lambda>path s. if s = 5 then ?old else ?new)) ?loads"
    by (simp add: stat_names_content_def)
  from persisted_config_cache [OF this, of "\<lparr>cs_cache = [], cs_snapshots = [], cs_dirty = {}\<rparr>"]
  show ?thesis by (simp add: Let_def)
qed

text \<open>Merging a partial packet into a known configuration keeps every known field the packet
  does not carry and takes every field it does.\<close>

theorem merge_config_keeps:
  assumes "distinct (map fst incoming)"
  shows "{f \<in> set device_config_fields - {''serial_number''}.
      dict_get (merge_config (Some p) incoming) f \<noteq>
        (case dict_get incoming f of Some v \<Rightarrow> Some v | None \<Rightarrow> dict_get p f)} = {}"
  using merge_config_get [OF _ _ assms, of _ p] by auto

theorem merge_config_keeps_witness:
  "''local_ip'' \<notin> {f \<in> set device_config_fields - {''serial_number''}.
      dict_get (merge_config (Some [(''local_ip'', ''10.0.0.2'')]) [(''sw_version'', ''4.0'')]) f \<noteq>
        (case dict_get [(''sw_version'', ''4.0'')] f of Some v \<Rightarrow> Some v
         | None \<Rightarrow> dict_get [(''local_ip'', ''10.0.0.2'')] f)}"
  by (subst merge_config_keeps) simp_all

end
