(* ===== verification/ConfigParser.thy ===== *)
theory ConfigParser
  imports PacketBuilder DeviceConfig
begin

text \<open>
  \<open>grobro/grobro/parser.py\<close>: the configuration TLVs, the configuration read responses and
  acknowledgements, and the NOAH message types with their dispatcher. Everything a packet can make
  these functions raise is a \<open>ValueError\<close>; \<open>struct\<close> never fails behind the length checks,
  which the lemmas below show.
\<close>

section \<open>Configuration TLVs\<close>

definition config_param_names :: "(int, string) dict" where
  "config_param_names =
     [(4, ''data_interval''), (5, ''unknown_5''), (6, ''unknown_6''), (7, ''password''),
      (8, ''serial_number''), (9, ''protocol_version''), (10, ''unknown_10''), (11, ''unknown_11''),
      (12, ''dns_address''), (13, ''device_type''), (14, ''local_ip''), (15, ''unknown_port''),
      (16, ''mac_address''), (17, ''remote_ip''), (18, ''remote_port''), (19, ''remote_url''),
      (20, ''model_id''), (21, ''sw_version''), (22, ''hw_version''), (23, ''unknown_23''),
      (24, ''unknown_24''), (25, ''subnet_mask''), (26, ''default_gateway''), (27, ''unknown_27''),
      (28, ''unknown_28''), (29, ''unknown_29''), (30, ''timezone''), (31, ''datetime''),
      (76, ''wifi_signal'')]"

definition unscramble :: "bytes \<Rightarrow> bytes" where
  "unscramble decdata = scramble decdata"

definition config_label :: "int \<Rightarrow> string" where
  "config_label key_id =
     (case dict_get config_param_names key_id of
        Some s \<Rightarrow> s | None \<Rightarrow> ''param_'' @ str_of_int key_id)"

text \<open>Printable ASCII between stripped NULs is text, everything else is shown as hex digits.\<close>

definition config_value_text :: "bytes \<Rightarrow> string" where
  "config_value_text raw_val =
     (case decode_strict raw_val of
        None \<Rightarrow> py_hex raw_val
      | Some s \<Rightarrow>
          (let v = strip_nul s in
           if list_ex (\<lambda>c. (of_char c :: nat) < 32 \<or> (of_char c :: nat) > 126) v
           then py_hex raw_val else v))"

function config_tlvs ::
    "bytes \<Rightarrow> int \<Rightarrow> (string, string) dict \<Rightarrow> bool \<Rightarrow> (string, string) dict \<times> bool" where
  "config_tlvs dat offset config any_params =
     (if 0 \<le> offset \<and> offset + 4 \<le> int (length dat) then
        (let key_id = unsigned_be (py_slice dat offset (offset + 2));
             key_len = unsigned_be (py_slice dat (offset + 2) (offset + 4));
             start = offset + 4 in
         if key_len = 0 \<or> key_len > 512 \<or> start + key_len > int (length dat) then (config, any_params)
         else config_tlvs dat (start + key_len)
                (dict_set (config_label key_id)
                   (config_value_text (py_slice dat start (start + key_len))) config) True)
      else (config, any_params))"
  by pat_completeness auto
termination
proof (relation "measure (\<lambda>(dat, offset, c, a). nat (int (length dat) - offset))", goal_cases)
  case (2 dat offset c a k l s)
  then show ?case using unsigned_be_bounds [of "py_slice dat (offset + 2) (offset + 4)"] by auto
qed simp

declare config_tlvs.simps [simp del]

definition parse_config_type :: "bytes \<Rightarrow> int \<Rightarrow> device_config" where
  "parse_config_type dat offset =
     (let (config, any_params) = config_tlvs dat offset [] False
      in make_device_config
           (if any_params then config else dict_set ''raw'' (py_hex (py_from dat offset)) config))"

definition plausible_tlv :: "bytes \<Rightarrow> int \<Rightarrow> bool" where
  "plausible_tlv dat i =
     (case (u16_at dat i, u16_at dat (i + 2)) of
        (Some key, Some len) \<Rightarrow> 0 < key \<and> key < 1000 \<and> 0 < len \<and> len < 256
      | _ \<Rightarrow> False)"

definition find_config_offset :: "bytes \<Rightarrow> int" where
  "find_config_offset dat =
     (case find (\<lambda>i. plausible_tlv dat (int i)) [0x1C..<length dat - 4] of
        Some i \<Rightarrow> int i | None \<Rightarrow> 0x1C)"

section \<open>Configuration read responses\<close>

record config_entry =
  ce_register :: int
  ce_value :: string

record config_message =
  cm_header :: bytes
  cm_message_length :: int
  cm_message_type :: int
  cm_device_id :: string
  cm_config_type :: int
  cm_register :: int
  cm_value :: string
  cm_entries :: "config_entry list"

definition response_header_size :: int where
  "response_header_size = 41"

definition legacy_header_size :: int where
  "legacy_header_size = 45"

text \<open>The 16-byte device field of the common header, and the text of a value.\<close>

definition device_field :: "bytes \<Rightarrow> string" where
  "device_field raw = decode_replace (rstrip_zero raw)"

definition value_text :: "bytes \<Rightarrow> string" where
  "value_text raw = strip_nul (decode_replace raw)"

function response_entries :: "bytes \<Rightarrow> int \<Rightarrow> int \<Rightarrow> config_entry list \<Rightarrow> config_entry list" where
  "response_entries dat pos stop entries =
     (if pos + 4 \<le> stop then
        (case (u16_at dat pos, u16_at dat (pos + 2)) of
           (Some register_no, Some value_len) \<Rightarrow>
             if value_len \<le> 0 \<or> pos + 4 + value_len > stop then entries
             else response_entries dat (pos + 4 + value_len) stop
                    (entries @ [\<lparr>ce_register = register_no,
                       ce_value = value_text (py_slice dat (pos + 4) (pos + 4 + value_len))\<rparr>])
         | _ \<Rightarrow> entries)
      else entries)"
  by pat_completeness auto
termination
  by (relation "measure (\<lambda>(dat, pos, stop, e). nat (stop - pos))") (auto dest: u16_at_bounds)

declare response_entries.simps [simp del]

definition legacy_entries :: "bytes \<Rightarrow> config_entry list py" where
  "legacy_entries dat =
     (if int (length dat) < legacy_header_size + 2 then Inl ValueError
      else (case u16_at dat 41 of
          None \<Rightarrow> Inl StructError
        | Some register_no \<Rightarrow>
            Inr [\<lparr>ce_register = register_no, ce_value = value_text (py_slice dat legacy_header_size (-2))\<rparr>]))"

definition parse_config_message :: "bytes \<Rightarrow> config_message py" where
  "parse_config_message dat =
     (if int (length dat) < response_header_size + 4 + 2 then Inl ValueError
      else (case (bytes_at dat 0 4, u16_at dat 4, u16_at dat 6, bytes_at dat 8 16, u16_at dat 38) of
          (Some header, Some len_field, Some msg_type, Some device_id, Some config_type) \<Rightarrow>
            (let found = response_entries dat response_header_size (int (length dat) - 2) [] in
             bindE (if found = [] then legacy_entries dat else Inr found) (\<lambda>entries.
               Inr \<lparr>cm_header = header, cm_message_length = len_field, cm_message_type = msg_type,
                    cm_device_id = device_field device_id, cm_config_type = config_type,
                    cm_register = ce_register (hd entries), cm_value = ce_value (hd entries),
                    cm_entries = entries\<rparr>))
        | _ \<Rightarrow> Inl StructError))"

record config_ack =
  ca_header :: bytes
  ca_message_length :: int
  ca_message_type :: int
  ca_device_id :: string
  ca_register :: int

definition parse_config_ack :: "bytes \<Rightarrow> config_ack py" where
  "parse_config_ack dat =
     (if length dat < 40 then Inl ValueError
      else (case (bytes_at dat 0 4, u16_at dat 4, u16_at dat 6, bytes_at dat 8 16, u16_at dat 38) of
          (Some header, Some len_field, Some msg_type, Some device_id, Some register_no) \<Rightarrow>
            Inr \<lparr>ca_header = header, ca_message_length = len_field, ca_message_type = msg_type,
                 ca_device_id = device_field device_id, ca_register = register_no\<rparr>
        | _ \<Rightarrow> Inl StructError))"

section \<open>NOAH messages\<close>

datatype noah_message =
    Noah0103 string "int list"
  | Noah0110 string "(int, int) dict"
  | Noah0125 string bool
  | NoahFE18Short
  | NoahFE18 string int int int int string
  | NoahFE19Short
  | NoahFE19 string int device_config int
  | NoahFE25 string nat bool
  | Noah6F64Short
  | Noah6F64Long string string
  | Noah6F64 string string string int string

fun words_of :: "bytes \<Rightarrow> int list" where
  "words_of (hi # lo # rest) = un16 hi lo # words_of rest"
| "words_of _ = []"

definition header_device :: "bytes \<Rightarrow> string" where
  "header_device dat = device_field (py_slice dat 8 24)"

definition parse_noah_0103 :: "bytes \<Rightarrow> noah_message" where
  "parse_noah_0103 dat = Noah0103 (device_field (py_slice dat 38 54)) (words_of (py_from dat 54))"

fun register_pairs :: "bytes \<Rightarrow> (int, int) dict \<Rightarrow> (int, int) dict" where
  "register_pairs (a # b # c # d # rest) regs = register_pairs rest (dict_set (un16 a b) (un16 c d) regs)"
| "register_pairs _ regs = regs"

definition parse_noah_0110 :: "bytes \<Rightarrow> noah_message" where
  "parse_noah_0110 dat =
     Noah0110 (header_device dat) (register_pairs (py_from (py_from dat 24) 14) [])"

definition parse_noah_0125 :: "bytes \<Rightarrow> noah_message" where
  "parse_noah_0125 dat =
     (let payload = py_from dat 24 in
      if length payload < 30 then Noah0125 '''' True
      else Noah0125 (device_field (py_slice payload 14 30)) False)"

definition u16_or_zero :: "bytes \<Rightarrow> int \<Rightarrow> int" where
  "u16_or_zero b i = (case u16_at b i of Some n \<Rightarrow> n | None \<Rightarrow> 0)"

definition parse_noah_fe18 :: "bytes \<Rightarrow> noah_message" where
  "parse_noah_fe18 dat =
     (let payload = py_from dat 24 in
      if length payload < 18 then NoahFE18Short
      else NoahFE18 (header_device dat) (u16_or_zero payload 14) (u16_or_zero payload 16)
             (if length payload \<ge> 20 then u16_or_zero payload 18 else 0)
             (if length payload \<ge> 22 then u16_or_zero payload 20 else 0)
             (if length payload \<ge> 41 then decode_replace (py_slice payload 22 41) else ''''))"

definition parse_noah_fe19 :: "bytes \<Rightarrow> noah_message" where
  "parse_noah_fe19 dat =
     (let payload = py_from dat 24 in
      if length payload < 18 then NoahFE19Short
      else (let tlv_offset = find_config_offset payload
            in NoahFE19 (header_device dat) (u16_or_zero payload 14)
                 (parse_config_type payload tlv_offset) tlv_offset))"

definition parse_noah_fe25 :: "bytes \<Rightarrow> noah_message" where
  "parse_noah_fe25 dat =
     (let payload = py_from dat 24;
          check_len = max 0 (min 40 (int (length payload) - 4));
          payload_body = py_slice payload 0 check_len
      in NoahFE25 (header_device dat) (length payload) (list_all (\<lambda>b. b = 0) payload_body))"

definition pad_zeros :: "nat \<Rightarrow> int \<Rightarrow> string" where
  "pad_zeros n v = (let s = str_of_int v in replicate (n - length s) (CHR ''0'') @ s)"

definition meter_timestamp :: "bytes \<Rightarrow> string" where
  "meter_timestamp dat =
     (let f = (\<lambda>i. case u8_at dat i of Some n \<Rightarrow> n | None \<Rightarrow> 0) in
      pad_zeros 4 (2000 + f 68) @ ''-'' @ pad_zeros 2 (f 69) @ ''-'' @ pad_zeros 2 (f 70) @ ''T'' @
      pad_zeros 2 (f 71) @ '':'' @ pad_zeros 2 (f 72) @ '':'' @ pad_zeros 2 (f 73) @ ''.'' @
      pad_zeros 3 (f 74))"

definition parse_noah_6f64 :: "bytes \<Rightarrow> noah_message" where
  "parse_noah_6f64 dat =
     (if length dat < 81 then Noah6F64Short
      else (let device_id = device_field (py_slice dat 8 38);
                smart_meter_sn = device_field (py_slice dat 38 68);
                json_len = 65536 * u16_or_zero dat 75 + u16_or_zero dat 77;
                json_end = 79 + json_len in
            if json_end > int (length dat) - 2 then Noah6F64Long device_id smart_meter_sn
            else Noah6F64 device_id smart_meter_sn (meter_timestamp dat) json_len
                   (decode_replace (py_slice dat 79 json_end))))"

definition noah_decoders :: "(int, bytes \<Rightarrow> noah_message) dict" where
  "noah_decoders =
     [(0x0103, parse_noah_0103), (0x0110, parse_noah_0110), (0x0125, parse_noah_0125),
      (0xFE18, parse_noah_fe18), (0xFE19, parse_noah_fe19), (0xFE25, parse_noah_fe25),
      (0x6F64, parse_noah_6f64)]"

definition parse_noah_message :: "bytes \<Rightarrow> noah_message option" where
  "parse_noah_message dat =
     (case u16_at dat 6 of
        None \<Rightarrow> None
      | Some msg_type \<Rightarrow> map_option (\<lambda>decoder. decoder dat) (dict_get noah_decoders msg_type))"

section \<open>Lemmas\<close>

definition tlv_bytes :: "int \<times> bytes \<Rightarrow> bytes" where
  "tlv_bytes kv = be16 (fst kv) @ be16 (int (length (snd kv))) @ snd kv"

definition tlv_ok :: "int \<times> bytes \<Rightarrow> bool" where
  "tlv_ok kv \<longleftrightarrow> 0 \<le> fst kv \<and> fst kv \<le> 65535 \<and> snd kv \<noteq> [] \<and> length (snd kv) \<le> 512"

lemma length_tlv_bytes: "length (tlv_bytes kv) = 4 + length (snd kv)"
  by (simp add: tlv_bytes_def)

lemma tlv_slices:
  assumes "tlv_ok kv" "off = int (length pre)"
  shows "unsigned_be (py_slice (pre @ tlv_bytes kv @ rest) off (off + 2)) = fst kv"
    and "unsigned_be (py_slice (pre @ tlv_bytes kv @ rest) (off + 2) (off + 4)) = int (length (snd kv))"
    and "py_slice (pre @ tlv_bytes kv @ rest) (off + 4) (off + 4 + int (length (snd kv))) = snd kv"
    and "u16_at (pre @ tlv_bytes kv @ rest) off = Some (fst kv)"
    and "u16_at (pre @ tlv_bytes kv @ rest) (off + 2) = Some (int (length (snd kv)))"
proof -
  have a: "py_slice (pre @ be16 (fst kv) @ (be16 (int (length (snd kv))) @ snd kv @ rest)) off (off + 2) =
      be16 (fst kv)" using assms by (intro py_slice_append) simp_all
  have b: "py_slice ((pre @ be16 (fst kv)) @ be16 (int (length (snd kv))) @ (snd kv @ rest)) (off + 2) (off + 4) =
      be16 (int (length (snd kv)))" using assms by (intro py_slice_append) simp_all
  have c: "py_slice ((pre @ be16 (fst kv) @ be16 (int (length (snd kv)))) @ snd kv @ rest) (off + 4)
      (off + 4 + int (length (snd kv))) = snd kv" using assms by (intro py_slice_append) simp_all
  show "unsigned_be (py_slice (pre @ tlv_bytes kv @ rest) off (off + 2)) = fst kv"
    using a assms by (simp add: tlv_bytes_def unsigned_be_be16 tlv_ok_def)
  show "unsigned_be (py_slice (pre @ tlv_bytes kv @ rest) (off + 2) (off + 4)) = int (length (snd kv))"
    using b assms by (simp add: tlv_bytes_def unsigned_be_be16 tlv_ok_def)
  show "py_slice (pre @ tlv_bytes kv @ rest) (off + 4) (off + 4 + int (length (snd kv))) = snd kv"
    using c by (simp add: tlv_bytes_def)
  show "u16_at (pre @ tlv_bytes kv @ rest) off = Some (fst kv)"
    "u16_at (pre @ tlv_bytes kv @ rest) (off + 2) = Some (int (length (snd kv)))"
    using assms by (simp_all add: tlv_bytes_def tlv_ok_def wire_reads)
qed

definition add_tlv :: "int \<times> bytes \<Rightarrow> (string, string) dict \<Rightarrow> (string, string) dict" where
  "add_tlv kv = dict_set (config_label (fst kv)) (config_value_text (snd kv))"

lemma config_tlvs_concat:
  assumes "\<forall>kv\<in>set es. tlv_ok kv" "length rest < 4" "off = int (length pre)"
  shows "config_tlvs (pre @ concat (map tlv_bytes es) @ rest) off config any =
    (fold add_tlv es config, any \<or> es \<noteq> [])"
  using assms
proof (induction es arbitrary: pre off config any)
  case Nil
  then show ?case by (subst config_tlvs.simps) simp
next
  case (Cons kv es)
  let ?rest = "concat (map tlv_bytes es) @ rest"
  note slices = tlv_slices [of kv off pre ?rest]
  have kv: "tlv_ok kv" "snd kv \<noteq> []" "length (snd kv) \<le> 512" using Cons.prems by (auto simp: tlv_ok_def)
  have "config_tlvs ((pre @ tlv_bytes kv) @ ?rest) (off + 4 + int (length (snd kv))) (add_tlv kv config) True =
      (fold add_tlv es (add_tlv kv config), True \<or> es \<noteq> [])"
    using Cons.prems by (intro Cons.IH) (simp_all add: length_tlv_bytes)
  then show ?case
    using Cons.prems kv slices
    by (subst config_tlvs.simps) (simp add: Let_def length_tlv_bytes add_tlv_def)
qed

lemma response_entries_concat:
  assumes "\<forall>kv\<in>set es. tlv_ok kv" "pos = int (length pre)"
    and "stop = int (length (pre @ concat (map tlv_bytes es)))"
  shows "response_entries (pre @ concat (map tlv_bytes es) @ rest) pos stop acc =
    acc @ map (\<lambda>kv. \<lparr>ce_register = fst kv, ce_value = value_text (snd kv)\<rparr>) es"
  using assms
proof (induction es arbitrary: pre pos acc)
  case Nil
  then show ?case by (subst response_entries.simps) simp
next
  case (Cons kv es)
  let ?rest = "concat (map tlv_bytes es) @ rest"
  let ?e = "\<lparr>ce_register = fst kv, ce_value = value_text (snd kv)\<rparr>"
  note slices = tlv_slices [of kv pos pre ?rest]
  have kv: "tlv_ok kv" "snd kv \<noteq> []" using Cons.prems by (auto simp: tlv_ok_def)
  have "response_entries ((pre @ tlv_bytes kv) @ ?rest) (pos + 4 + int (length (snd kv))) stop (acc @ [?e]) =
      (acc @ [?e]) @ map (\<lambda>kv. \<lparr>ce_register = fst kv, ce_value = value_text (snd kv)\<rparr>) es"
    using Cons.prems by (intro Cons.IH) (simp_all add: length_tlv_bytes)
  then show ?case
    using Cons.prems kv slices
    by (subst response_entries.simps) (simp add: length_tlv_bytes)
qed

text \<open>The reads of a packet that is long enough never fail.\<close>

lemma u16_at_in: "0 \<le> i \<Longrightarrow> i + 2 \<le> int (length b) \<Longrightarrow> \<exists>n. u16_at b i = Some n"
  by (simp add: u16_at_def)

lemma bytes_at_in: "0 \<le> i \<Longrightarrow> i + n \<le> int (length b) \<Longrightarrow> \<exists>x. bytes_at b i n = Some x"
  by (simp add: bytes_at_def)

lemma config_header_reads:
  "40 \<le> length dat \<Longrightarrow> \<exists>a b c d f. bytes_at dat 0 4 = Some a \<and> u16_at dat 4 = Some b \<and>
     u16_at dat 6 = Some c \<and> bytes_at dat 8 16 = Some d \<and> u16_at dat 38 = Some f"
  by (simp add: u16_at_def bytes_at_def)

lemma parse_config_message_total:
  "parse_config_message dat = Inl e \<longleftrightarrow> length dat < 47 \<and> e = ValueError"
proof (cases "length dat < 47")
  case True
  then show ?thesis by (auto simp: parse_config_message_def response_header_size_def)
next
  case False
  then obtain a b c d f where
    "bytes_at dat 0 4 = Some a" "u16_at dat 4 = Some b" "u16_at dat 6 = Some c"
    "bytes_at dat 8 16 = Some d" "u16_at dat 38 = Some f"
    using config_header_reads [of dat] by auto
  moreover obtain g where "u16_at dat 41 = Some g" using u16_at_in [of 41 dat] False by auto
  ultimately show ?thesis
    using False
    by (cases "response_entries dat 41 (int (length dat) - 2) [] = []")
       (simp_all add: parse_config_message_def response_header_size_def legacy_header_size_def
         legacy_entries_def Let_def)
qed

lemma find_config_offset_spec:
  "find_config_offset dat = i \<longleftrightarrow>
   (if \<exists>j\<in>{28..<length dat - 4}. plausible_tlv dat (int j)
    then i = int (LEAST j. 28 \<le> j \<and> j < length dat - 4 \<and> plausible_tlv dat (int j))
    else i = 28)"
proof (cases "find (\<lambda>i. plausible_tlv dat (int i)) [0x1C..<length dat - 4]")
  case None
  then have "\<not> (\<exists>j\<in>{28..<length dat - 4}. plausible_tlv dat (int j))"
    by (auto simp: find_None_iff)
  with None show ?thesis by (auto simp: find_config_offset_def)
next
  case (Some j)
  then obtain k where k: "k < length [28..<length dat - 4]" "plausible_tlv dat (int ([28..<length dat - 4] ! k))"
    "j = [28..<length dat - 4] ! k" "\<forall>l<k. \<not> plausible_tlv dat (int ([28..<length dat - 4] ! l))"
    by (auto simp: find_Some_iff)
  have j: "28 \<le> j" "j < length dat - 4" "plausible_tlv dat (int j)" using k by auto
  have first: "j \<le> m" if "28 \<le> m" "m < length dat - 4" "plausible_tlv dat (int m)" for m
  proof (rule ccontr)
    assume "\<not> j \<le> m"
    then have "m - 28 < k" using k(1,3) that by simp
    then have "\<not> plausible_tlv dat (int ([28..<length dat - 4] ! (m - 28)))" using k(4) by blast
    then show False using that by simp
  qed
  have "(LEAST j. 28 \<le> j \<and> j < length dat - 4 \<and> plausible_tlv dat (int j)) = j"
    using j first by (intro Least_equality) auto
  moreover have "\<exists>j\<in>{28..<length dat - 4}. plausible_tlv dat (int j)" using j by auto
  ultimately show ?thesis using Some by (auto simp: find_config_offset_def)
qed

section \<open>Properties\<close>

text \<open>A block of configuration TLVs is parsed completely: every value lands in the field of its
  parameter number, a later value replacing an earlier one, and nothing else is set.\<close>

theorem config_block_parsed:
  assumes "\<forall>kv\<in>set es. tlv_ok kv" "es \<noteq> []" "length rest < 4"
  shows "parse_config_type (pre @ concat (map tlv_bytes es) @ rest) (int (length pre)) =
    make_device_config (fold (\<lambda>(k, v). dict_set (config_label k) (config_value_text v)) es [])"
proof -
  have "fold (\<lambda>(k, v). dict_set (config_label k) (config_value_text v)) es [] = fold add_tlv es []"
    by (intro fold_cong) (auto simp: add_tlv_def)
  then show ?thesis
    using assms by (simp add: parse_config_type_def config_tlvs_concat)
qed

theorem config_block_parsed_witness:
  "dict_get (parse_config_type (replicate 28 0 @ [0, 8, 0, 4] @ map byte_of_char ''QMN1'' @
      [0, 14, 0, 3] @ map byte_of_char ''1.2'') 28) ''local_ip'' = Some ''1.2''"
proof -
  let ?es = "[(8, map byte_of_char ''QMN1''), (14, map byte_of_char ''1.2'')] :: (int \<times> bytes) list"
  have "\<forall>kv\<in>set ?es. tlv_ok kv" by code_simp
  then have "parse_config_type (replicate 28 0 @ concat (map tlv_bytes ?es) @ []) (int (length (replicate 28 (0 :: byte)))) =
      make_device_config (fold (\<lambda>(k, v). dict_set (config_label k) (config_value_text v)) ?es [])"
    by (rule config_block_parsed) simp_all
  moreover have "dict_get (make_device_config (fold (\<lambda>(k, v). dict_set (config_label k) (config_value_text v)) ?es []))
      ''local_ip'' = Some ''1.2''" by code_simp
  moreover have "concat (map tlv_bytes ?es) = [0, 8, 0, 4] @ map byte_of_char ''QMN1'' @
      [0, 14, 0, 3] @ map byte_of_char ''1.2''" by code_simp
  ultimately show ?thesis by simp
qed

text \<open>A configuration read response yields every register/value pair between its 41-byte header
  and its two-byte trailer, in order, and its first pair under the historic names.\<close>

theorem config_response_entries:
  assumes "length h = 41" "length t = 2" "es \<noteq> []" "\<forall>kv\<in>set es. tlv_ok kv"
  shows "case parse_config_message (h @ concat (map tlv_bytes es) @ t) of
      Inl e \<Rightarrow> False
    | Inr m \<Rightarrow>
        cm_entries m = map (\<lambda>kv. \<lparr>ce_register = fst kv, ce_value = value_text (snd kv)\<rparr>) es \<and>
        cm_register m = fst (hd es) \<and> cm_value m = value_text (snd (hd es)) \<and>
        cm_device_id m = device_field (take 16 (drop 8 h))"
proof -
  let ?d = "h @ concat (map tlv_bytes es) @ t"
  obtain kv es' where es: "es = kv # es'" using assms(3) by (cases es) auto
  have long: "47 \<le> length ?d" using assms es by (simp add: length_tlv_bytes tlv_ok_def Suc_le_eq)
  have entries: "response_entries ?d 41 (int (length ?d) - 2) [] =
      map (\<lambda>kv. \<lparr>ce_register = fst kv, ce_value = value_text (snd kv)\<rparr>) es"
    using response_entries_concat [of es 41 h "int (length ?d) - 2" t "[]"] assms by simp
  obtain a b c f where reads: "bytes_at ?d 0 4 = Some a" "u16_at ?d 4 = Some b" "u16_at ?d 6 = Some c"
      "u16_at ?d 38 = Some f"
    using config_header_reads [of ?d] long by auto
  have dev: "bytes_at ?d 8 16 = Some (take 16 (drop 8 h))"
    using assms(1) by (simp add: bytes_at_def)
  show ?thesis
    using long entries reads dev es
    by (simp add: parse_config_message_def response_header_size_def Let_def)
qed

theorem config_response_entries_witness:
  "case parse_config_message (replicate 41 0 @ concat (map tlv_bytes [(76, [45, 54]), (5, [49])]) @ [1, 2]) of
     Inl e \<Rightarrow> False
   | Inr m \<Rightarrow> map ce_register (cm_entries m) = [76, 5]"
proof -
  have "\<forall>kv\<in>set [(76, [45, 54]), (5, [49])]. tlv_ok kv" by code_simp
  then show ?thesis
    using config_response_entries [of "replicate 41 0" "[1, 2]" "[(76, [45, 54]), (5, [49])]"]
    by (auto split: sum.splits)
qed

text \<open>Parsing a configuration read response fails exactly on packets shorter than 47 bytes, and
  then with \<open>ValueError\<close>: no packet of a device can raise anything else or read out of range.\<close>

theorem config_response_total:
  "parse_config_message dat = Inl e \<longleftrightarrow> length dat < 47 \<and> e = ValueError"
  by (rule parse_config_message_total)

text \<open>The heuristic search answers the first offset from 28 on, at least four bytes before the
  end, where a plausible TLV header stands, and 28 when there is none.\<close>

theorem config_offset_first:
  "find_config_offset dat =
    (if {j \<in> {28..<length dat - 4}. plausible_tlv dat (int j)} = {} then 28
     else int (Min {j \<in> {28..<length dat - 4}. plausible_tlv dat (int j)}))"
proof (cases "{j \<in> {28..<length dat - 4}. plausible_tlv dat (int j)} = {}")
  case True
  then show ?thesis using find_config_offset_spec [of dat 28] by auto
next
  case False
  let ?P = "\<lambda>j. 28 \<le> j \<and> j < length dat - 4 \<and> plausible_tlv dat (int j)"
  have set_eq: "{j \<in> {28..<length dat - 4}. plausible_tlv dat (int j)} = {j. ?P j}" by auto
  have "finite {j. ?P j}" by (rule finite_subset [of _ "{..<length dat}"]) auto
  then have "Min {j. ?P j} = (LEAST j. ?P j)"
    using False set_eq by (intro Least_Min [symmetric]) auto
  then show ?thesis
    using False find_config_offset_spec [of dat "int (LEAST j. ?P j)"] unfolding set_eq by auto
qed

end
