(* ===== verification/NoahPackets.thy ===== *)
theory NoahPackets
  imports ConfigParser
begin

text \<open>
  \<open>grobro/grobro/noah_0103.py\<close>, the search for a register block inside an opaque 0x0103 packet,
  and \<open>grobro/grobro/noah_protocol_debug.py\<close>, the passive decoders of control packets.
\<close>

section \<open>The embedded register block\<close>

record embedded_block =
  eb_offset :: nat
  eb_start :: int
  eb_end :: int
  eb_values :: "int list"

definition embedded_registers :: "embedded_block \<Rightarrow> (int, int) dict" where
  "embedded_registers b = zip (map (\<lambda>i. eb_start b + int i) [0..<length (eb_values b)]) (eb_values b)"

text \<open>\<open>range(a, b, 2)\<close>.\<close>

definition range_by_two :: "nat \<Rightarrow> nat \<Rightarrow> nat list" where
  "range_by_two a b = map (\<lambda>i. a + 2 * i) [0..<(b - a + 1) div 2]"

text \<open>One turn of the search loop: \<open>best\<close> with its register count.\<close>

definition embedded_step ::
    "bytes \<Rightarrow> nat \<Rightarrow> (nat \<times> int \<times> int) option \<times> int \<Rightarrow> nat \<Rightarrow> (nat \<times> int \<times> int) option \<times> int" where
  "embedded_step dat data_end acc offset =
     (case (u16_at dat (int offset), u16_at dat (int offset + 2)) of
        (Some s, Some e) \<Rightarrow>
          if e < s then acc
          else (let count = e - s + 1 in
                if count > 2048 \<or> int offset + 4 + count * 2 \<noteq> int data_end then acc
                else if count > snd acc then (Some (offset, s, e), count) else acc)
      | _ \<Rightarrow> acc)"

definition find_embedded_register_block :: "bytes \<Rightarrow> embedded_block option" where
  "find_embedded_register_block decoded_packet =
     (if length decoded_packet < 62 then None
      else (let dat = drop 54 decoded_packet;
                data_end = length dat - 2;
                start0 = data_end - 4 - 4096;
                search_start = start0 + (data_end - start0) mod 2
            in (case fst (foldl (embedded_step dat data_end) (None, 0)
                       (range_by_two search_start (data_end - 5))) of
                  None \<Rightarrow> None
                | Some (offset, s, e) \<Rightarrow>
                    Some \<lparr>eb_offset = offset, eb_start = s, eb_end = e,
                          eb_values = words_of (take (data_end - (offset + 4)) (drop (offset + 4) dat))\<rparr>)))"

section \<open>Control packets\<close>

datatype noah_control =
    Read0105 (ctl_device: string) (ctl_register: int) (ctl_echoed: int) (ctl_answer: "int option")
  | Write0106 (ctl_device: string) (ctl_register: int) (ctl_status: "int option") (ctl_value: int)
  | Config0118 (ctl_device: string) (ctl_type: int) (ctl_tlv: int) (ctl_register: int)
      (ctl_length: int) (ctl_text: string) (ctl_is_ascii: bool)

definition control_device_id :: "bytes \<Rightarrow> string" where
  "control_device_id dat = (if length dat < 24 then '''' else device_field (py_slice dat 8 24))"

definition decode_0105 :: "bytes \<Rightarrow> noah_control option" where
  "decode_0105 dat =
     (if length dat < 44 \<or> u16_at dat 6 \<noteq> Some 0x0105 then None
      else Some (Read0105 (control_device_id dat) (u16_or_zero dat 38) (u16_or_zero dat 40)
                   (if length dat \<ge> 46 then Some (u16_or_zero dat 42) else None)))"

definition decode_0106 :: "bytes \<Rightarrow> noah_control option" where
  "decode_0106 dat =
     (if length dat < 44 \<or> u16_at dat 6 \<noteq> Some 0x0106 then None
      else Some (if length dat \<ge> 45
                 then Write0106 (control_device_id dat) (u16_or_zero dat 38) (Some (uint (dat ! 40)))
                        (u16_or_zero dat 41)
                 else Write0106 (control_device_id dat) (u16_or_zero dat 38) None
                        (u16_or_zero dat 40)))"

definition decode_0118 :: "bytes \<Rightarrow> noah_control option" where
  "decode_0118 dat =
     (if length dat < 46 \<or> u16_at dat 6 \<noteq> Some 0x0118 then None
      else if 38 + 8 > int (length dat) - 2 then None
      else (case (u16_at dat 38, u16_at dat 40, u16_at dat 42, u16_at dat 44) of
          (Some config_type, Some tlv_len, Some register_no, Some value_len) \<Rightarrow>
            (let value_end = 46 + value_len in
             if value_len < 0 \<or> value_end > int (length dat) - 2 then None
             else (let raw_value = py_slice dat 46 value_end in
               case decode_strict raw_value of
                 Some v \<Rightarrow> Some (Config0118 (control_device_id dat) config_type tlv_len register_no
                                value_len v True)
               | None \<Rightarrow> Some (Config0118 (control_device_id dat) config_type tlv_len register_no
                                value_len (py_hex raw_value) False)))
        | _ \<Rightarrow> None))"

definition decode_interesting_noah_packet :: "bytes option \<Rightarrow> noah_control option" where
  "decode_interesting_noah_packet packet =
     (case packet of
        None \<Rightarrow> None
      | Some dat \<Rightarrow>
          if length dat < 8 then None
          else if u16_at dat 6 = Some 0x0105 then decode_0105 dat
          else if u16_at dat 6 = Some 0x0106 then decode_0106 dat
          else if u16_at dat 6 = Some 0x0118 then decode_0118 dat
          else None)"

section \<open>Lemmas on the search\<close>

text \<open>
  The exhaustive reference: an offset, of either parity and anywhere in the data, at which a
  block header describes a range that ends exactly at the trailer.
\<close>

definition fits_exactly :: "bytes \<Rightarrow> nat \<Rightarrow> nat \<Rightarrow> bool" where
  "fits_exactly dat data_end offset \<longleftrightarrow>
     (case (u16_at dat (int offset), u16_at dat (int offset + 2)) of
        (Some s, Some e) \<Rightarrow>
          s \<le> e \<and> e - s + 1 \<le> 2048 \<and> int offset + 4 + (e - s + 1) * 2 = int data_end
      | _ \<Rightarrow> False)"

definition header_at :: "bytes \<Rightarrow> nat \<Rightarrow> nat \<times> int \<times> int" where
  "header_at dat offset =
     (offset, u16_or_zero dat (int offset), u16_or_zero dat (int offset + 2))"

definition register_count :: "bytes \<Rightarrow> nat \<Rightarrow> int" where
  "register_count dat offset = u16_or_zero dat (int offset + 2) - u16_or_zero dat (int offset) + 1"

lemma embedded_step_eq:
  "embedded_step dat n acc offset =
   (if fits_exactly dat n offset \<and> register_count dat offset > snd acc
    then (Some (header_at dat offset), register_count dat offset) else acc)"
  by (auto simp: embedded_step_def fits_exactly_def header_at_def register_count_def
      u16_or_zero_def Let_def split: option.splits)

lemma fits_exactly_count:
  "fits_exactly dat n offset \<Longrightarrow>
   int offset + 4 + 2 * register_count dat offset = int n \<and> 1 \<le> register_count dat offset \<and>
   register_count dat offset \<le> 2048"
  by (auto simp: fits_exactly_def register_count_def u16_or_zero_def split: option.splits)

text \<open>A later offset that fits has fewer registers, so the first one found is never replaced.\<close>

lemma embedded_fold_kept:
  assumes "fits_exactly dat n offset" "\<forall>x\<in>set os. offset < x"
  shows "foldl (embedded_step dat n) (Some (header_at dat offset), register_count dat offset) os =
    (Some (header_at dat offset), register_count dat offset)"
  using assms(2)
proof (induction os)
  case (Cons x os)
  have "\<not> (fits_exactly dat n x \<and> register_count dat x > register_count dat offset)"
    using fits_exactly_count [OF assms(1)] fits_exactly_count [of dat n x] Cons.prems by auto
  then have "embedded_step dat n (Some (header_at dat offset), register_count dat offset) x =
      (Some (header_at dat offset), register_count dat offset)"
    unfolding embedded_step_eq by auto
  then show ?case using Cons by simp
qed simp

lemma embedded_fold:
  assumes "sorted_wrt (<) os"
  shows "fst (foldl (embedded_step dat n) (None, 0) os) =
    map_option (header_at dat) (find (fits_exactly dat n) os)"
  using assms
proof (induction os)
  case (Cons x os)
  show ?case
  proof (cases "fits_exactly dat n x")
    case True
    then have "embedded_step dat n (None, 0) x = (Some (header_at dat x), register_count dat x)"
      using fits_exactly_count [of dat n x] unfolding embedded_step_eq by auto
    then show ?thesis using True embedded_fold_kept [of dat n x os] Cons.prems by simp
  next
    case False
    then have "embedded_step dat n (None, 0) x = (None, 0)" unfolding embedded_step_eq by simp
    then show ?thesis using False Cons by simp
  qed
qed simp

lemma sorted_range_by_two: "sorted_wrt (<) (range_by_two a b)"
  by (simp add: range_by_two_def sorted_wrt_map)

lemma set_range_by_two: "set (range_by_two a b) = {x. a \<le> x \<and> x < b \<and> even (x - a)}"
proof -
  have "x \<in> set (range_by_two a b)" if "a \<le> x" "x < b" "even (x - a)" for x
  proof -
    from that obtain k where "x = a + 2 * k" by (metis dvd_def le_add_diff_inverse)
    then show ?thesis using that by (auto simp: range_by_two_def intro!: image_eqI [of _ _ k])
  qed
  then show ?thesis by (auto simp: range_by_two_def)
qed

lemma find_filter: "(\<And>x. P x \<Longrightarrow> Q x) \<Longrightarrow> find P (filter Q xs) = find P xs"
  by (induction xs) auto

text \<open>Parity and the 2048-register bound only skip offsets that cannot fit.\<close>

lemma embedded_search_space:
  fixes n :: nat
  defines "a \<equiv> (n - 4 - 4096) + (n - (n - 4 - 4096)) mod 2"
  shows "find (fits_exactly dat n) (range_by_two a (n - 5)) = find (fits_exactly dat n) [0..<n - 5]"
proof -
  let ?Q = "\<lambda>x. a \<le> x \<and> even (x - a)"
  have a_eq: "a = (if 4100 \<le> n then n - 4100 else n mod 2)"
    unfolding a_def by (auto simp: not_le)
  have n_a: "even (n - a)" "a \<le> n"
    unfolding a_eq by (auto simp: even_iff_mod_2_eq_zero mod_eq_dvd_iff_nat)
  have sub: "?Q x" if fit: "fits_exactly dat n x" for x
  proof -
    obtain c :: int where c: "int x + 4 + 2 * c = int n" "1 \<le> c" "c \<le> 2048"
      using fits_exactly_count [OF fit] by blast
    then obtain m where m: "c = int m" using zero_le_imp_eq_int [of c] by auto
    with c have x: "n = x + 4 + 2 * m" "m \<le> 2048" by auto
    have "n mod 2 = x mod 2" unfolding x(1) by presburger
    then have "a \<le> x"
      unfolding a_eq using x mod_less_eq_dividend [of x 2] by (cases "4100 \<le> n") auto
    moreover have "even (n - x)" using x(1) by simp
    ultimately show ?thesis using n_a x(1) by (simp add: even_diff_nat)
  qed
  have "range_by_two a (n - 5) = filter ?Q [0..<n - 5]"
  proof (rule strict_sorted_equal [OF _ sorted_range_by_two])
    show "sorted_wrt (<) (filter ?Q [0..<n - 5])"
      by (simp add: sorted_wrt_filter)
  qed (auto simp: set_range_by_two)
  then show ?thesis using find_filter [of "fits_exactly dat n" ?Q, OF sub] by simp
qed

section \<open>Properties\<close>

text \<open>C36: The optimised search for an embedded register block, which visits only offsets of one
  parity near the end of the packet, finds exactly what trying every offset finds: the first offset
  whose header describes a range ending at the trailer.\<close>

theorem embedded_block_exhaustive:
  "map_option (\<lambda>b. (eb_offset b, eb_start b, eb_end b)) (find_embedded_register_block p) =
   (if length p < 62 then None
    else map_option (header_at (drop 54 p))
           (find (fits_exactly (drop 54 p) (length p - 56)) [0..<length p - 61]))"
proof (cases "length p < 62")
  case True
  then show ?thesis by (simp add: find_embedded_register_block_def)
next
  case False
  let ?dat = "drop 54 p"
  let ?n = "length ?dat - 2"
  let ?a = "(?n - 4 - 4096) + (?n - (?n - 4 - 4096)) mod 2"
  have n: "?n = length p - 56" "?n - 5 = length p - 61" by simp_all
  have "fst (foldl (embedded_step ?dat ?n) (None, 0) (range_by_two ?a (?n - 5))) =
      map_option (header_at ?dat) (find (fits_exactly ?dat ?n) [0..<?n - 5])"
    unfolding embedded_search_space [symmetric]
    by (rule embedded_fold [OF sorted_range_by_two])
  then show ?thesis
    using False unfolding n [symmetric]
    by (auto simp: find_embedded_register_block_def Let_def header_at_def split: option.splits)
qed

text \<open>The layout of a plain configuration write, as the decoder reads it.\<close>

lemma config_write_reads:
  assumes "length d \<le> 16" "0 \<le> reg" "reg \<le> 65535" "length v \<le> 65495" "length t = 2"
  defines "raw \<equiv> config_raw config_write_type d (config_write_payload reg v) @ t"
  shows "u16_at raw 6 = Some 0x0118" "u16_at raw 38 = Some 1" "u16_at raw 40 = Some (int (length v) + 4)"
    "u16_at raw 42 = Some reg" "u16_at raw 44 = Some (int (length v))"
    "py_slice raw 46 (46 + int (length v)) = v" "length raw = 48 + length v"
    "py_slice raw 8 24 = map byte_of_char d @ replicate (16 - length d) 0"
proof -
  show "u16_at raw 6 = Some 0x0118" "u16_at raw 38 = Some 1" "u16_at raw 40 = Some (int (length v) + 4)"
    "u16_at raw 42 = Some reg" "u16_at raw 44 = Some (int (length v))"
    using assms by (simp_all add: config_raw_def config_write_payload_def config_header_def
        config_write_type_def wire_reads)
  show "length raw = 48 + length v"
    using assms by (simp add: length_config_raw config_write_payload_def)
  let ?head = "config_header @ be16 (int (length (config_write_payload reg v)) + 18) @ be16 config_write_type"
  let ?dev = "map byte_of_char d @ replicate (16 - length d) 0"
  have "py_slice (?head @ ?dev @ (config_write_payload reg v @ t)) 8 24 = ?dev"
    using assms by (intro py_slice_append) (simp_all add: config_header_def)
  then show "py_slice raw 8 24 = ?dev" by (simp add: raw_def config_raw_def)
  let ?tlv = "replicate 14 0 @ be16 1 @ be16 (int (length v) + 4) @ be16 reg @ be16 (int (length v))"
  have "py_slice ((?head @ ?dev @ ?tlv) @ v @ t) 46 (46 + int (length v)) = v"
    using assms by (intro py_slice_append) (simp_all add: config_header_def)
  then show "py_slice raw 46 (46 + int (length v)) = v"
    by (simp add: raw_def config_raw_def config_write_payload_def)
qed

text \<open>C31: The packet built for a configuration write, unscrambled by its reader, decodes to exactly
  the device, register and value that were asked for, whatever the CRC.\<close>

theorem config_write_end_to_end:
  assumes "crc_ok crc16" "wire_serial 16 d" "0 \<le> reg" "reg \<le> 65535"
    and "list_all is_ascii v" "length v \<le> 65495"
  shows "\<exists>b. build_config_write_packet crc16 d reg v = Inr b \<and>
    decode_0118 (unscramble b) =
      Some (Config0118 d 1 (int (length v) + 4) reg (int (length v)) v True)"
proof -
  let ?v = "map byte_of_char v"
  let ?raw = "config_raw config_write_type d (config_write_payload reg ?v)"
  have d: "length d \<le> 16" "list_all is_ascii d" using assms(2) by (simp_all add: wire_serial_def)
  have v: "length ?v \<le> 65495" using assms(6) by simp
  have built: "build_config_write_packet crc16 d reg v =
      Inr (scramble ?raw @ be16 (crc16 (scramble ?raw)))"
    using assms d by (simp add: build_config_write_packet_Inr Let_def)
  obtain t where t: "length t = 2" "scramble (scramble ?raw @ be16 (crc16 (scramble ?raw))) = ?raw @ t"
    using unscramble_config_packet [OF d(1)] by blast
  note reads = config_write_reads [OF d(1) assms(3) assms(4) v t(1)]
  have "control_device_id (?raw @ t) = d"
    using assms(2) reads(7,8)
    by (simp add: control_device_id_def device_field_def decode_rstrip_zero_padded)
  then have "decode_0118 (?raw @ t) =
      Some (Config0118 d 1 (int (length v) + 4) reg (int (length v)) v True)"
    using reads assms(5) decode_strict_encode [OF assms(5)]
    by (simp add: decode_0118_def Let_def)
  then show ?thesis using built t(2) by (simp add: unscramble_def)
qed

theorem config_write_end_to_end_witness:
  "\<exists>b. build_config_write_packet (\<lambda>b. int (length b) mod 65536) ''QMN0001'' 31 ''12:00'' = Inr b \<and>
    decode_0118 (unscramble b) = Some (Config0118 ''QMN0001'' 1 9 31 5 ''12:00'' True)"
proof -
  have "int n mod 65536 \<le> 65535" for n using pos_mod_bound [of 65536 "int n"] by linarith
  then have "crc_ok (\<lambda>b. int (length b) mod 65536)" by (simp add: crc_ok_def)
  moreover have "wire_serial 16 ''QMN0001''" "list_all is_ascii ''12:00''" by code_simp+
  ultimately show ?thesis
    using config_write_end_to_end [of "\<lambda>b. int (length b) mod 65536" "''QMN0001''" 31 "''12:00''"] by simp
qed

end
