(* ===== verification/MqttResult.thy ===== *)
theory MqttResult
  imports Prelude
begin

text \<open>
  \<open>grobro/model/mqtt_config.py\<close>: how the program reads the answer of a publish or subscribe
  call, and the broker settings taken from the environment. The answers of the MQTT library and of
  the callbacks that stand in for it are values of \<open>call_result\<close>.
\<close>

section \<open>Definitions\<close>

text \<open>
  \<open>None\<close>, an object with an integer \<open>rc\<close>, an object whose \<open>rc\<close> is no integer, or a sequence
  whose elements are integers or something else.
\<close>

datatype call_result = ResNone | ResRc int | ResRcOther | ResSeq "int option list"

datatype reason_code = ReasonObject bool | ReasonInt int | ReasonOther

definition subscription_rejected :: "reason_code list \<Rightarrow> bool" where
  "subscription_rejected reason_codes =
     list_ex (\<lambda>r. case r of ReasonObject b \<Rightarrow> b | ReasonInt n \<Rightarrow> n \<ge> 128 | ReasonOther \<Rightarrow> False)
       reason_codes"

definition publish_succeeded :: "call_result \<Rightarrow> bool" where
  "publish_succeeded r =
     (case r of
        ResNone \<Rightarrow> True
      | ResRc n \<Rightarrow> n = 0
      | ResRcOther \<Rightarrow> True
      | ResSeq [] \<Rightarrow> True
      | ResSeq (None # _) \<Rightarrow> True
      | ResSeq (Some n # _) \<Rightarrow> n = 0)"

text \<open>
  The inline variant of the source client and the NEO probe: the status is \<open>rc\<close>, else the first
  element, else \<open>None\<close>; anything but \<open>None\<close> and 0 is a failure.
\<close>

definition status_accepted :: "call_result \<Rightarrow> bool" where
  "status_accepted r =
     (case r of
        ResNone \<Rightarrow> True
      | ResRc n \<Rightarrow> n = 0
      | ResRcOther \<Rightarrow> False
      | ResSeq [] \<Rightarrow> True
      | ResSeq (None # _) \<Rightarrow> False
      | ResSeq (Some n # _) \<Rightarrow> n = 0)"

text \<open>
  A call to the broker or to a callback returns or raises. What it answers may depend on everything
  sent before: a \<open>broker\<close> is a function of the log. \<open>send\<close> extends the log, \<open>delivered\<close> says
  whether the answer counts as accepted.
\<close>

datatype answer = Answer call_result | Raised py_error

record publish =
  pb_topic :: string
  pb_payload :: string
  pb_retain :: bool

type_synonym broker = "(publish \<times> answer) list \<Rightarrow> publish \<Rightarrow> answer"

definition send :: "broker \<Rightarrow> publish \<Rightarrow> (publish \<times> answer) list \<Rightarrow> (publish \<times> answer) list" where
  "send B p log = log @ [(p, B log p)]"

fun accepted :: "answer \<Rightarrow> bool" where
  "accepted (Answer r) = publish_succeeded r"
| "accepted (Raised e) = False"

record mqtt_config =
  mq_host :: string
  mq_port :: int
  mq_use_tls :: bool
  mq_username :: "string option"
  mq_password :: "string option"

definition mqtt_config_from_env ::
    "(string \<Rightarrow> string option) \<Rightarrow> string \<Rightarrow> mqtt_config \<Rightarrow> mqtt_config py" where
  "mqtt_config_from_env env pre defaults =
     bindE (case env (pre @ ''_MQTT_PORT'') of
              None \<Rightarrow> Inr (mq_port defaults)
            | Some s \<Rightarrow> (case py_int_of_str s of None \<Rightarrow> Inl ValueError | Some n \<Rightarrow> Inr n)) (\<lambda>port.
       Inr \<lparr>mq_host = (case env (pre @ ''_MQTT_HOST'') of Some h \<Rightarrow> h | None \<Rightarrow> mq_host defaults),
            mq_port = port,
            mq_use_tls =
              (py_lower (case env (pre @ ''_MQTT_TLS'') of
                  Some s \<Rightarrow> s
                | None \<Rightarrow> if mq_use_tls defaults then ''True'' else ''False'') = ''true''),
            mq_username = (case env (pre @ ''_MQTT_USER'') of Some u \<Rightarrow> Some u | None \<Rightarrow> mq_username defaults),
            mq_password = (case env (pre @ ''_MQTT_PASS'') of Some u \<Rightarrow> Some u | None \<Rightarrow> mq_password defaults)\<rparr>)"

section \<open>Lemmas\<close>

text \<open>The answers Paho itself gives: an integer code, alone or first in a sequence, or nothing.\<close>

fun paho_result :: "call_result \<Rightarrow> bool" where
  "paho_result ResRcOther = False"
| "paho_result (ResSeq (None # _)) = False"
| "paho_result _ = True"

lemma status_accepted_paho: "paho_result r \<Longrightarrow> status_accepted r = publish_succeeded r"
  by (cases r rule: paho_result.cases) (simp_all add: status_accepted_def publish_succeeded_def)

lemma status_accepted_stricter: "status_accepted r \<Longrightarrow> publish_succeeded r"
  by (auto simp: status_accepted_def publish_succeeded_def split: call_result.splits list.splits option.splits)

lemma bool_text_lower: "(py_lower (if b then ''True'' else ''False'') = ''true'') = b"
proof -
  have "py_lower ''True'' = ''true''" "py_lower ''False'' = ''false''" by code_simp+
  then show ?thesis by simp
qed

lemma mqtt_config_env_unset: "mqtt_config_from_env (\<lambda>_. None) pre d = Inr d"
  by (simp add: mqtt_config_from_env_def bool_text_lower)

lemma mqtt_config_env_error:
  "mqtt_config_from_env env pre d = Inl e \<longleftrightarrow>
   e = ValueError \<and> (\<exists>s. env (pre @ ''_MQTT_PORT'') = Some s \<and> py_int_of_str s = None)"
  unfolding mqtt_config_from_env_def bindE_Inl_iff by (auto split: option.splits)

section \<open>Properties\<close>

text \<open>Broker settings: an empty environment gives the defaults unchanged, a variable that is set
  replaces exactly its own field, and the only failure is a port that is not a number.\<close>

theorem mqtt_config_env:
  "mqtt_config_from_env (\<lambda>_. None) pre d = Inr d \<and>
   mqtt_config_from_env ((\<lambda>_. None)(pre @ ''_MQTT_HOST'' := Some h)) pre d = Inr (d\<lparr>mq_host := h\<rparr>) \<and>
   mqtt_config_from_env ((\<lambda>_. None)(pre @ ''_MQTT_PORT'' := Some (str_of_int n))) pre d =
     Inr (d\<lparr>mq_port := n\<rparr>) \<and>
   (mqtt_config_from_env env pre d = Inl e \<longleftrightarrow>
      e = ValueError \<and> (\<exists>s. env (pre @ ''_MQTT_PORT'') = Some s \<and> py_int_of_str s = None))"
  using mqtt_config_env_unset [of pre d] mqtt_config_env_error [of env pre d e]
  by (simp add: mqtt_config_from_env_def bool_text_lower py_int_str_of_int)

end
