(* ===== verification/CloudPolicy.thy ===== *)
theory CloudPolicy
  imports Prelude
begin

text \<open>
  \<open>grobro/grobro/cloud_policy.py\<close> and the resolution of the active policy in
  \<open>grobro/grobro/client.py\<close>: which devices may use the Growatt cloud and which cloud messages
  are blocked.
\<close>

section \<open>Definitions\<close>

definition false_values :: "string set" where
  "false_values = {'''', ''false'', ''0'', ''no'', ''off''}"

record cloud_policy =
  cp_enabled :: bool
  cp_allowlist :: "string set"
  cp_block_config :: bool

text \<open>\<open>value or "false"\<close>.\<close>

definition or_false :: "string option \<Rightarrow> string" where
  "or_false v = (case v of None \<Rightarrow> ''false'' | Some [] \<Rightarrow> ''false'' | Some s \<Rightarrow> s)"

definition allowlist_items :: "string \<Rightarrow> string list" where
  "allowlist_items raw = filter (\<lambda>s. s \<noteq> []) (map py_strip (split_on (CHR '','') raw))"

definition parse_cloud_policy :: "string option \<Rightarrow> string option \<Rightarrow> cloud_policy" where
  "parse_cloud_policy cloud_value config_filter_value =
     (let raw = py_strip (or_false cloud_value);
          lowered = py_lower raw;
          items = set (allowlist_items raw);
          block_config = (py_lower (py_strip (or_false config_filter_value)) = ''true'')
      in if lowered \<in> false_values
         then \<lparr>cp_enabled = False, cp_allowlist = {}, cp_block_config = block_config\<rparr>
         else if lowered = ''true''
         then \<lparr>cp_enabled = True, cp_allowlist = {}, cp_block_config = block_config\<rparr>
         else \<lparr>cp_enabled = (items \<noteq> {}), cp_allowlist = items, cp_block_config = block_config\<rparr>)"

definition forwards_all_devices :: "cloud_policy \<Rightarrow> bool" where
  "forwards_all_devices p \<longleftrightarrow> cp_enabled p \<and> cp_allowlist p = {}"

definition allows_device :: "cloud_policy \<Rightarrow> string \<Rightarrow> bool" where
  "allows_device p device_id =
     (if \<not> cp_enabled p then False else cp_allowlist p = {} \<or> device_id \<in> cp_allowlist p)"

definition should_block_cloud_message :: "cloud_policy \<Rightarrow> int \<Rightarrow> bool" where
  "should_block_cloud_message p message_type \<longleftrightarrow>
     cp_block_config p \<and> (message_type = 0x0118 \<or> message_type = 0x0110)"

text \<open>
  The module settings of the client are derived from the first policy; the policy in force is
  parsed again from the text they are turned back into.
\<close>

definition cloud_setting_text :: "string \<Rightarrow> cloud_policy \<Rightarrow> string" where
  "cloud_setting_text growatt_cloud p =
     (if \<not> cp_enabled p then ''false''
      else if py_lower growatt_cloud = ''true'' then ''true''
      else if cp_allowlist p \<noteq> {} then join_with '','' (sorted_list_of_set (cp_allowlist p))
      else if growatt_cloud \<noteq> [] then growatt_cloud else ''true'')"

definition current_cloud_policy :: "string \<Rightarrow> string \<Rightarrow> cloud_policy" where
  "current_cloud_policy growatt_cloud config_filter =
     parse_cloud_policy
       (Some (cloud_setting_text growatt_cloud (parse_cloud_policy (Some growatt_cloud) (Some config_filter))))
       (Some config_filter)"

section \<open>Lemmas\<close>

lemma allowlist_items_clean:
  "w \<in> set (allowlist_items raw) \<Longrightarrow> w \<noteq> [] \<and> py_strip w = w \<and> CHR '','' \<notin> set w"
  using split_on_pieces [of _ "CHR '',''" raw] set_strip_by [of py_space]
  by (auto simp: allowlist_items_def py_strip_def)

lemma allowlist_items_join:
  assumes "ws \<noteq> []" "\<forall>w\<in>set ws. w \<noteq> [] \<and> py_strip w = w \<and> CHR '','' \<notin> set w"
  shows "allowlist_items (join_with '','' ws) = ws"
proof -
  have "split_on (CHR '','') (join_with '','' ws) = ws"
    using assms by (intro split_join) auto
  moreover have "map py_strip ws = ws" using assms(2) by (intro map_idI) auto
  ultimately show ?thesis using assms(2) by (simp add: allowlist_items_def)
qed

lemma join_with_ends:
  assumes "ws \<noteq> []" "\<forall>w\<in>set ws. w \<noteq> []"
  shows "join_with s ws \<noteq> [] \<and> hd (join_with s ws) = hd (hd ws) \<and> last (join_with s ws) = last (last ws)"
  using assms by (induction s ws rule: join_with.induct) auto

lemma py_strip_fixed_ends: "py_strip w = w \<Longrightarrow> w \<noteq> [] \<Longrightarrow> \<not> py_space (hd w) \<and> \<not> py_space (last w)"
  using strip_by_ends [of py_space w] by (simp add: py_strip_def)

lemma py_strip_join:
  assumes "ws \<noteq> []" "\<forall>w\<in>set ws. w \<noteq> [] \<and> py_strip w = w"
  shows "py_strip (join_with '','' ws) = join_with '','' ws"
proof -
  have "\<not> py_space (hd (hd ws))" "\<not> py_space (last (last ws))"
    using assms py_strip_fixed_ends [of "hd ws"] py_strip_fixed_ends [of "last ws"] by simp_all
  then show ?thesis using join_with_ends [of ws "'',''"] assms by (intro py_strip_id) auto
qed

lemma comma_not_reserved: "CHR '','' \<in> set s \<Longrightarrow> py_lower s \<notin> insert ''true'' false_values"
proof
  assume c: "CHR '','' \<in> set s" and r: "py_lower s \<in> insert ''true'' false_values"
  have "lower_char (CHR '','') = CHR '',''" by (simp add: lower_char_def)
  then have "CHR '','' \<in> set (py_lower s)" using c unfolding py_lower_def by force
  then show False using r by (auto simp: false_values_def)
qed

definition reserved_word :: "string \<Rightarrow> bool" where
  "reserved_word w \<longleftrightarrow> py_lower w \<in> insert ''true'' false_values"

lemma or_false_lower: "s \<noteq> [] \<Longrightarrow> or_false (Some s) = s"
  by (cases s) (simp_all add: or_false_def)

text \<open>
  Parsing the text of a policy again gives the policy back, unless its allowlist is a single
  word that the parser reads as a switch.
\<close>

lemma reparse_allowlist:
  assumes "finite A" "A \<noteq> {}" "\<forall>w\<in>A. w \<noteq> [] \<and> py_strip w = w \<and> CHR '','' \<notin> set w"
    and "\<not> (\<exists>w. A = {w} \<and> reserved_word w)"
  shows "parse_cloud_policy (Some (join_with '','' (sorted_list_of_set A))) f =
    \<lparr>cp_enabled = True, cp_allowlist = A, cp_block_config = (py_lower (py_strip (or_false f)) = ''true'')\<rparr>"
proof -
  let ?ws = "sorted_list_of_set A"
  have ws: "set ?ws = A" "?ws \<noteq> []" using assms(1,2) by auto
  have clean: "\<forall>w\<in>set ?ws. w \<noteq> [] \<and> py_strip w = w \<and> CHR '','' \<notin> set w" using assms(3) ws by simp
  let ?t = "join_with '','' ?ws"
  have t: "?t \<noteq> []" "py_strip ?t = ?t" using join_with_ends [of ?ws "'',''"] py_strip_join [of ?ws] ws clean by auto
  have "\<not> reserved_word ?t"
  proof (cases "\<exists>w. ?ws = [w]")
    case True
    then obtain w where w: "?ws = [w]" by blast
    then have "A = {w}" using ws by auto
    then show ?thesis using assms(4) w by auto
  next
    case False
    obtain a r where a: "?ws = a # r" using ws(2) by (meson neq_Nil_conv)
    with False obtain b r' where "r = b # r'" by (cases r) auto
    then have "CHR '','' \<in> set ?t" unfolding a by simp
    then show ?thesis using comma_not_reserved by (simp add: reserved_word_def)
  qed
  then have r: "py_lower ?t \<notin> false_values" "py_lower ?t \<noteq> ''true''"
    by (simp_all add: reserved_word_def)
  have items: "set (allowlist_items ?t) = A"
    unfolding allowlist_items_join [OF ws(2) clean] by (rule ws(1))
  show ?thesis
    unfolding parse_cloud_policy_def or_false_lower [OF t(1)] t(2) Let_def items
    using r assms(2) by simp
qed

lemma parse_false: "parse_cloud_policy (Some ''false'') f =
    \<lparr>cp_enabled = False, cp_allowlist = {}, cp_block_config = (py_lower (py_strip (or_false f)) = ''true'')\<rparr>"
proof -
  have "py_lower (py_strip (or_false (Some ''false''))) \<in> false_values" by code_simp
  then show ?thesis by (simp add: parse_cloud_policy_def Let_def)
qed

lemma parse_true: "parse_cloud_policy (Some ''true'') f =
    \<lparr>cp_enabled = True, cp_allowlist = {}, cp_block_config = (py_lower (py_strip (or_false f)) = ''true'')\<rparr>"
proof -
  have "py_lower (py_strip (or_false (Some ''true''))) = ''true''" "''true'' \<notin> false_values" by code_simp+
  then show ?thesis by (simp add: parse_cloud_policy_def Let_def)
qed

lemma false_text: "py_lower (py_strip ''false'') \<noteq> ''true''"
  by code_simp

section \<open>Properties\<close>

text \<open>A device is allowed exactly when forwarding is switched on for all or the device is one of
  the listed serials; an unset, empty or switched-off setting allows none.\<close>

theorem cloud_allows_device:
  "allows_device (parse_cloud_policy v f) d \<longleftrightarrow>
   py_lower (py_strip (or_false v)) \<notin> false_values \<and>
   (py_lower (py_strip (or_false v)) = ''true'' \<or> d \<in> set (allowlist_items (py_strip (or_false v))))"
  by (auto simp: allows_device_def parse_cloud_policy_def Let_def)

text \<open>The policy the client applies, parsed a second time from the settings derived from the
  first parse, is the policy the environment asked for, except when the allowlist consists of a
  single word such as \<open>true\<close> or \<open>off\<close>.\<close>

theorem current_policy_faithful:
  assumes "py_strip cloud = cloud"
    and "\<not> (\<exists>w. cp_allowlist (parse_cloud_policy (Some cloud) (Some f)) = {w} \<and> reserved_word w)"
  shows "current_cloud_policy cloud f = parse_cloud_policy (Some cloud) (Some f)"
proof -
  let ?p = "parse_cloud_policy (Some cloud) (Some f)"
  let ?raw = "py_strip (or_false (Some cloud))"
  consider (off) "\<not> cp_enabled ?p" | (all) "cp_enabled ?p" "py_lower ?raw = ''true''"
    | (listed) "cp_enabled ?p" "py_lower ?raw \<noteq> ''true''"
    by blast
  then show ?thesis
  proof cases
    case off
    then have "cp_allowlist ?p = {}" by (auto simp: parse_cloud_policy_def Let_def split: if_splits)
    then have "?p = \<lparr>cp_enabled = False, cp_allowlist = {},
        cp_block_config = (py_lower (py_strip (or_false (Some f))) = ''true'')\<rparr>"
      using off by (auto simp: parse_cloud_policy_def Let_def)
    then show ?thesis using off by (simp add: current_cloud_policy_def cloud_setting_text_def parse_false)
  next
    case all
    have "cloud \<noteq> []" using all(2) false_text by (auto simp: or_false_def)
    then have "py_lower cloud = ''true''" using all(2) assms(1) by (simp add: or_false_lower)
    moreover have "?p = \<lparr>cp_enabled = True, cp_allowlist = {},
        cp_block_config = (py_lower (py_strip (or_false (Some f))) = ''true'')\<rparr>"
      using all by (auto simp: parse_cloud_policy_def Let_def split: if_splits)
    ultimately show ?thesis by (simp add: current_cloud_policy_def cloud_setting_text_def parse_true)
  next
    case listed
    have p: "?p = \<lparr>cp_enabled = True, cp_allowlist = set (allowlist_items ?raw),
        cp_block_config = (py_lower (py_strip (or_false (Some f))) = ''true'')\<rparr>"
      "set (allowlist_items ?raw) \<noteq> {}"
      using listed by (auto simp: parse_cloud_policy_def Let_def split: if_splits)
    have "py_lower cloud \<noteq> ''true''"
      using listed(2) assms(1) by (cases "cloud = []") (simp_all add: or_false_lower py_lower_def)
    then have "cloud_setting_text cloud ?p = join_with '','' (sorted_list_of_set (set (allowlist_items ?raw)))"
      using p by (simp add: cloud_setting_text_def)
    moreover have "\<forall>w\<in>set (allowlist_items ?raw). w \<noteq> [] \<and> py_strip w = w \<and> CHR '','' \<notin> set w"
      using allowlist_items_clean by blast
    ultimately show ?thesis
      using p assms(2) reparse_allowlist [of "set (allowlist_items ?raw)" "Some f"]
      by (simp add: current_cloud_policy_def)
  qed
qed

theorem current_policy_faithful_witness:
  "current_cloud_policy ''QMN1, 0PVP2'' ''true'' = parse_cloud_policy (Some ''QMN1, 0PVP2'') (Some ''true'')"
proof (rule current_policy_faithful)
  show "py_strip ''QMN1, 0PVP2'' = ''QMN1, 0PVP2''" by code_simp
  have "allowlist_items (py_strip (or_false (Some ''QMN1, 0PVP2''))) = [''QMN1'', ''0PVP2'']" by code_simp
  moreover have "py_lower (py_strip (or_false (Some ''QMN1, 0PVP2''))) \<notin> insert ''true'' false_values" by code_simp
  ultimately have "cp_allowlist (parse_cloud_policy (Some ''QMN1, 0PVP2'') (Some ''true'')) = {''QMN1'', ''0PVP2''}"
    by (simp add: parse_cloud_policy_def Let_def)
  then show "\<not> (\<exists>w. cp_allowlist (parse_cloud_policy (Some ''QMN1, 0PVP2'') (Some ''true'')) = {w} \<and> reserved_word w)"
    by auto
qed

text \<open>The exception is real: with the setting \<open>true,\<close> the environment allows only a device called
  \<open>true\<close>, and the client forwards every device.\<close>

theorem current_policy_widens:
  "\<not> allows_device (parse_cloud_policy (Some ''true,'') (Some ''false'')) ''QMN1'' \<and>
   forwards_all_devices (current_cloud_policy ''true,'' ''false'')"
proof -
  have "allowlist_items (py_strip (or_false (Some ''true,''))) = [''true'']"
    "py_lower (py_strip (or_false (Some ''true,''))) \<notin> insert ''true'' false_values" by code_simp+
  then have p: "parse_cloud_policy (Some ''true,'') (Some ''false'') =
      \<lparr>cp_enabled = True, cp_allowlist = {''true''}, cp_block_config = False\<rparr>"
    by (simp add: parse_cloud_policy_def Let_def or_false_def py_strip_def) code_simp
  have "cloud_setting_text ''true,'' (parse_cloud_policy (Some ''true,'') (Some ''false'')) = ''true''"
    unfolding p cloud_setting_text_def by (simp add: py_lower_def)
  then show ?thesis
    by (simp add: p allows_device_def current_cloud_policy_def parse_true forwards_all_devices_def)
qed

end
