(* ===== verification/BatteryPosition.thy ===== *)
theory BatteryPosition
  imports Storage
begin

text \<open>
  \<open>grobro/ha/battery_position.py\<close>: keeping every battery pack at one logical slot in Home
  Assistant, whatever physical slot it reports. The pure part reads serials out of a payload,
  extends the persistent serial-to-slot map, resolves manual choices and rewrites the payload; the
  runtime part adds the three JSON files with their failures.

  Serial numbers are ASCII here: \<open>isalnum\<close> is that of ASCII. JSON values are compared
  structurally.
\<close>

section \<open>Reading serials\<close>

fun val_str :: "('f, 'x) float_ops_scheme \<Rightarrow> 'f pyval \<Rightarrow> string" where
  "val_str F VNone = ''None''"
| "val_str F (VBool b) = (if b then ''True'' else ''False'')"
| "val_str F (VInt n) = str_of_int n"
| "val_str F (VFloat x) = fl_str F x"
| "val_str F (VStr s) = s"

definition clean_text :: "string \<Rightarrow> string" where
  "clean_text s = py_strip (strip_nul (py_strip s))"

definition clean_serial_part :: "('f, 'x) float_ops_scheme \<Rightarrow> 'f pyval option \<Rightarrow> string" where
  "clean_serial_part F v =
     (case v of None \<Rightarrow> '''' | Some VNone \<Rightarrow> '''' | Some w \<Rightarrow> clean_text (val_str F w))"

definition is_plausible_serial :: "string \<Rightarrow> bool" where
  "is_plausible_serial s \<longleftrightarrow>
     8 \<le> length s \<and> length s \<le> 40 \<and> list_all (\<lambda>c. is_alnum c \<or> c \<in> set ''._-'') s"

definition tracked_slots :: "int list" where
  "tracked_slots = [2, 3, 4]"

definition auto_assignment :: string where
  "auto_assignment = ''__auto__''"

definition empty_assignment :: string where
  "empty_assignment = ''__empty__''"

definition serial_part_keys :: "int \<Rightarrow> string list" where
  "serial_part_keys slot = map (\<lambda>i. ''bat'' @ str_of_int slot @ ''_ser_part_'' @ str_of_int i) [1, 2, 3, 4]"

definition slot_serial :: "('f, 'x) float_ops_scheme \<Rightarrow> (string, 'f pyval) dict \<Rightarrow> int \<Rightarrow> string option" where
  "slot_serial F payload slot =
     (let names = serial_part_keys slot;
          parts = map (\<lambda>k. clean_serial_part F (dict_get payload k)) names;
          complete_serial = (length (hd parts) > 4 \<and> list_all (\<lambda>p. p = []) (tl parts))
      in if \<not> complete_serial \<and>
            list_ex (\<lambda>k. dict_get payload k = None \<or> dict_get payload k = Some VNone) names
         then None
         else (let serial = py_strip (concat parts)
               in if is_plausible_serial serial then Some serial else None))"

definition serials_from_payload :: "('f, 'x) float_ops_scheme \<Rightarrow> (string, 'f pyval) dict \<Rightarrow> (int, string) dict" where
  "serials_from_payload F payload =
     List.map_filter (\<lambda>slot. map_option (Pair slot) (slot_serial F payload slot)) tracked_slots"

section \<open>Register names that carry a slot\<close>

definition upper_case :: "char \<Rightarrow> bool" where
  "upper_case c \<longleftrightarrow> (let n = of_char c :: nat in 65 \<le> n \<and> n \<le> 90)"

text \<open>The prefix of each pattern and what may follow the digit.\<close>

definition bat_key_patterns :: "(string \<times> (string \<Rightarrow> bool)) list" where
  "bat_key_patterns =
     (let underscore = (\<lambda>r. r \<noteq> [] \<and> hd r = CHR ''_'') in
      [(''bat'', underscore), (''bat_'', underscore),
       (''battery'', \<lambda>r. r \<noteq> [] \<and> (upper_case (hd r) \<or> hd r = CHR ''_'')),
       (''maxcvbat'', \<lambda>r. r = [] \<or> hd r = CHR ''_''),
       (''mincvbat'', \<lambda>r. r = [] \<or> hd r = CHR ''_'')])"

definition slot_of_digit :: "char \<Rightarrow> int option" where
  "slot_of_digit c =
     (if c = CHR ''2'' then Some 2 else if c = CHR ''3'' then Some 3 else if c = CHR ''4'' then Some 4
      else None)"

definition match_pattern :: "string \<Rightarrow> string \<times> (string \<Rightarrow> bool) \<Rightarrow> (string \<times> int \<times> string) option" where
  "match_pattern name pat =
     (if prefix (fst pat) name then
        (case drop (length (fst pat)) name of
           [] \<Rightarrow> None
         | c # rest \<Rightarrow>
             (case slot_of_digit c of
                None \<Rightarrow> None
              | Some slot \<Rightarrow> if snd pat rest then Some (fst pat, slot, rest) else None))
      else None)"

fun first_match :: "string \<Rightarrow> (string \<times> (string \<Rightarrow> bool)) list \<Rightarrow> (string \<times> int \<times> string) option" where
  "first_match name [] = None"
| "first_match name (p # ps) =
     (case match_pattern name p of Some m \<Rightarrow> Some m | None \<Rightarrow> first_match name ps)"

definition logical_slot_from_key :: "string \<Rightarrow> int option" where
  "logical_slot_from_key name = map_option (\<lambda>(p, slot, r). slot) (first_match name bat_key_patterns)"

definition remap_key :: "string \<Rightarrow> int \<Rightarrow> string" where
  "remap_key name logical_slot =
     (case first_match name bat_key_patterns of
        Some (p, slot, r) \<Rightarrow> p @ str_of_int logical_slot @ r
      | None \<Rightarrow> name)"

section \<open>Slots\<close>

definition first_free :: "int list \<Rightarrow> int list \<Rightarrow> int option" where
  "first_free candidates taken = find (\<lambda>s. s \<notin> set taken) candidates"

text \<open>
  One new pack in the persistent map: its physical slot when that is free, else the first free
  slot, else none. The state is the map, the reserved slots and whether anything changed.
\<close>

fun stable_step ::
    "(string, int) dict \<times> int list \<times> bool \<Rightarrow> int \<times> string \<Rightarrow> (string, int) dict \<times> int list \<times> bool" where
  "stable_step (mapping, reserved, changed) (physical_slot, serial) =
     (if dict_get mapping serial \<noteq> None then (mapping, reserved, changed)
      else (case (if physical_slot \<in> set tracked_slots \<and> physical_slot \<notin> set reserved
                  then Some physical_slot else first_free tracked_slots reserved) of
          None \<Rightarrow> (mapping, reserved, changed)
        | Some logical_slot \<Rightarrow>
            (dict_set serial logical_slot mapping, logical_slot # reserved, True)))"

definition extend_stable :: "(string, int) dict \<Rightarrow> (int, string) dict \<Rightarrow> (string, int) dict \<times> bool" where
  "extend_stable mapping current =
     (let (m, reserved, changed) = foldl stable_step (mapping, map snd mapping, False) current
      in (m, changed))"

definition explicit_slots :: "(int, string) dict \<Rightarrow> (string, int) dict" where
  "explicit_slots manual =
     fold (\<lambda>(slot, v) d. if v \<in> {auto_assignment, empty_assignment} then d else dict_set v slot d) manual []"

definition reserved_manual :: "(int, string) dict \<Rightarrow> int list" where
  "reserved_manual manual = map fst (filter (\<lambda>(slot, v). v \<noteq> auto_assignment) manual)"

text \<open>The two passes; the state is physical-to-logical and the used slots.\<close>

fun explicit_step ::
    "(string, int) dict \<Rightarrow> (int, int) dict \<times> int list \<Rightarrow> int \<times> string \<Rightarrow> (int, int) dict \<times> int list" where
  "explicit_step explicit (ptl, used) (physical_slot, serial) =
     (case dict_get explicit serial of
        None \<Rightarrow> (ptl, used)
      | Some slot \<Rightarrow> (dict_set physical_slot slot ptl, slot # used))"

definition preferred_slot :: "bool \<Rightarrow> (string, int) dict \<Rightarrow> int list \<Rightarrow> int \<Rightarrow> string \<Rightarrow> int option" where
  "preferred_slot use_stable mapping taken physical_slot serial =
     (case (if use_stable then dict_get mapping serial else Some physical_slot) of
        None \<Rightarrow> None
      | Some s \<Rightarrow> if s \<in> set taken then None else Some s)"

definition fallback_candidates :: "int \<Rightarrow> int list" where
  "fallback_candidates physical_slot =
     (if physical_slot \<in> set tracked_slots then [physical_slot] else []) @ tracked_slots"

fun auto_step ::
    "bool \<Rightarrow> (string, int) dict \<Rightarrow> int list \<Rightarrow> (int, int) dict \<times> int list \<Rightarrow> int \<times> string \<Rightarrow>
     (int, int) dict \<times> int list" where
  "auto_step use_stable mapping reserved (ptl, used) (physical_slot, serial) =
     (if dict_get ptl physical_slot \<noteq> None then (ptl, used)
      else (case (case preferred_slot use_stable mapping (reserved @ used) physical_slot serial of
                    Some s \<Rightarrow> Some s
                  | None \<Rightarrow> first_free (fallback_candidates physical_slot) (reserved @ used)) of
          None \<Rightarrow> (ptl, used)
        | Some slot \<Rightarrow> (dict_set physical_slot slot ptl, slot # used)))"

definition assign_slots ::
    "bool \<Rightarrow> (string, int) dict \<Rightarrow> (int, string) dict \<Rightarrow> (int, string) dict \<Rightarrow> (int, int) dict \<times> int list" where
  "assign_slots use_stable mapping manual current =
     foldl (auto_step use_stable mapping (reserved_manual manual))
       (foldl (explicit_step (explicit_slots manual)) ([], []) current) current"

section \<open>The payload\<close>

definition keep_unslotted :: "(string, 'v) dict \<Rightarrow> (string, 'v) dict" where
  "keep_unslotted payload = filter (\<lambda>(k, v). logical_slot_from_key k = None) payload"

definition slot_blocked :: "(int, int) dict \<Rightarrow> int list \<Rightarrow> int list \<Rightarrow> (int, string) dict \<Rightarrow> int \<Rightarrow> bool" where
  "slot_blocked ptl used reserved current physical_slot \<longleftrightarrow>
     dict_get ptl physical_slot = None \<and>
     (physical_slot \<in> set used \<or> physical_slot \<in> set reserved \<or> dict_get current physical_slot \<noteq> None)"

fun remap_item ::
    "(int, int) dict \<Rightarrow> int list \<Rightarrow> int list \<Rightarrow> (int, string) dict \<Rightarrow> string \<times> 'v \<Rightarrow>
     (string, 'v) dict \<Rightarrow> (string, 'v) dict" where
  "remap_item ptl used reserved current (key, v) remapped =
     (case logical_slot_from_key key of
        None \<Rightarrow> remapped
      | Some physical_slot \<Rightarrow>
          if slot_blocked ptl used reserved current physical_slot then remapped
          else dict_set (remap_key key (case dict_get ptl physical_slot of Some s \<Rightarrow> s | None \<Rightarrow> physical_slot))
                 v remapped)"

definition remap_payload ::
    "(int, int) dict \<Rightarrow> int list \<Rightarrow> int list \<Rightarrow> (int, string) dict \<Rightarrow> (string, 'v) dict \<Rightarrow> (string, 'v) dict" where
  "remap_payload ptl used reserved current payload =
     fold (remap_item ptl used reserved current) payload (keep_unslotted payload)"

definition highest_slot :: "(int, int) dict \<Rightarrow> int" where
  "highest_slot ptl = (if ptl = [] then 1 else Max (set (map snd ptl)))"

definition unchanged_assignment :: "(int, int) dict \<Rightarrow> int list \<Rightarrow> (int, string) dict \<Rightarrow> bool" where
  "unchanged_assignment ptl reserved current \<longleftrightarrow>
     reserved = [] \<and> list_all (\<lambda>(p, l). l = p) ptl \<and> length ptl = length current"

text \<open>The pure part of \<open>_stabilize_battery_payload_locked\<close>, after the map was extended.\<close>

definition stabilized_payload ::
    "bool \<Rightarrow> (string, int) dict \<Rightarrow> (int, string) dict \<Rightarrow> (int, string) dict \<Rightarrow> (string, 'v) dict \<Rightarrow>
     (string, 'v) dict \<times> int" where
  "stabilized_payload use_stable mapping manual current payload =
     (let (ptl, used) = assign_slots use_stable mapping manual current;
          reserved = reserved_manual manual
      in if unchanged_assignment ptl reserved current then (payload, highest_slot ptl)
         else (remap_payload ptl used reserved current payload, highest_slot ptl))"

section \<open>Lemmas: register names\<close>

lemma first_match_name:
  "first_match name ps = Some (p, s, r) \<Longrightarrow>
   \<exists>c q. name = p @ c # r \<and> slot_of_digit c = Some s \<and> (p, q) \<in> set ps \<and> q r"
proof (induction ps)
  case (Cons a ps)
  then show ?case
    by (cases a) (auto simp: match_pattern_def prefix_def split: if_splits option.splits list.splits)
qed simp

lemma str_of_tracked: "str_of_int 2 = ''2''" "str_of_int 3 = ''3''" "str_of_int 4 = ''4''"
  by code_simp+

lemma slot_of_digit_tracked: "slot_of_digit c = Some s \<Longrightarrow> s \<in> set tracked_slots \<and> str_of_int s = [c]"
  by (auto simp: slot_of_digit_def tracked_slots_def str_of_tracked split: if_splits)

lemma slot_of_digits: "slot_of_digit (CHR ''2'') = Some 2" "slot_of_digit (CHR ''3'') = Some 3"
    "slot_of_digit (CHR ''4'') = Some 4"
  by (simp_all add: slot_of_digit_def)

lemma tracked_digit:
  assumes "l \<in> set tracked_slots"
  obtains c where "str_of_int l = [c]" "slot_of_digit c = Some l"
proof -
  from assms consider "l = 2" | "l = 3" | "l = 4" by (auto simp: tracked_slots_def)
  then show ?thesis by cases (use that slot_of_digits str_of_tracked in blast)+
qed

text \<open>The letters that decide between the patterns are no slot digits.\<close>

lemma slot_of_other_digits: "slot_of_digit (CHR ''_'') = None" "slot_of_digit (CHR ''t'') = None"
  by (simp_all add: slot_of_digit_def)

lemma first_match_rebuilt:
  assumes "(p, q) \<in> set bat_key_patterns" "q r" "slot_of_digit c = Some l"
  shows "first_match (p @ c # r) bat_key_patterns = Some (p, l, r)"
proof -
  have c: "c \<noteq> CHR ''_''" "c \<noteq> CHR ''t''" using assms(3) slot_of_other_digits by auto
  from assms(1) consider
      "p = ''bat''" | "p = ''bat_''" | "p = ''battery''" | "p = ''maxcvbat''" | "p = ''mincvbat''"
    by (auto simp: bat_key_patterns_def Let_def)
  then show ?thesis
    using assms c
    by cases (simp_all add: bat_key_patterns_def match_pattern_def slot_of_other_digits Let_def)
qed

lemma remap_key_match:
  assumes "first_match name bat_key_patterns = Some (p, s, r)" "l \<in> set tracked_slots"
  shows "first_match (remap_key name l) bat_key_patterns = Some (p, l, r)"
proof -
  obtain c q where "(p, q) \<in> set bat_key_patterns" "q r"
    using first_match_name [OF assms(1)] by blast
  moreover obtain d where "str_of_int l = [d]" "slot_of_digit d = Some l"
    using assms(2) by (rule tracked_digit)
  ultimately show ?thesis using assms(1) first_match_rebuilt [of p q r d l] by (simp add: remap_key_def)
qed

lemma remap_key_same: "logical_slot_from_key name = Some s \<Longrightarrow> remap_key name s = name"
  using first_match_name [of name bat_key_patterns] slot_of_digit_tracked
  by (fastforce simp: logical_slot_from_key_def remap_key_def split: option.splits)

lemma logical_slot_tracked: "logical_slot_from_key name = Some s \<Longrightarrow> s \<in> set tracked_slots"
  using first_match_name [of name bat_key_patterns] slot_of_digit_tracked
  by (fastforce simp: logical_slot_from_key_def)

lemma logical_slot_remap_key:
  "logical_slot_from_key name = Some s \<Longrightarrow> l \<in> set tracked_slots \<Longrightarrow>
   logical_slot_from_key (remap_key name l) = Some l"
  using remap_key_match [of name] by (fastforce simp: logical_slot_from_key_def)

text \<open>Two registers of the same physical slot never end up under one name.\<close>

lemma remap_key_inj:
  assumes "logical_slot_from_key k1 = Some s" "logical_slot_from_key k2 = Some s"
    and "l \<in> set tracked_slots" "remap_key k1 l = remap_key k2 l"
  shows "k1 = k2"
proof -
  obtain p1 r1 where m1: "first_match k1 bat_key_patterns = Some (p1, s, r1)"
    using assms(1) by (auto simp: logical_slot_from_key_def)
  obtain p2 r2 where m2: "first_match k2 bat_key_patterns = Some (p2, s, r2)"
    using assms(2) by (auto simp: logical_slot_from_key_def)
  have "p1 = p2" "r1 = r2"
    using remap_key_match [OF m1 assms(3)] remap_key_match [OF m2 assms(3)] assms(4) by auto
  moreover have "k1 = p1 @ str_of_int s @ r1" "k2 = p2 @ str_of_int s @ r2"
    using first_match_name [OF m1] first_match_name [OF m2] slot_of_digit_tracked by fastforce+
  ultimately show ?thesis by simp
qed

section \<open>Lemmas: the slot assignment\<close>

lemma first_free_Some: "first_free cs taken = Some s \<Longrightarrow> s \<in> set cs \<and> s \<notin> set taken"
  by (auto simp: first_free_def find_Some_iff)

lemma first_free_None: "first_free cs taken = None \<longleftrightarrow> set cs \<subseteq> set taken"
  by (auto simp: first_free_def find_None_iff)

text \<open>A map from packs to slots that is a function, injective and into the tracked slots.\<close>

definition slot_map :: "('k, int) dict \<Rightarrow> bool" where
  "slot_map m \<longleftrightarrow> dict_wf m \<and> distinct (map snd m) \<and> set (map snd m) \<subseteq> set tracked_slots"

lemma slot_map_Nil [simp]: "slot_map []"
  by (simp add: slot_map_def)

lemma slot_map_add:
  assumes "slot_map m" "dict_get m k = None" "s \<in> set tracked_slots" "s \<notin> set (map snd m)"
  shows "slot_map (dict_set k s m)" "set (map snd (dict_set k s m)) = insert s (set (map snd m))"
proof -
  show "slot_map (dict_set k s m)"
    using assms by (auto simp: slot_map_def dict_set_fresh dict_wf_def map_of_eq_None_iff)
  show "set (map snd (dict_set k s m)) = insert s (set (map snd m))"
    using assms(2) by (simp add: dict_set_fresh)
qed

lemma slot_map_inj: "slot_map m \<Longrightarrow> dict_get m a = Some s \<Longrightarrow> dict_get m b = Some s \<Longrightarrow> a = b"
proof -
  assume m: "slot_map m" "dict_get m a = Some s" "dict_get m b = Some s"
  then have "(a, s) \<in> set m" "(b, s) \<in> set m" by (auto dest: map_of_SomeD)
  moreover have "inj_on snd (set m)" using m(1) by (simp add: slot_map_def distinct_map)
  ultimately show "a = b" using inj_onD [of snd "set m" "(a, s)" "(b, s)"] by simp
qed

text \<open>Extending the persistent map: it stays injective and no entry changes.\<close>

lemma stable_step_inv:
  assumes "slot_map m" "set reserved = set (map snd m)"
    and "stable_step (m, reserved, ch) ps = (m', reserved', ch')"
  shows "slot_map m' \<and> set reserved' = set (map snd m') \<and> dict_get m \<subseteq>\<^sub>m dict_get m' \<and>
    (ch' \<longleftrightarrow> ch \<or> m' \<noteq> m)"
proof -
  obtain p s where ps: "ps = (p, s)" by fastforce
  show ?thesis
  proof (cases "dict_get m s = None")
    case False
    then show ?thesis using assms ps by auto
  next
    case True
    show ?thesis
    proof (cases "if p \<in> set tracked_slots \<and> p \<notin> set reserved then Some p else first_free tracked_slots reserved")
      case None
      then show ?thesis using assms ps True by auto
    next
      case (Some l)
      then have l: "l \<in> set tracked_slots" "l \<notin> set (map snd m)"
        using first_free_Some [of tracked_slots reserved l] assms(2) by (auto split: if_splits)
      have m': "m' = dict_set s l m" "reserved' = l # reserved" "ch' = True"
        using assms(3) ps True Some by auto
      have "dict_set s l m \<noteq> m" using True by (simp add: dict_set_fresh)
      then show ?thesis
        using slot_map_add [OF assms(1) True l] m' assms(2) True by (auto simp: map_le_def)
    qed
  qed
qed

lemma stable_fold_inv:
  assumes "slot_map m" "set reserved = set (map snd m)"
    and "foldl stable_step (m, reserved, ch) current = (m', reserved', ch')"
  shows "slot_map m' \<and> set reserved' = set (map snd m') \<and> dict_get m \<subseteq>\<^sub>m dict_get m' \<and> (ch \<longrightarrow> ch')"
  using assms
proof (induction current arbitrary: m reserved ch)
  case (Cons ps current)
  obtain m1 r1 c1 where step: "stable_step (m, reserved, ch) ps = (m1, r1, c1)"
    by (cases "stable_step (m, reserved, ch) ps") auto
  note inv = stable_step_inv [OF Cons.prems(1,2) step]
  have "foldl stable_step (m1, r1, c1) current = (m', reserved', ch')"
    using Cons.prems(3) step by simp
  then have "slot_map m' \<and> set reserved' = set (map snd m') \<and> dict_get m1 \<subseteq>\<^sub>m dict_get m' \<and> (c1 \<longrightarrow> ch')"
    using inv by (intro Cons.IH) auto
  then show ?case using inv map_le_trans by blast
qed auto

lemma map_le_get: "m \<subseteq>\<^sub>m m' \<Longrightarrow> m k = Some v \<Longrightarrow> m' k = Some v"
  by (auto simp: map_le_def dom_def)

lemma extend_stable_inv:
  assumes "slot_map m" "extend_stable m current = (m', ch)"
  shows "slot_map m' \<and> dict_get m \<subseteq>\<^sub>m dict_get m'"
proof -
  obtain r where "foldl stable_step (m, map snd m, False) current = (m', r, ch)"
    using assms(2) by (auto simp: extend_stable_def split: prod.splits)
  then show ?thesis using stable_fold_inv [OF assms(1)] by blast
qed

text \<open>Manual choices as the loader and the validator leave them.\<close>

definition manual_ok :: "(int, string) dict \<Rightarrow> bool" where
  "manual_ok manual \<longleftrightarrow>
     dict_wf manual \<and> set (map fst manual) \<subseteq> set tracked_slots \<and>
     distinct (map snd (filter (\<lambda>(l, v). v \<notin> {auto_assignment, empty_assignment}) manual))"

lemma explicit_slots_update:
  "explicit_slots manual =
   dict_update [] (map (\<lambda>(l, v). (v, l)) (filter (\<lambda>(l, v). v \<notin> {auto_assignment, empty_assignment}) manual))"
proof -
  have "fold (\<lambda>(slot, v) d. if v \<in> {auto_assignment, empty_assignment} then d else dict_set v slot d) m d =
      dict_update d (map (\<lambda>(l, v). (v, l)) (filter (\<lambda>(l, v). v \<notin> {auto_assignment, empty_assignment}) m))" for m d
    by (induction m arbitrary: d) (auto simp: dict_update_def)
  then show ?thesis by (simp only: explicit_slots_def)
qed

lemma explicit_slots_iff:
  assumes "manual_ok manual"
  shows "dict_get (explicit_slots manual) s = Some l \<longleftrightarrow>
    (l, s) \<in> set manual \<and> s \<notin> {auto_assignment, empty_assignment}"
proof -
  let ?e = "map (\<lambda>(l, v). (v, l)) (filter (\<lambda>(l, v). v \<notin> {auto_assignment, empty_assignment}) manual)"
  have keys: "map fst ?e = map snd (filter (\<lambda>(l, v). v \<notin> {auto_assignment, empty_assignment}) manual)"
    by (simp add: comp_def case_prod_unfold)
  then have d: "distinct (map fst ?e)" using assms by (simp only: manual_ok_def)
  have "dict_get (explicit_slots manual) = map_of ?e"
    unfolding explicit_slots_update dict_get_update map_of_rev_keys [OF d] by simp
  moreover have "map_of ?e s = Some l \<longleftrightarrow> (s, l) \<in> set ?e"
    using d by (rule map_of_eq_Some_iff)
  ultimately show ?thesis by auto
qed

lemma explicit_slots_tracked:
  "manual_ok manual \<Longrightarrow> dict_get (explicit_slots manual) s = Some l \<Longrightarrow> l \<in> set tracked_slots"
  using explicit_slots_iff [of manual s l] by (force simp: manual_ok_def)

lemma explicit_slots_inj:
  assumes "manual_ok manual" "dict_get (explicit_slots manual) s = Some l"
    "dict_get (explicit_slots manual) s' = Some l"
  shows "s = s'"
proof -
  have "(l, s) \<in> set manual" "(l, s') \<in> set manual"
    using assms explicit_slots_iff [OF assms(1)] by auto
  moreover have "distinct (map fst manual)" using assms(1) by (simp add: manual_ok_def dict_wf_def)
  ultimately show ?thesis by (metis eq_key_imp_eq_value)
qed

text \<open>The packs of one packet: physical slots 2 to 4, one pack each, no serial twice.\<close>

definition packs_ok :: "(int, string) dict \<Rightarrow> bool" where
  "packs_ok current \<longleftrightarrow>
     dict_wf current \<and> distinct (map snd current) \<and> set (map fst current) \<subseteq> set tracked_slots"

definition pass_ok :: "(int, int) dict \<times> int list \<Rightarrow> bool" where
  "pass_ok st \<longleftrightarrow> slot_map (fst st) \<and> set (snd st) = set (map snd (fst st))"

lemma pass_ok_add:
  assumes "pass_ok (ptl, used)" "dict_get ptl p = None" "s \<in> set tracked_slots" "s \<notin> set used"
  shows "pass_ok (dict_set p s ptl, s # used)"
  using assms slot_map_add [of ptl p s] by (simp add: pass_ok_def)

lemma explicit_pass:
  assumes "manual_ok manual" "distinct (map fst cs)" "distinct (map snd cs)"
    and "pass_ok (ptl, used)" "\<forall>p\<in>set (map fst cs). dict_get ptl p = None"
    and "\<forall>s\<in>set (map snd cs). \<forall>l. dict_get (explicit_slots manual) s = Some l \<longrightarrow> l \<notin> set used"
  shows "pass_ok (foldl (explicit_step (explicit_slots manual)) (ptl, used) cs) \<and>
    (\<forall>p. dict_get (fst (foldl (explicit_step (explicit_slots manual)) (ptl, used) cs)) p =
      (case map_of cs p of None \<Rightarrow> dict_get ptl p | Some s \<Rightarrow> dict_get (explicit_slots manual) s))"
  using assms(2-)
proof (induction cs arbitrary: ptl used)
  case (Cons ps cs)
  obtain p s where ps: "ps = (p, s)" by fastforce
  let ?ex = "explicit_slots manual"
  show ?case
  proof (cases "dict_get ?ex s")
    case None
    then have "explicit_step ?ex (ptl, used) ps = (ptl, used)" using ps by simp
    moreover have "map_of cs p = None" using Cons.prems(1) ps by (simp add: map_of_eq_None_iff)
    ultimately show ?thesis using Cons.IH [of ptl used] Cons.prems ps None by auto
  next
    case (Some l)
    then have step: "explicit_step ?ex (ptl, used) ps = (dict_set p l ptl, l # used)" using ps by simp
    have ok: "pass_ok (dict_set p l ptl, l # used)"
      using Cons.prems ps Some explicit_slots_tracked [OF assms(1) Some] by (intro pass_ok_add) auto
    have "\<forall>s'\<in>set (map snd cs). \<forall>l'. dict_get ?ex s' = Some l' \<longrightarrow> l' \<notin> set (l # used)"
    proof (intro ballI allI impI)
      fix s' l' assume s': "s' \<in> set (map snd cs)" "dict_get ?ex s' = Some l'"
      then have "s' \<noteq> s" using Cons.prems(2) ps by auto
      then have "l' \<noteq> l" using explicit_slots_inj [OF assms(1) Some, of s'] s'(2) by blast
      moreover have "l' \<notin> set used" using Cons.prems(5) ps s' by auto
      ultimately show "l' \<notin> set (l # used)" by simp
    qed
    moreover have "\<forall>q\<in>set (map fst cs). dict_get (dict_set p l ptl) q = None"
      using Cons.prems ps by auto
    moreover have "p \<notin> set (map fst cs)" using Cons.prems(1) ps by simp
    ultimately show ?thesis
      using Cons.IH [of "dict_set p l ptl" "l # used"] Cons.prems ps ok step Some
      by (auto simp: map_of_eq_None_iff [THEN iffD2] split: option.splits)
  qed
qed simp

lemma auto_step_cases:
  assumes "auto_step us mapping reserved (ptl, used) (p, s) = (ptl', used')" "p \<in> set tracked_slots"
    and "set (map snd mapping) \<subseteq> set tracked_slots"
  shows "(ptl', used') = (ptl, used) \<or>
    (\<exists>l. dict_get ptl p = None \<and> l \<in> set tracked_slots \<and> l \<notin> set used \<and> l \<notin> set reserved \<and>
      ptl' = dict_set p l ptl \<and> used' = l # used)"
proof -
  have pref: "l \<in> set tracked_slots \<and> l \<notin> set (reserved @ used)"
    if "preferred_slot us mapping (reserved @ used) p s = Some l" for l
    using that assms(2,3) map_of_SomeD [of mapping s]
    by (fastforce simp: preferred_slot_def image_subset_iff split: if_splits option.splits)
  have fb: "l \<in> set tracked_slots \<and> l \<notin> set (reserved @ used)"
    if "first_free (fallback_candidates p) (reserved @ used) = Some l" for l
    using first_free_Some [OF that] assms(2) by (auto simp: fallback_candidates_def)
  show ?thesis
    using assms(1) pref fb by (auto split: if_splits option.splits)
qed

lemma auto_pass:
  assumes "set (map fst cs) \<subseteq> set tracked_slots" "set (map snd mapping) \<subseteq> set tracked_slots"
    and "pass_ok (ptl, used)"
  shows "pass_ok (foldl (auto_step us mapping reserved) (ptl, used) cs) \<and>
    dict_get ptl \<subseteq>\<^sub>m dict_get (fst (foldl (auto_step us mapping reserved) (ptl, used) cs)) \<and>
    (\<forall>p l. dict_get (fst (foldl (auto_step us mapping reserved) (ptl, used) cs)) p = Some l \<longrightarrow>
       dict_get ptl p = Some l \<or> l \<notin> set reserved \<and> p \<in> set (map fst cs))"
  using assms(1,3)
proof (induction cs arbitrary: ptl used)
  case (Cons ps cs)
  obtain p s where ps: "ps = (p, s)" by fastforce
  obtain ptl1 used1 where step: "auto_step us mapping reserved (ptl, used) ps = (ptl1, used1)"
    by fastforce
  have mid: "pass_ok (ptl1, used1) \<and> dict_get ptl \<subseteq>\<^sub>m dict_get ptl1 \<and>
      (\<forall>q l. dict_get ptl1 q = Some l \<longrightarrow> dict_get ptl q = Some l \<or> l \<notin> set reserved \<and> q = p)"
    using auto_step_cases [of us mapping reserved ptl used p s ptl1 used1] step ps Cons.prems assms(2)
      pass_ok_add [of ptl used p]
    by (auto simp: map_le_def split: if_splits)
  note IH = Cons.IH [of ptl1 used1]
  have "set (map fst cs) \<subseteq> set tracked_slots" using Cons.prems(1) by simp
  note rest = IH [OF this conjunct1 [OF mid]]
  show ?case
    using rest mid step ps map_le_trans by fastforce
qed simp

text \<open>With nothing reserved there is a slot for every pack: at most two of the three are taken.\<close>

lemma slot_map_room:
  assumes "slot_map ptl" "set (map fst ptl) \<subseteq> set tracked_slots" "p \<in> set tracked_slots"
    and "dict_get ptl p = None"
  shows "\<not> set tracked_slots \<subseteq> set (map snd ptl)"
proof
  assume sub: "set tracked_slots \<subseteq> set (map snd ptl)"
  have "p \<notin> set (map fst ptl)" using assms(4) by (simp add: map_of_eq_None_iff)
  then have "set (map fst ptl) \<subset> set tracked_slots" using assms(2,3) by auto
  then have "card (set (map fst ptl)) < card (set tracked_slots)" by (intro psubset_card_mono) simp_all
  moreover have "card (set (map fst ptl)) = length ptl" "card (set (map snd ptl)) = length ptl"
    using assms(1) distinct_card [of "map fst ptl"] distinct_card [of "map snd ptl"]
    by (simp_all add: slot_map_def dict_wf_def)
  moreover have "card (set tracked_slots) \<le> card (set (map snd ptl))"
    using sub by (intro card_mono) simp_all
  ultimately show False by simp
qed

text \<open>The whole assignment: what both passes together guarantee.\<close>

lemma assign_slots_spec:
  assumes "packs_ok current" "manual_ok manual" "set (map snd mapping) \<subseteq> set tracked_slots"
  shows "pass_ok (assign_slots us mapping manual current)"
    and "dict_get current p = Some s \<Longrightarrow> dict_get (explicit_slots manual) s = Some l \<Longrightarrow>
      dict_get (fst (assign_slots us mapping manual current)) p = Some l"
    and "dict_get (fst (assign_slots us mapping manual current)) p = Some l \<Longrightarrow>
      \<exists>s. dict_get current p = Some s \<and>
        (dict_get (explicit_slots manual) s = Some l \<or> l \<notin> set (reserved_manual manual))"
proof -
  let ?first = "foldl (explicit_step (explicit_slots manual)) ([], []) current"
  have one: "pass_ok ?first \<and> (\<forall>p. dict_get (fst ?first) p =
      (case map_of current p of None \<Rightarrow> dict_get [] p | Some s \<Rightarrow> dict_get (explicit_slots manual) s))"
    using assms by (intro explicit_pass) (simp_all add: packs_ok_def dict_wf_def pass_ok_def)
  obtain ptl used where first: "?first = (ptl, used)" by fastforce
  have two: "pass_ok (assign_slots us mapping manual current) \<and>
      dict_get ptl \<subseteq>\<^sub>m dict_get (fst (assign_slots us mapping manual current)) \<and>
      (\<forall>p l. dict_get (fst (assign_slots us mapping manual current)) p = Some l \<longrightarrow>
         dict_get ptl p = Some l \<or> l \<notin> set (reserved_manual manual) \<and> p \<in> set (map fst current))"
    unfolding assign_slots_def first using assms one first
    by (intro auto_pass) (simp_all add: packs_ok_def)
  show "pass_ok (assign_slots us mapping manual current)" using two ..
  show "dict_get (fst (assign_slots us mapping manual current)) p = Some l"
    if "dict_get current p = Some s" "dict_get (explicit_slots manual) s = Some l"
    using one two first that by (auto simp: map_le_def dom_def)
  show "\<exists>s. dict_get current p = Some s \<and>
      (dict_get (explicit_slots manual) s = Some l \<or> l \<notin> set (reserved_manual manual))"
    if got: "dict_get (fst (assign_slots us mapping manual current)) p = Some l"
  proof -
    consider "dict_get ptl p = Some l" | "l \<notin> set (reserved_manual manual)" "p \<in> set (map fst current)"
      using two got by blast
    then show ?thesis
    proof cases
      case 1
      then show ?thesis using one first by (auto split: option.splits)
    next
      case 2
      then obtain s where "dict_get current p = Some s" by (metis map_of_eq_None_iff not_None_eq set_map)
      then show ?thesis using 2 by blast
    qed
  qed
qed

lemma auto_pass_total:
  assumes "set (map fst cs) \<subseteq> set tracked_slots" "set (map snd mapping) \<subseteq> set tracked_slots"
    and "pass_ok (ptl, used)" "set (map fst ptl) \<subseteq> set tracked_slots" "p \<in> set (map fst cs)"
  shows "dict_get (fst (foldl (auto_step us mapping []) (ptl, used) cs)) p \<noteq> None"
  using assms(1,3,4,5)
proof (induction cs arbitrary: ptl used)
  case (Cons ps cs)
  obtain q s where ps: "ps = (q, s)" by fastforce
  obtain ptl1 used1 where step: "auto_step us mapping [] (ptl, used) ps = (ptl1, used1)" by fastforce
  have q: "q \<in> set tracked_slots" using Cons.prems(1) ps by simp
  have cases: "(ptl1, used1) = (ptl, used) \<or>
      (\<exists>l. dict_get ptl q = None \<and> l \<in> set tracked_slots \<and> l \<notin> set used \<and> l \<notin> set [] \<and>
        ptl1 = dict_set q l ptl \<and> used1 = l # used)"
    using auto_step_cases [OF _ q assms(2)] step ps by blast
  have ok: "pass_ok (ptl1, used1)" using cases Cons.prems(2) pass_ok_add by auto
  have keys: "set (map fst ptl1) \<subseteq> set tracked_slots"
    using cases Cons.prems(3) q by (fastforce simp: dict_set_fresh image_subset_iff)
  have got: "dict_get ptl1 q \<noteq> None"
  proof (cases "dict_get ptl q")
    case None
    have "\<not> set tracked_slots \<subseteq> set used"
      using slot_map_room [of ptl q] Cons.prems(2,3) q None by (simp add: pass_ok_def)
    then have "first_free (fallback_candidates q) used \<noteq> None"
      by (auto simp: first_free_None fallback_candidates_def)
    then show ?thesis using step ps None by (auto split: option.splits)
  qed (use cases in auto)
  have mono: "dict_get ptl1 \<subseteq>\<^sub>m dict_get (fst (foldl (auto_step us mapping []) (ptl1, used1) cs))"
    using auto_pass [of cs mapping ptl1 used1 us "[]"] Cons.prems(1) assms(2) ok by simp
  show ?case
  proof (cases "p = q")
    case True
    then show ?thesis using got mono step ps by (auto simp: map_le_def dom_def)
  next
    case False
    then show ?thesis using Cons.IH [of ptl1 used1] Cons.prems step ps ok keys by simp
  qed
qed simp

text \<open>Without manual choices and with every pack in the map, each gets its own entry.\<close>

lemma auto_pass_stable:
  assumes "slot_map mapping" "distinct (map snd cs)" "distinct (map fst cs)"
    and "\<forall>s\<in>set (map snd cs). dict_get mapping s \<noteq> None"
    and "\<forall>s\<in>set (map snd cs). \<forall>l. dict_get mapping s = Some l \<longrightarrow> l \<notin> set used"
    and "\<forall>p\<in>set (map fst cs). dict_get ptl p = None"
    and "(p, s) \<in> set cs"
  shows "dict_get (fst (foldl (auto_step True mapping []) (ptl, used) cs)) p = dict_get mapping s"
proof -
  have "dict_get (fst (foldl (auto_step True mapping []) (ptl, used) cs)) p =
      (case map_of cs p of None \<Rightarrow> dict_get ptl p | Some s \<Rightarrow> dict_get mapping s)" for p
    using assms(2-6)
  proof (induction cs arbitrary: ptl used)
    case (Cons ps cs)
    obtain q t where ps: "ps = (q, t)" by fastforce
    obtain l where l: "dict_get mapping t = Some l" using Cons.prems(3) ps by auto
    have "l \<notin> set used" using Cons.prems(4) ps l by simp
    then have step: "auto_step True mapping [] (ptl, used) ps = (dict_set q l ptl, l # used)"
      using Cons.prems(5) ps l by (simp add: preferred_slot_def)
    have fresh: "\<forall>s\<in>set (map snd cs). \<forall>l'. dict_get mapping s = Some l' \<longrightarrow> l' \<notin> set (l # used)"
    proof (intro ballI allI impI)
      fix s l' assume s: "s \<in> set (map snd cs)" "dict_get mapping s = Some l'"
      then have "s \<noteq> t" using Cons.prems(1) ps by auto
      then have "l' \<noteq> l" using slot_map_inj [OF assms(1) s(2)] l by blast
      then show "l' \<notin> set (l # used)" using Cons.prems(4) ps s by auto
    qed
    have "map_of cs q = None" using Cons.prems(2) ps by (simp add: map_of_eq_None_iff)
    moreover have "\<forall>p\<in>set (map fst cs). dict_get (dict_set q l ptl) p = None"
      using Cons.prems(2,5) ps by auto
    ultimately show ?case
      using Cons.IH [OF _ _ _ fresh] Cons.prems(1-3) ps step l by (auto split: option.splits)
  qed simp
  moreover have "map_of cs p = Some s" using assms(3,7) by (rule map_of_is_SomeI)
  ultimately show ?thesis by simp
qed

section \<open>Lemmas: the payload\<close>

definition remap_target ::
    "(int, int) dict \<Rightarrow> int list \<Rightarrow> int list \<Rightarrow> (int, string) dict \<Rightarrow> string \<Rightarrow> string option" where
  "remap_target ptl used reserved current key =
     (case logical_slot_from_key key of
        None \<Rightarrow> None
      | Some p \<Rightarrow>
          if slot_blocked ptl used reserved current p then None
          else Some (remap_key key (case dict_get ptl p of Some l \<Rightarrow> l | None \<Rightarrow> p)))"

lemma remap_item_target:
  "remap_item ptl used reserved current (k, v) d =
   (case remap_target ptl used reserved current k of None \<Rightarrow> d | Some k' \<Rightarrow> dict_set k' v d)"
  by (auto simp: remap_target_def split: option.splits)

lemma fold_remap_item:
  "fold (remap_item ptl used reserved current) payload d =
   dict_update d (List.map_filter (\<lambda>(k, v). map_option (\<lambda>k'. (k', v)) (remap_target ptl used reserved current k)) payload)"
  by (induction payload arbitrary: d)
     (auto simp: dict_update_def map_filter_simps remap_item_target simp del: remap_item.simps split: option.splits)

lemma remap_target_slot:
  assumes "slot_map ptl" "remap_target ptl used reserved current k = Some k'"
  shows "\<exists>p l. logical_slot_from_key k = Some p \<and> logical_slot_from_key k' = Some l \<and>
    k' = remap_key k l \<and> \<not> slot_blocked ptl used reserved current p \<and>
    (dict_get ptl p = Some l \<or> dict_get ptl p = None \<and> l = p)"
proof -
  obtain p where p: "logical_slot_from_key k = Some p" "\<not> slot_blocked ptl used reserved current p"
    "k' = remap_key k (case dict_get ptl p of Some l \<Rightarrow> l | None \<Rightarrow> p)"
    using assms(2) by (auto simp: remap_target_def split: option.splits if_splits)
  have range: "set (map snd ptl) \<subseteq> set tracked_slots" using assms(1) by (simp add: slot_map_def)
  show ?thesis
  proof (cases "dict_get ptl p")
    case None
    then show ?thesis using p logical_slot_remap_key [OF p(1) logical_slot_tracked [OF p(1)]] by simp
  next
    case (Some l)
    then have "l \<in> set tracked_slots" using range map_of_SomeD [OF Some] by force
    then show ?thesis using p Some logical_slot_remap_key [OF p(1)] by simp
  qed
qed

text \<open>No two registers of a payload are written to the same name.\<close>

lemma remap_target_inj:
  assumes ok: "pass_ok (ptl, used)"
    and t: "remap_target ptl used reserved current k1 = Some k'"
      "remap_target ptl used reserved current k2 = Some k'"
  shows "k1 = k2"
proof -
  have sm: "slot_map ptl" and used: "set used = set (map snd ptl)" using ok by (simp_all add: pass_ok_def)
  obtain p1 l where 1: "logical_slot_from_key k1 = Some p1" "logical_slot_from_key k' = Some l"
      "k' = remap_key k1 l" "\<not> slot_blocked ptl used reserved current p1"
      "dict_get ptl p1 = Some l \<or> dict_get ptl p1 = None \<and> l = p1"
    using remap_target_slot [OF sm t(1)] by blast
  obtain p2 where 2: "logical_slot_from_key k2 = Some p2" "k' = remap_key k2 l"
      "\<not> slot_blocked ptl used reserved current p2"
      "dict_get ptl p2 = Some l \<or> dict_get ptl p2 = None \<and> l = p2"
    using remap_target_slot [OF sm t(2)] 1(2) by auto
  have clash: False if "dict_get ptl p = Some l" "dict_get ptl l = None" "\<not> slot_blocked ptl used reserved current l" for p
  proof -
    have "l \<in> set used" using that(1) used by (force dest: map_of_SomeD)
    then show False using that by (simp add: slot_blocked_def)
  qed
  have "p1 = p2"
    using 1(4,5) 2(3,4) slot_map_inj [OF sm] clash by metis
  moreover have "l \<in> set tracked_slots" using logical_slot_tracked [OF 1(2)] .
  ultimately show ?thesis using remap_key_inj [OF 1(1), of k2 l] 2(1,2) 1(3) by simp
qed

lemma map_filter_keys_distinct:
  assumes "distinct (map fst xs)" "\<And>a b c. f a = Some c \<Longrightarrow> f b = Some c \<Longrightarrow> a = b"
  shows "distinct (map fst (List.map_filter (\<lambda>(k, v). map_option (\<lambda>k'. (k', v)) (f k)) xs))"
proof -
  have sub: "k' \<in> fst ` set (List.map_filter (\<lambda>(k, v). map_option (\<lambda>k'. (k', v)) (f k)) ys) \<Longrightarrow>
      \<exists>k\<in>fst ` set ys. f k = Some k'" for k' ys
    by (force simp: map_filter_def split: option.splits)
  show ?thesis
    using assms(1)
  proof (induction xs)
    case (Cons a xs)
    have "c \<notin> fst ` set (List.map_filter (\<lambda>(k, v). map_option (\<lambda>k'. (k', v)) (f k)) xs)"
      if c: "f (fst a) = Some c" for c
    proof
      assume "c \<in> fst ` set (List.map_filter (\<lambda>(k, v). map_option (\<lambda>k'. (k', v)) (f k)) xs)"
      then obtain k where "k \<in> fst ` set xs" "f k = Some c" using sub by blast
      then show False using assms(2) [OF c, of k] Cons.prems by simp
    qed
    then show ?case
      using Cons by (cases a) (auto simp: map_filter_simps split: option.splits)
  qed (simp add: map_filter_simps)
qed

lemma remap_payload_get:
  assumes "pass_ok (ptl, used)" "dict_wf payload"
  shows "dict_get (remap_payload ptl used reserved current payload) k' =
    (case logical_slot_from_key k' of
       None \<Rightarrow> dict_get payload k'
     | Some l \<Rightarrow>
         map_of (List.map_filter (\<lambda>(k, v). map_option (\<lambda>k'. (k', v))
           (remap_target ptl used reserved current k)) payload) k')"
proof -
  let ?w = "List.map_filter (\<lambda>(k, v). map_option (\<lambda>k'. (k', v))
    (remap_target ptl used reserved current k)) payload"
  have d: "distinct (map fst ?w)"
    using assms(2) remap_target_inj [OF assms(1)]
    by (intro map_filter_keys_distinct) (auto simp: dict_wf_def)
  have get: "dict_get (remap_payload ptl used reserved current payload) k' =
      (case map_of ?w k' of Some v \<Rightarrow> Some v | None \<Rightarrow> dict_get (keep_unslotted payload) k')"
    unfolding remap_payload_def fold_remap_item dict_get_update map_of_rev_keys [OF d]
    by (simp add: map_add_def)
  have keep: "dict_get (keep_unslotted payload) k' =
      (if logical_slot_from_key k' = None then dict_get payload k' else None)"
    by (induction payload) (auto simp: keep_unslotted_def)
  have "map_of ?w k' = None" if none: "logical_slot_from_key k' = None"
  proof (rule ccontr)
    assume "map_of ?w k' \<noteq> None"
    then obtain k where "remap_target ptl used reserved current k = Some k'"
      by (auto simp: map_filter_def dest!: map_of_SomeD split: option.splits)
    then show False using remap_target_slot [of ptl used reserved current k k'] assms(1) none
      by (auto simp: pass_ok_def)
  qed
  then show ?thesis using get keep by (auto split: option.splits)
qed

text \<open>A register of a placed pack appears under the name of its logical slot.\<close>

lemma remap_payload_placed:
  assumes ok: "pass_ok (ptl, used)" and wf: "dict_wf payload"
    and h: "(k, v) \<in> set payload" "logical_slot_from_key k = Some p" "dict_get ptl p = Some l"
  shows "dict_get (remap_payload ptl used reserved current payload) (remap_key k l) = Some v"
proof -
  let ?t = "remap_target ptl used reserved current"
  let ?w = "List.map_filter (\<lambda>(k, v). map_option (\<lambda>k'. (k', v)) (?t k)) payload"
  have wd: "distinct (map fst ?w)"
    using wf remap_target_inj [OF ok] by (intro map_filter_keys_distinct) (auto simp: dict_wf_def)
  have "slot_map ptl" using ok by (simp add: pass_ok_def)
  with h(3) have "l \<in> set tracked_slots" by (force simp: slot_map_def dest: map_of_SomeD)
  then have slot: "logical_slot_from_key (remap_key k l) = Some l"
    using logical_slot_remap_key [OF h(2)] by blast
  have "?t k = Some (remap_key k l)" using h by (simp add: remap_target_def slot_blocked_def)
  then have "(remap_key k l, v) \<in> set ?w" using h(1) by (force simp: map_filter_def)
  then show ?thesis using wd slot remap_payload_get [OF ok wf] by simp
qed

text \<open>A pack chosen for a slot gets it.\<close>

lemma explicit_choice_honoured:
  assumes "packs_ok current" "manual_ok manual" "set (map snd mapping) \<subseteq> set tracked_slots"
    and "(p, s) \<in> set current" "(l, s) \<in> set manual" "s \<notin> {auto_assignment, empty_assignment}"
  shows "dict_get (fst (assign_slots us mapping manual current)) p = Some l"
proof -
  have "dict_get current p = Some s" using assms(1,4) by (simp add: packs_ok_def dict_wf_def)
  then show ?thesis
    using assign_slots_spec(2) [OF assms(1-3)] explicit_slots_iff [OF assms(2), of s l] assms(5,6) by blast
qed

section \<open>Properties\<close>

text \<open>C16: With manual choices and a history as the loaders leave them, when no serial number is reported in two
  physical slots of the packet, no two packs are shown at the
  same logical slot, every slot is one of 2 to 4, a pack chosen manually for a slot gets exactly that slot,
  and no other pack gets a slot that is chosen or kept empty.\<close>

theorem battery_slots_exclusive:
  fixes us :: bool
  assumes "packs_ok current" "manual_ok manual" "set (map snd mapping) \<subseteq> set tracked_slots"
  defines "ptl \<equiv> fst (assign_slots us mapping manual current)"
  shows "distinct (map snd ptl) \<and> set (map snd ptl) \<subseteq> {2, 3, 4} \<and>
    (\<forall>(p, s)\<in>set current. \<forall>(l, v)\<in>set manual.
       v = s \<and> v \<notin> {auto_assignment, empty_assignment} \<longrightarrow> dict_get ptl p = Some l) \<and>
    (\<forall>p l v. dict_get ptl p = Some l \<and> (l, v) \<in> set manual \<and> v \<noteq> auto_assignment \<longrightarrow>
       dict_get current p = Some v)"
proof -
  note spec = assign_slots_spec [OF assms(1-3), where us = us, folded ptl_def]
  have "dict_get ptl p = Some l"
    if "(p, s) \<in> set current" "(l, s) \<in> set manual" "s \<notin> {auto_assignment, empty_assignment}" for p s l
    unfolding ptl_def by (rule explicit_choice_honoured [OF assms(1-3) that])
  moreover have "dict_get current p = Some v"
    if h: "dict_get ptl p = Some l" "(l, v) \<in> set manual" "v \<noteq> auto_assignment" for p l v
  proof -
    obtain s where s: "dict_get current p = Some s"
      "dict_get (explicit_slots manual) s = Some l \<or> l \<notin> set (reserved_manual manual)"
      using spec(3) [OF h(1)] by blast
    have "l \<in> set (reserved_manual manual)"
      using h(2,3) by (force simp: reserved_manual_def)
    then have "(l, s) \<in> set manual" using s explicit_slots_iff [OF assms(2), of s l] by blast
    then have "s = v" using h(2) assms(2) by (metis eq_key_imp_eq_value dict_wf_def manual_ok_def)
    then show ?thesis using s by simp
  qed
  ultimately show ?thesis
    using spec(1) by (auto simp: pass_ok_def slot_map_def tracked_slots_def ptl_def)
qed

definition sample_packs :: "(int, string) dict" where
  "sample_packs = [(2, ''PACKAAAA''), (3, ''PACKBBBB'')]"

definition sample_manual :: "(int, string) dict" where
  "sample_manual = [(2, auto_assignment), (3, empty_assignment), (4, ''PACKAAAA'')]"

lemma sample_ok: "packs_ok sample_packs" "manual_ok sample_manual"
  by code_simp+

theorem battery_slots_exclusive_witness:
  "dict_get (fst (assign_slots True [(''PACKBBBB'', 3)] sample_manual sample_packs)) 2 = Some 4"
proof -
  have "set (map snd [(''PACKBBBB'', 3 :: int)]) \<subseteq> set tracked_slots" by code_simp
  note excl = battery_slots_exclusive [OF sample_ok this, of True]
  have "(2, ''PACKAAAA'') \<in> set sample_packs" "(4, ''PACKAAAA'') \<in> set sample_manual"
    "''PACKAAAA'' \<notin> {auto_assignment, empty_assignment}" by code_simp+
  then show ?thesis using excl by fastforce
qed

text \<open>The condition on the serial numbers is needed, and the reader of the payload does not establish it: two
  packs that report the same serial number are both placed at the slot chosen for it, and only the values
  of the second are shown.\<close>

theorem shared_serial_shares_slot:
  "let payload = [(''bat2_ser_part_1'', VStr ''PACKAAAA''), (''bat2_temp'', VInt 21),
         (''bat3_ser_part_1'', VStr ''PACKAAAA''), (''bat3_temp'', VInt 22)];
       current = serials_from_payload whole_floats payload;
       manual = [(2, auto_assignment), (3, auto_assignment), (4, ''PACKAAAA'')]
   in manual_ok manual \<and> fst (assign_slots True [] manual current) = [(2, 4), (3, 4)] \<and>
     dict_get (fst (stabilized_payload True [] manual current payload)) ''bat4_temp'' = Some (VInt 22) \<and>
     VInt 21 \<notin> snd ` set (fst (stabilized_payload True [] manual current payload))"
  by code_simp

text \<open>The persistent map never forgets or moves a pack: an entry stays what it was through any
  sequence of packets, and no two packs ever share a slot.\<close>

theorem battery_map_stable:
  assumes "slot_map mapping"
  shows "slot_map (foldl (\<lambda>m packet. fst (extend_stable m packet)) mapping packets) \<and>
    dict_get mapping \<subseteq>\<^sub>m dict_get (foldl (\<lambda>m packet. fst (extend_stable m packet)) mapping packets)"
  using assms
proof (induction packets arbitrary: mapping)
  case (Cons c packets)
  let ?m = "fst (extend_stable mapping c)"
  have m: "slot_map ?m" "dict_get mapping \<subseteq>\<^sub>m dict_get ?m"
    using extend_stable_inv [OF Cons.prems, of c] by (metis prod.collapse)+
  show ?case using Cons.IH [OF m(1)] m(2) map_le_trans by auto
qed simp

theorem battery_map_stable_witness:
  "dict_get (foldl (\<lambda>m packet. fst (extend_stable m packet)) [(''PACKAAAA'', 3)]
     [[(2, ''PACKAAAA'')], [(2, ''PACKBBBB''), (3, ''PACKCCCC'')]]) ''PACKAAAA'' = Some 3"
proof -
  have "slot_map [(''PACKAAAA'', 3)]" by code_simp
  from conjunct2 [OF battery_map_stable [OF this]] show ?thesis by (rule map_le_get) simp
qed

text \<open>With no manual choice, a pack that is in the persistent map is shown at its own slot
  whatever physical slot it reports, provided all packs of the packet are in the map.\<close>

theorem battery_keeps_slot:
  assumes "slot_map mapping" "packs_ok current"
    and "\<forall>s\<in>set (map snd current). dict_get mapping s \<noteq> None" "(p, s) \<in> set current"
  shows "dict_get (fst (assign_slots True mapping [] current)) p = dict_get mapping s"
proof -
  have "foldl (explicit_step (explicit_slots [])) ([], []) cs = ([], [])" for cs
    by (induction cs) (auto simp: explicit_slots_def)
  then have "assign_slots True mapping [] current = foldl (auto_step True mapping []) ([], []) current"
    by (simp add: assign_slots_def reserved_manual_def)
  then show ?thesis
    using assms auto_pass_stable [of mapping current "[]" "[]" p s] by (simp add: packs_ok_def dict_wf_def)
qed

theorem battery_keeps_slot_witness:
  "dict_get (fst (assign_slots True [(''PACKAAAA'', 3), (''PACKBBBB'', 2)] [] sample_packs)) 2 = Some 3"
proof -
  have "slot_map [(''PACKAAAA'', 3), (''PACKBBBB'', 2)]"
    "\<forall>s\<in>set (map snd sample_packs). dict_get [(''PACKAAAA'', 3 :: int), (''PACKBBBB'', 2)] s \<noteq> None"
    "(2, ''PACKAAAA'') \<in> set sample_packs" by code_simp+
  from battery_keeps_slot [OF this(1) sample_ok(1) this(2,3)] show ?thesis by simp
qed

text \<open>The proviso is needed: when the map is full of other packs, a pack without a slot that
  reports first takes the stable slot of one that reports after it.\<close>

theorem battery_displaced:
  "dict_get [(''PACKAAAA'', 2), (''PACKBBBB'', 3), (''PACKCCCC'', 4)] ''PACKAAAA'' = Some (2 :: int) \<and>
   extend_stable [(''PACKAAAA'', 2), (''PACKBBBB'', 3), (''PACKCCCC'', 4)] [(2, ''PACKDDDD''), (3, ''PACKAAAA'')] =
     ([(''PACKAAAA'', 2), (''PACKBBBB'', 3), (''PACKCCCC'', 4)], False) \<and>
   fst (assign_slots True [(''PACKAAAA'', 2), (''PACKBBBB'', 3), (''PACKCCCC'', 4)] []
     [(2, ''PACKDDDD''), (3, ''PACKAAAA'')]) = [(2, 2), (3, 3)]"
  by code_simp

text \<open>Without manual reservations every reported pack gets a slot.\<close>

theorem battery_every_pack_shown:
  assumes "packs_ok current" "slot_map mapping" "p \<in> set (map fst current)"
  shows "dict_get (fst (assign_slots us mapping [] current)) p \<noteq> None"
proof -
  have "foldl (explicit_step (explicit_slots [])) ([], []) cs = ([], [])" for cs
    by (induction cs) (auto simp: explicit_slots_def)
  then have "assign_slots us mapping [] current = foldl (auto_step us mapping []) ([], []) current"
    by (simp add: assign_slots_def reserved_manual_def)
  then show ?thesis
    using assms auto_pass_total [of current mapping "[]" "[]" p us]
    by (simp add: packs_ok_def pass_ok_def slot_map_def)
qed

theorem battery_every_pack_shown_witness:
  "dict_get (fst (assign_slots False [] [] sample_packs)) 3 \<noteq> None"
proof -
  have "3 \<in> set (map fst sample_packs)" by code_simp
  then show ?thesis using battery_every_pack_shown [OF sample_ok(1) slot_map_Nil] by blast
qed

text \<open>C6: The rewritten payload, with manual choices and a history as the loaders leave them, when no serial number
  is reported in two physical slots of the packet: registers
  without a slot are unchanged, every register of a placed pack appears under its logical slot's name with
  its own value, and a register of an occupied logical slot can only come from the pack placed there.\<close>

theorem battery_payload_remapped:
  fixes us :: bool
  assumes "packs_ok current" "manual_ok manual" "set (map snd mapping) \<subseteq> set tracked_slots"
    and "dict_wf payload"
  defines "ptl \<equiv> fst (assign_slots us mapping manual current)"
    and "out \<equiv> remap_payload (fst (assign_slots us mapping manual current))
      (snd (assign_slots us mapping manual current)) (reserved_manual manual) current payload"
  shows "(\<forall>k. logical_slot_from_key k = None \<longrightarrow> dict_get out k = dict_get payload k) \<and>
    (\<forall>k p l v. (k, v) \<in> set payload \<and> logical_slot_from_key k = Some p \<and> dict_get ptl p = Some l \<longrightarrow>
       dict_get out (remap_key k l) = Some v) \<and>
    (\<forall>k' l v. dict_get out k' = Some v \<and> logical_slot_from_key k' = Some l \<and> l \<in> set (map snd ptl) \<longrightarrow>
       (\<exists>k p. (k, v) \<in> set payload \<and> logical_slot_from_key k = Some p \<and> dict_get ptl p = Some l \<and>
          k' = remap_key k l))"
proof -
  obtain used where asg: "assign_slots us mapping manual current = (ptl, used)"
    unfolding ptl_def by (metis prod.collapse)
  have ok: "pass_ok (ptl, used)" using assign_slots_spec(1) [OF assms(1-3), where us = us] asg by simp
  let ?t = "remap_target ptl used (reserved_manual manual) current"
  let ?w = "List.map_filter (\<lambda>(k, v). map_option (\<lambda>k'. (k', v)) (?t k)) payload"
  have get: "dict_get out k' = (case logical_slot_from_key k' of
      None \<Rightarrow> dict_get payload k' | Some l \<Rightarrow> map_of ?w k')" for k'
    unfolding out_def asg using remap_payload_get [OF ok assms(4)] by simp
  have wd: "distinct (map fst ?w)"
    using assms(4) remap_target_inj [OF ok]
    by (intro map_filter_keys_distinct) (auto simp: dict_wf_def)
  have sm: "slot_map ptl" and used: "set used = set (map snd ptl)" using ok by (simp_all add: pass_ok_def)
  have fwd: "dict_get out (remap_key k l) = Some v"
    if "(k, v) \<in> set payload" "logical_slot_from_key k = Some p" "dict_get ptl p = Some l" for k p l v
    unfolding out_def asg using remap_payload_placed [OF ok assms(4) that] by simp
  have bwd: "\<exists>k p. (k, v) \<in> set payload \<and> logical_slot_from_key k = Some p \<and> dict_get ptl p = Some l \<and>
      k' = remap_key k l"
    if h: "dict_get out k' = Some v" "logical_slot_from_key k' = Some l" "l \<in> set (map snd ptl)" for k' l v
  proof -
    have "(k', v) \<in> set ?w" using h get by (auto dest: map_of_SomeD)
    then obtain k where k: "(k, v) \<in> set payload" "?t k = Some k'"
      by (auto simp: map_filter_def split: option.splits)
    obtain p where p: "logical_slot_from_key k = Some p" "k' = remap_key k l"
        "\<not> slot_blocked ptl used (reserved_manual manual) current p"
        "dict_get ptl p = Some l \<or> dict_get ptl p = None \<and> l = p"
      using remap_target_slot [OF sm k(2)] h(2) by auto
    have "\<not> (dict_get ptl p = None \<and> l = p)" using p(3) h(3) used by (auto simp: slot_blocked_def)
    then show ?thesis using k p by blast
  qed
  show ?thesis
  proof (intro conjI allI impI)
    show "dict_get out k = dict_get payload k" if "logical_slot_from_key k = None" for k
      using get that by simp
  qed (use fwd bwd in blast)+
qed

theorem battery_payload_remapped_witness:
  "let (ptl, used) = assign_slots True [(''PACKBBBB'', 2)] sample_manual sample_packs;
       out = remap_payload ptl used (reserved_manual sample_manual) sample_packs
         [(''bat2_temp'', 21 :: int), (''bat3_temp'', 22), (''soc'', 50)]
   in ptl = [(2, 4), (3, 2)] \<and> dict_get out ''bat4_temp'' = Some 21 \<and> dict_get out ''bat2_temp'' = Some 22 \<and>
      dict_get out ''soc'' = Some 50"
proof -
  let ?m = "[(''PACKBBBB'', 2 :: int)]" and ?p = "[(''bat2_temp'', 21 :: int), (''bat3_temp'', 22), (''soc'', 50)]"
  have s: "set (map snd ?m) \<subseteq> set tracked_slots" "dict_wf ?p" by code_simp+
  have names: "logical_slot_from_key ''soc'' = None" "logical_slot_from_key ''bat2_temp'' = Some 2"
    "logical_slot_from_key ''bat3_temp'' = Some 3" "remap_key ''bat2_temp'' 4 = ''bat4_temp''"
    "remap_key ''bat3_temp'' 2 = ''bat2_temp''" by code_simp+
  have ptl: "fst (assign_slots True ?m sample_manual sample_packs) = [(2, 4), (3, 2)]" by code_simp
  note r = battery_payload_remapped [OF sample_ok s, of True, unfolded ptl]
  have "dict_get ?p ''soc'' = Some 50" "(''bat2_temp'', 21) \<in> set ?p" "(''bat3_temp'', 22) \<in> set ?p" by simp_all
  then show ?thesis
    using ptl conjunct1 [OF r, rule_format, OF names(1)]
      conjunct1 [OF conjunct2 [OF r], rule_format, of "''bat2_temp''" 21 2 4]
      conjunct1 [OF conjunct2 [OF r], rule_format, of "''bat3_temp''" 22 3 2]
    by (simp add: names split_def Let_def)
qed

end
