(* ===== verification/BatteryRuntime.thy ===== *)
theory BatteryRuntime
  imports BatteryPosition
begin

text \<open>
  The runtime of \<open>grobro/ha/battery_position.py\<close>: loading the three JSON files whatever they
  hold, the per-client caches with their failures, and the validated manual assignments of the
  user interface. One call sees the disk through \<open>battery_io\<close>: the stat of the manual file, what
  reading each file answers, and whether a save goes through (the save itself is
  \<open>Storage.atomic_write\<close>). The value is returned with the files written.
\<close>

section \<open>Loading\<close>

datatype 'f json_read = RMissing | RIOError | RBad | RData "'f json"

definition read_json_file :: "(string \<Rightarrow> 'f json option) \<Rightarrow> file_read \<Rightarrow> 'f json_read" where
  "read_json_file parse r =
     (case r of
        Missing \<Rightarrow> RMissing
      | ReadFails \<Rightarrow> RIOError
      | FileText t \<Rightarrow> (case parse t of None \<Rightarrow> RBad | Some j \<Rightarrow> RData j))"

text \<open>The top-level object, \<open>{}\<close> for anything else; an I/O error is raised only on request.\<close>

definition json_object :: "bool \<Rightarrow> 'f json_read \<Rightarrow> (string, 'f json) dict py" where
  "json_object raise_io_errors r =
     (case r of
        RIOError \<Rightarrow> if raise_io_errors then Inl OSError else Inr []
      | RData (JObj raw) \<Rightarrow> Inr raw
      | _ \<Rightarrow> Inr [])"

fun position_step ::
    "('f, 'x) float_ops_scheme \<Rightarrow> (string, int) dict \<times> int list \<Rightarrow> string \<times> 'f json \<Rightarrow>
     (string, int) dict \<times> int list" where
  "position_step F (clean, used) (serial, slot) =
     (case json_int F slot of
        None \<Rightarrow> (clean, used)
      | Some n \<Rightarrow>
          (let serial_text = clean_text serial in
           if serial_text \<noteq> [] \<and> n \<in> set tracked_slots \<and> n \<notin> set used
           then (dict_set serial_text n clean, n # used) else (clean, used)))"

definition clean_positions :: "('f, 'x) float_ops_scheme \<Rightarrow> (string, 'f json) dict \<Rightarrow> (string, int) dict" where
  "clean_positions F mapping = fst (foldl (position_step F) ([], []) mapping)"

fun load_device_positions ::
    "('f, 'x) float_ops_scheme \<Rightarrow> (string, (string, int) dict) dict \<Rightarrow> string \<times> 'f json \<Rightarrow>
     (string, (string, int) dict) dict" where
  "load_device_positions F result (device_id, JObj mapping) =
     (let clean = clean_positions F mapping in if clean = [] then result else dict_set device_id clean result)"
| "load_device_positions F result (device_id, _) = result"

definition load_all_positions ::
    "('f, 'x) float_ops_scheme \<Rightarrow> bool \<Rightarrow> 'f json_read \<Rightarrow> (string, (string, int) dict) dict py" where
  "load_all_positions F raise_io_errors r =
     bindE (json_object raise_io_errors r) (\<lambda>raw. Inr (foldl (load_device_positions F) [] raw))"

text \<open>The three choices of one device; \<open>None\<close> when one of them is invalid or taken twice.\<close>

definition manual_choice :: "('f, 'x) float_ops_scheme \<Rightarrow> ('f json \<Rightarrow> string) \<Rightarrow> (string, 'f json) dict \<Rightarrow> int \<Rightarrow> string" where
  "manual_choice F rp assignments slot =
     py_strip (json_str F rp (case dict_get assignments (str_of_int slot) of
       Some v \<Rightarrow> v | None \<Rightarrow> JStr auto_assignment))"

fun clean_choices :: "(int \<Rightarrow> string) \<Rightarrow> string list \<Rightarrow> int list \<Rightarrow> (int, string) dict option" where
  "clean_choices choice explicit [] = Some []"
| "clean_choices choice explicit (slot # slots) =
     (let v = choice slot in
      if v \<in> {auto_assignment, empty_assignment}
      then map_option ((#) (slot, v)) (clean_choices choice explicit slots)
      else if \<not> is_plausible_serial v \<or> v \<in> set explicit then None
      else map_option ((#) (slot, v)) (clean_choices choice (v # explicit) slots))"

fun load_device_manual ::
    "('f, 'x) float_ops_scheme \<Rightarrow> ('f json \<Rightarrow> string) \<Rightarrow> (string, (int, string) dict) dict \<Rightarrow>
     string \<times> 'f json \<Rightarrow> (string, (int, string) dict) dict" where
  "load_device_manual F rp result (device_id, JObj assignments) =
     (case clean_choices (manual_choice F rp assignments) [] tracked_slots of
        None \<Rightarrow> result | Some clean \<Rightarrow> dict_set device_id clean result)"
| "load_device_manual F rp result (device_id, _) = result"

definition load_manual_positions ::
    "('f, 'x) float_ops_scheme \<Rightarrow> ('f json \<Rightarrow> string) \<Rightarrow> bool \<Rightarrow> 'f json_read \<Rightarrow>
     (string, (int, string) dict) dict py" where
  "load_manual_positions F rp raise_io_errors r =
     bindE (json_object raise_io_errors r) (\<lambda>raw. Inr (foldl (load_device_manual F rp) [] raw))"

text \<open>The detected packs shown in the user interface.\<close>

fun detected_step ::
    "('f, 'x) float_ops_scheme \<Rightarrow> ('f json \<Rightarrow> string) \<Rightarrow> (int \<times> string) list \<times> string list \<Rightarrow> 'f json \<Rightarrow>
     (int \<times> string) list \<times> string list" where
  "detected_step F rp (clean, seen) (JObj entry) =
     (let serial = (case dict_get entry ''serial'' of
            None \<Rightarrow> '''' | Some JNull \<Rightarrow> '''' | Some v \<Rightarrow> clean_text (json_str F rp v))
      in (case (case dict_get entry ''physical_slot'' of None \<Rightarrow> None | Some v \<Rightarrow> json_int F v) of
            None \<Rightarrow> (clean, seen)
          | Some slot \<Rightarrow>
              if is_plausible_serial serial \<and> slot \<in> set tracked_slots \<and> serial \<notin> set seen
              then (clean @ [(slot, serial)], serial # seen) else (clean, seen)))"
| "detected_step F rp acc _ = acc"

fun load_device_detected ::
    "('f, 'x) float_ops_scheme \<Rightarrow> ('f json \<Rightarrow> string) \<Rightarrow> (string, (int \<times> string) list) dict \<Rightarrow>
     string \<times> 'f json \<Rightarrow> (string, (int \<times> string) list) dict" where
  "load_device_detected F rp result (device_id, JArr entries) =
     (let clean = fst (foldl (detected_step F rp) ([], []) entries)
      in if clean = [] then result else dict_set device_id clean result)"
| "load_device_detected F rp result (device_id, _) = result"

definition load_detected_serials ::
    "('f, 'x) float_ops_scheme \<Rightarrow> ('f json \<Rightarrow> string) \<Rightarrow> 'f json_read \<Rightarrow> (string, (int \<times> string) list) dict" where
  "load_detected_serials F rp r =
     (case r of RData (JObj raw) \<Rightarrow> foldl (load_device_detected F rp) [] raw | _ \<Rightarrow> [])"

section \<open>The client's caches\<close>

record ('f, 'sig) battery_client =
  bc_manual :: "(string, (int, string) dict) dict option"
  bc_manual_signature :: "'sig option option"
  bc_manual_failed :: bool
  bc_detected :: "(string, 'f json) dict option"
  bc_detected_failed :: bool
  bc_detected_failures :: "string set"
  bc_positions :: "(string, (string, int) dict) dict option"
  bc_positions_failed :: bool
  bc_positions_dirty :: bool

text \<open>A client whose attributes have not been set yet.\<close>

definition battery_client_new :: "('f, 'sig) battery_client" where
  "battery_client_new =
     \<lparr>bc_manual = None, bc_manual_signature = None, bc_manual_failed = False, bc_detected = None,
      bc_detected_failed = False, bc_detected_failures = {}, bc_positions = None,
      bc_positions_failed = False, bc_positions_dirty = False\<rparr>"

record ('f, 'sig) battery_io =
  io_manual_stat :: "'sig option"
  io_manual :: "'f json_read"
  io_detected :: "'f json_read"
  io_positions :: "'f json_read"
  io_save_detected :: bool
  io_save_positions :: bool

datatype 'f battery_write =
    WriteDetected "(string, 'f json) dict"
  | WritePositions "(string, (string, int) dict) dict"

definition manual_positions ::
    "('f, 'x) float_ops_scheme \<Rightarrow> ('f json \<Rightarrow> string) \<Rightarrow> ('f, 'sig) battery_io \<Rightarrow>
     ('f, 'sig) battery_client \<Rightarrow> ('f, 'sig) battery_client \<times> (string, (int, string) dict) dict" where
  "manual_positions F rp io c =
     (case bc_manual c of
        Some positions \<Rightarrow>
          if bc_manual_signature c = Some (io_manual_stat io)
          then (c\<lparr>bc_manual_failed := False\<rparr>, positions)
          else (case load_manual_positions F rp True (io_manual io) of
              Inl e \<Rightarrow> (c\<lparr>bc_manual_failed := True\<rparr>, positions)
            | Inr loaded \<Rightarrow>
                (c\<lparr>bc_manual := Some loaded, bc_manual_signature := Some (io_manual_stat io),
                   bc_manual_failed := False\<rparr>, loaded))
      | None \<Rightarrow>
          (case load_manual_positions F rp True (io_manual io) of
              Inl e \<Rightarrow> (c\<lparr>bc_manual_failed := True\<rparr>, [])
            | Inr loaded \<Rightarrow>
                (c\<lparr>bc_manual := Some loaded, bc_manual_signature := Some (io_manual_stat io),
                   bc_manual_failed := False\<rparr>, loaded)))"

definition detected_entries :: "(int, string) dict \<Rightarrow> 'f json" where
  "detected_entries serials =
     JArr (map (\<lambda>(slot, serial). JObj [(''physical_slot'', JInt slot), (''serial'', JStr serial)])
       (sort_key fst serials))"

text \<open>Python's \<open>==\<close> of the cached value and these entries: order of keys and \<open>2.0 == 2\<close> aside.\<close>

fun detected_same_entry :: "('f, 'x) float_ops_scheme \<Rightarrow> 'f json \<Rightarrow> int \<times> string \<Rightarrow> bool" where
  "detected_same_entry F (JObj entry) (slot, serial) \<longleftrightarrow>
     length entry = 2 \<and> dict_get entry ''serial'' = Some (JStr serial) \<and>
     (case dict_get entry ''physical_slot'' of
        Some (JInt n) \<Rightarrow> n = slot
      | Some (JFloat x) \<Rightarrow> fl_eq F x (fl_of_int F slot)
      | _ \<Rightarrow> False)"
| "detected_same_entry F _ _ \<longleftrightarrow> False"

definition detected_same :: "('f, 'x) float_ops_scheme \<Rightarrow> 'f json option \<Rightarrow> (int, string) dict \<Rightarrow> bool" where
  "detected_same F cached serials =
     (case cached of
        Some (JArr entries) \<Rightarrow> list_all2 (detected_same_entry F) entries (sort_key fst serials)
      | _ \<Rightarrow> False)"

definition detected_cache ::
    "('f, 'sig) battery_io \<Rightarrow> ('f, 'sig) battery_client \<Rightarrow> (string, 'f json) dict py" where
  "detected_cache io c =
     (case bc_detected c of Some cache \<Rightarrow> Inr cache | None \<Rightarrow> json_object True (io_detected io))"

definition record_detected_serials ::
    "('f, 'x) float_ops_scheme \<Rightarrow> ('f, 'sig) battery_io \<Rightarrow> ('f, 'sig) battery_client \<Rightarrow> string \<Rightarrow> (int, string) dict \<Rightarrow>
     ('f, 'sig) battery_client \<times> 'f battery_write list" where
  "record_detected_serials F io c device_id serials =
     (if serials = [] then (c, [])
      else (case detected_cache io c of
          Inl e \<Rightarrow> (c\<lparr>bc_detected_failed := True\<rparr>, [])
        | Inr cache \<Rightarrow>
            (let entries = detected_entries serials;
                 c1 = c\<lparr>bc_detected_failed := (bc_detected c \<noteq> None \<and> bc_detected_failed c),
                        bc_detected := Some cache\<rparr>
             in if detected_same F (dict_get cache device_id) serials then (c1, [])
                else (let updated = dict_set device_id entries cache in
                      if io_save_detected io
                      then (c1\<lparr>bc_detected_failures := bc_detected_failures c1 - {device_id},
                               bc_detected := Some updated\<rparr>, [WriteDetected updated])
                      else (c1\<lparr>bc_detected_failures := insert device_id (bc_detected_failures c1)\<rparr>, [])))))"

definition position_maps ::
    "('f, 'x) float_ops_scheme \<Rightarrow> ('f, 'sig) battery_io \<Rightarrow> ('f, 'sig) battery_client \<Rightarrow>
     (string, (string, int) dict) dict py" where
  "position_maps F io c =
     (case bc_positions c of Some m \<Rightarrow> Inr m | None \<Rightarrow> load_all_positions F True (io_positions io))"

text \<open>
  The stateful part of \<open>_stabilize_battery_payload_locked\<close>: the device's automatic map, after it
  was extended and saved, and whether automatic slots may be used at all.
\<close>

definition device_mapping :: "(string, (string, int) dict) dict \<Rightarrow> string \<Rightarrow> (string, int) dict" where
  "device_mapping positions device_id =
     (case dict_get positions device_id of Some m \<Rightarrow> m | None \<Rightarrow> [])"

definition stabilize_battery_payload ::
    "('f, 'x) float_ops_scheme \<Rightarrow> ('f, 'sig) battery_io \<Rightarrow> bool \<Rightarrow> ('f, 'sig) battery_client \<Rightarrow> string \<Rightarrow>
     (string, 'f pyval) dict \<Rightarrow> (int, string) dict \<Rightarrow> (int, string) dict \<Rightarrow>
     ('f, 'sig) battery_client \<times> 'f battery_write list \<times> (string, 'f pyval) dict \<times> int" where
  "stabilize_battery_payload F io use_stable_auto c device_id payload current manual =
     (case position_maps F io c of
        Inl e \<Rightarrow>
          (let c1 = c\<lparr>bc_positions_failed := True\<rparr> in
           if current = [] \<and> manual = [] then (c1, [], payload, 1)
           else (c1, [], stabilized_payload False [] manual current payload))
      | Inr positions \<Rightarrow>
          (let c1 = c\<lparr>bc_positions := Some positions, bc_positions_failed := False\<rparr> in
           if current = [] \<and> manual = [] then (c1, [], payload, 1)
           else (let mapping = device_mapping positions device_id;
                     (extended, changed) =
                       (if use_stable_auto then extend_stable mapping current else (mapping, False));
                     all_positions = dict_set device_id extended positions;
                     save = (use_stable_auto \<and> (changed \<or> bc_positions_dirty c));
                     c2 = c1\<lparr>bc_positions := Some all_positions,
                             bc_positions_dirty := (if save then \<not> io_save_positions io
                                                    else bc_positions_dirty c)\<rparr>
                 in (c2, if save \<and> io_save_positions io then [WritePositions all_positions] else [],
                     stabilized_payload use_stable_auto extended manual current payload))))"

definition device_assignments :: "(string, (int, string) dict) dict \<Rightarrow> string \<Rightarrow> (int, string) dict" where
  "device_assignments manual device_id =
     (case dict_get manual device_id of Some m \<Rightarrow> m | None \<Rightarrow> [])"

definition prepare_battery_payload ::
    "('f, 'x) float_ops_scheme \<Rightarrow> ('f json \<Rightarrow> string) \<Rightarrow> ('f, 'sig) battery_io \<Rightarrow> bool \<Rightarrow>
     ('f, 'sig) battery_client \<Rightarrow> string \<Rightarrow> (string, 'f pyval) dict \<Rightarrow>
     ('f, 'sig) battery_client \<times> 'f battery_write list \<times> (string, 'f pyval) dict \<times> int" where
  "prepare_battery_payload F rp io use_stable_auto c device_id payload =
     (let serials = serials_from_payload F payload;
          (c1, w1) = record_detected_serials F io c device_id serials;
          (c2, all_manual) = manual_positions F rp io c1;
          assignments = device_assignments all_manual device_id
      in if \<not> use_stable_auto \<and> list_all (\<lambda>(slot, v). v = auto_assignment) assignments
         then (c2, w1, payload, 1)
         else (let (c3, w2, r) =
                 stabilize_battery_payload F io use_stable_auto c2 device_id payload serials assignments
               in (c3, w1 @ w2, r)))"

section \<open>Manual assignments from the user interface\<close>

definition save_manual_assignments ::
    "('f, 'x) float_ops_scheme \<Rightarrow> ('f json \<Rightarrow> string) \<Rightarrow> 'f json_read \<Rightarrow> bool \<Rightarrow> string \<Rightarrow>
     (string, 'f json) dict \<Rightarrow> (string, (int, string) dict) dict py" where
  "save_manual_assignments F rp on_disk save_ok device_id assignments =
     (let device = py_strip device_id in
      if device = [] then Inl ValueError
      else (case clean_choices (manual_choice F rp assignments) [] tracked_slots of
          None \<Rightarrow> Inl ValueError
        | Some clean \<Rightarrow>
            bindE (load_manual_positions F rp True on_disk) (\<lambda>all_manual.
              let updated = (if list_all (\<lambda>(slot, v). v = auto_assignment) clean
                             then dict_pop device all_manual else dict_set device clean all_manual)
              in if save_ok then Inr updated else Inl OSError)))"

text \<open>The JSON object \<open>_save_manual_positions\<close> writes.\<close>

definition manual_json :: "(string, (int, string) dict) dict \<Rightarrow> 'f json" where
  "manual_json positions =
     JObj (map (\<lambda>(d, a). (d, JObj (map (\<lambda>(slot, v). (str_of_int slot, JStr v)) a))) positions)"

definition has_manual_assignments ::
    "('f, 'x) float_ops_scheme \<Rightarrow> ('f json \<Rightarrow> string) \<Rightarrow> ('f, 'sig) battery_io \<Rightarrow>
     ('f, 'sig) battery_client \<Rightarrow> string \<Rightarrow> bool" where
  "has_manual_assignments F rp io c device_id =
     list_ex (\<lambda>(slot, v). v \<noteq> auto_assignment)
       (device_assignments (snd (manual_positions F rp io c)) device_id)"

record battery_ui_device =
  ui_device :: string
  ui_detected :: "(int \<times> string) list"
  ui_automatic :: "(string, string) dict"
  ui_manual :: "(string, string) dict"

definition battery_ui_devices ::
    "('f, 'x) float_ops_scheme \<Rightarrow> ('f json \<Rightarrow> string) \<Rightarrow> 'f json_read \<Rightarrow> 'f json_read \<Rightarrow> 'f json_read \<Rightarrow>
     battery_ui_device list py" where
  "battery_ui_devices F rp positions manual_file detected_file =
     bindE (load_all_positions F False positions) (\<lambda>automatic.
     bindE (load_manual_positions F rp False manual_file) (\<lambda>manual.
       let detected = load_detected_serials F rp detected_file;
           device_ids = sorted_list_of_set (set (map fst automatic @ map fst manual @ map fst detected))
       in Inr (map (\<lambda>d.
            \<lparr>ui_device = d,
             ui_detected = (case dict_get detected d of Some e \<Rightarrow> e | None \<Rightarrow> []),
             ui_automatic = dict_update [] (map (\<lambda>(serial, slot). (str_of_int slot, serial)) (device_mapping automatic d)),
             ui_manual = map (\<lambda>slot. (str_of_int slot,
               case dict_get (device_assignments manual d) slot of Some v \<Rightarrow> v | None \<Rightarrow> auto_assignment)) tracked_slots\<rparr>)
          device_ids)))"

section \<open>Lemmas\<close>

lemma position_step_inv:
  assumes "slot_map clean" "set (map snd clean) \<subseteq> set used" "position_step F (clean, used) kv = (clean', used')"
  shows "slot_map clean' \<and> set (map snd clean') \<subseteq> set used'"
proof -
  obtain s j where kv: "kv = (s, j)" by fastforce
  consider "(clean', used') = (clean, used)"
    | n where "n \<in> set tracked_slots" "n \<notin> set used" "clean' = dict_set (clean_text s) n clean" "used' = n # used"
  proof (cases "json_int F j")
    case None
    then show thesis using that(1) assms(3) kv by simp
  next
    case (Some n)
    show thesis
    proof (cases "clean_text s \<noteq> [] \<and> n \<in> set tracked_slots \<and> n \<notin> set used")
      case True
      then show thesis using that(2) [of n] assms(3) kv Some by (simp add: Let_def)
    next
      case False
      then have "position_step F (clean, used) kv = (clean, used)"
        using kv Some by (simp only: position_step.simps option.case Let_def if_False)
      then show thesis using that(1) assms(3) by simp
    qed
  qed
  then show ?thesis
  proof cases
    case 2
    have sub: "set (map snd (dict_set k n d)) \<subseteq> insert n (set (map snd d))" for k and d :: "(string, int) dict"
      by (induction d) auto
    have dist: "distinct (map snd d) \<Longrightarrow> n \<notin> set (map snd d) \<Longrightarrow> distinct (map snd (dict_set k n d))"
      for k and d :: "(string, int) dict"
    proof (induction d)
      case (Cons a d)
      then show ?case using sub [of k d] by (cases a) auto
    qed simp
    show ?thesis
    proof -
      let ?d = "dict_set (clean_text s) n clean"
      have sm: "distinct (map snd clean)" "set (map snd clean) \<subseteq> set tracked_slots" "dict_wf clean"
        using assms(1) by (simp_all add: slot_map_def)
      have "distinct (map snd ?d)" using 2(2) assms(2) by (intro dist [OF sm(1)]) blast
      moreover have "set (map snd ?d) \<subseteq> set tracked_slots" "set (map snd ?d) \<subseteq> set used'"
        using sub [of "clean_text s" clean] sm(2) assms(2) 2(1,4) by auto
      ultimately show ?thesis using sm(3) 2(3) by (simp add: slot_map_def)
    qed
  qed (use assms in simp)
qed

lemma clean_positions_slot_map: "slot_map (clean_positions F mapping)"
proof -
  have "slot_map (fst (foldl (position_step F) (c, u) m))"
    if "slot_map c" "set (map snd c) \<subseteq> set u" for c u m
    using that
  proof (induction m arbitrary: c u)
    case (Cons kv m)
    obtain c' u' where "position_step F (c, u) kv = (c', u')" by fastforce
    note eq = this
    note inv = position_step_inv [OF Cons.prems eq]
    have "slot_map (fst (foldl (position_step F) (c', u') m))" using inv Cons.IH by blast
    then show ?case by (simp only: foldl_Cons eq)
  qed simp
  then show ?thesis by (simp add: clean_positions_def)
qed

lemma list_all_dict_set:
  "list_all (\<lambda>(k, v). P v) d \<Longrightarrow> P w \<Longrightarrow> list_all (\<lambda>(k, v). P v) (dict_set k' w d)"
  by (induction d) auto

lemma list_all_dict_get: "list_all (\<lambda>(k, v). P v) d \<Longrightarrow> dict_get d k = Some v \<Longrightarrow> P v"
  by (auto simp: list_all_iff dest: map_of_SomeD)

lemma foldl_list_all:
  assumes "\<And>d x. list_all (\<lambda>(k, v). P v) d \<Longrightarrow> list_all (\<lambda>(k, v). P v) (f d x)"
    and "list_all (\<lambda>(k, v). P v) d"
  shows "list_all (\<lambda>(k, v). P v) (foldl f d xs)"
  using assms(2) by (induction xs arbitrary: d) (simp_all add: assms(1))

lemma load_device_positions_ok:
  "list_all (\<lambda>(d, m). slot_map m) res \<Longrightarrow> list_all (\<lambda>(d, m). slot_map m) (load_device_positions F res x)"
  by (cases "(F, res, x)" rule: load_device_positions.cases)
     (simp_all add: Let_def clean_positions_slot_map list_all_dict_set)

lemma json_object_error: "json_object b r = Inl e \<Longrightarrow> e = OSError \<and> b \<and> r = RIOError"
  by (auto simp: json_object_def split: json_read.splits json.splits if_splits)

lemma load_all_positions_ok:
  "case load_all_positions F b r of Inl e \<Rightarrow> e = OSError \<and> b \<and> r = RIOError
   | Inr m \<Rightarrow> list_all (\<lambda>(d, mp). slot_map mp) m"
  using json_object_error [of b r]
    foldl_list_all [of slot_map "load_device_positions F" "[]", OF load_device_positions_ok]
  by (cases "json_object b r") (auto simp: load_all_positions_def)

text \<open>A cleaned choice lists the three slots with the chosen values, each serial once.\<close>

lemma clean_choices_map: "clean_choices f ex slots = Some a \<Longrightarrow> a = map (\<lambda>s. (s, f s)) slots"
  by (induction f ex slots arbitrary: a rule: clean_choices.induct) (auto simp: Let_def split: if_splits)

lemma clean_choices_cong:
  "(\<And>s. s \<in> set slots \<Longrightarrow> f s = g s) \<Longrightarrow> clean_choices f ex slots = clean_choices g ex slots"
  by (induction slots arbitrary: ex) (auto simp: Let_def)

lemma clean_choices_explicit:
  "clean_choices f ex slots = Some a \<Longrightarrow>
   distinct (map snd (filter (\<lambda>(l, v). v \<notin> {auto_assignment, empty_assignment}) a)) \<and>
   set (map snd (filter (\<lambda>(l, v). v \<notin> {auto_assignment, empty_assignment}) a)) \<inter> set ex = {}"
  by (induction f ex slots arbitrary: a rule: clean_choices.induct)
     (fastforce simp: Let_def split: if_splits)+

lemma clean_choices_ok: "clean_choices f [] tracked_slots = Some a \<Longrightarrow> manual_ok a"
  using clean_choices_map [of f "[]" tracked_slots a] clean_choices_explicit [of f "[]" tracked_slots a]
  by (auto simp: manual_ok_def dict_wf_def tracked_slots_def)

definition stored_choices :: "(int, string) dict \<Rightarrow> bool" where
  "stored_choices a \<longleftrightarrow>
     (\<exists>f. clean_choices f [] tracked_slots = Some a \<and> (\<forall>s. py_strip (f s) = f s))"

lemma stored_choices_clean:
  "clean_choices (manual_choice F rp j) [] tracked_slots = Some a \<Longrightarrow> stored_choices a"
  unfolding stored_choices_def
  by (rule exI [of _ "manual_choice F rp j"]) (simp add: manual_choice_def py_strip_def)

lemma stored_choices_ok: "stored_choices a \<Longrightarrow> manual_ok a"
  using clean_choices_ok by (auto simp: stored_choices_def)

lemma map_of_keys_inj: "inj f \<Longrightarrow> map_of (map (\<lambda>(k, v). (f k, g v)) d) (f k) = map_option g (map_of d k)"
  by (induction d) (auto simp: inj_eq)

lemma stored_choices_reload:
  fixes F :: "('f, 'x) float_ops_scheme"
  assumes "stored_choices a"
  shows "clean_choices (manual_choice F rp (map (\<lambda>(slot, v). (str_of_int slot, JStr v)) a)) [] tracked_slots = Some a"
proof -
  obtain f where f: "clean_choices f [] tracked_slots = Some a" "\<And>s. py_strip (f s) = f s"
    using assms by (auto simp: stored_choices_def)
  have a: "a = map (\<lambda>s. (s, f s)) tracked_slots" using clean_choices_map [OF f(1)] .
  have "manual_choice F rp (map (\<lambda>(slot, v). (str_of_int slot, JStr v)) a) s = f s"
    if "s \<in> set tracked_slots" for s
  proof -
    have "map_of a s = Some (f s)" using that a by (auto simp: tracked_slots_def)
    moreover have "inj str_of_int" by (auto intro: injI str_of_int_inj)
    ultimately have "map_of (map (\<lambda>(slot, v). (str_of_int slot, JStr v)) a) (str_of_int s) = Some (JStr (f s) :: 'f json)"
      by (simp add: map_of_keys_inj)
    then have "manual_choice F rp (map (\<lambda>(slot, v). (str_of_int slot, JStr v)) a) s = py_strip (json_str F rp (JStr (f s)))"
      unfolding manual_choice_def by simp
    then show ?thesis using f(2) by (simp add: json_str_def)
  qed
  then show ?thesis using f(1) clean_choices_cong [of tracked_slots _ f] by metis
qed

lemma list_all_dict_pop: "list_all (\<lambda>(k, v). P v) d \<Longrightarrow> list_all (\<lambda>(k, v). P v) (dict_pop k' d)"
  by (induction d) auto

lemma load_device_manual_stored:
  "dict_wf res \<and> list_all (\<lambda>(d, a). stored_choices a) res \<Longrightarrow>
   dict_wf (load_device_manual F rp res x) \<and> list_all (\<lambda>(d, a). stored_choices a) (load_device_manual F rp res x)"
  by (cases "(F, rp, res, x)" rule: load_device_manual.cases)
     (auto simp: stored_choices_clean list_all_dict_set split: option.splits)

lemma load_manual_positions_stored:
  assumes "load_manual_positions F rp b r = Inr m"
  shows "dict_wf m \<and> list_all (\<lambda>(d, a). stored_choices a) m"
proof -
  have "dict_wf (foldl (load_device_manual F rp) res raw) \<and>
      list_all (\<lambda>(d, a). stored_choices a) (foldl (load_device_manual F rp) res raw)"
    if "dict_wf res \<and> list_all (\<lambda>(d, a). stored_choices a) res" for res raw
    using that
  proof (induction raw arbitrary: res)
    case (Cons x raw)
    then show ?case using Cons.IH [OF load_device_manual_stored [OF Cons.prems]] by simp
  qed simp
  then show ?thesis using assms by (auto simp: load_manual_positions_def bindE_Inr_iff)
qed

lemma load_manual_positions_ok:
  "case load_manual_positions F rp b r of Inl e \<Rightarrow> e = OSError \<and> b \<and> r = RIOError
   | Inr m \<Rightarrow> list_all (\<lambda>(d, a). manual_ok a) m"
proof (cases "load_manual_positions F rp b r")
  case (Inl e)
  then show ?thesis using json_object_error [of b r] by (auto simp: load_manual_positions_def bindE_Inl_iff)
next
  case (Inr m)
  then show ?thesis using load_manual_positions_stored [OF Inr] stored_choices_ok
    by (auto simp: list_all_iff)
qed

lemma manual_json_reload:
  fixes F :: "('f, 'x) float_ops_scheme"
  assumes "dict_wf m" "list_all (\<lambda>(d, a). stored_choices a) m"
  shows "load_manual_positions F rp b (RData (manual_json m)) = Inr m"
proof -
  let ?j = "\<lambda>(d, a). (d, JObj (map (\<lambda>(slot, v). (str_of_int slot, JStr v)) a)) :: string \<times> 'f json"
  have "foldl (load_device_manual F rp) res (map ?j rest) = res @ rest"
    if "dict_wf (res @ rest)" "list_all (\<lambda>(d, a). stored_choices a) rest" for res rest
    using that
  proof (induction rest arbitrary: res)
    case (Cons da rest)
    obtain d a where da: "da = (d, a)" by fastforce
    have "dict_get res d = None"
      using Cons.prems(1) da by (auto simp: dict_wf_def map_of_eq_None_iff)
    then have "load_device_manual F rp res (?j da) = res @ [da]"
      using Cons.prems(2) da by (simp add: stored_choices_reload dict_set_fresh)
    then show ?case using Cons.IH [of "res @ [da]"] Cons.prems by simp
  qed simp
  from this [of "[]" m] show ?thesis
    using assms by (simp add: load_manual_positions_def manual_json_def json_object_def)
qed

section \<open>The caches over any sequence of packets\<close>

fun positions_written :: "'f battery_write list \<Rightarrow> (string, (string, int) dict) dict list" where
  "positions_written [] = []"
| "positions_written (WritePositions m # ws) = m # positions_written ws"
| "positions_written (WriteDetected m # ws) = positions_written ws"

lemma positions_written_append: "positions_written (a @ b) = positions_written a @ positions_written b"
  by (induction a rule: positions_written.induct) simp_all

definition positions_le :: "(string, (string, int) dict) dict \<Rightarrow> (string, (string, int) dict) dict \<Rightarrow> bool" where
  "positions_le m m' \<longleftrightarrow> (\<forall>d. dict_get (device_mapping m d) \<subseteq>\<^sub>m dict_get (device_mapping m' d))"

lemma positions_le_refl: "positions_le m m"
  by (simp add: positions_le_def)

lemma positions_le_trans: "positions_le a b \<Longrightarrow> positions_le b c \<Longrightarrow> positions_le a c"
  unfolding positions_le_def using map_le_trans by blast

type_synonym ('f, 'sig) battery_event =
  "('f, 'sig) battery_io \<times> bool \<times> string \<times> (string, 'f pyval) dict"

fun battery_step ::
    "('f, 'x) float_ops_scheme \<Rightarrow> ('f json \<Rightarrow> string) \<Rightarrow> ('f, 'sig) battery_client \<times> 'f battery_write list \<Rightarrow>
     ('f, 'sig) battery_event \<Rightarrow> ('f, 'sig) battery_client \<times> 'f battery_write list" where
  "battery_step F rp (c, ws) (io, us, d, payload) =
     (let (c', w, r) = prepare_battery_payload F rp io us c d payload in (c', ws @ w))"

definition positions_ok :: "(string, (string, int) dict) dict \<Rightarrow> bool" where
  "positions_ok m \<longleftrightarrow> list_all (\<lambda>(d, mp). slot_map mp) m"

text \<open>Every cached and every written map is injective, and each write keeps what was written before.\<close>

definition battery_inv :: "('f, 'sig) battery_client \<times> 'f battery_write list \<Rightarrow> bool" where
  "battery_inv s \<longleftrightarrow>
     (case bc_positions (fst s) of
        None \<Rightarrow> positions_written (snd s) = []
      | Some cur \<Rightarrow> positions_ok cur \<and> sorted_wrt positions_le (positions_written (snd s) @ [cur])) \<and>
     list_all positions_ok (positions_written (snd s))"

lemma record_detected_positions:
  "record_detected_serials F io c d serials = (c', w) \<Longrightarrow>
   bc_positions c' = bc_positions c \<and> bc_positions_dirty c' = bc_positions_dirty c \<and> positions_written w = []"
  by (auto simp: record_detected_serials_def Let_def split: if_splits sum.splits)

lemma manual_positions_positions:
  "manual_positions F rp io c = (c', m) \<Longrightarrow>
   bc_positions c' = bc_positions c \<and> bc_positions_dirty c' = bc_positions_dirty c"
  by (auto simp: manual_positions_def split: option.splits if_splits sum.splits)

lemma positions_ok_mapping: "positions_ok m \<Longrightarrow> slot_map (device_mapping m d)"
  by (auto simp: positions_ok_def device_mapping_def split: option.splits dest: list_all_dict_get)

lemma positions_extend:
  assumes "positions_ok m" "(if us then extend_stable (device_mapping m d) current else (device_mapping m d, False)) = (e, ch)"
  shows "positions_ok (dict_set d e m) \<and> positions_le m (dict_set d e m)"
proof -
  have "slot_map e \<and> dict_get (device_mapping m d) \<subseteq>\<^sub>m dict_get e"
    using assms positions_ok_mapping [OF assms(1), of d] extend_stable_inv [of "device_mapping m d" current e ch]
    by (auto split: if_splits)
  then show ?thesis
    using assms(1) list_all_dict_set [of slot_map m e d]
    by (auto simp: positions_ok_def positions_le_def device_mapping_def)
qed

text \<open>What one stabilisation does to the cached map and to the file.\<close>

definition known_positions :: "('f, 'sig) battery_client \<Rightarrow> ('f, 'sig) battery_client \<Rightarrow> 'f battery_write list \<Rightarrow> bool" where
  "known_positions c c' w \<longleftrightarrow>
     (bc_positions c' = bc_positions c \<and> w = []) \<or>
     (\<exists>old new. (bc_positions c = None \<or> bc_positions c = Some old) \<and> bc_positions c' = Some new \<and>
        positions_le old new \<and> positions_ok new \<and> (w = [] \<or> w = [WritePositions new]))"

lemma stabilize_positions:
  assumes "stabilize_battery_payload F io us c d payload current manual = (c', w, r)"
    and "\<And>m. bc_positions c = Some m \<Longrightarrow> positions_ok m"
  shows "known_positions c c' w"
proof (cases "position_maps F io c")
  case (Inl e)
  then show ?thesis
    using assms(1)
    by (cases "current = [] \<and> manual = []")
       (auto simp: stabilize_battery_payload_def known_positions_def Let_def)
next
  case (Inr m)
  have ok: "positions_ok m" and src: "bc_positions c = None \<or> bc_positions c = Some m"
    using Inr assms(2) load_all_positions_ok [where F = F and b = True and r = "io_positions io"]
    by (auto simp: position_maps_def positions_ok_def split: option.splits)
  show ?thesis
  proof (cases "current = [] \<and> manual = []")
    case True
    then have "bc_positions c' = Some m" "w = []"
      using assms(1) Inr by (auto simp: stabilize_battery_payload_def)
    then show ?thesis using ok src positions_le_refl unfolding known_positions_def by blast
  next
    case False
    obtain e ch where e: "(if us then extend_stable (device_mapping m d) current else (device_mapping m d, False)) = (e, ch)"
      by fastforce
    have "bc_positions c' = Some (dict_set d e m)" "w = [] \<or> w = [WritePositions (dict_set d e m)]"
      using assms(1) Inr False e
      by (auto simp: stabilize_battery_payload_def Let_def split: if_splits)
    then show ?thesis using positions_extend [OF ok e] src unfolding known_positions_def by blast
  qed
qed

lemma prepare_positions:
  assumes "prepare_battery_payload F rp io us c d payload = (c', w, r)"
    and "\<And>m. bc_positions c = Some m \<Longrightarrow> positions_ok m"
  shows "\<exists>w'. known_positions c c' w' \<and> positions_written w = positions_written w'"
proof -
  obtain c1 w1 where rec: "record_detected_serials F io c d (serials_from_payload F payload) = (c1, w1)" by fastforce
  obtain c2 am where man: "manual_positions F rp io c1 = (c2, am)" by fastforce
  note r1 = record_detected_positions [OF rec] and r2 = manual_positions_positions [OF man]
  let ?a = "device_assignments am d"
  show ?thesis
  proof (cases "\<not> us \<and> list_all (\<lambda>(slot, v). v = auto_assignment) ?a")
    case True
    then have "c' = c2" "w = w1"
      using assms(1) rec man by (simp_all add: prepare_battery_payload_def Let_def)
    then show ?thesis using r1 r2 by (intro exI [of _ "[]"]) (simp add: known_positions_def)
  next
    case False
    obtain c3 w2 q where st: "stabilize_battery_payload F io us c2 d payload (serials_from_payload F payload) ?a = (c3, w2, q)"
      by (cases "stabilize_battery_payload F io us c2 d payload (serials_from_payload F payload) ?a") auto
    have eq: "c' = c3" "w = w1 @ w2"
      using assms(1) rec man st False by (auto simp: prepare_battery_payload_def Let_def)
    have "known_positions c2 c3 w2" using stabilize_positions [OF st] assms(2) r1 r2 by simp
    then have "known_positions c c' w2" using r1 r2 eq by (simp add: known_positions_def)
    then show ?thesis using r1 eq by (auto simp: positions_written_append)
  qed
qed

lemma battery_step_inv:
  assumes "battery_inv s"
  shows "battery_inv (battery_step F rp s ev)"
proof -
  obtain c ws io us d payload where s: "s = (c, ws)" and ev: "ev = (io, us, d, payload)" by (metis prod_cases3 surj_pair)
  obtain c' w r where p: "prepare_battery_payload F rp io us c d payload = (c', w, r)"
    by (cases "prepare_battery_payload F rp io us c d payload") auto
  have ok: "\<And>m. bc_positions c = Some m \<Longrightarrow> positions_ok m" using assms s by (auto simp: battery_inv_def)
  obtain w' where k: "known_positions c c' w'" and ww: "positions_written w = positions_written w'"
    using prepare_positions [OF p ok] by blast
  have step: "battery_step F rp s ev = (c', ws @ w)" using s ev p by simp
  show ?thesis
  proof (cases "bc_positions c' = bc_positions c \<and> w' = []")
    case True
    then show ?thesis using assms s step ww
      by (cases "bc_positions c") (simp_all add: battery_inv_def positions_written_append)
  next
    case False
    then obtain old new where n: "bc_positions c = None \<or> bc_positions c = Some old" "bc_positions c' = Some new"
        "positions_le old new" "positions_ok new" "w' = [] \<or> w' = [WritePositions new]"
      using k unfolding known_positions_def by blast
    have prev: "sorted_wrt positions_le (positions_written ws)" "list_all positions_ok (positions_written ws)"
      using n(1) assms s by (auto simp: battery_inv_def sorted_wrt_append)
    have "positions_le m new" if "m \<in> set (positions_written ws)" for m
    proof -
      have "bc_positions c = Some old" using n(1) that assms s by (auto simp: battery_inv_def)
      then have "positions_le m old" using that assms s by (auto simp: battery_inv_def sorted_wrt_append)
      then show ?thesis using n(3) by (rule positions_le_trans)
    qed
    then show ?thesis
      using n(2,4,5) step ww prev
      by (auto simp: battery_inv_def positions_written_append sorted_wrt_append positions_le_refl)
  qed
qed

lemma prepare_unread:
  assumes "prepare_battery_payload F rp io us c d payload = (c', w, r)"
    and "bc_positions c = None" "io_positions io = RIOError"
  shows "bc_positions c' = None \<and> positions_written w = []"
proof -
  obtain c1 w1 where rec: "record_detected_serials F io c d (serials_from_payload F payload) = (c1, w1)" by fastforce
  obtain c2 am where man: "manual_positions F rp io c1 = (c2, am)" by fastforce
  note r1 = record_detected_positions [OF rec] and r2 = manual_positions_positions [OF man]
  have none: "bc_positions c2 = None" using r1 r2 assms(2) by simp
  then have "position_maps F io c2 = Inl OSError"
    using assms(3) by (simp add: position_maps_def load_all_positions_def json_object_def)
  then show ?thesis
    using assms(1) rec man r1 none
    by (auto simp: prepare_battery_payload_def stabilize_battery_payload_def Let_def positions_written_append
        split: if_splits)
qed

interpretation battery: step_machine "battery_step F rp" battery_inv
  by unfold_locales (rule battery_step_inv)

section \<open>Properties\<close>

text \<open>C39: Whatever the three files hold, what is loaded from them is sound: every automatic map is an
  injective map into the tracked slots and every set of manual choices names each pack once; the only
  error is the I/O error of the read, and only where the caller asked for it.\<close>

theorem battery_files_sanitised:
  "(case load_all_positions F b r of Inl e \<Rightarrow> e = OSError \<and> b \<and> r = RIOError
    | Inr m \<Rightarrow> list_all (\<lambda>(d, mp). slot_map mp) m) \<and>
   (case load_manual_positions F rp b r' of Inl e \<Rightarrow> e = OSError \<and> b \<and> r' = RIOError
    | Inr m \<Rightarrow> list_all (\<lambda>(d, a). manual_ok a) m)"
  by (rule conjI [OF load_all_positions_ok load_manual_positions_ok])

text \<open>A saved manual assignment is what the next load of the file answers, for every device, and
  the device edited now has exactly the choices it was given (no entry when all are automatic).\<close>

theorem manual_assignments_saved:
  assumes "save_manual_assignments F rp on_disk True device_id choices = Inr updated"
  shows "load_manual_positions F rp b (RData (manual_json updated)) = Inr updated \<and>
    dict_get updated (py_strip device_id) =
      (if \<forall>slot \<in> set tracked_slots. manual_choice F rp choices slot = auto_assignment then None
       else Some (map (\<lambda>slot. (slot, manual_choice F rp choices slot)) tracked_slots))"
proof -
  let ?d = "py_strip device_id"
  obtain clean all_manual where clean: "clean_choices (manual_choice F rp choices) [] tracked_slots = Some clean"
      and loaded: "load_manual_positions F rp True on_disk = Inr all_manual"
      and upd: "updated = (if list_all (\<lambda>(slot, v). v = auto_assignment) clean
        then dict_pop ?d all_manual else dict_set ?d clean all_manual)"
    using assms
    by (auto simp: save_manual_assignments_def Let_def bindE_Inr_iff split: if_splits option.splits)
  have st: "dict_wf all_manual" "list_all (\<lambda>(d, a). stored_choices a) all_manual"
    using load_manual_positions_stored [OF loaded] by auto
  have "dict_wf updated" "list_all (\<lambda>(d, a). stored_choices a) updated"
    using st upd stored_choices_clean [OF clean] by (auto simp: list_all_dict_set list_all_dict_pop)
  then have "load_manual_positions F rp b (RData (manual_json updated)) = Inr updated"
    by (rule manual_json_reload)
  moreover have "clean = map (\<lambda>s. (s, manual_choice F rp choices s)) tracked_slots"
    using clean_choices_map [OF clean] .
  ultimately show ?thesis using upd by (simp add: list_all_iff comp_def)
qed

theorem manual_assignments_saved_witness:
  "load_manual_positions whole_floats no_repr False (RData (manual_json
      [(''QMN1'', [(2, ''__auto__''), (3, ''PACKAAAA''), (4, ''__empty__'')])])) =
    Inr [(''QMN1'', [(2, ''__auto__''), (3, ''PACKAAAA''), (4, ''__empty__'')])]"
proof -
  have "save_manual_assignments whole_floats no_repr RMissing True '' QMN1''
      [(''3'', JStr ''PACKAAAA''), (''4'', JStr ''__empty__'')] =
    Inr [(''QMN1'', [(2, ''__auto__''), (3, ''PACKAAAA''), (4, ''__empty__'')])]" by code_simp
  from conjunct1 [OF manual_assignments_saved [OF this]] show ?thesis .
qed

text \<open>C30: From a new client on, over any sequence of packets and with any failing reads and saves in
  between, every history file written maps packs to slots injectively, and every later file keeps each
  entry of the earlier ones.\<close>

theorem battery_history_grows:
  "let files = positions_written (snd (foldl (battery_step F rp) (battery_client_new, []) events))
   in list_all positions_ok files \<and> sorted_wrt positions_le files"
proof -
  let ?s = "foldl (battery_step F rp) (battery_client_new, []) events"
  have "battery_inv (battery_client_new, [])" by (simp add: battery_inv_def battery_client_new_def)
  then have "battery_inv ?s" by (rule battery.run_inv)
  then show ?thesis
    by (cases "bc_positions (fst ?s)") (simp_all add: battery_inv_def sorted_wrt_append Let_def)
qed

text \<open>A history that exists but cannot be read is never overwritten: while the read fails, no
  packet writes the file and nothing is cached for it.\<close>

theorem unread_history_kept:
  assumes "\<forall>ev \<in> set events. io_positions (fst ev) = RIOError"
  shows "positions_written (snd (foldl (battery_step F rp) (battery_client_new, []) events)) = [] \<and>
    bc_positions (fst (foldl (battery_step F rp) (battery_client_new, []) events)) = None"
proof -
  have "positions_written (snd (foldl (battery_step F rp) (c, ws) es)) = [] \<and>
      bc_positions (fst (foldl (battery_step F rp) (c, ws) es)) = None"
    if "bc_positions c = None" "positions_written ws = []"
      "\<forall>ev \<in> set es. io_positions (fst ev) = RIOError" for c ws es
    using that
  proof (induction es arbitrary: c ws)
    case (Cons ev es)
    obtain io us d payload where ev: "ev = (io, us, d, payload)" by (metis prod_cases3 surj_pair)
    obtain c' w r where p: "prepare_battery_payload F rp io us c d payload = (c', w, r)"
      by (cases "prepare_battery_payload F rp io us c d payload") auto
    have "io_positions io = RIOError" using Cons.prems(3) ev by simp
    then have "bc_positions c' = None \<and> positions_written w = []"
      using prepare_unread [OF p Cons.prems(1)] by simp
    then show ?case using Cons.IH [of c' "ws @ w"] Cons.prems ev p by (simp add: positions_written_append)
  qed simp
  from this [OF _ _ assms, of battery_client_new "[]"] show ?thesis by (simp add: battery_client_new_def)
qed

theorem unread_history_kept_witness:
  "positions_written (snd (foldl (battery_step whole_floats no_repr) (battery_client_new, [])
     [(\<lparr>io_manual_stat = Some (1 :: int), io_manual = RMissing, io_detected = RMissing,
        io_positions = RIOError, io_save_detected = True, io_save_positions = True\<rparr>,
       True, ''QMN1'', [(''bat2_serial_part1'', VStr ''PACKAAAA'')])])) = []"
proof -
  have "\<forall>ev \<in> set [(\<lparr>io_manual_stat = Some (1 :: int), io_manual = RMissing, io_detected = RMissing,
        io_positions = RIOError, io_save_detected = True, io_save_positions = True\<rparr>,
       True, ''QMN1'', [(''bat2_serial_part1'', VStr ''PACKAAAA'')])]. io_positions (fst ev) = RIOError"
    by simp
  from conjunct1 [OF unread_history_kept [OF this]] show ?thesis .
qed

end
