(* ===== verification/ConfigReads.thy ===== *)
theory ConfigReads
  imports MqttResult DeviceFamily
begin

text \<open>
  The configuration reads of \<open>grobro/ha/client.py\<close>: one queue per device, one read in flight,
  a timer that waits for the answer, and the \<open>Read All\<close> sequence that fills the queue. The
  handlers run under one lock and are atomic.

  A timer is named by its position in \<open>cr_created\<close>, the list of all timers ever created; any of
  them may fire at any time, also after it was cancelled, and then finds out whether it is still the
  current one. \<open>read_env\<close> is what a handler meets outside: whether the source is wired and ready,
  whether the system can start another timer, and how the callbacks answer.
\<close>

section \<open>Definitions\<close>

datatype read_timer = StartTimer string | TimeoutTimer string int

record config_reads =
  cr_queues :: "(string, int list) dict"
  cr_inflight :: "(string, int) dict"
  cr_timers :: "(string, nat) dict"
  cr_start_timers :: "(string, nat) dict"
  cr_active :: "string set"
  cr_started :: "string set"
  cr_created :: "read_timer list"

definition no_reads :: config_reads where
  "no_reads = \<lparr>cr_queues = [], cr_inflight = [], cr_timers = [], cr_start_timers = [],
     cr_active = {}, cr_started = {}, cr_created = []\<rparr>"

record read_env =
  re_wired :: bool
  re_ready :: "string \<Rightarrow> bool"
  re_timer_ok :: "nat \<Rightarrow> bool"
  re_read :: "(string \<Rightarrow> int \<Rightarrow> answer) option"
  re_registers :: "string \<Rightarrow> int list option"

text \<open>\<open>self.config_reads_ready and not self.config_reads_ready()\<close>.\<close>

definition source_not_ready :: "read_env \<Rightarrow> string \<Rightarrow> bool" where
  "source_not_ready E d \<longleftrightarrow> re_wired E \<and> \<not> re_ready E d"

definition cancel_config_read_sequence :: "string \<Rightarrow> config_reads \<Rightarrow> config_reads" where
  "cancel_config_read_sequence d st =
     st\<lparr>cr_inflight := dict_pop d (cr_inflight st), cr_queues := dict_pop d (cr_queues st),
        cr_timers := dict_pop d (cr_timers st), cr_start_timers := dict_pop d (cr_start_timers st),
        cr_active := cr_active st - {d}, cr_started := cr_started st - {d}\<rparr>"

text \<open>A new timer is recorded before it is started; starting it may fail.\<close>

definition start_config_read_timer :: "read_env \<Rightarrow> read_timer \<Rightarrow> config_reads \<Rightarrow> config_reads \<times> unit py" where
  "start_config_read_timer E t st =
     (let n = length (cr_created st);
          st1 = (case t of
              StartTimer d \<Rightarrow> st\<lparr>cr_start_timers := dict_set d n (cr_start_timers st)\<rparr>
            | TimeoutTimer d r \<Rightarrow> st\<lparr>cr_timers := dict_set d n (cr_timers st)\<rparr>)
      in (st1\<lparr>cr_created := cr_created st @ [t]\<rparr>, if re_timer_ok E n then Inr () else Inl RuntimeError))"

text \<open>The next read of a device; the second component lists the reads asked for.\<close>

definition kickoff_next_config_read ::
    "read_env \<Rightarrow> string \<Rightarrow> config_reads \<Rightarrow> (config_reads \<times> (string \<times> int) list) \<times> unit py" where
  "kickoff_next_config_read E d st =
     (if source_not_ready E d then ((cancel_config_read_sequence d st, []), Inr ())
      else (let st1 = st\<lparr>cr_start_timers := dict_pop d (cr_start_timers st)\<rparr> in
        if dict_get (cr_inflight st1) d \<noteq> None then ((st1, []), Inr ())
        else (case dict_get (cr_queues st1) d of
            Some (register_no # q) \<Rightarrow>
              (case start_config_read_timer E (TimeoutTimer d register_no)
                      (st1\<lparr>cr_queues := dict_set d q (cr_queues st1),
                           cr_inflight := dict_set d register_no (cr_inflight st1)\<rparr>) of
                 (st2, Inl e) \<Rightarrow> ((cancel_config_read_sequence d st2, []), Inl e)
               | (st2, Inr _) \<Rightarrow>
                   (case re_read E of
                      None \<Rightarrow> ((st2, []), Inr ())
                    | Some read \<Rightarrow>
                        (case read d register_no of
                           Raised e \<Rightarrow> ((cancel_config_read_sequence d st2, [(d, register_no)]), Inl e)
                         | Answer result \<Rightarrow>
                             ((if publish_succeeded result then st2 else cancel_config_read_sequence d st2,
                               [(d, register_no)]), Inr ()))))
          | _ \<Rightarrow>
              ((st1\<lparr>cr_queues := dict_pop d (cr_queues st1), cr_active := cr_active st1 - {d}\<rparr>, []), Inr ()))))"

definition config_read_timeout ::
    "read_env \<Rightarrow> string \<Rightarrow> int \<Rightarrow> config_reads \<Rightarrow> (config_reads \<times> (string \<times> int) list) \<times> unit py" where
  "config_read_timeout E d register_no st =
     (if dict_get (cr_inflight st) d \<noteq> Some register_no then ((st, []), Inr ())
      else kickoff_next_config_read E d
             (st\<lparr>cr_inflight := dict_pop d (cr_inflight st), cr_timers := dict_pop d (cr_timers st)\<rparr>))"

text \<open>\<open>handle_config_read_response\<close> after the availability refresh.\<close>

definition config_read_response ::
    "read_env \<Rightarrow> string \<Rightarrow> int \<Rightarrow> config_reads \<Rightarrow> (config_reads \<times> (string \<times> int) list) \<times> unit py" where
  "config_read_response E d register_no st =
     (if dict_get (cr_inflight st) d \<noteq> Some register_no then ((st, []), Inr ())
      else kickoff_next_config_read E d
             (st\<lparr>cr_timers := dict_pop d (cr_timers st), cr_inflight := dict_pop d (cr_inflight st)\<rparr>))"

text \<open>A timer that fires first looks whether it is still the one of its device.\<close>

definition fire_read_timer ::
    "read_env \<Rightarrow> nat \<Rightarrow> config_reads \<Rightarrow> (config_reads \<times> (string \<times> int) list) \<times> unit py" where
  "fire_read_timer E n st =
     (if n \<ge> length (cr_created st) then ((st, []), Inr ())
      else (case cr_created st ! n of
          StartTimer d \<Rightarrow>
            if dict_get (cr_start_timers st) d = Some n then kickoff_next_config_read E d st else ((st, []), Inr ())
        | TimeoutTimer d register_no \<Rightarrow>
            if dict_get (cr_timers st) d = Some n then config_read_timeout E d register_no st
            else ((st, []), Inr ())))"

definition queue_all_config_reads :: "read_env \<Rightarrow> string \<Rightarrow> config_reads \<Rightarrow> config_reads \<times> bool py" where
  "queue_all_config_reads E d st =
     (case (re_read E, re_registers E d) of
        (Some _, Some (r # rs)) \<Rightarrow>
          if source_not_ready E d then (st, Inr False)
          else if d \<in> cr_active st \<or> dict_get (cr_inflight st) d \<noteq> None then (st, Inr False)
          else (case dict_get (cr_queues st) d of
              Some (_ # _) \<Rightarrow> (st, Inr False)
            | _ \<Rightarrow>
                (case start_config_read_timer E (StartTimer d)
                        (st\<lparr>cr_active := insert d (cr_active st), cr_queues := dict_set d (r # rs) (cr_queues st),
                            cr_started := insert d (cr_started st)\<rparr>) of
                   (st1, Inl e) \<Rightarrow> (cancel_config_read_sequence d st1, Inl e)
                 | (st1, Inr _) \<Rightarrow> (st1, Inr True)))
      | _ \<Rightarrow> (st, Inr False))"

text \<open>A timer that cannot be started is logged and tried again later.\<close>

definition refresh_config_if_needed :: "read_env \<Rightarrow> string \<Rightarrow> config_reads \<Rightarrow> config_reads" where
  "refresh_config_if_needed E d st =
     (if re_wired E \<and> d \<notin> cr_started st then fst (queue_all_config_reads E d st) else st)"

definition reset_config_read_state :: "config_reads \<Rightarrow> config_reads" where
  "reset_config_read_state st =
     st\<lparr>cr_queues := [], cr_inflight := [], cr_timers := [], cr_start_timers := [],
        cr_active := {}, cr_started := {}\<rparr>"

definition handle_source_ready :: "read_env \<Rightarrow> string list \<Rightarrow> config_reads \<Rightarrow> config_reads" where
  "handle_source_ready E devices st =
     foldl (\<lambda>s d. refresh_config_if_needed E d s) (reset_config_read_state st) devices"

text \<open>
  The holding registers \<open>Read All\<close> asks for: a slot register beyond \<open>MAX_SLOTS\<close> is left out, as is
  one whose fifth character is no digit; a name that ends after \<open>slot\<close> raises \<open>IndexError\<close>, a
  register without a Growatt position \<open>AttributeError\<close>. The reads
  are sent one by one until one is refused (\<open>Inr False\<close>) or raises.
\<close>

definition slot_left_out :: "int \<Rightarrow> string \<Rightarrow> bool py" where
  "slot_left_out max_slots name =
     (if take 4 name \<noteq> ''slot'' then Inr False
      else (case drop 4 name of
          [] \<Rightarrow> Inl IndexError
        | c # _ \<Rightarrow> (case py_int_of_str [c] of None \<Rightarrow> Inr True | Some n \<Rightarrow> Inr (n > max_slots))))"

fun send_holding_reads :: "(int \<Rightarrow> answer) \<Rightarrow> int \<Rightarrow> (string \<times> int option) list \<Rightarrow> int list \<times> bool py" where
  "send_holding_reads command max_slots [] = ([], Inr True)"
| "send_holding_reads command max_slots ((name, position) # rest) =
     (case slot_left_out max_slots name of
        Inl e \<Rightarrow> ([], Inl e)
      | Inr True \<Rightarrow> send_holding_reads command max_slots rest
      | Inr False \<Rightarrow>
          (case position of
             None \<Rightarrow> ([], Inl AttributeError)
           | Some register_no \<Rightarrow>
               (case command register_no of
                  Raised e \<Rightarrow> ([register_no], Inl e)
                | Answer result \<Rightarrow>
                    if publish_succeeded result
                    then (let (sent, r) = send_holding_reads command max_slots rest in (register_no # sent, r))
                    else ([register_no], Inr False))))"

definition read_all ::
    "read_env \<Rightarrow> (int \<Rightarrow> answer) \<Rightarrow> int \<Rightarrow> (string \<times> int option) list \<Rightarrow> string \<Rightarrow> config_reads \<Rightarrow>
     (config_reads \<times> int list) \<times> unit py" where
  "read_all E command max_slots holding d st =
     (if d \<in> cr_active st then ((st, []), Inr ())
      else (let st1 = st\<lparr>cr_active := insert d (cr_active st)\<rparr> in
        (case send_holding_reads command max_slots holding of
           (sent, Inl e) \<Rightarrow> ((cancel_config_read_sequence d st1, sent), Inl e)
         | (sent, Inr False) \<Rightarrow> ((cancel_config_read_sequence d st1, sent), Inr ())
         | (sent, Inr True) \<Rightarrow>
             (case queue_all_config_reads E d (st1\<lparr>cr_active := cr_active st1 - {d}\<rparr>) of
                (st2, Inl e) \<Rightarrow> ((cancel_config_read_sequence d st2, sent), Inl e)
              | (st2, Inr True) \<Rightarrow> ((st2, sent), Inr ())
              | (st2, Inr False) \<Rightarrow> ((st2\<lparr>cr_active := cr_active st2 - {d}\<rparr>, sent), Inr ())))))"

section \<open>The state of one device\<close>

text \<open>
  A device is idle, waits for its start timer with registers queued, or has one read in flight with
  the timer that belongs to this very read.
\<close>

definition device_reads_ok :: "config_reads \<Rightarrow> string \<Rightarrow> bool" where
  "device_reads_ok st d \<longleftrightarrow>
     (case dict_get (cr_inflight st) d of
        Some r \<Rightarrow>
          d \<in> cr_active st \<and> dict_get (cr_start_timers st) d = None \<and> dict_get (cr_queues st) d \<noteq> None \<and>
          (\<exists>i < length (cr_created st). dict_get (cr_timers st) d = Some i \<and> cr_created st ! i = TimeoutTimer d r)
      | None \<Rightarrow>
          dict_get (cr_timers st) d = None \<and>
          (if dict_get (cr_start_timers st) d = None
           then d \<notin> cr_active st \<and> dict_get (cr_queues st) d = None
           else d \<in> cr_active st \<and> (\<exists>r q. dict_get (cr_queues st) d = Some (r # q)) \<and>
             (\<exists>i < length (cr_created st). dict_get (cr_start_timers st) d = Some i \<and> cr_created st ! i = StartTimer d)))"

definition reads_ok :: "config_reads \<Rightarrow> bool" where
  "reads_ok st \<longleftrightarrow> (\<forall>d. device_reads_ok st d)"

text \<open>What a handler of one device leaves alone.\<close>

definition touches_only :: "string \<Rightarrow> config_reads \<Rightarrow> config_reads \<Rightarrow> bool" where
  "touches_only d st st' \<longleftrightarrow>
     (\<exists>ts. cr_created st' = cr_created st @ ts) \<and>
     (\<forall>d'. d' \<noteq> d \<longrightarrow>
        dict_get (cr_inflight st') d' = dict_get (cr_inflight st) d' \<and>
        dict_get (cr_queues st') d' = dict_get (cr_queues st) d' \<and>
        dict_get (cr_timers st') d' = dict_get (cr_timers st) d' \<and>
        dict_get (cr_start_timers st') d' = dict_get (cr_start_timers st) d' \<and>
        (d' \<in> cr_active st' \<longleftrightarrow> d' \<in> cr_active st))"

lemma touches_only_refl [simp]: "touches_only d st st"
  by (simp add: touches_only_def)

lemma touches_only_trans: "touches_only d a b \<Longrightarrow> touches_only d b c \<Longrightarrow> touches_only d a c"
  unfolding touches_only_def by fastforce

lemma touches_only_ok:
  assumes "touches_only d st st'" "d' \<noteq> d" "device_reads_ok st d'"
  shows "device_reads_ok st' d'"
proof -
  obtain ts where ts: "cr_created st' = cr_created st @ ts" using assms(1) by (auto simp: touches_only_def)
  have nth: "i < length (cr_created st) \<Longrightarrow> i < length (cr_created st') \<and> cr_created st' ! i = cr_created st ! i" for i
    by (simp add: ts nth_append)
  have eq: "dict_get (cr_inflight st') d' = dict_get (cr_inflight st) d'"
    "dict_get (cr_queues st') d' = dict_get (cr_queues st) d'"
    "dict_get (cr_timers st') d' = dict_get (cr_timers st) d'"
    "dict_get (cr_start_timers st') d' = dict_get (cr_start_timers st) d'"
    "d' \<in> cr_active st' \<longleftrightarrow> d' \<in> cr_active st"
    using assms(1,2) by (auto simp: touches_only_def)
  show ?thesis
    using assms(3) nth unfolding device_reads_ok_def eq by (auto split: option.splits if_splits)
qed

lemma reads_ok_step: "reads_ok st \<Longrightarrow> touches_only d st st' \<Longrightarrow> device_reads_ok st' d \<Longrightarrow> reads_ok st'"
  unfolding reads_ok_def using touches_only_ok by metis

lemma cancel_touches: "touches_only d st (cancel_config_read_sequence d st)"
  by (simp add: touches_only_def cancel_config_read_sequence_def)

lemma cancel_ok: "device_reads_ok (cancel_config_read_sequence d st) d"
  by (simp add: device_reads_ok_def cancel_config_read_sequence_def)

lemma touches_cancel: "touches_only d st st' \<Longrightarrow> touches_only d st (cancel_config_read_sequence d st')"
  using touches_only_trans cancel_touches by blast

text \<open>Between two reads of an active device: nothing in flight and no timer waiting for an answer.\<close>

definition between_reads :: "config_reads \<Rightarrow> string \<Rightarrow> bool" where
  "between_reads st d \<longleftrightarrow>
     dict_get (cr_inflight st) d = None \<and> dict_get (cr_timers st) d = None \<and> d \<in> cr_active st"

lemma kickoff_ok:
  assumes "between_reads st d" "kickoff_next_config_read E d st = ((st', reads), r)"
  shows "touches_only d st st' \<and> device_reads_ok st' d"
proof (cases "source_not_ready E d")
  case True
  then have "st' = cancel_config_read_sequence d st" using assms(2) by (simp add: kickoff_next_config_read_def)
  then show ?thesis using cancel_touches cancel_ok by simp
next
  case ready: False
  have none: "dict_get (cr_inflight st) d = None" "dict_get (cr_timers st) d = None" "d \<in> cr_active st"
    using assms(1) by (simp_all add: between_reads_def)
  show ?thesis
  proof (cases "\<exists>r0 q. dict_get (cr_queues st) d = Some (r0 # q)")
    case False
    then have "st' = st\<lparr>cr_start_timers := dict_pop d (cr_start_timers st),
        cr_queues := dict_pop d (cr_queues st), cr_active := cr_active st - {d}\<rparr>"
      using assms(2) ready none(1)
      by (auto simp: kickoff_next_config_read_def Let_def split: option.splits list.splits)
    then show ?thesis using none by (simp add: touches_only_def device_reads_ok_def)
  next
    case True
    then obtain r0 q where q: "dict_get (cr_queues st) d = Some (r0 # q)" by blast
    define st2 where "st2 = st\<lparr>cr_start_timers := dict_pop d (cr_start_timers st),
        cr_queues := dict_set d q (cr_queues st), cr_inflight := dict_set d r0 (cr_inflight st),
        cr_timers := dict_set d (length (cr_created st)) (cr_timers st),
        cr_created := cr_created st @ [TimeoutTimer d r0]\<rparr>"
    have t: "touches_only d st st2" by (simp add: st2_def touches_only_def)
    have k: "device_reads_ok st2 d" using none by (simp add: st2_def device_reads_ok_def)
    have "st' = st2 \<or> st' = cancel_config_read_sequence d st2"
      using assms(2) ready none(1) q
      by (auto simp: kickoff_next_config_read_def start_config_read_timer_def st2_def Let_def
          split: if_splits option.splits answer.splits)
    then show ?thesis using t k touches_cancel [OF t] cancel_ok [of d st2] by auto
  qed
qed

lemma device_reads_ok_inflight:
  "device_reads_ok st d \<Longrightarrow> dict_get (cr_inflight st) d \<noteq> None \<Longrightarrow> d \<in> cr_active st"
  by (auto simp: device_reads_ok_def)

lemma reads_released:
  assumes "device_reads_ok st d" "dict_get (cr_inflight st) d \<noteq> None"
    and "st1 = st\<lparr>cr_inflight := dict_pop d (cr_inflight st), cr_timers := dict_pop d (cr_timers st)\<rparr>"
  shows "between_reads st1 d \<and> touches_only d st st1"
  using assms device_reads_ok_inflight [OF assms(1,2)] by (simp add: between_reads_def touches_only_def)

lemma timeout_ok:
  assumes "reads_ok st" "config_read_timeout E d register_no st = ((st', reads), r)"
  shows "reads_ok st'"
proof (cases "dict_get (cr_inflight st) d = Some register_no")
  case True
  let ?st1 = "st\<lparr>cr_inflight := dict_pop d (cr_inflight st), cr_timers := dict_pop d (cr_timers st)\<rparr>"
  have rel: "between_reads ?st1 d \<and> touches_only d st ?st1"
    using reads_released [of st d ?st1] assms(1) True by (simp add: reads_ok_def)
  have "kickoff_next_config_read E d ?st1 = ((st', reads), r)"
    using assms(2) True by (simp add: config_read_timeout_def)
  then show ?thesis using kickoff_ok rel reads_ok_step [OF assms(1)] touches_only_trans by metis
next
  case False
  then show ?thesis using assms by (simp add: config_read_timeout_def)
qed

lemma response_timeout: "config_read_response E d register_no st = config_read_timeout E d register_no st"
  by (cases st) (simp add: config_read_response_def config_read_timeout_def)

lemma fire_ok:
  assumes "reads_ok st" "fire_read_timer E n st = ((st', reads), r)"
  shows "reads_ok st'"
proof (cases "n < length (cr_created st)")
  case True
  show ?thesis
  proof (cases "cr_created st ! n")
    case (StartTimer d)
    show ?thesis
    proof (cases "dict_get (cr_start_timers st) d = Some n")
      case cur: True
      have "device_reads_ok st d" using assms(1) by (simp add: reads_ok_def)
      then have "between_reads st d" using cur by (auto simp: between_reads_def device_reads_ok_def split: option.splits)
      moreover have "kickoff_next_config_read E d st = ((st', reads), r)"
        using assms(2) True StartTimer cur by (simp add: fire_read_timer_def)
      ultimately show ?thesis using kickoff_ok reads_ok_step [OF assms(1)] by metis
    qed (use assms True StartTimer in \<open>simp add: fire_read_timer_def\<close>)
  next
    case (TimeoutTimer d r0)
    then have "st' = st \<or> config_read_timeout E d r0 st = ((st', reads), r)"
      using assms(2) True by (auto simp: fire_read_timer_def split: if_splits)
    then show ?thesis using timeout_ok [OF assms(1)] assms(1) by blast
  qed
qed (use assms in \<open>simp add: fire_read_timer_def\<close>)

lemma queue_all_ok:
  assumes "reads_ok st" "queue_all_config_reads E d st = (st', r)"
  shows "reads_ok st' \<and> touches_only d st st'"
proof -
  have dev: "device_reads_ok st d" using assms(1) by (simp add: reads_ok_def)
  consider "st' = st"
    | r0 rs where "d \<notin> cr_active st" "dict_get (cr_inflight st) d = None"
        "st' = st\<lparr>cr_active := insert d (cr_active st), cr_queues := dict_set d (r0 # rs) (cr_queues st),
              cr_started := insert d (cr_started st),
              cr_start_timers := dict_set d (length (cr_created st)) (cr_start_timers st),
              cr_created := cr_created st @ [StartTimer d]\<rparr> \<or>
         st' = cancel_config_read_sequence d (st\<lparr>cr_active := insert d (cr_active st),
              cr_queues := dict_set d (r0 # rs) (cr_queues st), cr_started := insert d (cr_started st),
              cr_start_timers := dict_set d (length (cr_created st)) (cr_start_timers st),
              cr_created := cr_created st @ [StartTimer d]\<rparr>)"
    using assms(2)
    by (auto simp: queue_all_config_reads_def start_config_read_timer_def Let_def
        split: option.splits list.splits if_splits)
  then show ?thesis
  proof cases
    case 2
    let ?s = "st\<lparr>cr_active := insert d (cr_active st), cr_queues := dict_set d (r0 # rs) (cr_queues st),
              cr_started := insert d (cr_started st),
              cr_start_timers := dict_set d (length (cr_created st)) (cr_start_timers st),
              cr_created := cr_created st @ [StartTimer d]\<rparr>"
    have t: "touches_only d st ?s" by (simp add: touches_only_def)
    have k: "device_reads_ok ?s d" using dev 2(1,2) by (simp add: device_reads_ok_def)
    have "touches_only d st st' \<and> device_reads_ok st' d"
      using 2(3) t k touches_cancel [OF t] cancel_ok by metis
    then show ?thesis using reads_ok_step [OF assms(1)] by blast
  qed (use assms(1) in simp)
qed

lemma refresh_ok: "reads_ok st \<Longrightarrow> reads_ok (refresh_config_if_needed E d st)"
  using queue_all_ok [of st E d] by (cases "queue_all_config_reads E d st") (simp add: refresh_config_if_needed_def)

lemma reset_ok: "reads_ok (reset_config_read_state st)"
  by (simp add: reads_ok_def device_reads_ok_def reset_config_read_state_def)

lemma source_ready_ok: "reads_ok (handle_source_ready E devices st)"
proof -
  have "reads_ok s \<Longrightarrow> reads_ok (foldl (\<lambda>s d. refresh_config_if_needed E d s) s ds)" for s ds
    by (induction ds arbitrary: s) (simp_all add: refresh_ok)
  then show ?thesis using reset_ok by (simp add: handle_source_ready_def)
qed

lemma read_all_ok:
  assumes "reads_ok st" "read_all E command max_slots holding d st = ((st', sent), r)"
  shows "reads_ok st'"
proof (cases "d \<in> cr_active st")
  case True
  then show ?thesis using assms by (simp add: read_all_def)
next
  case False
  define st1 where "st1 = st\<lparr>cr_active := insert d (cr_active st)\<rparr>"
  have t1: "touches_only d st st1" by (simp add: st1_def touches_only_def)
  have undo: "st1\<lparr>cr_active := cr_active st1 - {d}\<rparr> = st" using False by (simp add: st1_def)
  obtain s0 l where loop: "send_holding_reads command max_slots holding = (s0, l)" by fastforce
  obtain st2 q where qa: "queue_all_config_reads E d st = (st2, q)" by fastforce
  note qok = queue_all_ok [OF assms(1) qa]
  have "st' = cancel_config_read_sequence d st1 \<or> st' = cancel_config_read_sequence d st2 \<or> st' = st2 \<or>
      (q = Inr False \<and> st' = st2\<lparr>cr_active := cr_active st2 - {d}\<rparr>)"
    using assms(2) False loop qa
    unfolding read_all_def st1_def [symmetric] undo Let_def
    by (auto split: sum.splits bool.splits)
  moreover have "st2 = st" if "q = Inr False"
    using qa that
    by (auto simp: queue_all_config_reads_def Let_def split: option.splits list.splits if_splits prod.splits sum.splits)
  moreover have "st\<lparr>cr_active := cr_active st - {d}\<rparr> = st" using False by simp
  ultimately have "st' = cancel_config_read_sequence d st1 \<or> st' = cancel_config_read_sequence d st2 \<or> st' = st2"
    by auto
  then show ?thesis
    using qok reads_ok_step [OF assms(1) touches_cancel [OF t1] cancel_ok]
      reads_ok_step [OF assms(1) touches_cancel [of d st st2] cancel_ok] by auto
qed

section \<open>The machine\<close>

datatype read_event =
    TimerFires nat
  | ReadResponse string int
  | DeviceActivity string
  | SourceReady "string list"
  | ReadAllPressed string "int \<Rightarrow> answer" int "(string \<times> int option) list"
  | ReadsReset

fun reads_step :: "config_reads \<Rightarrow> read_env \<times> read_event \<Rightarrow> config_reads" where
  "reads_step st (E, TimerFires n) = fst (fst (fire_read_timer E n st))"
| "reads_step st (E, ReadResponse d r) = fst (fst (config_read_response E d r st))"
| "reads_step st (E, DeviceActivity d) = refresh_config_if_needed E d st"
| "reads_step st (E, SourceReady ds) = handle_source_ready E ds st"
| "reads_step st (E, ReadAllPressed d command max_slots holding) =
     fst (fst (read_all E command max_slots holding d st))"
| "reads_step st (E, ReadsReset) = reset_config_read_state st"

lemma reads_step_ok:
  assumes "reads_ok st"
  shows "reads_ok (reads_step st ev)"
proof -
  obtain E e where ev: "ev = (E, e)" by fastforce
  show ?thesis
  proof (cases e)
    case (TimerFires n)
    obtain a b c where "fire_read_timer E n st = ((a, b), c)" by (metis prod.collapse)
    then show ?thesis using fire_ok [OF assms] ev TimerFires by simp
  next
    case (ReadResponse d r)
    obtain a b c where "config_read_timeout E d r st = ((a, b), c)" by (metis prod.collapse)
    then show ?thesis using timeout_ok [OF assms] ev ReadResponse by (simp add: response_timeout)
  next
    case (ReadAllPressed d f m h)
    obtain a b c where "read_all E f m h d st = ((a, b), c)" by (metis prod.collapse)
    then show ?thesis using read_all_ok [OF assms] ev ReadAllPressed by simp
  qed (use assms ev in \<open>simp_all add: refresh_ok source_ready_ok reset_ok\<close>)
qed

interpretation reads: step_machine reads_step reads_ok
  by unfold_locales (rule reads_step_ok)

lemma no_reads_ok: "reads_ok no_reads"
  by (simp add: reads_ok_def device_reads_ok_def no_reads_def)

lemma config_reads_ok_run: "reads_ok (foldl reads_step no_reads events)"
  by (rule reads.run_inv [OF no_reads_ok])

section \<open>A sequence comes to its end\<close>

text \<open>The timer that drives a device, and how many of its firings are left at most.\<close>

definition current_timer :: "config_reads \<Rightarrow> string \<Rightarrow> nat option" where
  "current_timer st d =
     (case dict_get (cr_timers st) d of Some n \<Rightarrow> Some n | None \<Rightarrow> dict_get (cr_start_timers st) d)"

definition queued_reads :: "config_reads \<Rightarrow> string \<Rightarrow> int list" where
  "queued_reads st d = (case dict_get (cr_queues st) d of Some q \<Rightarrow> q | None \<Rightarrow> [])"

definition reads_left :: "config_reads \<Rightarrow> string \<Rightarrow> nat" where
  "reads_left st d = (if d \<in> cr_active st then length (queued_reads st d) + 1 else 0)"

fun timers_fire :: "read_env list \<Rightarrow> string \<Rightarrow> config_reads \<Rightarrow> config_reads" where
  "timers_fire [] d st = st"
| "timers_fire (E # Es) d st =
     (case current_timer st d of
        None \<Rightarrow> st
      | Some n \<Rightarrow> timers_fire Es d (fst (fst (fire_read_timer E n st))))"

definition device_released :: "config_reads \<Rightarrow> string \<Rightarrow> bool" where
  "device_released st d \<longleftrightarrow>
     d \<notin> cr_active st \<and> dict_get (cr_inflight st) d = None \<and> dict_get (cr_queues st) d = None \<and>
     current_timer st d = None"

lemma released_iff_inactive: "reads_ok st \<Longrightarrow> device_released st d \<longleftrightarrow> d \<notin> cr_active st"
  unfolding reads_ok_def device_reads_ok_def device_released_def current_timer_def
  by (drule spec [of _ d]) (auto split: option.splits if_splits)

lemma active_has_timer: "reads_ok st \<Longrightarrow> d \<in> cr_active st \<Longrightarrow> \<exists>n. current_timer st d = Some n"
  unfolding reads_ok_def device_reads_ok_def current_timer_def
  by (drule spec [of _ d]) (auto split: option.splits if_splits)

lemma cancel_reads_left [simp]: "reads_left (cancel_config_read_sequence d st) d = 0"
  by (simp add: reads_left_def cancel_config_read_sequence_def)

lemma kickoff_reads_left:
  assumes "between_reads st d" "kickoff_next_config_read E d st = ((st', reads), r)"
  shows "reads_left st' d \<le> length (queued_reads st d)"
proof (cases "source_not_ready E d")
  case True
  then have "st' = cancel_config_read_sequence d st" using assms(2) by (simp add: kickoff_next_config_read_def)
  then show ?thesis by simp
next
  case ready: False
  have none: "dict_get (cr_inflight st) d = None" using assms(1) by (simp add: between_reads_def)
  show ?thesis
  proof (cases "dict_get (cr_queues st) d")
    case None
    then have "d \<notin> cr_active st'" using assms(2) ready none by (auto simp: kickoff_next_config_read_def Let_def)
    then show ?thesis by (simp add: reads_left_def)
  next
    case (Some q)
    show ?thesis
    proof (cases q)
      case Nil
      then have "d \<notin> cr_active st'" using assms(2) ready none Some by (auto simp: kickoff_next_config_read_def Let_def)
      then show ?thesis by (simp add: reads_left_def)
    next
      case (Cons a as)
      have "reads_left st' d \<le> length as + 1"
        using assms(2) ready none Some Cons
        by (auto simp: kickoff_next_config_read_def start_config_read_timer_def Let_def reads_left_def
            queued_reads_def cancel_config_read_sequence_def split: if_splits option.splits answer.splits)
      then show ?thesis using Some Cons by (simp add: queued_reads_def)
    qed
  qed
qed

text \<open>The current timer of a device always reaches the next read.\<close>

lemma current_timer_kicks:
  assumes "reads_ok st" "current_timer st d = Some n"
  obtains st1 where "between_reads st1 d" "queued_reads st1 d = queued_reads st d"
    "fire_read_timer E n st = kickoff_next_config_read E d st1" "touches_only d st st1"
proof -
  have dev: "device_reads_ok st d" using assms(1) by (simp add: reads_ok_def)
  show thesis
  proof (cases "dict_get (cr_inflight st) d")
    case None
    then have "between_reads st d" "n < length (cr_created st)" "cr_created st ! n = StartTimer d"
      "dict_get (cr_start_timers st) d = Some n"
      using dev assms(2) by (auto simp: device_reads_ok_def current_timer_def between_reads_def split: if_splits)
    then show thesis by (intro that [of st]) (simp_all add: fire_read_timer_def)
  next
    case (Some r)
    let ?st1 = "st\<lparr>cr_inflight := dict_pop d (cr_inflight st), cr_timers := dict_pop d (cr_timers st)\<rparr>"
    have "n < length (cr_created st)" "cr_created st ! n = TimeoutTimer d r" "dict_get (cr_timers st) d = Some n"
      using dev Some assms(2) by (auto simp: device_reads_ok_def current_timer_def)
    then have "fire_read_timer E n st = kickoff_next_config_read E d ?st1"
      using Some by (simp add: fire_read_timer_def config_read_timeout_def)
    moreover have "between_reads ?st1 d \<and> touches_only d st ?st1" using reads_released [OF dev, of ?st1] Some by simp
    ultimately show thesis by (intro that [of ?st1]) (simp_all add: queued_reads_def)
  qed
qed

lemma current_timer_active: "reads_ok st \<Longrightarrow> current_timer st d = Some n \<Longrightarrow> d \<in> cr_active st"
  unfolding reads_ok_def device_reads_ok_def current_timer_def
  by (drule spec [of _ d]) (auto split: option.splits if_splits)

lemma fire_reads_left:
  assumes "reads_ok st" "current_timer st d = Some n"
  shows "reads_left (fst (fst (fire_read_timer E n st))) d < reads_left st d"
proof -
  obtain st1 where st1: "between_reads st1 d" "queued_reads st1 d = queued_reads st d"
      "fire_read_timer E n st = kickoff_next_config_read E d st1"
    using current_timer_kicks [OF assms] by metis
  have "reads_left (fst (fst (kickoff_next_config_read E d st1))) d \<le> length (queued_reads st1 d)"
    using kickoff_reads_left [OF st1(1)] by (metis prod.collapse)
  then show ?thesis using st1(2,3) current_timer_active [OF assms] by (simp add: reads_left_def)
qed

lemma timers_fire_released:
  "reads_ok st \<Longrightarrow> reads_left st d \<le> length Es \<Longrightarrow> device_released (timers_fire Es d st) d"
proof (induction Es arbitrary: st)
  case Nil
  then show ?case by (simp add: released_iff_inactive reads_left_def split: if_splits)
next
  case (Cons E Es)
  show ?case
  proof (cases "current_timer st d")
    case None
    then show ?thesis using Cons.prems(1) active_has_timer released_iff_inactive by fastforce
  next
    case (Some n)
    have "reads_ok (fst (fst (fire_read_timer E n st)))"
      using fire_ok [OF Cons.prems(1)] by (metis prod.collapse)
    moreover have "reads_left (fst (fst (fire_read_timer E n st))) d \<le> length Es"
      using fire_reads_left [OF Cons.prems(1) Some, of E] Cons.prems(2) by simp
    ultimately show ?thesis using Cons.IH Some by simp
  qed
qed

section \<open>The order of the reads\<close>

text \<open>An environment in which nothing fails, and a device that answers one read after the other.\<close>

definition reads_accepted :: "read_env \<Rightarrow> string \<Rightarrow> bool" where
  "reads_accepted E d \<longleftrightarrow>
     \<not> source_not_ready E d \<and> (\<forall>n. re_timer_ok E n) \<and>
     (case re_read E of None \<Rightarrow> False
      | Some read \<Rightarrow> \<forall>r. case read d r of Answer a \<Rightarrow> publish_succeeded a | Raised e \<Rightarrow> False)"

fun device_answers :: "read_env \<Rightarrow> string \<Rightarrow> nat \<Rightarrow> config_reads \<Rightarrow> config_reads \<times> (string \<times> int) list" where
  "device_answers E d 0 st = (st, [])"
| "device_answers E d (Suc n) st =
     (case dict_get (cr_inflight st) d of
        None \<Rightarrow> (st, [])
      | Some r \<Rightarrow>
          (let st1 = fst (fst (config_read_response E d r st));
               asked = snd (fst (config_read_response E d r st));
               (st2, more_asked) = device_answers E d n st1
           in (st2, asked @ more_asked)))"

lemma kickoff_accepted:
  assumes "reads_accepted E d" "between_reads st d" "queued_reads st d = r # q"
  obtains st' where "kickoff_next_config_read E d st = ((st', [(d, r)]), Inr ())"
    "dict_get (cr_inflight st') d = Some r" "queued_reads st' d = q" "d \<in> cr_active st'"
proof -
  obtain read where read: "re_read E = Some read" "\<And>r. case read d r of Answer a \<Rightarrow> publish_succeeded a | Raised e \<Rightarrow> False"
    using assms(1) by (auto simp: reads_accepted_def split: option.splits)
  obtain a where a: "read d r = Answer a" "publish_succeeded a"
    using read(2) [of r] by (cases "read d r") auto
  have env: "\<not> source_not_ready E d" "\<And>n. re_timer_ok E n" using assms(1) by (auto simp: reads_accepted_def)
  have q: "dict_get (cr_queues st) d = Some (r # q)"
    using assms(3) by (auto simp: queued_reads_def split: option.splits)
  show thesis
    by (rule that [of "st\<lparr>cr_start_timers := dict_pop d (cr_start_timers st), cr_queues := dict_set d q (cr_queues st),
          cr_inflight := dict_set d r (cr_inflight st), cr_timers := dict_set d (length (cr_created st)) (cr_timers st),
          cr_created := cr_created st @ [TimeoutTimer d r]\<rparr>"])
       (use assms(2) env q read(1) a in
          \<open>simp_all add: kickoff_next_config_read_def start_config_read_timer_def between_reads_def queued_reads_def Let_def\<close>)
qed

lemma kickoff_done:
  assumes "reads_accepted E d" "between_reads st d" "queued_reads st d = []"
  obtains st' where "kickoff_next_config_read E d st = ((st', []), Inr ())" "d \<notin> cr_active st'"
proof -
  have "dict_get (cr_queues st) d = None \<or> dict_get (cr_queues st) d = Some []"
    using assms(3) by (auto simp: queued_reads_def split: option.splits)
  moreover have "\<not> source_not_ready E d" using assms(1) by (simp add: reads_accepted_def)
  ultimately show thesis
    using assms(2)
    by (intro that [of "st\<lparr>cr_start_timers := dict_pop d (cr_start_timers st), cr_queues := dict_pop d (cr_queues st),
        cr_active := cr_active st - {d}\<rparr>"])
       (auto simp: kickoff_next_config_read_def between_reads_def Let_def)
qed

lemma device_answers_order:
  assumes "reads_accepted E d" "d \<in> cr_active st" "dict_get (cr_inflight st) d = Some r" "queued_reads st d = q"
    and "n = length q + 1"
  shows "snd (device_answers E d n st) = map (Pair d) q \<and> d \<notin> cr_active (fst (device_answers E d n st))"
  using assms(2-)
proof (induction n arbitrary: st r q)
  case (Suc n)
  let ?st1 = "st\<lparr>cr_timers := dict_pop d (cr_timers st), cr_inflight := dict_pop d (cr_inflight st)\<rparr>"
  have b: "between_reads ?st1 d" "queued_reads ?st1 d = q"
    using Suc.prems(1,3) by (simp_all add: between_reads_def queued_reads_def)
  have resp: "config_read_response E d r st = kickoff_next_config_read E d ?st1"
    using Suc.prems(2) by (simp add: config_read_response_def)
  show ?case
  proof (cases q)
    case Nil
    then obtain st' where "kickoff_next_config_read E d ?st1 = ((st', []), Inr ())" "d \<notin> cr_active st'"
      using kickoff_done [OF assms(1) b(1)] b(2) by blast
    moreover have "n = 0" using Suc.prems(4) Nil by simp
    ultimately show ?thesis using Suc.prems(2) resp Nil by simp
  next
    case (Cons a q')
    then obtain st' where k: "kickoff_next_config_read E d ?st1 = ((st', [(d, a)]), Inr ())"
        "dict_get (cr_inflight st') d = Some a" "queued_reads st' d = q'" "d \<in> cr_active st'"
      using kickoff_accepted [OF assms(1) b(1)] b(2) by blast
    have "snd (device_answers E d n st') = map (Pair d) q' \<and> d \<notin> cr_active (fst (device_answers E d n st'))"
      using Suc.IH [OF k(4,2,3)] Suc.prems(4) Cons by simp
    then show ?thesis using Suc.prems(2) resp k(1) Cons by (simp add: case_prod_beta)
  qed
qed simp

lemma queue_all_accepted:
  assumes "reads_ok st" "reads_accepted E d" "d \<notin> cr_active st" "re_registers E d = Some rs" "rs \<noteq> []"
  obtains st' where "queue_all_config_reads E d st = (st', Inr True)" "queued_reads st' d = rs"
    "current_timer st' d = Some (length (cr_created st))"
proof -
  have dev: "device_reads_ok st d" using assms(1) by (simp add: reads_ok_def)
  then have idle: "dict_get (cr_inflight st) d = None" "dict_get (cr_queues st) d = None" "dict_get (cr_timers st) d = None"
    using assms(3) by (auto simp: device_reads_ok_def split: option.splits if_splits)
  obtain r q where rs: "rs = r # q" using assms(5) by (cases rs) auto
  obtain read where "re_read E = Some read" "\<not> source_not_ready E d" "\<And>n. re_timer_ok E n"
    using assms(2) by (auto simp: reads_accepted_def split: option.splits)
  then show thesis
    using idle assms(3,4) rs
    by (intro that [of "st\<lparr>cr_active := insert d (cr_active st), cr_queues := dict_set d (r # q) (cr_queues st),
         cr_started := insert d (cr_started st), cr_start_timers := dict_set d (length (cr_created st)) (cr_start_timers st),
         cr_created := cr_created st @ [StartTimer d]\<rparr>"])
       (simp_all add: queue_all_config_reads_def start_config_read_timer_def queued_reads_def current_timer_def Let_def)
qed

text \<open>A concrete environment for the examples: two config registers, every send accepted.\<close>

definition sample_env :: read_env where
  "sample_env = \<lparr>re_wired = True, re_ready = (\<lambda>d. True), re_timer_ok = (\<lambda>n. True),
     re_read = Some (\<lambda>d r. Answer ResNone), re_registers = (\<lambda>d. Some [31, 4])\<rparr>"

section \<open>Properties\<close>

text \<open>C15: Whatever happens in whatever order (stale timers, answers nobody waits for, refused or
  raising sends, timers that cannot be started, restarts), every device is idle, or waits for its
  start timer with registers queued, or has exactly one read in flight guarded by its own timer; no
  queue and no \<open>Read All\<close> is ever left behind without a timer that drives it.\<close>

theorem config_reads_invariant:
  "reads_ok (foldl reads_step no_reads events)"
  by (rule config_reads_ok_run)

text \<open>C7: A read sequence always ends: after at most one firing of the device's current timer per
  queued register and one more, each in an environment of its own, the device is released, even if
  it never answers.\<close>

theorem config_reads_finish:
  assumes "length (queued_reads (foldl reads_step no_reads events) d) + 1 \<le> length Es"
  shows "device_released (timers_fire Es d (foldl reads_step no_reads events)) d"
  by (rule timers_fire_released [OF config_reads_ok_run])
     (use assms in \<open>simp add: reads_left_def\<close>)

theorem config_reads_finish_witness:
  "device_released (timers_fire
     (replicate 3 sample_env) ''QMN1''
     (foldl reads_step no_reads [(sample_env,
        DeviceActivity ''QMN1'')])) ''QMN1''"
  by (rule config_reads_finish) code_simp

text \<open>With an answering device and nothing failing, a started sequence asks for exactly the config
  registers of the device, each once and in their order, and then releases the device.\<close>

theorem config_reads_in_order:
  assumes "reads_accepted E d" "d \<notin> cr_active (foldl reads_step no_reads events)"
    and "re_registers E d = Some rs" "rs \<noteq> []"
  shows "\<exists>st1 n st2 first. queue_all_config_reads E d (foldl reads_step no_reads events) = (st1, Inr True) \<and>
    current_timer st1 d = Some n \<and> fire_read_timer E n st1 = ((st2, first), Inr ()) \<and>
    first @ snd (device_answers E d (length rs) st2) = map (Pair d) rs \<and>
    device_released (fst (device_answers E d (length rs) st2)) d"
proof -
  let ?st = "foldl reads_step no_reads events"
  obtain st1 where q: "queue_all_config_reads E d ?st = (st1, Inr True)" "queued_reads st1 d = rs"
      "current_timer st1 d = Some (length (cr_created ?st))"
    using queue_all_accepted [OF config_reads_ok_run assms] by blast
  have ok1: "reads_ok st1" using queue_all_ok [OF config_reads_ok_run q(1)] by simp
  obtain s0 where s0: "between_reads s0 d" "queued_reads s0 d = rs"
      "fire_read_timer E (length (cr_created ?st)) st1 = kickoff_next_config_read E d s0"
    using current_timer_kicks [OF ok1 q(3), of E] q(2) by metis
  obtain r rest where rs: "rs = r # rest" using assms(4) by (cases rs) auto
  obtain st2 where k: "kickoff_next_config_read E d s0 = ((st2, [(d, r)]), Inr ())"
      "dict_get (cr_inflight st2) d = Some r" "queued_reads st2 d = rest" "d \<in> cr_active st2"
    using kickoff_accepted [OF assms(1) s0(1)] s0(2) rs by blast
  have fire: "fire_read_timer E (length (cr_created ?st)) st1 = ((st2, [(d, r)]), Inr ())" using s0(3) k(1) by simp
  have ans: "snd (device_answers E d (length rs) st2) = map (Pair d) rest"
      "d \<notin> cr_active (fst (device_answers E d (length rs) st2))"
    using device_answers_order [OF assms(1) k(4,2,3)] rs by simp_all
  have "reads_ok (fst (device_answers E d n s))" if "reads_ok s" for n s
    using that
  proof (induction n arbitrary: s)
    case (Suc n)
    show ?case
    proof (cases "dict_get (cr_inflight s) d")
      case (Some r')
      have "reads_ok (fst (fst (config_read_response E d r' s)))"
        using reads_step_ok [OF Suc.prems, of "(E, ReadResponse d r')"] by simp
      then show ?thesis using Suc.IH Some by (simp add: case_prod_beta Let_def)
    qed (use Suc.prems in simp)
  qed simp
  then have "device_released (fst (device_answers E d (length rs) st2)) d"
    using fire_ok [OF ok1 fire] ans(2) released_iff_inactive by blast
  then show ?thesis using q(1,3) fire ans(1) rs by auto
qed

theorem config_reads_in_order_witness:
  "\<exists>st1 n st2 first. queue_all_config_reads sample_env ''QMN1''
       (foldl reads_step no_reads []) = (st1, Inr True) \<and>
    current_timer st1 ''QMN1'' = Some n \<and>
    fire_read_timer sample_env n st1 = ((st2, first), Inr ()) \<and>
    first @ snd (device_answers sample_env ''QMN1'' (length [31 :: int, 4]) st2)
      = map (Pair ''QMN1'') [31, 4] \<and>
    device_released (fst (device_answers sample_env ''QMN1'' (length [31 :: int, 4]) st2)) ''QMN1''"
  by (rule config_reads_in_order)
     (simp_all add: reads_accepted_def source_not_ready_def publish_succeeded_def no_reads_def sample_env_def)

end
