(* ===== verification/Availability.thy ===== *)
theory Availability
  imports Complex_Main MqttResult
begin

text \<open>
  Device availability in \<open>grobro/ha/client.py\<close> and \<open>grobro/ha/timer_runtime.py\<close>: live traffic
  publishes \<open>online\<close> and arms a timeout, a silent device is published \<open>offline\<close>, the bridge state and
  the command subscription are retried on activity. Handlers run under the runtime lock.

  Times are elements of an ordered field, so the rounding of Python's floats is left out. A timer is
  named by its position in \<open>av_created\<close>; it may fire at any time, also after it was replaced.
\<close>

section \<open>Definitions\<close>

definition effective_min_timeout :: "int \<Rightarrow> int" where
  "effective_min_timeout v = (if v > 0 then v else 120)"

text \<open>
  The timeout of one device; \<open>interval\<close> is \<open>float(config.data_interval)\<close>, \<open>None\<close> when there is none
  or it is no number.
\<close>

definition effective_device_timeout :: "'t::linordered_field \<Rightarrow> 't option \<Rightarrow> 't" where
  "effective_device_timeout timeout interval =
     (case interval of
        None \<Rightarrow> timeout
      | Some minutes \<Rightarrow>
          if \<not> (0 < minutes \<and> minutes \<le> 60) then timeout
          else (let interval_seconds = minutes * 60; grace = max 30 (interval_seconds * (1 / 5))
                in max timeout (interval_seconds + grace)))"

record 't availability =
  av_last :: "(string, bool) dict"
  av_bridge_pending :: bool
  av_subscription_pending :: bool
  av_seen :: "(string, 't) dict"
  av_timers :: "(string, nat) dict"
  av_created :: "string list"
  av_log :: "(publish \<times> answer) list"

text \<open>The settings and the outside of one handler call.\<close>

record 't av_env =
  ae_base :: string
  ae_bridge_topic :: string
  ae_sensor :: bool
  ae_broker :: broker
  ae_subscribe :: answer
  ae_now :: 't
  ae_timeout :: "string \<Rightarrow> 't"
  ae_timer_ok :: "nat \<Rightarrow> bool"
  ae_timer_alive :: "nat \<Rightarrow> bool"

definition av_send :: "('t, 'm) av_env_scheme \<Rightarrow> publish \<Rightarrow> 't availability \<Rightarrow> 't availability \<times> answer" where
  "av_send E p st = (st\<lparr>av_log := send (ae_broker E) p (av_log st)\<rparr>, ae_broker E (av_log st) p)"

definition publish_bridge_online :: "('t, 'm) av_env_scheme \<Rightarrow> 't availability \<Rightarrow> 't availability \<times> bool" where
  "publish_bridge_online E st =
     (case av_send E \<lparr>pb_topic = ae_bridge_topic E, pb_payload = ''online'', pb_retain = True\<rparr>
             (st\<lparr>av_bridge_pending := True\<rparr>) of
        (st1, Raised e) \<Rightarrow> (st1, False)
      | (st1, Answer r) \<Rightarrow> (st1\<lparr>av_bridge_pending := \<not> publish_succeeded r\<rparr>, publish_succeeded r))"

definition device_topic :: "('t, 'm) av_env_scheme \<Rightarrow> string \<Rightarrow> string \<Rightarrow> string" where
  "device_topic E d name = ae_base E @ ''/grobro/'' @ d @ ''/'' @ name"

definition availability_message :: "('t, 'm) av_env_scheme \<Rightarrow> string \<Rightarrow> bool \<Rightarrow> publish" where
  "availability_message E d online =
     \<lparr>pb_topic = device_topic E d ''availability'',
      pb_payload = (if online then ''online'' else ''offline''), pb_retain = True\<rparr>"

definition online_sensor_message :: "('t, 'm) av_env_scheme \<Rightarrow> string \<Rightarrow> bool \<Rightarrow> publish" where
  "online_sensor_message E d online =
     \<lparr>pb_topic = device_topic E d ''online'', pb_payload = (if online then ''ON'' else ''OFF''),
      pb_retain = True\<rparr>"

definition publish_availability ::
    "('t, 'm) av_env_scheme \<Rightarrow> string \<Rightarrow> bool \<Rightarrow> 't availability \<Rightarrow> 't availability \<times> bool py" where
  "publish_availability E d online st =
     (let st1 = (if online \<and> av_bridge_pending st then fst (publish_bridge_online E st) else st) in
      if dict_get (av_last st1) d = Some online then (st1, Inr False)
      else (case av_send E (availability_message E d online) st1 of
          (st2, Raised e) \<Rightarrow> (st2, Inl e)
        | (st2, Answer r) \<Rightarrow>
            if \<not> publish_succeeded r then (st2, Inr False)
            else if ae_sensor E
            then (case av_send E (online_sensor_message E d online) st2 of
                (st3, Raised e) \<Rightarrow> (st3, Inl e)
              | (st3, Answer r') \<Rightarrow>
                  if \<not> publish_succeeded r' then (st3, Inr False)
                  else (st3\<lparr>av_last := dict_set d online (av_last st3)\<rparr>, Inr True))
            else (st2\<lparr>av_last := dict_set d online (av_last st2)\<rparr>, Inr True)))"

definition subscribe_commands :: "('t, 'm) av_env_scheme \<Rightarrow> 't availability \<Rightarrow> 't availability" where
  "subscribe_commands E st = st\<lparr>av_subscription_pending := \<not> accepted (ae_subscribe E)\<rparr>"

text \<open>A timer replaces the one before it; when it cannot be started the device has none.\<close>

definition arm_timeout :: "('t, 'm) av_env_scheme \<Rightarrow> string \<Rightarrow> 't availability \<Rightarrow> 't availability" where
  "arm_timeout E d st =
     (let n = length (av_created st) in
      st\<lparr>av_created := av_created st @ [d],
         av_timers := (if ae_timer_ok E n then dict_set d n (dict_pop d (av_timers st))
                       else dict_pop d (av_timers st))\<rparr>)"

definition reset_device_timer :: "('t, 'm) av_env_scheme \<Rightarrow> string \<Rightarrow> 't availability \<Rightarrow> 't availability" where
  "reset_device_timer E d st =
     (let st1 = st\<lparr>av_seen := dict_set d (ae_now E) (av_seen st)\<rparr> in
      case dict_get (av_timers st1) d of
        Some n \<Rightarrow> if ae_timer_alive E n then st1 else arm_timeout E d st1
      | None \<Rightarrow> arm_timeout E d st1)"

text \<open>\<open>DEVICE_TIMEOUT > 0\<close> always holds after \<open>_effective_device_timeout\<close>.\<close>

definition refresh_device_activity :: "('t, 'm) av_env_scheme \<Rightarrow> string \<Rightarrow> 't availability \<Rightarrow> 't availability" where
  "refresh_device_activity E d st =
     (let st1 = (if av_subscription_pending st then subscribe_commands E st else st)
      in reset_device_timer E d (fst (publish_availability E d True st1)))"

definition check_timeout ::
    "('t::linordered_field, 'm) av_env_scheme \<Rightarrow> string \<Rightarrow> 't availability \<Rightarrow> 't availability \<times> unit py" where
  "check_timeout E d st =
     (case dict_get (av_seen st) d of
        None \<Rightarrow> (st\<lparr>av_timers := dict_pop d (av_timers st)\<rparr>, Inr ())
      | Some last_seen \<Rightarrow>
          if ae_timeout E d - (ae_now E - last_seen) > 0 then (arm_timeout E d st, Inr ())
          else (let (st1, r) = publish_availability E d False
                      (st\<lparr>av_timers := dict_pop d (av_timers st), av_seen := dict_pop d (av_seen st)\<rparr>)
                in (st1, map_sum id (\<lambda>_. ()) r)))"

definition fire_device_timer ::
    "('t::linordered_field, 'm) av_env_scheme \<Rightarrow> nat \<Rightarrow> 't availability \<Rightarrow> 't availability \<times> unit py" where
  "fire_device_timer E n st =
     (if n < length (av_created st) \<and> dict_get (av_timers st) (av_created st ! n) = Some n
      then check_timeout E (av_created st ! n) st else (st, Inr ()))"

text \<open>Every known device is published offline, failures skipped.\<close>

definition publish_offline_devices ::
    "('t, 'm) av_env_scheme \<Rightarrow> string list \<Rightarrow> 't availability \<Rightarrow> 't availability" where
  "publish_offline_devices E devices st =
     foldl (\<lambda>s d. fst (publish_availability E d False s)) st devices"

text \<open>
  The availability part of a reconnect and of a restart of Home Assistant: the cache of what was
  published is dropped and every known device starts offline.
\<close>

definition recover_availability ::
    "('t, 'm) av_env_scheme \<Rightarrow> string list \<Rightarrow> 't availability \<Rightarrow> 't availability" where
  "recover_availability E devices st =
     publish_offline_devices E devices ((subscribe_commands E st)\<lparr>av_last := []\<rparr>)"

definition connect_availability ::
    "('t, 'm) av_env_scheme \<Rightarrow> string list \<Rightarrow> 't availability \<Rightarrow> 't availability" where
  "connect_availability E devices st =
     recover_availability E devices (fst (publish_bridge_online E st))"

section \<open>What the broker holds\<close>

text \<open>The payload of the last accepted message on a topic.\<close>

definition broker_state :: "(publish \<times> answer) list \<Rightarrow> string \<Rightarrow> string option" where
  "broker_state lg topic =
     map_option (\<lambda>(p, a). pb_payload p) (find (\<lambda>(p, a). pb_topic p = topic \<and> accepted a) (rev lg))"

lemma broker_state_send:
  "broker_state (send B p lg) t =
   (if pb_topic p = t \<and> accepted (B lg p) then Some (pb_payload p) else broker_state lg t)"
  by (simp add: broker_state_def send_def)

lemma device_topic_inj: "device_topic E d name = device_topic E d' name \<longleftrightarrow> d = d'"
  by (simp add: device_topic_def)

text \<open>The cache never claims a state the broker does not hold; \<open>c\<close> is the bridge's own client id.\<close>

definition availability_text :: "bool \<Rightarrow> string" where
  "availability_text b = (if b then ''online'' else ''offline'')"

definition availability_topic :: "string \<Rightarrow> string \<Rightarrow> string" where
  "availability_topic base d = base @ ''/grobro/'' @ d @ ''/availability''"

definition timer_of_device :: "'t availability \<Rightarrow> bool" where
  "timer_of_device st \<longleftrightarrow>
     (\<forall>d n. dict_get (av_timers st) d = Some n \<longrightarrow> n < length (av_created st) \<and> av_created st ! n = d)"

definition cache_sound :: "string \<Rightarrow> string \<Rightarrow> 't availability \<Rightarrow> bool" where
  "cache_sound base c st \<longleftrightarrow>
     timer_of_device st \<and>
     (\<forall>d b. d \<noteq> c \<and> dict_get (av_last st) d = Some b \<longrightarrow>
        broker_state (av_log st) (availability_topic base d) = Some (availability_text b))"

definition av_settings :: "string \<Rightarrow> string \<Rightarrow> ('t, 'm) av_env_scheme \<Rightarrow> ('t, 'm) av_env_scheme" where
  "av_settings base c E = E\<lparr>ae_base := base, ae_bridge_topic := availability_topic base c, ae_sensor := False\<rparr>"

lemma availability_topic_inj: "availability_topic base d = availability_topic base d' \<longleftrightarrow> d = d'"
  by (simp add: availability_topic_def)

lemma availability_message_topic:
  "pb_topic (availability_message (av_settings base c E) d b) = availability_topic base d"
  "pb_payload (availability_message (av_settings base c E) d b) = availability_text b"
  by (simp_all add: availability_message_def device_topic_def av_settings_def availability_topic_def availability_text_def)

lemma bridge_online_frame:
  "av_last (fst (publish_bridge_online E st)) = av_last st"
  "av_seen (fst (publish_bridge_online E st)) = av_seen st"
  "av_timers (fst (publish_bridge_online E st)) = av_timers st"
  "av_created (fst (publish_bridge_online E st)) = av_created st"
  by (simp_all add: publish_bridge_online_def av_send_def split: answer.splits)

lemma bridge_online_log:
  "pb_topic p = ae_bridge_topic E \<Longrightarrow> t \<noteq> ae_bridge_topic E \<Longrightarrow>
   broker_state (av_log (fst (publish_bridge_online E st))) t = broker_state (av_log st) t"
  by (simp add: publish_bridge_online_def av_send_def broker_state_send split: answer.splits)

lemma bridge_online_sound:
  "cache_sound base c st \<Longrightarrow> cache_sound base c (fst (publish_bridge_online (av_settings base c E) st))"
  by (auto simp: cache_sound_def timer_of_device_def publish_bridge_online_def av_send_def broker_state_send
      av_settings_def availability_topic_inj split: answer.splits)

lemma publish_availability_frame:
  "av_seen (fst (publish_availability E d b st)) = av_seen st"
  "av_timers (fst (publish_availability E d b st)) = av_timers st"
  "av_created (fst (publish_availability E d b st)) = av_created st"
  by (simp_all add: publish_availability_def Let_def av_send_def bridge_online_frame split: answer.splits)

lemma publish_availability_sound:
  assumes "cache_sound base c st"
  shows "cache_sound base c (fst (publish_availability (av_settings base c E) d b st))"
proof -
  let ?E = "av_settings base c E"
  define st1 where "st1 = (if b \<and> av_bridge_pending st then fst (publish_bridge_online ?E st) else st)"
  have s1: "cache_sound base c st1" using bridge_online_sound [OF assms, of E] assms by (simp add: st1_def)
  have sensor: "\<not> ae_sensor ?E" by (simp add: av_settings_def)
  define st2 where "st2 = fst (av_send ?E (availability_message ?E d b) st1)"
  have log: "broker_state (av_log st2) (availability_topic base d') =
      (if d = d' \<and> accepted (snd (av_send ?E (availability_message ?E d b) st1)) then Some (availability_text b)
       else broker_state (av_log st1) (availability_topic base d'))" for d'
    by (cases "d = d'") (simp_all add: st2_def av_send_def broker_state_send availability_message_topic availability_topic_inj)
  have frame: "av_last st2 = av_last st1" "timer_of_device st2 = timer_of_device st1"
    by (simp_all add: st2_def av_send_def timer_of_device_def)
  show ?thesis
  proof (cases "dict_get (av_last st1) d = Some b")
    case True
    then show ?thesis using s1 by (simp add: publish_availability_def st1_def [symmetric] Let_def)
  next
    case False
    have snd2: "av_send ?E (availability_message ?E d b) st1 = (st2, snd (av_send ?E (availability_message ?E d b) st1))"
      by (simp add: st2_def)
    show ?thesis
    proof (cases "accepted (snd (av_send ?E (availability_message ?E d b) st1))")
      case acc: True
      then have "fst (publish_availability ?E d b st) = st2\<lparr>av_last := dict_set d b (av_last st2)\<rparr>"
        using False sensor snd2
        by (cases "snd (av_send ?E (availability_message ?E d b) st1)")
           (simp_all add: publish_availability_def st1_def [symmetric] Let_def)
      then show ?thesis using s1 log frame acc by (auto simp: cache_sound_def timer_of_device_def)
    next
      case rej: False
      then have "fst (publish_availability ?E d b st) = st2"
        using False sensor snd2
        by (cases "snd (av_send ?E (availability_message ?E d b) st1)")
           (simp_all add: publish_availability_def st1_def [symmetric] Let_def)
      moreover have "dict_get (av_last st2) d \<noteq> Some b" using False frame by simp
      ultimately show ?thesis using s1 log frame rej by (auto simp: cache_sound_def)
    qed
  qed
qed

lemma arm_timeout_sound: "cache_sound base c st \<Longrightarrow> cache_sound base c (arm_timeout E d st)"
  by (auto simp: cache_sound_def arm_timeout_def timer_of_device_def Let_def nth_append less_SucI split: if_splits)

lemma cache_sound_seen [simp]: "cache_sound base c (st\<lparr>av_seen := s\<rparr>) = cache_sound base c st"
  "cache_sound base c (st\<lparr>av_subscription_pending := x\<rparr>) = cache_sound base c st"
  by (simp_all add: cache_sound_def timer_of_device_def)

lemma cache_sound_pop: "cache_sound base c st \<Longrightarrow> cache_sound base c (st\<lparr>av_timers := dict_pop d (av_timers st)\<rparr>)"
  by (auto simp: cache_sound_def timer_of_device_def split: if_splits)

lemma reset_timer_sound: "cache_sound base c st \<Longrightarrow> cache_sound base c (reset_device_timer E d st)"
  by (simp add: reset_device_timer_def Let_def arm_timeout_sound split: option.splits)

lemma activity_sound:
  "cache_sound base c st \<Longrightarrow> cache_sound base c (refresh_device_activity (av_settings base c E) d st)"
  by (simp add: refresh_device_activity_def Let_def reset_timer_sound publish_availability_sound subscribe_commands_def)

lemma check_timeout_sound:
  assumes "cache_sound base c st"
  shows "cache_sound base c (fst (check_timeout (av_settings base c E) d st))"
proof (cases "dict_get (av_seen st) d")
  case None
  then show ?thesis using cache_sound_pop [OF assms] by (simp add: check_timeout_def)
next
  case (Some t)
  have "cache_sound base c (st\<lparr>av_timers := dict_pop d (av_timers st), av_seen := dict_pop d (av_seen st)\<rparr>)"
    using cache_sound_pop [OF assms, of d] by simp
  then show ?thesis
    using Some assms by (simp add: check_timeout_def arm_timeout_sound publish_availability_sound case_prod_beta Let_def)
qed

lemma offline_devices_sound:
  "cache_sound base c st \<Longrightarrow> cache_sound base c (publish_offline_devices (av_settings base c E) ds st)"
  by (induction ds arbitrary: st) (simp_all add: publish_offline_devices_def publish_availability_sound)

lemma recover_sound:
  "cache_sound base c st \<Longrightarrow> cache_sound base c (recover_availability (av_settings base c E) ds st)"
  unfolding recover_availability_def
  by (rule offline_devices_sound) (simp add: cache_sound_def timer_of_device_def subscribe_commands_def)

section \<open>The machine\<close>

datatype av_event =
    DeviceTraffic string
  | DeviceTimer nat
  | BridgeConnected "string list"
  | HomeAssistantRestarted "string list"
  | BridgeStops "string list"

fun availability_step ::
    "('t::linordered_field, 'm) av_env_scheme \<Rightarrow> 't availability \<Rightarrow> av_event \<Rightarrow> 't availability" where
  "availability_step E st (DeviceTraffic d) = refresh_device_activity E d st"
| "availability_step E st (DeviceTimer n) = fst (fire_device_timer E n st)"
| "availability_step E st (BridgeConnected ds) = connect_availability E ds st"
| "availability_step E st (HomeAssistantRestarted ds) = recover_availability E ds st"
| "availability_step E st (BridgeStops ds) =
     publish_offline_devices E ds (st\<lparr>av_timers := [], av_seen := []\<rparr>)"

text \<open>Events with the outside world of each; the settings stay the same over a run.\<close>

definition settled_step ::
    "string \<Rightarrow> string \<Rightarrow> 't::linordered_field availability \<Rightarrow> 't av_env \<times> av_event \<Rightarrow> 't availability" where
  "settled_step base c st ev = availability_step (av_settings base c (fst ev)) st (snd ev)"

lemma settled_step_sound: "cache_sound base c st \<Longrightarrow> cache_sound base c (settled_step base c st ev)"
proof -
  assume s: "cache_sound base c st"
  show ?thesis
  proof (cases "snd ev")
    case (DeviceTimer n)
    then show ?thesis using s by (simp add: settled_step_def fire_device_timer_def check_timeout_sound)
  next
    case (BridgeConnected ds)
    then show ?thesis
      using s by (simp add: settled_step_def connect_availability_def recover_sound bridge_online_sound)
  next
    case (BridgeStops ds)
    have "cache_sound base c (st\<lparr>av_timers := [], av_seen := []\<rparr>)"
      using s by (simp add: cache_sound_def timer_of_device_def)
    then show ?thesis using BridgeStops by (simp add: settled_step_def offline_devices_sound)
  qed (use s in \<open>simp_all add: settled_step_def activity_sound recover_sound\<close>)
qed

interpretation availability_machine: step_machine "settled_step base c" "cache_sound base c"
  by unfold_locales (rule settled_step_sound)

definition no_availability :: "'t availability" where
  "no_availability = \<lparr>av_last = [], av_bridge_pending = False, av_subscription_pending = False,
     av_seen = [], av_timers = [], av_created = [], av_log = []\<rparr>"

lemma no_availability_sound: "cache_sound base c no_availability"
  by (simp add: cache_sound_def timer_of_device_def no_availability_def)

lemma availability_run: "cache_sound base c (foldl (settled_step base c) no_availability events)"
  by (rule availability_machine.run_inv [OF no_availability_sound])

text \<open>What a firing does to a device with a current timer.\<close>

lemma fire_live:
  assumes "n < length (av_created st)" "av_created st ! n = d" "dict_get (av_timers st) d = Some n"
    and "dict_get (av_seen st) d = Some t" "ae_now E - t < ae_timeout E d"
  shows "fire_device_timer E n st = (arm_timeout E d st, Inr ())"
  using assms by (simp add: fire_device_timer_def check_timeout_def)

lemma fire_silent:
  assumes "n < length (av_created st)" "av_created st ! n = d" "dict_get (av_timers st) d = Some n"
    and "dict_get (av_seen st) d = Some t" "ae_timeout E d \<le> ae_now E - t" "\<And>lg p. accepted (ae_broker E lg p)"
  shows "dict_get (av_last (fst (fire_device_timer E n st))) d = Some False \<and>
    dict_get (av_timers (fst (fire_device_timer E n st))) d = None"
proof -
  let ?s = "st\<lparr>av_timers := dict_pop d (av_timers st), av_seen := dict_pop d (av_seen st)\<rparr>"
  have fire: "fst (fire_device_timer E n st) = fst (publish_availability E d False ?s)"
    using assms(1-5) by (simp add: fire_device_timer_def check_timeout_def case_prod_beta)
  have ok: "ae_broker E lg p = Answer r \<Longrightarrow> publish_succeeded r" "ae_broker E lg p \<noteq> Raised e" for lg p r e
    using assms(6) [of lg p] by (cases "ae_broker E lg p", auto)+
  have "dict_get (av_last (fst (publish_availability E d False ?s))) d = Some False"
    using ok by (auto simp: publish_availability_def Let_def av_send_def split: answer.splits)
  then show ?thesis by (simp add: fire publish_availability_frame)
qed

section \<open>Properties\<close>

text \<open>C28: Without the extra sensor, the state cached for a device is the one the broker holds: over any
  sequence of traffic, timers (stale ones too), reconnects and restarts, with any answers of the
  broker, the last accepted availability message of a device is the cached one. The bridge's own
  topic, the one of a device named like the client, is excepted.\<close>

theorem availability_cache_sound:
  "case dict_get (av_last (foldl (settled_step base c) no_availability events)) d of
     None \<Rightarrow> True
   | Some b \<Rightarrow> d = c \<or>
       broker_state (av_log (foldl (settled_step base c) no_availability events)) (availability_topic base d) =
       Some (availability_text b)"
  using availability_run [of base c events] by (auto simp: cache_sound_def split: option.splits)

text \<open>The timeout decides by the time of the last traffic alone: the current timer of a device that
  was heard of within its timeout publishes nothing and arms the next one, and that of a silent
  device ends with the device offline when the broker accepts.\<close>

theorem device_timeout_decides:
  fixes E :: "('t::linordered_field, 'm) av_env_scheme"
  assumes "dict_get (av_timers (foldl (settled_step base c) no_availability events)) d = Some n"
    and "dict_get (av_seen (foldl (settled_step base c) no_availability events)) d = Some t"
  shows "if ae_now E - t < ae_timeout E d
    then fire_device_timer E n (foldl (settled_step base c) no_availability events) =
      (arm_timeout E d (foldl (settled_step base c) no_availability events), Inr ())
    else (\<forall>lg p. accepted (ae_broker E lg p)) \<longrightarrow>
      dict_get (av_last (fst (fire_device_timer E n (foldl (settled_step base c) no_availability events)))) d = Some False"
proof -
  let ?st = "foldl (settled_step base c) no_availability events"
  have n: "n < length (av_created ?st)" "av_created ?st ! n = d"
    using availability_run [of base c events] assms(1) by (auto simp: cache_sound_def timer_of_device_def)
  show ?thesis
    using fire_live [OF n assms, of E] fire_silent [OF n assms, of E] by auto
qed

definition late_env :: "rat av_env" where
  "late_env =
     \<lparr>ae_base = ''ha'', ae_bridge_topic = ''ha/grobro/client/availability'', ae_sensor = False,
      ae_broker = (\<lambda>lg p. Answer ResNone), ae_subscribe = Answer (ResRc 0), ae_now = 200,
      ae_timeout = (\<lambda>d. 120), ae_timer_ok = (\<lambda>n. True), ae_timer_alive = (\<lambda>n. True)\<rparr>"

theorem device_timeout_decides_witness:
  "dict_get (av_last (fst (fire_device_timer late_env 0
     (foldl (settled_step ''ha'' ''client'') no_availability [(late_env\<lparr>ae_now := 10\<rparr>, DeviceTraffic ''QMN1'')])))) ''QMN1'' =
   Some False"
proof -
  let ?st = "foldl (settled_step ''ha'' ''client'') no_availability [(late_env\<lparr>ae_now := 10\<rparr>, DeviceTraffic ''QMN1'')]"
  have "dict_get (av_timers ?st) ''QMN1'' = Some 0 \<and> dict_get (av_seen ?st) ''QMN1'' = Some 10"
    by (simp add: settled_step_def refresh_device_activity_def reset_device_timer_def publish_availability_def
        av_send_def arm_timeout_def no_availability_def late_env_def av_settings_def publish_succeeded_def Let_def)
  note h = conjunct1 [OF this] conjunct2 [OF this]
  have "\<not> ae_now late_env - 10 < ae_timeout late_env ''QMN1''"
    "\<forall>lg p. accepted (ae_broker late_env lg p)" by (simp_all add: late_env_def publish_succeeded_def)
  then show ?thesis using device_timeout_decides [OF h, of late_env] by simp
qed

text \<open>A device that reports at its configured interval is never timed out: the timeout is at least the
  global minimum and, for an interval of up to an hour, leaves a fifth of the interval and half a
  minute beyond it.\<close>

theorem device_timeout_covers_interval:
  fixes timeout :: "'t::linordered_field"
  shows "timeout \<le> effective_device_timeout timeout interval \<and>
    (case interval of
       None \<Rightarrow> effective_device_timeout timeout interval = timeout
     | Some m \<Rightarrow>
         if 0 < m \<and> m \<le> 60
         then m * 60 * (6 / 5) \<le> effective_device_timeout timeout interval \<and>
           m * 60 + 30 \<le> effective_device_timeout timeout interval
         else effective_device_timeout timeout interval = timeout)"
proof (cases interval)
  case (Some m)
  have "m * 60 * (6 / 5) = m * 60 + m * 60 * (1 / 5)" by simp
  moreover have "m * 60 * (1 / 5) \<le> max 30 (m * 60 * (1 / 5))" "30 \<le> max 30 (m * 60 * (1 / 5))" by simp_all
  ultimately have "m * 60 * (6 / 5) \<le> m * 60 + max 30 (m * 60 * (1 / 5))" "m * 60 + 30 \<le> m * 60 + max 30 (m * 60 * (1 / 5))"
    by linarith+
  then show ?thesis using Some by (simp add: effective_device_timeout_def Let_def le_max_iff_disj)
qed (simp add: effective_device_timeout_def)

definition refuse_sensor :: "rat av_env" where
  "refuse_sensor =
     \<lparr>ae_base = ''ha'', ae_bridge_topic = ''ha/grobro/client/availability'', ae_sensor = True,
      ae_broker = (\<lambda>lg p. if pb_payload p = ''OFF'' then Answer (ResRc 4) else Answer (ResRc 0)),
      ae_subscribe = Answer (ResRc 0), ae_now = 0, ae_timeout = (\<lambda>d. 120),
      ae_timer_ok = (\<lambda>n. True), ae_timer_alive = (\<lambda>n. True)\<rparr>"

text \<open>With the extra sensor the cache can be wrong: a device that was online is published offline, the
  sensor message is refused, and the traffic that follows, whatever the broker now answers, publishes
  nothing, so the broker still holds \<open>offline\<close> for a live device.\<close>

theorem refused_sensor_hides_device:
  "let st = no_availability\<lparr>av_last := [(d, True)]\<rparr>;
       st' = fst (publish_availability refuse_sensor d False st)
   in broker_state (av_log st') (device_topic refuse_sensor d ''availability'') = Some ''offline'' \<and>
      publish_availability E d True st' = (st', Inr False)"
  by (simp add: refuse_sensor_def no_availability_def publish_availability_def av_send_def broker_state_send
      availability_message_def online_sensor_message_def device_topic_def publish_succeeded_def Let_def
      broker_state_def send_def)

end
