(* ===== verification/Telemetry.thy ===== *)
theory Telemetry
  imports BatteryRuntime Availability
begin

text \<open>
  From decoded registers to Home Assistant: \<open>grobro/ha/performance.py\<close>,
  \<open>grobro/ha/register_helpers.py\<close> and the publishing part of \<open>grobro/ha/client.py\<close>. One pass
  applies the value rules of the register map to a packet, the battery count and the number of PV
  inputs are found out, and unchanged values are not published again.

  \<open>json.dumps\<close> is the argument \<open>dump\<close>. The rule cache of \<open>performance.py\<close> is left out: it returns
  what the rules of the same register map object would be computed to again.
\<close>

section \<open>Values\<close>

text \<open>Python's \<open>==\<close> on flat payloads.\<close>

definition payload_eq ::
    "('f, 'x) float_ops_scheme \<Rightarrow> (string, 'f pyval) dict \<Rightarrow> (string, 'f pyval) dict \<Rightarrow> bool" where
  "payload_eq F p q \<longleftrightarrow>
     length p = length q \<and>
     list_all (\<lambda>(k, v). case dict_get q k of None \<Rightarrow> False | Some w \<Rightarrow> py_eq F v w) p"

section \<open>Register names and rules\<close>

definition leading_number :: "string \<Rightarrow> int option" where
  "leading_number s = (case takeWhile is_digit s of [] \<Rightarrow> None | ds \<Rightarrow> py_int_of_str ds)"

definition get_bat_number :: "string \<Rightarrow> int option" where
  "get_bat_number name =
     (if prefix ''battery'' name then leading_number (drop 7 name)
      else if prefix ''bat'' name then
        (let rest = drop 3 name
         in leading_number (if prefix ''_'' rest then drop 1 rest else rest))
      else if prefix ''maxcvbat'' name \<or> prefix ''mincvbat'' name then leading_number (drop 8 name)
      else None)"

record command_register =
  cmd_name :: string
  cmd_ha :: ha_holding_register
  cmd_topic_root :: string
  cmd_id :: string
  cmd_state_id :: string
  cmd_is_config :: bool

definition iter_command_registers :: "'f register_map \<Rightarrow> command_register list" where
  "iter_command_registers known =
     map (\<lambda>(name, reg). \<lparr>cmd_name = name, cmd_ha = hr_ha reg, cmd_topic_root = hh_type (hr_ha reg),
            cmd_id = name, cmd_state_id = name, cmd_is_config = False\<rparr>) (holding_registers known) @
     map (\<lambda>(name, reg). \<lparr>cmd_name = name, cmd_ha = cr_ha reg, cmd_topic_root = ''config'',
            cmd_id = str_of_int (cr_register reg), cmd_state_id = str_of_int (cr_register reg),
            cmd_is_config = True\<rparr>) (config_registers known)"

record 'f register_rules =
  rr_enums :: "(string, 'f input_register) dict"
  rr_temps :: "string list"
  rr_watts :: "string list"
  rr_serial_parts :: bool

definition is_enum_register :: "'f input_register \<Rightarrow> bool" where
  "is_enum_register reg \<longleftrightarrow> rd_type (gr_data (ir_growatt reg)) = DT_ENUM"

definition register_rules :: "'f register_map option \<Rightarrow> 'f register_rules" where
  "register_rules known =
     (case known of
        None \<Rightarrow> \<lparr>rr_enums = [], rr_temps = [], rr_watts = [], rr_serial_parts = False\<rparr>
      | Some m \<Rightarrow>
          \<lparr>rr_enums = filter (\<lambda>(name, reg). is_enum_register reg) (input_registers m),
           rr_temps = filter (\<lambda>name. prefix ''bat'' name \<and> suffix ''_temp'' name) (map fst (input_registers m)),
           rr_watts = map fst (filter (\<lambda>(name, reg). hi_device_class (ir_ha reg) = Some ''power'' \<and>
                        hi_unit (ir_ha reg) = Some ''W'') (input_registers m)),
           rr_serial_parts = list_ex (\<lambda>name. prefix ''bat'' name \<and> sublist ''_ser_part_'' name)
                        (map fst (input_registers m))\<rparr>)"

text \<open>
  \<open>map_enum_value\<close>: the keys of the options are integers, so the lookup by text always misses and
  the one by value finds an equal number.
\<close>

definition map_enum_value :: "('f, 'x) float_ops_scheme \<Rightarrow> 'f input_register \<Rightarrow> 'f pyval \<Rightarrow> 'f pyval" where
  "map_enum_value F reg v =
     (case rd_enum_options (gr_data (ir_growatt reg)) of
        None \<Rightarrow> v
      | Some opts \<Rightarrow>
          if \<not> is_enum_register reg \<or> eo_type opts \<noteq> INT_MAP then v
          else (case find (\<lambda>(k, s). py_eq F (VInt k) v) (eo_values opts) of
              Some (k, s) \<Rightarrow> VStr s
            | None \<Rightarrow> VStr (val_str F v)))"

definition absent_temp :: "('f, 'x) float_ops_scheme \<Rightarrow> 'f pyval \<Rightarrow> bool" where
  "absent_temp F v \<longleftrightarrow>
     (case py_num v of None \<Rightarrow> False | Some n \<Rightarrow> num_eq F n (NFloat (fl_minus_273_1 F)))"

fun whole_number :: "('f, 'x) float_ops_scheme \<Rightarrow> 'f pyval \<Rightarrow> 'f pyval" where
  "whole_number F (VFloat x) = (if fl_finite F x then VInt (fl_round_int F x) else VFloat x)"
| "whole_number F v = v"

definition prepare_value ::
    "('f, 'x) float_ops_scheme \<Rightarrow> 'f register_rules \<Rightarrow> string \<Rightarrow> 'f pyval \<Rightarrow> 'f pyval" where
  "prepare_value F rules key v0 =
     (let v1 = (if absent_temp F v0 \<and> key \<in> set (rr_temps rules) then VNone else v0);
          v2 = (case dict_get (rr_enums rules) key of Some reg \<Rightarrow> map_enum_value F reg v1 | None \<Rightarrow> v1)
      in if key \<in> set (rr_watts rules) then whole_number F v2 else v2)"

definition beyond_battery :: "int \<Rightarrow> string \<Rightarrow> bool" where
  "beyond_battery max_bat key \<longleftrightarrow> (case get_bat_number key of None \<Rightarrow> False | Some n \<Rightarrow> n > max_bat)"

definition prepare_payload ::
    "('f, 'x) float_ops_scheme \<Rightarrow> 'f register_rules \<Rightarrow> int \<Rightarrow> (string, 'f pyval) dict \<Rightarrow>
     (string, 'f pyval) dict" where
  "prepare_payload F rules max_bat payload =
     map (\<lambda>(k, v). (k, prepare_value F rules k v))
       (filter (\<lambda>(k, v). \<not> beyond_battery max_bat k) payload)"

section \<open>Battery count and PV inputs\<close>

definition int_in :: "int \<Rightarrow> int \<Rightarrow> 'f pyval option \<Rightarrow> int option" where
  "int_in a b v =
     (case v of
        Some (VInt n) \<Rightarrow> if a \<le> n \<and> n \<le> b then Some n else None
      | Some (VBool t) \<Rightarrow> (let n = (if t then 1 else 0) in if a \<le> n \<and> n \<le> b then Some n else None)
      | _ \<Rightarrow> None)"

definition whole_in :: "('f, 'x) float_ops_scheme \<Rightarrow> int \<Rightarrow> int \<Rightarrow> 'f pyval option \<Rightarrow> int option" where
  "whole_in F a b v =
     (case v of
        Some (VInt n) \<Rightarrow> if a \<le> n \<and> n \<le> b then Some n else None
      | Some (VFloat x) \<Rightarrow>
          if fl_finite F x \<and> fl_eq F x (fl_of_int F (fl_trunc F x)) \<and> a \<le> fl_trunc F x \<and> fl_trunc F x \<le> b
          then Some (fl_trunc F x) else None
      | _ \<Rightarrow> None)"

definition serial_present :: "('f, 'x) float_ops_scheme \<Rightarrow> (string, 'f pyval) dict \<Rightarrow> int \<Rightarrow> bool" where
  "serial_present F payload n \<longleftrightarrow>
     (case dict_get payload (''bat'' @ str_of_int n @ ''_ser_part_1'') of
        None \<Rightarrow> False
      | Some VNone \<Rightarrow> False
      | Some v \<Rightarrow> strip_by (\<lambda>c. c = CHR 0x00 \<or> c = CHR '' '') (val_str F v) \<noteq> [])"

definition detect_bat_count :: "('f, 'x) float_ops_scheme \<Rightarrow> (string, 'f pyval) dict \<Rightarrow> int" where
  "detect_bat_count F payload =
     (case int_in 1 4 (dict_get payload ''bat_cnt'') of
        Some n \<Rightarrow> n
      | None \<Rightarrow>
          (case whole_in F 1 4 (dict_get payload ''batteryPackageQuantity'') of
             Some n \<Rightarrow> n
           | None \<Rightarrow> foldl (\<lambda>count n. if serial_present F payload n then n else count) 1 [2, 3, 4]))"

text \<open>\<open>MAX_BAT\<close> is a number or \<open>auto\<close>; the last component is the cache of detected counts.\<close>

definition resolve_max_bat ::
    "('f, 'x) float_ops_scheme \<Rightarrow> int option \<Rightarrow> string \<Rightarrow> (string, 'f pyval) dict option \<Rightarrow>
     (string, int) dict \<Rightarrow> (string, int) dict \<times> int" where
  "resolve_max_bat F max_bat d payload cache =
     (case max_bat of
        Some n \<Rightarrow> (cache, max 1 (min 4 n))
      | None \<Rightarrow>
          (case payload of
             Some p \<Rightarrow> (let count = detect_bat_count F p in (dict_set d count cache, count))
           | None \<Rightarrow> (cache, case dict_get cache d of Some n \<Rightarrow> n | None \<Rightarrow> 1)))"

text \<open>\<open>payload.get(name, 0) or 0\<close>; text raises \<open>TypeError\<close> at the first comparison.\<close>

definition power_value :: "('f, 'x) float_ops_scheme \<Rightarrow> (string, 'f pyval) dict \<Rightarrow> string \<Rightarrow> 'f pynum py" where
  "power_value F payload name =
     (case dict_get payload name of
        None \<Rightarrow> Inr (NInt 0)
      | Some VNone \<Rightarrow> Inr (NInt 0)
      | Some (VStr []) \<Rightarrow> Inr (NInt 0)
      | Some (VStr s) \<Rightarrow> Inl TypeError
      | Some v \<Rightarrow> (case py_num v of Some n \<Rightarrow> Inr n | None \<Rightarrow> Inr (NInt 0)))"

definition close_to :: "('f, 'x) float_ops_scheme \<Rightarrow> 'f pynum \<Rightarrow> 'f pynum \<Rightarrow> bool" where
  "close_to F a b \<longleftrightarrow>
     (let diff = num_add F a (num_mul F (NInt (-1)) b)
      in num_less F diff (NInt 10) \<and> num_less F (NInt (-10)) diff)"

definition detect_neo_pv_count ::
    "('f, 'x) float_ops_scheme \<Rightarrow> bool \<Rightarrow> string \<Rightarrow> (string, 'f pyval) dict \<Rightarrow>
     (string, int) dict \<Rightarrow> (string, int) dict py" where
  "detect_neo_pv_count F dynamic d payload counts =
     (if \<not> dynamic \<or> dict_get counts d = Some 4 then Inr counts
      else bindE (power_value F payload ''Ppv'') (\<lambda>pv.
        if \<not> num_less F (NInt 0) pv then Inr counts
        else bindE (power_value F payload ''Ppv1'') (\<lambda>p1.
          bindE (power_value F payload ''Ppv2'') (\<lambda>p2.
          bindE (power_value F payload ''Ppv3'') (\<lambda>p3.
          bindE (power_value F payload ''Ppv4'') (\<lambda>p4.
            let two = num_add F p1 p2 in
            if close_to F pv (num_add F (num_add F two p3) p4) \<and>
               (num_less F (NInt 0) p3 \<or> num_less F (NInt 0) p4)
            then Inr (dict_set d 4 counts)
            else if close_to F pv two then Inr (dict_set d 2 counts)
            else Inr counts))))))"

section \<open>Battery serials of one packet\<close>

definition bat_serial_groups :: "(string list \<times> string) list" where
  "bat_serial_groups =
     map (\<lambda>n. (serial_part_keys n, ''bat'' @ str_of_int n @ ''_serial'')) [2, 3, 4]"

definition serial_part :: "('f, 'x) float_ops_scheme \<Rightarrow> (string, 'f pyval) dict \<Rightarrow> string \<Rightarrow> string option" where
  "serial_part F payload k =
     (case dict_get payload k of None \<Rightarrow> None | Some VNone \<Rightarrow> None | Some v \<Rightarrow> Some (val_str F v))"

definition serial_parts :: "('f, 'x) float_ops_scheme \<Rightarrow> (string, 'f pyval) dict \<Rightarrow> string list \<Rightarrow> string list" where
  "serial_parts F payload part_keys = List.map_filter (serial_part F payload) part_keys"

fun combine_serials ::
    "('f, 'x) float_ops_scheme \<Rightarrow> bool \<Rightarrow> (string list \<times> string) list \<Rightarrow> (string, 'f pyval) dict \<Rightarrow>
     (string, 'f pyval) dict" where
  "combine_serials F expose [] payload = payload"
| "combine_serials F expose ((part_keys, combined_key) # groups) payload =
     (let parts = serial_parts F payload part_keys;
          rest = fold dict_pop part_keys payload;
          combined = py_strip (concat parts)
      in combine_serials F expose groups
           (if \<not> expose then rest
            else if combined \<noteq> [] then dict_set combined_key (VStr combined) rest
            else dict_pop combined_key rest))"

text \<open>What one packet publishes, after the battery slots were rewritten.\<close>

definition telemetry_payload ::
    "('f, 'x) float_ops_scheme \<Rightarrow> 'f register_map option \<Rightarrow> bool \<Rightarrow> int \<Rightarrow> (string, 'f pyval) dict \<Rightarrow>
     (string, 'f pyval) dict" where
  "telemetry_payload F known noah max_bat payload =
     (let rules = register_rules known; prepared = prepare_payload F rules max_bat payload
      in if rr_serial_parts rules then combine_serials F noah bat_serial_groups prepared else prepared)"

section \<open>Publishing what changed\<close>

record 'f publish_caches =
  pc_payload :: "(string, (string, 'f pyval) dict) dict"
  pc_json :: "(string, string) dict"
  pc_holding :: "(string \<times> string, 'f pyval) dict"
  pc_meter :: "(string, string) dict"

definition no_publish_caches :: "'f publish_caches" where
  "no_publish_caches = \<lparr>pc_payload = [], pc_json = [], pc_holding = [], pc_meter = []\<rparr>"

definition should_serialize_state ::
    "('f, 'x) float_ops_scheme \<Rightarrow> 'f publish_caches \<Rightarrow> string \<Rightarrow> (string, 'f pyval) dict \<Rightarrow> bool" where
  "should_serialize_state F c d payload =
     (case dict_get (pc_payload c) d of None \<Rightarrow> True | Some old \<Rightarrow> \<not> payload_eq F old payload)"

definition commit_payload :: "'f publish_caches \<Rightarrow> string \<Rightarrow> (string, 'f pyval) dict \<Rightarrow> 'f publish_caches" where
  "commit_payload c d payload = c\<lparr>pc_payload := dict_set d payload (pc_payload c)\<rparr>"

definition should_publish_state :: "'f publish_caches \<Rightarrow> string \<Rightarrow> string \<Rightarrow> bool" where
  "should_publish_state c d payload_json = (dict_get (pc_json c) d \<noteq> Some payload_json)"

definition commit_state :: "'f publish_caches \<Rightarrow> string \<Rightarrow> string \<Rightarrow> 'f publish_caches" where
  "commit_state c d payload_json = c\<lparr>pc_json := dict_set d payload_json (pc_json c)\<rparr>"

definition should_publish_holding_state ::
    "('f, 'x) float_ops_scheme \<Rightarrow> 'f publish_caches \<Rightarrow> string \<times> string \<Rightarrow> 'f pyval \<Rightarrow> bool" where
  "should_publish_holding_state F c key v =
     (case dict_get (pc_holding c) key of None \<Rightarrow> True | Some old \<Rightarrow> \<not> py_eq F old v)"

definition commit_holding :: "'f publish_caches \<Rightarrow> string \<times> string \<Rightarrow> 'f pyval \<Rightarrow> 'f publish_caches" where
  "commit_holding c key v = c\<lparr>pc_holding := dict_set key v (pc_holding c)\<rparr>"

definition clear_state_publish_cache :: "'f publish_caches \<Rightarrow> 'f publish_caches" where
  "clear_state_publish_cache c = c\<lparr>pc_json := [], pc_payload := [], pc_holding := []\<rparr>"

definition clear_reconnect_publish_caches :: "'f publish_caches \<Rightarrow> 'f publish_caches" where
  "clear_reconnect_publish_caches c = (clear_state_publish_cache c)\<lparr>pc_meter := []\<rparr>"

definition state_message :: "string \<Rightarrow> string \<Rightarrow> string \<Rightarrow> publish" where
  "state_message base d payload_json =
     \<lparr>pb_topic = base @ ''/grobro/'' @ d @ ''/state'', pb_payload = payload_json, pb_retain = False\<rparr>"

text \<open>
  The end of \<open>publish_input_register\<close>: the caches and the log afterwards, and whether the initial
  NEO request follows (it does unless the broker refused the state).
\<close>

definition publish_state ::
    "('f, 'x) float_ops_scheme \<Rightarrow> ((string, 'f pyval) dict \<Rightarrow> string) \<Rightarrow> broker \<Rightarrow> string \<Rightarrow> string \<Rightarrow>
     (string, 'f pyval) dict \<Rightarrow> 'f publish_caches \<times> (publish \<times> answer) list \<Rightarrow>
     ('f publish_caches \<times> (publish \<times> answer) list) \<times> bool py" where
  "publish_state F dump B base d payload st =
     (let (c, sent) = st; payload_json = dump payload; msg = state_message base d payload_json in
      if \<not> should_serialize_state F c d payload \<or> \<not> should_publish_state c d payload_json then (st, Inr True)
      else (case B sent msg of
          Raised e \<Rightarrow> ((c, send B msg sent), Inl e)
        | Answer r \<Rightarrow>
            if \<not> publish_succeeded r then ((c, send B msg sent), Inr False)
            else ((commit_state (commit_payload c d payload) d payload_json, send B msg sent), Inr True)))"

text \<open>
  One decoded setting; Paho sends the text of a number, and nothing for \<open>None\<close>. A send that raises
  is logged and the next setting follows.
\<close>

definition mqtt_text :: "('f, 'x) float_ops_scheme \<Rightarrow> 'f pyval \<Rightarrow> string" where
  "mqtt_text F v = (case v of VNone \<Rightarrow> [] | w \<Rightarrow> val_str F w)"

definition holding_message :: "('f, 'x) float_ops_scheme \<Rightarrow> string \<Rightarrow> string \<Rightarrow> 'f holding_value \<Rightarrow> publish" where
  "holding_message F base d v =
     \<lparr>pb_topic = base @ ''/'' @ hh_type (hv_register v) @ ''/grobro/'' @ d @ ''/'' @ hv_name v @ ''/get'',
      pb_payload = mqtt_text F (hv_value v), pb_retain = True\<rparr>"

definition publish_holding_value ::
    "('f, 'x) float_ops_scheme \<Rightarrow> broker \<Rightarrow> string \<Rightarrow> string \<Rightarrow> 'f holding_value \<Rightarrow>
     'f publish_caches \<times> (publish \<times> answer) list \<Rightarrow> 'f publish_caches \<times> (publish \<times> answer) list" where
  "publish_holding_value F B base d v st =
     (let (c, sent) = st; msg = holding_message F base d v in
      if \<not> should_publish_holding_state F c (d, hv_name v) (hv_value v) then st
      else if accepted (B sent msg) then (commit_holding c (d, hv_name v) (hv_value v), send B msg sent)
      else (c, send B msg sent))"

definition publish_holding_values ::
    "('f, 'x) float_ops_scheme \<Rightarrow> broker \<Rightarrow> string \<Rightarrow> 'f holding_input \<Rightarrow>
     'f publish_caches \<times> (publish \<times> answer) list \<Rightarrow> 'f publish_caches \<times> (publish \<times> answer) list" where
  "publish_holding_values F B base input st =
     foldl (\<lambda>s v. publish_holding_value F B base (hin_device input) v s) st (hin_payload input)"

text \<open>Register 7 is the datalogger's password: an old retained value is cleared, never replaced.\<close>

definition config_value_message :: "string \<Rightarrow> string \<Rightarrow> int \<Rightarrow> string \<Rightarrow> bool \<Rightarrow> publish" where
  "config_value_message base d register_no v retain =
     \<lparr>pb_topic = base @ ''/config/grobro/'' @ d @ ''/'' @ str_of_int register_no @ ''/get'',
      pb_payload = (if register_no = 7 then [] else v),
      pb_retain = (if register_no = 7 then True else retain)\<rparr>"

definition meter_message :: "string \<Rightarrow> string \<Rightarrow> string \<Rightarrow> publish" where
  "meter_message base d payload =
     \<lparr>pb_topic = base @ ''/sensor/grobro/'' @ d @ ''/smart_meter/state'', pb_payload = payload,
      pb_retain = False\<rparr>"

definition commit_meter :: "'f publish_caches \<Rightarrow> string \<Rightarrow> string \<Rightarrow> 'f publish_caches" where
  "commit_meter c d payload = c\<lparr>pc_meter := dict_set d payload (pc_meter c)\<rparr>"

definition meter_fresh :: "'f publish_caches \<Rightarrow> string \<Rightarrow> string \<Rightarrow> bool" where
  "meter_fresh c d payload = (dict_get (pc_meter c) d \<noteq> Some payload)"

definition publish_smart_meter ::
    "broker \<Rightarrow> string \<Rightarrow> string \<Rightarrow> string \<Rightarrow> 'f publish_caches \<times> (publish \<times> answer) list \<Rightarrow>
     ('f publish_caches \<times> (publish \<times> answer) list) \<times> call_result py" where
  "publish_smart_meter B base d payload st =
     (let (c, sent) = st; msg = meter_message base d payload in
      if \<not> meter_fresh c d payload then (st, Inr ResNone)
      else (case B sent msg of
          Raised e \<Rightarrow> ((c, send B msg sent), Inl e)
        | Answer r \<Rightarrow>
            ((if publish_succeeded r then commit_meter c d payload else c, send B msg sent), Inr r)))"

section \<open>The caches\<close>

interpretation state_cache: last_value_cache should_publish_state commit_state clear_state_publish_cache "(=)"
  by unfold_locales (auto simp: should_publish_state_def commit_state_def clear_state_publish_cache_def)

interpretation payload_cache: last_value_cache "should_serialize_state F" commit_payload clear_state_publish_cache
    "payload_eq F"
  by unfold_locales (auto simp: should_serialize_state_def commit_payload_def clear_state_publish_cache_def)

interpretation holding_cache: last_value_cache "should_publish_holding_state F" commit_holding
    clear_state_publish_cache "py_eq F"
  by unfold_locales (auto simp: should_publish_holding_state_def commit_holding_def clear_state_publish_cache_def)

interpretation meter_cache: last_value_cache meter_fresh commit_meter clear_reconnect_publish_caches "(=)"
  by unfold_locales
     (auto simp: meter_fresh_def commit_meter_def clear_reconnect_publish_caches_def clear_state_publish_cache_def)

section \<open>Lemmas\<close>

lemma prepare_payload_get:
  "dict_get (prepare_payload F rules max_bat payload) k =
   (if beyond_battery max_bat k then None else map_option (prepare_value F rules k) (dict_get payload k))"
  by (induction payload) (auto simp: prepare_payload_def)

lemma dict_get_pops: "dict_get (fold dict_pop ks d) k = (if k \<in> set ks then None else dict_get d k)"
  by (induction ks arbitrary: d) auto

lemma serial_parts_cong:
  assumes "\<And>k. k \<in> set ks \<Longrightarrow> dict_get p k = dict_get q k"
  shows "serial_parts F p ks = serial_parts F q ks"
proof -
  have "serial_part F p k = serial_part F q k" if "k \<in> set ks" for k
    using assms [OF that] by (simp only: serial_part_def)
  then have "\<forall>k \<in> set ks. serial_part F p k = serial_part F q k" by blast
  then show ?thesis unfolding serial_parts_def by (induction ks) (auto simp: map_filter_simps split: option.splits)
qed

definition combined_serial :: "('f, 'x) float_ops_scheme \<Rightarrow> (string, 'f pyval) dict \<Rightarrow> string list \<Rightarrow> string" where
  "combined_serial F payload part_keys = py_strip (concat (serial_parts F payload part_keys))"

text \<open>Groups whose fragments and names are all different do not disturb each other.\<close>

fun separate_groups :: "(string list \<times> string) list \<Rightarrow> bool" where
  "separate_groups [] \<longleftrightarrow> True"
| "separate_groups ((part_keys, name) # gs) \<longleftrightarrow>
     name \<notin> set part_keys \<and> name \<notin> snd ` set gs \<and>
     (\<forall>h \<in> set gs. name \<notin> set (fst h) \<and> set part_keys \<inter> set (fst h) = {} \<and> snd h \<notin> set part_keys) \<and>
     separate_groups gs"

lemma bat_serial_groups_separate: "separate_groups bat_serial_groups"
  by code_simp

definition combined_value :: "('f, 'x) float_ops_scheme \<Rightarrow> (string, 'f pyval) dict \<Rightarrow> string list \<Rightarrow> 'f pyval option" where
  "combined_value F payload part_keys =
     (if combined_serial F payload part_keys = [] then None
      else Some (VStr (combined_serial F payload part_keys)))"

lemma find_name_None: "k \<notin> snd ` set gs \<Longrightarrow> find (\<lambda>g. snd g = k) gs = None"
  by (force simp: find_None_iff)

lemma combine_serials_get:
  assumes "separate_groups gs"
  shows "dict_get (combine_serials F expose gs payload) k =
    (if \<exists>g \<in> set gs. k \<in> set (fst g) then None
     else case (if expose then find (\<lambda>g. snd g = k) gs else None) of
         Some g \<Rightarrow> combined_value F payload (fst g)
       | None \<Rightarrow> dict_get payload k)"
  using assms
proof (induction gs arbitrary: payload)
  case (Cons g gs)
  obtain part_keys name where g: "g = (part_keys, name)" by fastforce
  have sep: "separate_groups gs" "name \<notin> snd ` set gs" "name \<notin> set part_keys"
      "\<And>h. h \<in> set gs \<Longrightarrow> name \<notin> set (fst h) \<and> set part_keys \<inter> set (fst h) = {} \<and> snd h \<notin> set part_keys"
    using Cons.prems g by auto
  define rest where "rest = fold dict_pop part_keys payload"
  define next_payload where "next_payload =
    (if \<not> expose then rest
     else if combined_serial F payload part_keys \<noteq> [] then dict_set name (VStr (combined_serial F payload part_keys)) rest
     else dict_pop name rest)"
  have step: "combine_serials F expose (g # gs) payload = combine_serials F expose gs next_payload"
    by (simp add: g next_payload_def rest_def combined_serial_def Let_def)
  have get: "dict_get next_payload k' =
      (if k' \<in> set part_keys then None
       else if expose \<and> k' = name then combined_value F payload part_keys else dict_get payload k')" for k'
    using sep(3) by (auto simp: next_payload_def rest_def dict_get_pops combined_value_def)
  have same: "combined_value F next_payload (fst h) = combined_value F payload (fst h)" if "h \<in> set gs" for h
  proof -
    have "serial_parts F next_payload (fst h) = serial_parts F payload (fst h)"
      by (rule serial_parts_cong) (use get sep(4) [OF that] in auto)
    then show ?thesis by (simp add: combined_value_def combined_serial_def)
  qed
  note ih = Cons.IH [OF sep(1), of next_payload]
  show ?case
  proof (cases "\<exists>h \<in> set (g # gs). k \<in> set (fst h)")
    case True
    show ?thesis
    proof (cases "\<exists>h \<in> set gs. k \<in> set (fst h)")
      case False
      then have k: "k \<in> set part_keys" using True g by auto
      then have "k \<notin> snd ` set gs" using sep(4) by auto
      then show ?thesis using step ih False True k get [of k] find_name_None [of k gs] by simp
    qed (use True step ih in simp)
  next
    case False
    then have "k \<notin> set part_keys" "\<not> (\<exists>h \<in> set gs. k \<in> set (fst h))" using g by auto
    note k = this
    show ?thesis
    proof (cases "find (\<lambda>g. snd g = k) gs")
      case None
      then show ?thesis using step ih False k get [of k] g by simp
    next
      case (Some h)
      then have h: "h \<in> set gs" "snd h = k" by (auto simp: find_Some_iff)
      then have "k \<noteq> name" using sep(2) by auto
      then show ?thesis using step ih False k get [of k] g Some same [OF h(1)] by simp
    qed
  qed
qed simp

text \<open>What is shown of a register, said without the rules: which names count a battery and how far, and the value
  by the registers of that name in the map (one in a dictionary).\<close>

definition within_batteries :: "int \<Rightarrow> string \<Rightarrow> bool" where
  "within_batteries max_bat k =
     (case find (\<lambda>p. prefix p k) [''battery'', ''bat_'', ''bat'', ''maxcvbat'', ''mincvbat''] of
        None \<Rightarrow> True
      | Some p \<Rightarrow>
          (let digits = takeWhile is_digit (drop (length p) k)
           in digits = [] \<or> (case py_int_of_str digits of None \<Rightarrow> True | Some n \<Rightarrow> n \<le> max_bat)))"

definition shown_value ::
    "('f, 'x) float_ops_scheme \<Rightarrow> 'f register_map option \<Rightarrow> string \<Rightarrow> 'f pyval \<Rightarrow> 'f pyval" where
  "shown_value F known k v =
     (let regs = (case known of None \<Rightarrow> [] | Some m \<Rightarrow> map snd (filter (\<lambda>(name, reg). name = k) (input_registers m)));
          absent = (regs \<noteq> [] \<and> prefix ''bat'' k \<and> suffix ''_temp'' k \<and>
            (case py_num v of None \<Rightarrow> False | Some x \<Rightarrow> num_eq F x (NFloat (fl_minus_273_1 F))));
          present = (if absent then VNone else v);
          options = (case find (\<lambda>reg. rd_type (gr_data (ir_growatt reg)) = DT_ENUM) regs of
              None \<Rightarrow> None | Some reg \<Rightarrow> rd_enum_options (gr_data (ir_growatt reg)));
          labelled = (case options of
              None \<Rightarrow> present
            | Some opts \<Rightarrow>
                if eo_type opts = INT_MAP
                then (case find (\<lambda>(n, label). py_eq F (VInt n) present) (eo_values opts) of
                    None \<Rightarrow> VStr (val_str F present) | Some (n, label) \<Rightarrow> VStr label)
                else present);
          watts = list_ex (\<lambda>reg. hi_device_class (ir_ha reg) = Some ''power'' \<and> hi_unit (ir_ha reg) = Some ''W'') regs
      in case labelled of
           VFloat x \<Rightarrow> if watts \<and> fl_finite F x then VInt (fl_round_int F x) else VFloat x
         | w \<Rightarrow> w)"

lemma beyond_battery_spec: "beyond_battery max_bat k \<longleftrightarrow> \<not> within_batteries max_bat k"
proof -
  have number: "(case leading_number s of None \<Rightarrow> False | Some n \<Rightarrow> max_bat < n) \<longleftrightarrow>
      \<not> (let ds = takeWhile is_digit s in ds = [] \<or> (case py_int_of_str ds of None \<Rightarrow> True | Some n \<Rightarrow> n \<le> max_bat))" for s
    by (auto simp: leading_number_def Let_def split: list.split option.split)
  have "prefix ''bat'' k" "prefix ''_'' (drop 3 k)" "drop 4 k = drop 1 (drop 3 k)" "\<not> prefix ''battery'' k"
    if "prefix ''bat_'' k" using that by (auto simp: prefix_def)
  moreover have "prefix ''bat_'' k" if "prefix ''bat'' k" "prefix ''_'' (drop 3 k)" using that by (auto simp: prefix_def)
  ultimately consider "prefix ''battery'' k"
    | "\<not> prefix ''battery'' k" "prefix ''bat_'' k" "prefix ''bat'' k" "prefix ''_'' (drop 3 k)" "drop 4 k = drop 1 (drop 3 k)"
    | "\<not> prefix ''battery'' k" "\<not> prefix ''bat_'' k" "prefix ''bat'' k" "\<not> prefix ''_'' (drop 3 k)"
    | "\<not> prefix ''battery'' k" "\<not> prefix ''bat_'' k" "\<not> prefix ''bat'' k"
    by blast
  note cases = this
  have lengths: "length ''battery'' = 7" "length ''bat_'' = 4" "length ''bat'' = 3" "length ''maxcvbat'' = 8"
    "length ''mincvbat'' = 8" by simp_all
  from cases show ?thesis
  proof cases
    case 4
    then show ?thesis
      by (cases "prefix ''maxcvbat'' k"; cases "prefix ''mincvbat'' k")
         (simp_all only: beyond_battery_def get_bat_number_def within_batteries_def find.simps if_True if_False option.case
            number lengths simp_thms)
  qed (simp_all only: beyond_battery_def get_bat_number_def within_batteries_def find.simps if_True if_False option.case
      number lengths simp_thms Let_def)
qed

lemma enum_of_name:
  "dict_get (filter (\<lambda>(name, reg). P reg) d) k = find P (map snd (filter (\<lambda>(name, reg). name = k) d))"
  by (induction d) auto

lemma prepare_value_spec: "prepare_value F (register_rules known) k v = shown_value F known k v"
proof (cases known)
  case None
  then show ?thesis
    by (simp add: prepare_value_def register_rules_def shown_value_def Let_def split: pyval.split)
next
  case (Some m)
  let ?regs = "map snd (filter (\<lambda>(name, reg). name = k) (input_registers m))"
  have temps: "k \<in> set (rr_temps (register_rules known)) \<longleftrightarrow> ?regs \<noteq> [] \<and> prefix ''bat'' k \<and> suffix ''_temp'' k"
    by (force simp: register_rules_def Some filter_empty_conv)
  have enums: "dict_get (rr_enums (register_rules known)) k =
      find (\<lambda>reg. rd_type (gr_data (ir_growatt reg)) = DT_ENUM) ?regs"
    by (simp add: register_rules_def Some enum_of_name is_enum_register_def [abs_def])
  have watts: "k \<in> set (rr_watts (register_rules known)) \<longleftrightarrow>
      list_ex (\<lambda>reg. hi_device_class (ir_ha reg) = Some ''power'' \<and> hi_unit (ir_ha reg) = Some ''W'') ?regs"
    by (force simp: register_rules_def Some list_ex_iff)
  have found: "find P xs = Some reg \<Longrightarrow> P reg" for P and xs :: "'a input_register list" and reg
    by (auto simp: find_Some_iff)
  define v1 where "v1 = (if absent_temp F v \<and> k \<in> set (rr_temps (register_rules known)) then VNone else v)"
  define v2 where "v2 = (case find (\<lambda>reg. rd_type (gr_data (ir_growatt reg)) = DT_ENUM) ?regs of
      Some reg \<Rightarrow> map_enum_value F reg v1 | None \<Rightarrow> v1)"
  have spec1: "(if ?regs \<noteq> [] \<and> prefix ''bat'' k \<and> suffix ''_temp'' k \<and>
      (case py_num v of None \<Rightarrow> False | Some x \<Rightarrow> num_eq F x (NFloat (fl_minus_273_1 F))) then VNone else v) = v1"
    unfolding v1_def temps absent_temp_def by auto
  have spec2: "v2 = (case (case find (\<lambda>reg. rd_type (gr_data (ir_growatt reg)) = DT_ENUM) ?regs of
        None \<Rightarrow> None | Some reg \<Rightarrow> rd_enum_options (gr_data (ir_growatt reg))) of
      None \<Rightarrow> v1
    | Some opts \<Rightarrow> if eo_type opts = INT_MAP
        then (case find (\<lambda>(n, label). py_eq F (VInt n) v1) (eo_values opts) of
            None \<Rightarrow> VStr (val_str F v1) | Some (n, label) \<Rightarrow> VStr label) else v1)"
    unfolding v2_def map_enum_value_def is_enum_register_def
    by (auto dest: found split: option.split)
  have "prepare_value F (register_rules known) k v =
      (if k \<in> set (rr_watts (register_rules known)) then whole_number F v2 else v2)"
    unfolding prepare_value_def Let_def enums v1_def [symmetric] v2_def by (rule refl)
  also have "\<dots> = shown_value F known k v"
    unfolding shown_value_def Let_def Some option.case spec1 spec2 [symmetric] watts [unfolded Some]
    by (cases v2) auto
  finally show ?thesis .
qed

lemma serial_parts_concat:
  "concat (serial_parts F p ks) = concat (map (\<lambda>k. case dict_get p k of None \<Rightarrow> [] | Some VNone \<Rightarrow> [] | Some v \<Rightarrow> val_str F v) ks)"
  by (induction ks) (auto simp: serial_parts_def serial_part_def map_filter_simps split: option.split pyval.split)

section \<open>Lemmas: counts\<close>

lemma detect_bat_count_range: "1 \<le> detect_bat_count F payload \<and> detect_bat_count F payload \<le> 4"
  by (auto simp: detect_bat_count_def int_in_def whole_in_def Let_def split: option.splits pyval.splits if_splits)

definition counts_ok :: "(string, int) dict \<Rightarrow> bool" where
  "counts_ok cache \<longleftrightarrow> (\<forall>d n. dict_get cache d = Some n \<longrightarrow> 1 \<le> n \<and> n \<le> 4)"

lemma resolve_max_bat_range:
  "counts_ok cache \<Longrightarrow> resolve_max_bat F mb d payload cache = (cache', n) \<Longrightarrow>
   counts_ok cache' \<and> 1 \<le> n \<and> n \<le> 4"
  using detect_bat_count_range [of F]
  by (auto simp: resolve_max_bat_def counts_ok_def Let_def split: option.splits if_splits)

lemma resolve_max_bat_keeps:
  assumes "counts_ok cache"
  shows "counts_ok (fst (resolve_max_bat F mb d payload cache))" "snd (resolve_max_bat F mb d payload cache) \<in> {1..4}"
proof -
  obtain cache' n where r: "resolve_max_bat F mb d payload cache = (cache', n)" by fastforce
  show "counts_ok (fst (resolve_max_bat F mb d payload cache))" "snd (resolve_max_bat F mb d payload cache) \<in> {1..4}"
    using resolve_max_bat_range [OF assms r] by (simp_all add: r)
qed

section \<open>Lemmas: what the broker holds\<close>

lemma topics_apart:
  "pb_topic (state_message base d x) = pb_topic (state_message base d' y) \<longleftrightarrow> d = d'"
  "pb_topic (meter_message base d x) = pb_topic (meter_message base d' y) \<longleftrightarrow> d = d'"
  "pb_topic (state_message base d x) \<noteq> pb_topic (meter_message base d' y)"
  "pb_topic (holding_message F base d v) \<noteq> pb_topic (state_message base d' x)"
  "pb_topic (holding_message F base d v) \<noteq> pb_topic (meter_message base d' x)"
proof -
  have "last (pb_topic (holding_message F base d v)) = CHR ''t''" "last (pb_topic (state_message base d' x)) = CHR ''e''"
    "last (pb_topic (meter_message base d' x)) = CHR ''e''"
    by (simp_all add: holding_message_def state_message_def meter_message_def)
  then show "pb_topic (holding_message F base d v) \<noteq> pb_topic (state_message base d' x)"
    "pb_topic (holding_message F base d v) \<noteq> pb_topic (meter_message base d' x)" by auto
qed (simp_all add: state_message_def meter_message_def)

definition caches_sound :: "string \<Rightarrow> 'f publish_caches \<times> (publish \<times> answer) list \<Rightarrow> bool" where
  "caches_sound base st \<longleftrightarrow>
     (\<forall>d x. dict_get (pc_json (fst st)) d = Some x \<longrightarrow>
        broker_state (snd st) (pb_topic (state_message base d x)) = Some x) \<and>
     (\<forall>d x. dict_get (pc_meter (fst st)) d = Some x \<longrightarrow>
        broker_state (snd st) (pb_topic (meter_message base d x)) = Some x)"

lemma broker_state_cong:
  "pb_topic p \<noteq> t \<Longrightarrow> broker_state (send B p lg) t = broker_state lg t"
  by (simp add: broker_state_send)

lemma state_topic_payload: "pb_payload (state_message base d x) = x" "pb_payload (meter_message base d x) = x"
  by (simp_all add: state_message_def meter_message_def)

lemma publish_state_sound:
  assumes "caches_sound base (c, sent)"
  shows "caches_sound base (fst (publish_state F dump B base d payload (c, sent)))"
proof -
  let ?m = "state_message base d (dump payload)"
  have meter: "broker_state (send B ?m sent) (pb_topic (meter_message base d' y)) =
      broker_state sent (pb_topic (meter_message base d' y))" for d' y
    using topics_apart(3) by (intro broker_state_cong)
  have state: "broker_state (send B ?m sent) (pb_topic (state_message base d' y)) =
      (if d = d' \<and> accepted (B sent ?m) then Some (dump payload)
       else broker_state sent (pb_topic (state_message base d' y)))" for d' y
    by (cases "d = d'") (simp_all add: broker_state_send topics_apart(1) state_topic_payload)
  show ?thesis
  proof (cases "should_serialize_state F c d payload \<and> should_publish_state c d (dump payload)")
    case False
    then show ?thesis using assms by (auto simp: publish_state_def Let_def)
  next
    case True
    show ?thesis
    proof (cases "accepted (B sent ?m)")
      case ok: True
      then obtain r where "B sent ?m = Answer r" "publish_succeeded r" by (cases "B sent ?m") auto
      then have "fst (publish_state F dump B base d payload (c, sent)) =
          (commit_state (commit_payload c d payload) d (dump payload), send B ?m sent)"
        using True by (simp add: publish_state_def Let_def)
      then show ?thesis
        using assms meter state ok by (auto simp: caches_sound_def commit_state_def commit_payload_def)
    next
      case rej: False
      then have "fst (publish_state F dump B base d payload (c, sent)) = (c, send B ?m sent)"
        using True by (cases "B sent ?m") (simp_all add: publish_state_def Let_def)
      then show ?thesis using assms meter state rej by (simp add: caches_sound_def)
    qed
  qed
qed

lemma publish_smart_meter_sound:
  assumes "caches_sound base (c, sent)"
  shows "caches_sound base (fst (publish_smart_meter B base d payload (c, sent)))"
proof -
  let ?m = "meter_message base d payload"
  have state: "broker_state (send B ?m sent) (pb_topic (state_message base d' y)) =
      broker_state sent (pb_topic (state_message base d' y))" for d' y
    using topics_apart(3) [of base d' y d payload] by (intro broker_state_cong) simp
  have meter: "broker_state (send B ?m sent) (pb_topic (meter_message base d' y)) =
      (if d = d' \<and> accepted (B sent ?m) then Some payload
       else broker_state sent (pb_topic (meter_message base d' y)))" for d' y
    by (cases "d = d'") (simp_all add: broker_state_send topics_apart(2) state_topic_payload)
  show ?thesis
  proof (cases "meter_fresh c d payload")
    case False
    then show ?thesis using assms by (auto simp: publish_smart_meter_def Let_def)
  next
    case True
    then have "fst (publish_smart_meter B base d payload (c, sent)) =
        (if accepted (B sent ?m) then commit_meter c d payload else c, send B ?m sent)"
      by (cases "B sent ?m") (auto simp: publish_smart_meter_def Let_def)
    then show ?thesis using assms meter state by (auto simp: caches_sound_def commit_meter_def)
  qed
qed

lemma publish_holding_value_sound:
  assumes "caches_sound base st"
  shows "caches_sound base (publish_holding_value F B base d v st)"
proof -
  obtain c sent where st: "st = (c, sent)" by fastforce
  let ?m = "holding_message F base d v"
  have "broker_state (send B ?m sent) (pb_topic (state_message base d' y)) =
      broker_state sent (pb_topic (state_message base d' y))"
    "broker_state (send B ?m sent) (pb_topic (meter_message base d' y)) =
      broker_state sent (pb_topic (meter_message base d' y))" for d' y
    by (simp_all add: broker_state_cong topics_apart(4,5))
  then show ?thesis
    using assms st by (auto simp: publish_holding_value_def caches_sound_def commit_holding_def Let_def)
qed

lemma publish_holding_values_sound:
  assumes "caches_sound base st"
  shows "caches_sound base (publish_holding_values F B base input st)"
proof -
  have "caches_sound base s \<Longrightarrow> caches_sound base (foldl (\<lambda>s v. publish_holding_value F B base d v s) s vs)" for s d vs
    by (induction vs arbitrary: s) (simp_all add: publish_holding_value_sound)
  then show ?thesis using assms by (simp add: publish_holding_values_def)
qed

section \<open>The machine\<close>

datatype 'f publish_event =
    StatePacket string "(string, 'f pyval) dict"
  | HoldingPacket "'f holding_input"
  | MeterPacket string string
  | ReconnectCaches

fun publish_step ::
    "('f, 'x) float_ops_scheme \<Rightarrow> ((string, 'f pyval) dict \<Rightarrow> string) \<Rightarrow> string \<Rightarrow>
     'f publish_caches \<times> (publish \<times> answer) list \<Rightarrow> broker \<times> 'f publish_event \<Rightarrow>
     'f publish_caches \<times> (publish \<times> answer) list" where
  "publish_step F dump base st (B, StatePacket d payload) = fst (publish_state F dump B base d payload st)"
| "publish_step F dump base st (B, HoldingPacket input) = publish_holding_values F B base input st"
| "publish_step F dump base st (B, MeterPacket d payload) = fst (publish_smart_meter B base d payload st)"
| "publish_step F dump base st (B, ReconnectCaches) = (clear_reconnect_publish_caches (fst st), snd st)"

lemma publish_step_sound:
  assumes "caches_sound base st"
  shows "caches_sound base (publish_step F dump base st ev)"
proof -
  obtain B e c sent where ev: "ev = (B, e)" "st = (c, sent)" by (metis surj_pair)
  show ?thesis
  proof (cases e)
    case ReconnectCaches
    then show ?thesis using assms ev
      by (simp add: caches_sound_def clear_reconnect_publish_caches_def clear_state_publish_cache_def)
  qed (use assms ev in \<open>simp_all add: publish_state_sound publish_smart_meter_sound publish_holding_values_sound\<close>)
qed

interpretation publications: step_machine "publish_step F dump base" "caches_sound base"
  by unfold_locales (rule publish_step_sound)

lemma publish_state_held:
  "\<not> (should_serialize_state F c d payload \<and> should_publish_state c d (dump payload)) \<Longrightarrow>
   publish_state F dump B base d payload (c, sent) = ((c, sent), Inr True)"
  by (auto simp: publish_state_def Let_def)

lemma publish_state_fresh:
  assumes "should_serialize_state F c d payload \<and> should_publish_state c d (dump payload)"
  shows "fst (fst (publish_state F dump B base d payload (c, sent))) =
      (if accepted (B sent (state_message base d (dump payload)))
       then commit_state (commit_payload c d payload) d (dump payload) else c)"
    and "snd (fst (publish_state F dump B base d payload (c, sent))) = send B (state_message base d (dump payload)) sent"
    and "snd (publish_state F dump B base d payload (c, sent)) = Inr True \<longleftrightarrow>
      accepted (B sent (state_message base d (dump payload)))"
  using assms
  by (cases "B sent (state_message base d (dump payload))"; simp add: publish_state_def Let_def)+

section \<open>Properties\<close>

text \<open>C20: The state and smart-meter caches never claim what the broker does not hold: over any packets,
  any answers of the broker and any reconnects in between, a cached payload is the last one accepted
  on its topic. So a value is only held back when Home Assistant already has it.\<close>

theorem publish_caches_sound:
  "let st = foldl (publish_step F dump base) (no_publish_caches, []) events in
   (case dict_get (pc_json (fst st)) d of None \<Rightarrow> True
    | Some x \<Rightarrow> broker_state (snd st) (pb_topic (state_message base d x)) = Some x) \<and>
   (case dict_get (pc_meter (fst st)) d of None \<Rightarrow> True
    | Some x \<Rightarrow> broker_state (snd st) (pb_topic (meter_message base d x)) = Some x)"
proof -
  have "caches_sound base (no_publish_caches :: 'a publish_caches, [])"
    by (simp add: caches_sound_def no_publish_caches_def)
  from publications.run_inv [OF this, of F dump events] show ?thesis
    by (auto simp: caches_sound_def Let_def split: option.splits)
qed

text \<open>C8: A packet that was sent, or held back, is held back the next time; one the broker refused or that
  raised leaves the caches alone and is sent again.\<close>

theorem telemetry_sent_once:
  "let first = publish_state F dump B base d payload (c, sent);
       second = publish_state F dump B' base d payload (fst first)
   in if snd first = Inr True then second = (fst first, Inr True)
      else fst (fst first) = c \<and> snd (fst first) = send B (state_message base d (dump payload)) sent \<and>
        snd (fst second) = send B' (state_message base d (dump payload)) (snd (fst first))"
proof -
  let ?m = "state_message base d (dump payload)"
  obtain c1 sent1 r where first: "publish_state F dump B base d payload (c, sent) = ((c1, sent1), r)"
    by (metis prod.collapse)
  show ?thesis
  proof (cases "should_serialize_state F c d payload \<and> should_publish_state c d (dump payload)")
    case False
    then show ?thesis by (simp add: publish_state_held Let_def)
  next
    case True
    note fr = publish_state_fresh [where dump = dump and B = B and base = base and sent = sent, OF True, unfolded first, simplified]
    show ?thesis
    proof (cases "accepted (B sent ?m)")
      case ok: True
      then have "c1 = commit_state (commit_payload c d payload) d (dump payload)" using fr(1) by simp
      then have "\<not> should_publish_state c1 d (dump payload)" by (simp add: state_cache.duplicate_suppressed)
      then have "publish_state F dump B' base d payload (c1, sent1) = ((c1, sent1), Inr True)"
        by (simp add: publish_state_held)
      then show ?thesis using first fr(3) ok by (simp add: Let_def)
    next
      case rej: False
      then have "c1 = c" "sent1 = send B ?m sent" "r \<noteq> Inr True" using fr by simp_all
      then show ?thesis using first publish_state_fresh(2) [where dump = dump and B = B' and base = base and sent = sent1, OF True] by (simp add: Let_def)
    qed
  qed
qed

text \<open>C21: What one packet publishes, key by key. A register whose name counts a battery beyond the shown number
  is left out. Any other keeps its value, except that an absent battery temperature becomes a missing one,
  an enumerated number becomes its label (or its own text when it has none), and finite watts are rounded
  to whole ones. Under a register map that has fragments of battery serials, no fragment of the batteries 2
  to 4 is published, and on a NOAH their combined serial is the joined text of the published fragments,
  left out when empty.\<close>

theorem telemetry_payload_spec:
  "dict_get (telemetry_payload F known noah max_bat payload) k =
   (let shown = (\<lambda>k. if within_batteries max_bat k then map_option (shown_value F known k) (dict_get payload k) else None);
        fragments = (\<lambda>n. [''bat'' @ n @ ''_ser_part_1'', ''bat'' @ n @ ''_ser_part_2'', ''bat'' @ n @ ''_ser_part_3'',
          ''bat'' @ n @ ''_ser_part_4'']);
        joined = (\<lambda>n. py_strip (concat (map (\<lambda>p. case shown p of None \<Rightarrow> [] | Some VNone \<Rightarrow> [] | Some v \<Rightarrow> val_str F v)
          (fragments n))))
    in if \<not> list_ex (\<lambda>name. prefix ''bat'' name \<and> sublist ''_ser_part_'' name)
           (case known of None \<Rightarrow> [] | Some m \<Rightarrow> map fst (input_registers m)) then shown k
       else if k \<in> set (fragments ''2'' @ fragments ''3'' @ fragments ''4'') then None
       else case find (\<lambda>n. noah \<and> k = ''bat'' @ n @ ''_serial'') [''2'', ''3'', ''4''] of
           Some n \<Rightarrow> if joined n = [] then None else Some (VStr (joined n))
         | None \<Rightarrow> shown k)"
proof -
  define shown where "shown = (\<lambda>k. if within_batteries max_bat k then map_option (shown_value F known k) (dict_get payload k) else None)"
  let ?p = "prepare_payload F (register_rules known) max_bat payload"
  have get: "dict_get ?p k = shown k" for k
    unfolding prepare_payload_get shown_def beyond_battery_spec ext [OF prepare_value_spec] by simp
  define fragments where "fragments = (\<lambda>n. [''bat'' @ n @ ''_ser_part_1'', ''bat'' @ n @ ''_ser_part_2'',
    ''bat'' @ n @ ''_ser_part_3'', ''bat'' @ n @ ''_ser_part_4''])"
  have one: "str_of_int 1 = ''1''" by code_simp
  have groups: "bat_serial_groups = map (\<lambda>n. (fragments n, ''bat'' @ n @ ''_serial'')) [''2'', ''3'', ''4'']"
    by (simp add: bat_serial_groups_def serial_part_keys_def fragments_def one str_of_tracked)
  have any: "rr_serial_parts (register_rules known) = list_ex (\<lambda>name. prefix ''bat'' name \<and> sublist ''_ser_part_'' name)
      (case known of None \<Rightarrow> [] | Some m \<Rightarrow> map fst (input_registers m))"
    by (simp add: register_rules_def split: option.split)
  have inside: "(\<exists>g \<in> set bat_serial_groups. k \<in> set (fst g)) =
      (k \<in> set (fragments ''2'' @ fragments ''3'' @ fragments ''4''))"
    unfolding groups by simp
  have named: "(if noah then find (\<lambda>g. snd g = k) bat_serial_groups else None) = map_option
      (\<lambda>n. (fragments n, ''bat'' @ n @ ''_serial'')) (find (\<lambda>n. noah \<and> k = ''bat'' @ n @ ''_serial'') [''2'', ''3'', ''4''])"
    unfolding groups by (cases noah) (simp_all add: eq_commute [of _ k])
  have joined: "combined_value F ?p ks = (let text = py_strip (concat (map
      (\<lambda>p. case shown p of None \<Rightarrow> [] | Some VNone \<Rightarrow> [] | Some v \<Rightarrow> val_str F v) ks))
    in if text = [] then None else Some (VStr text))" for ks
    unfolding combined_value_def combined_serial_def serial_parts_concat get Let_def ..
  show ?thesis
    unfolding Let_def shown_def [symmetric] fragments_def [symmetric] any [symmetric] telemetry_payload_def
      if_distrib [of "\<lambda>d. dict_get d k"] combine_serials_get [OF bat_serial_groups_separate] get inside named joined
    by (cases "find (\<lambda>n. noah \<and> k = ''bat'' @ n @ ''_serial'') [''2'', ''3'', ''4'']";
        cases "rr_serial_parts (register_rules known)")
       (simp_all only: option.map option.case fst_conv if_True if_False not_True_eq_False not_False_eq_True)
qed

text \<open>The number of batteries shown is between one and four, whatever was reported before.\<close>

theorem battery_count_range:
  "snd (resolve_max_bat F mb d payload (foldl (\<lambda>cache (d', p). fst (resolve_max_bat F mb d' p cache)) [] calls)) \<in> {1..4}"
proof -
  have "counts_ok (foldl (\<lambda>cache (d', p). fst (resolve_max_bat F mb d' p cache)) cache cs)" if "counts_ok cache" for cache cs
    using that
  proof (induction cs arbitrary: cache)
    case (Cons x cs)
    obtain d' p where x: "x = (d', p)" by fastforce
    show ?case using Cons.IH [OF resolve_max_bat_keeps(1) [OF Cons.prems, of F mb d' p]] x by simp
  qed simp
  note run = this
  have "counts_ok []" by (simp add: counts_ok_def)
  then have "counts_ok (foldl (\<lambda>cache (d', p). fst (resolve_max_bat F mb d' p cache)) [] calls)" by (rule run)
  then show ?thesis by (rule resolve_max_bat_keeps(2))
qed

end
