(* ===== verification/PendingWrites.thy ===== *)
theory PendingWrites
  imports PacketBuilder MqttResult
begin

text \<open>
  Configuration writes of \<open>grobro/grobro/client.py\<close> and their acknowledgements. A write reserves a
  place in the device's queue, is published outside the lock, and gives the place back when the
  broker refuses it; acknowledgements arrive in between on another thread. The reservation and its
  settlement are therefore two steps, and a reservation is known by its identity, not its register.
\<close>

section \<open>Definitions\<close>

type_synonym reservation = "nat \<times> int"

record pending_writes =
  pw_pending :: "(string, reservation list) dict"
  pw_disabled :: "string set"
  pw_next :: nat
  pw_stopped :: bool

definition no_writes :: pending_writes where
  "no_writes = \<lparr>pw_pending = [], pw_disabled = {}, pw_next = 0, pw_stopped = False\<rparr>"

definition max_pending_config_writes :: nat where
  "max_pending_config_writes = 128"

definition pending_of :: "pending_writes \<Rightarrow> string \<Rightarrow> reservation list" where
  "pending_of st d = (case dict_get (pw_pending st) d of Some q \<Rightarrow> q | None \<Rightarrow> [])"

text \<open>
  The reservation of one write: its identity, or \<open>None\<close> after a stop. At the limit the tracking of
  the device is given up for good, but the write still goes out.
\<close>

definition reserve_write :: "string \<Rightarrow> int \<Rightarrow> pending_writes \<Rightarrow> pending_writes \<times> nat option" where
  "reserve_write d register_no st =
     (let n = pw_next st; st1 = st\<lparr>pw_next := n + 1\<rparr> in
      if pw_stopped st then (st1, None)
      else if d \<in> pw_disabled st then (st1, Some n)
      else if length (pending_of st d) \<ge> max_pending_config_writes
      then (st1\<lparr>pw_pending := dict_pop d (pw_pending st), pw_disabled := insert d (pw_disabled st)\<rparr>, Some n)
      else (st1\<lparr>pw_pending := dict_set d (pending_of st d @ [(n, register_no)]) (pw_pending st)\<rparr>, Some n))"

text \<open>The \<open>finally\<close> part: a refused write removes its own reservation if it is still there.\<close>

definition settle_write :: "string \<Rightarrow> nat \<Rightarrow> bool \<Rightarrow> pending_writes \<Rightarrow> pending_writes" where
  "settle_write d n ok st =
     (if ok then st
      else (case dict_get (pw_pending st) d of
          None \<Rightarrow> st
        | Some pending \<Rightarrow>
            (let kept = filter (\<lambda>(i, r). i \<noteq> n) pending
             in st\<lparr>pw_pending := (if kept = [] then dict_pop d (pw_pending st)
                                  else dict_set d kept (pw_pending st))\<rparr>)))"

text \<open>
  One whole call when nothing comes between: the packet must build before anything is reserved,
  and \<open>publish\<close> answers for the source broker.
\<close>

definition send_config_message ::
    "(bytes \<Rightarrow> int) \<Rightarrow> (string \<Rightarrow> bytes \<Rightarrow> answer) \<Rightarrow> string \<Rightarrow> int \<Rightarrow> string \<Rightarrow> pending_writes \<Rightarrow>
     pending_writes \<times> call_result py" where
  "send_config_message crc publish_to d register_no v st =
     (case build_config_write_packet crc d register_no v of
        Inl e \<Rightarrow> (st, Inl e)
      | Inr packet \<Rightarrow>
          (case reserve_write d register_no st of
             (st1, None) \<Rightarrow> (st1, Inr (ResSeq [Some 4, None]))
           | (st1, Some n) \<Rightarrow>
               (case publish_to (''s/33/'' @ d) packet of
                  Raised e \<Rightarrow> (settle_write d n False st1, Inl e)
                | Answer r \<Rightarrow> (settle_write d n (status_accepted r) st1, Inr r))))"

fun remove_first :: "int \<Rightarrow> reservation list \<Rightarrow> reservation list" where
  "remove_first r [] = []"
| "remove_first r ((i, r') # rest) = (if r' = r then rest else (i, r') # remove_first r rest)"

text \<open>
  An acknowledgement: with a register the device's map knows, it is that one; otherwise it is the
  oldest write still pending, or the reported number when there is none. The second component is
  the register the acknowledgement is attributed to.
\<close>

definition config_ack_received :: "bool \<Rightarrow> string \<Rightarrow> int \<Rightarrow> pending_writes \<Rightarrow> pending_writes \<times> int" where
  "config_ack_received known d parsed_register st =
     (let pending = pending_of st d;
          (left, register_no) =
            (if known then (remove_first parsed_register pending, parsed_register)
             else (case pending of
                 (i, r) # rest \<Rightarrow> (rest, r)
               | [] \<Rightarrow> (pending, parsed_register)))
      in (if dict_get (pw_pending st) d = None then st
          else st\<lparr>pw_pending := (if left = [] then dict_pop d (pw_pending st)
                                 else dict_set d left (pw_pending st))\<rparr>, register_no))"

definition stop_writes :: "pending_writes \<Rightarrow> pending_writes" where
  "stop_writes st = st\<lparr>pw_stopped := True, pw_pending := [], pw_disabled := {}\<rparr>"

section \<open>The machine\<close>

datatype write_event =
    WriteReserved string int
  | WriteSettled string nat bool
  | AckArrives bool string int
  | WritesStopped

fun writes_step :: "pending_writes \<Rightarrow> write_event \<Rightarrow> pending_writes" where
  "writes_step st (WriteReserved d r) = fst (reserve_write d r st)"
| "writes_step st (WriteSettled d n ok) = settle_write d n ok st"
| "writes_step st (AckArrives known d r) = fst (config_ack_received known d r st)"
| "writes_step st WritesStopped = stop_writes st"

definition queue_ok :: "nat \<Rightarrow> reservation list \<Rightarrow> bool" where
  "queue_ok n q \<longleftrightarrow>
     q \<noteq> [] \<and> length q \<le> max_pending_config_writes \<and> sorted_wrt (\<lambda>a b. fst a < fst b) q \<and>
     list_all (\<lambda>a. fst a < n) q"

definition writes_ok :: "pending_writes \<Rightarrow> bool" where
  "writes_ok st \<longleftrightarrow>
     (\<forall>d q. dict_get (pw_pending st) d = Some q \<longrightarrow>
        queue_ok (pw_next st) q \<and> d \<notin> pw_disabled st \<and> \<not> pw_stopped st)"

lemma queue_ok_later: "queue_ok n q \<Longrightarrow> queue_ok (Suc n) q"
  by (auto simp: queue_ok_def list_all_iff)

lemma sorted_wrt_sub: "subseq q' q \<Longrightarrow> sorted_wrt P q \<Longrightarrow> sorted_wrt P q'"
proof (induction rule: list_emb.induct)
  case (list_emb_Cons2 x y xs ys)
  then show ?case by (auto dest: list_emb_set)
qed auto

lemma queue_ok_sub:
  assumes "queue_ok n q" "subseq q' q" "q' \<noteq> []"
  shows "queue_ok n q'"
proof -
  have "set q' \<subseteq> set q" using assms(2) by (auto dest: list_emb_set)
  moreover have "length q' \<le> length q" using assms(2) by (rule list_emb_length)
  moreover have "sorted_wrt (\<lambda>a b. fst a < fst b) q'"
    using assms(1,2) by (auto simp: queue_ok_def intro: sorted_wrt_sub)
  ultimately show ?thesis using assms(1,3) by (auto simp: queue_ok_def list_all_iff)
qed

lemma subseq_remove_first: "subseq (remove_first r q) q"
  by (induction r q rule: remove_first.induct) auto

lemma remove_first_smaller: "remove_first r q \<noteq> [] \<Longrightarrow> q \<noteq> []"
  by (cases q) auto

lemma pending_of_Some: "dict_get (pw_pending st) d = Some q \<Longrightarrow> pending_of st d = q"
  by (simp add: pending_of_def)

lemma writes_ok_update:
  assumes "writes_ok st" "dict_get (pw_pending st) d = Some q" "subseq q' q"
  shows "writes_ok (st\<lparr>pw_pending := (if q' = [] then dict_pop d (pw_pending st) else dict_set d q' (pw_pending st))\<rparr>)"
proof -
  have q: "queue_ok (pw_next st) q" "d \<notin> pw_disabled st" "\<not> pw_stopped st"
    using assms(1,2) by (auto simp: writes_ok_def)
  then have "q' \<noteq> [] \<Longrightarrow> queue_ok (pw_next st) q'" using queue_ok_sub assms(3) by blast
  then show ?thesis using q assms(1) by (auto simp: writes_ok_def)
qed

lemma settle_write_ok: "writes_ok st \<Longrightarrow> writes_ok (settle_write d n ok st)"
proof -
  assume st: "writes_ok st"
  show ?thesis
  proof (cases "ok \<or> dict_get (pw_pending st) d = None")
    case False
    then obtain q where q: "dict_get (pw_pending st) d = Some q" "\<not> ok" by auto
    show ?thesis using writes_ok_update [OF st q(1) subseq_filter_left] q by (simp add: settle_write_def Let_def)
  qed (use st in \<open>auto simp: settle_write_def\<close>)
qed

lemma ack_ok: "writes_ok st \<Longrightarrow> writes_ok (fst (config_ack_received known d r st))"
proof -
  assume st: "writes_ok st"
  show ?thesis
  proof (cases "dict_get (pw_pending st) d")
    case None
    then show ?thesis using st by (simp add: config_ack_received_def case_prod_beta Let_def)
  next
    case (Some q)
    have "subseq (tl q) q" by (cases q) auto
    then show ?thesis
      using writes_ok_update [OF st Some subseq_remove_first, of r] writes_ok_update [OF st Some, of "tl q"]
        pending_of_Some [OF Some] Some
      by (cases q) (auto simp: config_ack_received_def Let_def)
  qed
qed

lemma reserve_write_ok: "writes_ok st \<Longrightarrow> writes_ok (fst (reserve_write d r st))"
proof -
  assume st: "writes_ok st"
  have later: "dict_get (pw_pending st) d' = Some q \<Longrightarrow>
      queue_ok (Suc (pw_next st)) q \<and> d' \<notin> pw_disabled st \<and> \<not> pw_stopped st" for d' q
    using st queue_ok_later by (auto simp: writes_ok_def)
  show ?thesis
  proof (cases "pw_stopped st \<or> d \<in> pw_disabled st")
    case True
    then have "fst (reserve_write d r st) = st\<lparr>pw_next := pw_next st + 1\<rparr>"
      by (auto simp: reserve_write_def Let_def)
    then show ?thesis using later by (simp add: writes_ok_def)
  next
    case False
    show ?thesis
    proof (cases "length (pending_of st d) \<ge> max_pending_config_writes")
      case True
      then show ?thesis using later False by (simp add: reserve_write_def writes_ok_def Let_def)
    next
      case room: False
      have "queue_ok (Suc (pw_next st)) (pending_of st d @ [(pw_next st, r)])"
      proof (cases "dict_get (pw_pending st) d")
        case (Some q)
        then have "queue_ok (pw_next st) q" using st by (simp add: writes_ok_def)
        then show ?thesis using room Some
          by (auto simp: queue_ok_def pending_of_def sorted_wrt_append list_all_iff)
      qed (simp add: pending_of_def queue_ok_def max_pending_config_writes_def)
      then show ?thesis using later False room by (simp add: reserve_write_def writes_ok_def Let_def)
    qed
  qed
qed

lemma writes_step_ok: "writes_ok st \<Longrightarrow> writes_ok (writes_step st ev)"
  by (cases ev) (simp_all add: reserve_write_ok settle_write_ok ack_ok, simp add: writes_ok_def stop_writes_def)

interpretation writes: step_machine writes_step writes_ok
  by unfold_locales (rule writes_step_ok)

lemma no_writes_ok: "writes_ok no_writes"
  by (simp add: writes_ok_def no_writes_def)

lemma writes_run: "writes_ok (foldl writes_step no_writes events)"
  by (rule writes.run_inv [OF no_writes_ok])

section \<open>Attribution of acknowledgements\<close>

text \<open>A run of acknowledgements whose registers the map does not know.\<close>

fun attributed :: "string \<Rightarrow> int list \<Rightarrow> pending_writes \<Rightarrow> int list" where
  "attributed d [] st = []"
| "attributed d (p # ps) st =
     snd (config_ack_received False d p st) # attributed d ps (fst (config_ack_received False d p st))"

lemma ack_unknown:
  "snd (config_ack_received False d p st) = (case pending_of st d of [] \<Rightarrow> p | a # q \<Rightarrow> snd a)"
  "pending_of (fst (config_ack_received False d p st)) d = tl (pending_of st d)"
proof -
  show "snd (config_ack_received False d p st) = (case pending_of st d of [] \<Rightarrow> p | a # q \<Rightarrow> snd a)"
    by (auto simp: config_ack_received_def Let_def split: list.splits)
  show "pending_of (fst (config_ack_received False d p st)) d = tl (pending_of st d)"
  proof (cases "dict_get (pw_pending st) d")
    case (Some q)
    then show ?thesis by (cases q) (auto simp: config_ack_received_def pending_of_def Let_def)
  qed (simp add: config_ack_received_def pending_of_def Let_def)
qed

lemma attributed_spec:
  "attributed d ps st = map snd (take (length ps) (pending_of st d)) @ drop (length (pending_of st d)) ps"
proof (induction ps arbitrary: st)
  case (Cons p ps)
  show ?case
    using Cons [of "fst (config_ack_received False d p st)"] ack_unknown [of d p st]
    by (cases "pending_of st d") auto
qed simp

lemma reserved_queue:
  assumes "\<not> pw_stopped st" "d \<notin> pw_disabled st" "length (pending_of st d) + length rs \<le> max_pending_config_writes"
  shows "map snd (pending_of (foldl writes_step st (map (WriteReserved d) rs)) d) = map snd (pending_of st d) @ rs"
  using assms
proof (induction rs arbitrary: st)
  case (Cons r rs)
  let ?st = "writes_step st (WriteReserved d r)"
  have room: "\<not> max_pending_config_writes \<le> length (pending_of st d)" using Cons.prems(3) by simp
  then have eq: "?st = st\<lparr>pw_next := pw_next st + 1,
      pw_pending := dict_set d (pending_of st d @ [(pw_next st, r)]) (pw_pending st)\<rparr>"
    using Cons.prems(1,2) by (simp add: reserve_write_def Let_def)
  have q: "pending_of ?st d = pending_of st d @ [(pw_next st, r)]" unfolding eq by (simp add: pending_of_def)
  have "map snd (pending_of (foldl writes_step ?st (map (WriteReserved d) rs)) d) = map snd (pending_of ?st d) @ rs"
  proof (rule Cons.IH)
    show "\<not> pw_stopped ?st" "d \<notin> pw_disabled ?st" using Cons.prems(1,2) by (simp_all only: eq, simp_all)
    show "length (pending_of ?st d) + length rs \<le> max_pending_config_writes" using Cons.prems(3) q by simp
  qed
  then show ?case using q by simp
qed simp

lemma settle_reserved:
  assumes "writes_ok st" "reserve_write d r st = (st1, Some n)" "length (pending_of st d) < max_pending_config_writes"
  shows "pending_of (settle_write d n False st1) d' = pending_of st d'"
proof (cases "d \<in> pw_disabled st")
  case True
  then have "st1 = st\<lparr>pw_next := pw_next st + 1\<rparr>" "dict_get (pw_pending st) d = None"
    using assms(1,2) by (cases "dict_get (pw_pending st) d"; auto simp: reserve_write_def Let_def writes_ok_def split: if_splits)+
  then show ?thesis by (simp add: settle_write_def pending_of_def)
next
  case False
  then have st1: "st1 = st\<lparr>pw_next := pw_next st + 1,
      pw_pending := dict_set d (pending_of st d @ [(pw_next st, r)]) (pw_pending st)\<rparr>" and n: "n = pw_next st"
    using assms(2,3) by (auto simp: reserve_write_def Let_def split: if_splits)
  have "fst a < n" if "a \<in> set (pending_of st d)" for a
    using assms(1) that n
    by (cases "dict_get (pw_pending st) d") (auto simp: pending_of_def writes_ok_def queue_ok_def list_all_iff)
  then have keep: "filter (\<lambda>(i, r). i \<noteq> n) (pending_of st d @ [(n, r)]) = pending_of st d"
    by (fastforce simp: filter_id_conv)
  show ?thesis
  proof (cases "dict_get (pw_pending st) d")
    case None
    then show ?thesis using keep st1 n by (auto simp: settle_write_def pending_of_def)
  next
    case (Some q)
    then have "q \<noteq> []" using assms(1) by (simp add: writes_ok_def queue_ok_def)
    then show ?thesis using keep st1 n Some by (auto simp: settle_write_def pending_of_def)
  qed
qed

section \<open>Properties\<close>

text \<open>C32: Whatever the order of writes, refusals, acknowledgements and stops, the queue of a device never
  exceeds the limit, its reservations are distinct and oldest first, and a device whose tracking was
  given up has no queue.\<close>

theorem pending_writes_bounded:
  "let st = foldl writes_step no_writes events in
   length (pending_of st d) \<le> max_pending_config_writes \<and>
   sorted_wrt (<) (map fst (pending_of st d)) \<and>
   (if d \<in> pw_disabled st then pending_of st d = [] else True)"
proof -
  let ?st = "foldl writes_step no_writes events"
  have ok: "dict_get (pw_pending ?st) d = Some q \<Longrightarrow> queue_ok (pw_next ?st) q \<and> d \<notin> pw_disabled ?st" for q
    using writes_run [of events] by (simp add: writes_ok_def)
  show ?thesis
    using ok by (cases "dict_get (pw_pending ?st) d")
      (auto simp: Let_def pending_of_def queue_ok_def sorted_wrt_map)
qed

text \<open>Acknowledgements without a known register are attributed to the writes of the device oldest
  first; once all are used up the reported number stands.\<close>

theorem ambiguous_acks_in_order:
  assumes "length rs \<le> max_pending_config_writes"
  shows "attributed d ps (foldl writes_step no_writes (map (WriteReserved d) rs)) =
    take (length ps) rs @ drop (length rs) ps"
proof -
  let ?st = "foldl writes_step no_writes (map (WriteReserved d) rs)"
  have q: "map snd (pending_of ?st d) = rs"
    using reserved_queue [of no_writes d rs] assms by (simp add: no_writes_def pending_of_def)
  then have "length (pending_of ?st d) = length rs" by (metis length_map)
  then show ?thesis using q attributed_spec [of d ps ?st] by (metis take_map)
qed

theorem ambiguous_acks_in_order_witness:
  "attributed ''QMN1'' [900, 900, 900] (foldl writes_step no_writes (map (WriteReserved ''QMN1'') [31, 4])) = [31, 4, 900]"
  using ambiguous_acks_in_order [of "[31, 4]" "''QMN1''" "[900, 900, 900]"] by (simp add: max_pending_config_writes_def)

text \<open>A write the broker refuses, or that raises, leaves no reservation behind: below the limit the
  queues of all devices are what they were before the call.\<close>

theorem refused_write_untracked:
  "let st = foldl writes_step no_writes events; (st', result) = send_config_message crc publish_to d register_no v st
   in if (case result of Inl e \<Rightarrow> True | Inr a \<Rightarrow> \<not> status_accepted a) \<and>
         length (pending_of st d) < max_pending_config_writes
      then pending_of st' d' = pending_of st d' else True"
proof -
  let ?st = "foldl writes_step no_writes events"
  show ?thesis
  proof (cases "build_config_write_packet crc d register_no v")
    case (Inr packet)
    obtain st1 n where r: "reserve_write d register_no ?st = (st1, n)" by fastforce
    show ?thesis
    proof (cases n)
      case None
      then have "st1 = ?st\<lparr>pw_next := pw_next ?st + 1\<rparr>"
        using r by (auto simp: reserve_write_def Let_def split: if_splits)
      then show ?thesis using Inr r None by (simp add: send_config_message_def Let_def pending_of_def)
    next
      case (Some i)
      then show ?thesis
        using Inr r settle_reserved [OF writes_run, of d register_no events st1 i d']
        by (cases "publish_to (''s/33/'' @ d) packet") (auto simp: send_config_message_def Let_def)
    qed
  qed (simp add: send_config_message_def Let_def)
qed

end
