(* ===== verification/SourceClient.thy ===== *)
theory SourceClient
  imports PendingWrites CloudPolicy NoahPackets ModbusFunction DeviceFamily
begin

text \<open>
  The source side, \<open>grobro/grobro/client.py\<close>: what one MQTT message of a device or of the Growatt
  cloud makes the program do. The callbacks to the Home Assistant side and the cloud connection are
  outputs; an output that raises ends the message, except where the code catches it itself. Every
  exception ends at the handler, so a handler answers the new state and the list of outputs.

  Left out: logging, the diagnostic captures, and the fallbacks for callbacks that \<open>ha_bridge.py\<close>
  always wires.
\<close>

section \<open>Definitions\<close>

definition extract_device_id :: "string \<Rightarrow> string" where
  "extract_device_id topic = filter is_alnum (last (split_on (CHR ''/'') topic))"

text \<open>The user properties of a message; an entry that is no pair is \<open>None\<close>.\<close>

fun get_property :: "(string \<times> string) option list \<Rightarrow> string \<Rightarrow> string option" where
  "get_property [] prop = None"
| "get_property (None # rest) prop = get_property rest prop"
| "get_property (Some (key, v) # rest) prop = (if key = prop then Some v else get_property rest prop)"

record mqtt_message =
  mm_topic :: string
  mm_payload :: bytes
  mm_properties :: "(string \<times> string) option list"

datatype 'f source_out =
    ToCloud string string bytes
  | ToDevice string bytes
  | OnConfig string device_config
  | OnConfigValue string int "'f pyval" bool
  | OnReadResponse string int
  | OnSmartMeter string string
  | OnHolding "'f holding_input"
  | OnInput "'f input_state"

record source_client =
  sc_gateways :: "(string, string) dict"
  sc_gateway_dirty :: "string set"
  sc_forward :: "string set"
  sc_writes :: pending_writes
  sc_stopped :: bool

record 'f source_env =
  sv_policy :: cloud_policy
  sv_maps :: "map_id \<Rightarrow> 'f register_map"
  sv_raises :: "'f source_out \<Rightarrow> bool"
  sv_connect_ok :: "string \<Rightarrow> bool"
  sv_save_ok :: bool

definition known_registers :: "('f, 'm) source_env_scheme \<Rightarrow> string \<Rightarrow> 'f register_map option" where
  "known_registers E d = map_option (sv_maps E) (get_known_registers d)"

definition find_config_register ::
    "'f register_map option \<Rightarrow> int \<Rightarrow> (string \<times> 'f config_register) option" where
  "find_config_register known register_no =
     (case known of
        None \<Rightarrow> None
      | Some m \<Rightarrow> find (\<lambda>(name, reg). cr_register reg = register_no) (config_registers m))"

definition config_register_name :: "('f, 'm) source_env_scheme \<Rightarrow> string \<Rightarrow> int \<Rightarrow> string option" where
  "config_register_name E d register_no =
     map_option (\<lambda>(name, reg). if hh_name (cr_ha reg) = [] then name else hh_name (cr_ha reg))
       (find_config_register (known_registers E d) register_no)"

text \<open>
  The inverter behind a gateway. A link that is known and saved changes nothing; the restart reads
  links back without saving them again.
\<close>

definition remember_gateway ::
    "bool \<Rightarrow> bool \<Rightarrow> string \<Rightarrow> string option \<Rightarrow> source_client \<Rightarrow> source_client" where
  "remember_gateway persist save_ok gateway_id endpoint st =
     (case endpoint of
        None \<Rightarrow> st
      | Some e \<Rightarrow>
          if \<not> is_gateway gateway_id \<or> \<not> prefix ''PTQ'' e then st
          else if dict_get (sc_gateways st) gateway_id = Some e \<and> gateway_id \<notin> sc_gateway_dirty st then st
          else (let st1 = st\<lparr>sc_gateways := dict_set gateway_id e (sc_gateways st)\<rparr> in
            if \<not> persist then st1
            else if save_ok then st1\<lparr>sc_gateway_dirty := sc_gateway_dirty st1 - {gateway_id}\<rparr>
            else st1\<lparr>sc_gateway_dirty := insert gateway_id (sc_gateway_dirty st1)\<rparr>))"

text \<open>The links found in the files at start-up, in the order the files are read.\<close>

definition restore_gateways :: "(string \<times> device_config option) list \<Rightarrow> source_client \<Rightarrow> source_client" where
  "restore_gateways found st =
     foldl (\<lambda>s (gateway_id, config).
        if is_gateway gateway_id
        then remember_gateway False True gateway_id (case config of Some c \<Rightarrow> config_device_id c | None \<Rightarrow> None) s
        else s) st found"

section \<open>Configuration packets\<close>

text \<open>The configuration announced for the inverter behind a gateway.\<close>

definition inverter_config :: "string \<Rightarrow> device_config \<Rightarrow> device_config" where
  "inverter_config ptq_serial config =
     fill_config (\<lambda>f.
       if f = ''serial_number'' then reject_placeholder_serial (Some ptq_serial)
       else if f = ''device_type'' then Some ''55''
       else if f = ''model_id'' \<or> f = ''sw_version''
         then (case dict_get config f of Some [] \<Rightarrow> None | v \<Rightarrow> v)
       else if f = ''wifi_signal'' then dict_get config f
       else None)"

definition ptq_serial_field :: "bytes \<Rightarrow> string" where
  "ptq_serial_field dat = py_strip (device_field (py_slice dat 38 68))"

definition handle_config ::
    "('f, 'm) source_env_scheme \<Rightarrow> string \<Rightarrow> bytes \<Rightarrow> int \<Rightarrow> source_client \<Rightarrow>
     source_client \<times> 'f source_out list" where
  "handle_config E d dat msg_type st =
     (let config = parse_config_type dat (find_config_offset dat);
          announced = OnConfig d config in
      if sv_raises E announced then (st, [announced])
      else (let st1 = remember_gateway True (sv_save_ok E) d (config_device_id config) st;
                ptq_serial = ptq_serial_field dat in
        if msg_type = 0x0129 \<and> length dat \<ge> 68 \<and> prefix ''PTQ'' ptq_serial
        then (remember_gateway True (sv_save_ok E) d (Some ptq_serial) st1,
              [announced, OnConfig ptq_serial (inverter_config ptq_serial config)])
        else (st1, [announced])))"

definition metadata_fields :: "(string, string) dict" where
  "metadata_fields =
     [(''software_version'', ''sw_version''), (''hardware_version'', ''hw_version''),
      (''data_interval'', ''data_interval''), (''local_ip'', ''local_ip''),
      (''wifi_signal_strength'', ''wifi_signal'')]"

text \<open>\<open>int(value)\<close> for an integer register, the text itself when that fails.\<close>

definition entry_value :: "(string \<times> 'f config_register) option \<Rightarrow> string \<Rightarrow> 'f pyval" where
  "entry_value register text_value =
     (case register of
        Some (name, reg) \<Rightarrow>
          if rd_type (cr_data reg) = DT_INT
          then (case py_int_of_str text_value of Some n \<Rightarrow> VInt n | None \<Rightarrow> VStr text_value)
          else VStr text_value
      | None \<Rightarrow> VStr text_value)"

fun entry_text :: "'f pyval \<Rightarrow> string" where
  "entry_text (VInt n) = str_of_int n"
| "entry_text (VStr s) = s"
| "entry_text _ = []"

definition metadata_outs ::
    "('f, 'm) source_env_scheme \<Rightarrow> source_client \<Rightarrow> string \<Rightarrow> (string \<times> 'f config_register) option \<Rightarrow>
     'f pyval \<Rightarrow> 'f source_out list" where
  "metadata_outs E st d register v =
     (case register of
        None \<Rightarrow> []
      | Some (name, reg) \<Rightarrow>
          (case dict_get metadata_fields name of
             None \<Rightarrow> []
           | Some field \<Rightarrow>
               (let announced = OnConfig d (make_device_config [(''serial_number'', d), (field, entry_text v)]) in
                if sv_raises E announced \<or> field \<noteq> ''wifi_signal'' then [announced]
                else (case dict_get (sc_gateways st) d of
                    None \<Rightarrow> [announced]
                  | Some neo \<Rightarrow> if neo = [] then [announced] else
                      [announced, OnConfig neo (make_device_config
                         [(''serial_number'', neo), (''wifi_signal'', entry_text v)])]))))"

text \<open>One register of a read response: metadata, the readback, and the next queued read.\<close>

definition config_entry_outs ::
    "('f, 'm) source_env_scheme \<Rightarrow> source_client \<Rightarrow> string \<Rightarrow> config_entry \<Rightarrow> 'f source_out list" where
  "config_entry_outs E st d entry =
     (let register_no = ce_register entry;
          register = find_config_register (known_registers E d) register_no;
          v = entry_value register (ce_value entry);
          retain = (case register of Some (name, reg) \<Rightarrow> hh_publish (cr_ha reg) | None \<Rightarrow> False)
      in metadata_outs E st d register v @
         [if register_no = 7 then OnConfigValue d register_no (VStr []) True
          else OnConfigValue d register_no v retain,
          OnReadResponse d register_no])"

definition handle_config_response ::
    "('f, 'm) source_env_scheme \<Rightarrow> bytes \<Rightarrow> source_client \<Rightarrow> source_client \<times> 'f source_out list" where
  "handle_config_response E dat st =
     (case parse_config_message dat of
        Inl e \<Rightarrow> (st, [])
      | Inr cfg \<Rightarrow> (st, concat (map (config_entry_outs E st (cm_device_id cfg)) (cm_entries cfg))))"

definition handle_config_ack ::
    "('f, 'm) source_env_scheme \<Rightarrow> bytes \<Rightarrow> source_client \<Rightarrow> source_client \<times> 'f source_out list" where
  "handle_config_ack E dat st =
     (case parse_config_ack dat of
        Inl e \<Rightarrow> (st, [])
      | Inr ack \<Rightarrow>
          (let known = (case config_register_name E (ca_device_id ack) (ca_register ack) of
               None \<Rightarrow> False | Some name \<Rightarrow> name \<noteq> [])
           in (st\<lparr>sc_writes := fst (config_ack_received known (ca_device_id ack) (ca_register ack) (sc_writes st))\<rparr>, [])))"

section \<open>Modbus data\<close>

definition holding_value_of ::
    "('f, 'x) float_ops_scheme \<Rightarrow> modbus_message \<Rightarrow> string \<times> 'f holding_register \<Rightarrow> 'f holding_value option" where
  "holding_value_of F m entry =
     (case hr_growatt (snd entry) of
        None \<Rightarrow> None
      | Some g \<Rightarrow>
          (case parse_register F (gr_data g) (get_data m (gr_position g)) of
             None \<Rightarrow> None
           | Some v \<Rightarrow>
               Some \<lparr>hv_name = fst entry,
                     hv_value = (if hh_type (hr_ha (snd entry)) = ''switch''
                                 then VStr (if py_eq F v (VInt 1) then ''ON'' else ''OFF'') else v),
                     hv_register = hr_ha (snd entry)\<rparr>))"

definition bad_power :: "('f, 'x) float_ops_scheme \<Rightarrow> string \<Rightarrow> 'f pyval \<Rightarrow> bool" where
  "bad_power F name v \<longleftrightarrow>
     name = ''Ppv'' \<and> (case py_num v of None \<Rightarrow> False | Some n \<Rightarrow> num_less F (NInt 1000000) n)"

text \<open>\<open>None\<close>: the packet is dropped because of an impossible power.\<close>

fun input_values ::
    "('f, 'x) float_ops_scheme \<Rightarrow> modbus_message \<Rightarrow> (string, 'f input_register) dict \<Rightarrow>
     (string, 'f pyval) dict option" where
  "input_values F m [] = Some []"
| "input_values F m ((name, reg) # rest) =
     (case parse_register F (gr_data (ir_growatt reg)) (get_data m (gr_position (ir_growatt reg))) of
        None \<Rightarrow> input_values F m rest
      | Some v \<Rightarrow> if bad_power F name v then None else map_option ((#) (name, v)) (input_values F m rest))"

text \<open>The \<open>or\<close> of the language on a string that may be missing.\<close>

definition or_else :: "string option \<Rightarrow> string \<Rightarrow> string" where
  "or_else a b = (case a of None \<Rightarrow> b | Some s \<Rightarrow> if s = [] then b else s)"

definition modbus_outs ::
    "('f, 'x) float_ops_scheme \<Rightarrow> ('f, 'm) source_env_scheme \<Rightarrow> string \<Rightarrow> modbus_message \<Rightarrow> source_client \<Rightarrow>
     'f source_out list" where
  "modbus_outs F E d m st =
     (let modbus_device = or_else (dict_get (sc_gateways st) d) d in
      case known_registers E modbus_device of
        None \<Rightarrow> []
      | Some known \<Rightarrow>
          if msg_function m = READ_SINGLE_REGISTER
          then (let values = List.map_filter (holding_value_of F m) (holding_registers known)
                in if values = [] then [] else [OnHolding \<lparr>hin_device = modbus_device, hin_payload = values\<rparr>])
          else if msg_function m = READ_INPUT_REGISTER
          then (case input_values F m (input_registers known) of
              None \<Rightarrow> []
            | Some values \<Rightarrow>
                if values = [] then [] else [OnInput \<lparr>ist_device = modbus_device, ist_payload = values\<rparr>])
          else [])"

definition handle_modbus ::
    "('f, 'x) float_ops_scheme \<Rightarrow> ('f, 'm) source_env_scheme \<Rightarrow> string \<Rightarrow> bytes \<Rightarrow> source_client \<Rightarrow>
     'f source_out list" where
  "handle_modbus F E d dat st =
     (case message_parse dat of None \<Rightarrow> [] | Some m \<Rightarrow> modbus_outs F E d m st)"

section \<open>Routing\<close>

definition is_config_length :: "int \<Rightarrow> bool" where
  "is_config_length n \<longleftrightarrow> n = 340 \<or> n = 341 \<or> n = 387"

definition handle_noah_or_modbus ::
    "('f, 'x) float_ops_scheme \<Rightarrow> ('f, 'm) source_env_scheme \<Rightarrow> string \<Rightarrow> bytes \<Rightarrow> source_client \<Rightarrow>
     'f source_out list" where
  "handle_noah_or_modbus F E d dat st =
     (case parse_noah_message dat of
        Some (Noah0103 dev words) \<Rightarrow> []
      | Some (NoahFE19 dev subtype config tlv_offset) \<Rightarrow>
          if uses_noah_protocol d \<and> config_device_id config \<notin> {None, Some []}
          then [OnConfig d config] else handle_modbus F E d dat st
      | _ \<Rightarrow> handle_modbus F E d dat st)"

definition route_device_message ::
    "('f, 'x) float_ops_scheme \<Rightarrow> ('f, 'm) source_env_scheme \<Rightarrow> string \<Rightarrow> bytes \<Rightarrow> source_client \<Rightarrow>
     source_client \<times> 'f source_out list" where
  "route_device_message F E d dat st =
     (case (u16_at dat 4, u16_at dat 6) of
        (Some msg_type_4, Some msg_type) \<Rightarrow>
          if is_config_length msg_type_4 \<or> msg_type = 0x0129 then handle_config E d dat msg_type st
          else if msg_type = 281 then handle_config_response E dat st
          else if msg_type = 280 then handle_config_ack E dat st
          else if msg_type = 0x6F64 then
            (case parse_noah_6f64 dat of
               Noah6F64 dev meter ts n json_text \<Rightarrow> (st, [OnSmartMeter dev json_text])
             | _ \<Rightarrow> (st, []))
          else (st, handle_noah_or_modbus F E d dat st)
      | _ \<Rightarrow> (st, []))"

text \<open>A device packet goes to the cloud over a connection of its own, opened when first needed.\<close>

definition publish_to_growatt_server ::
    "('f, 'm) source_env_scheme \<Rightarrow> string \<Rightarrow> mqtt_message \<Rightarrow> source_client \<Rightarrow>
     source_client \<times> 'f source_out list" where
  "publish_to_growatt_server E d msg st =
     (if d \<in> sc_forward st then (st, [ToCloud d (mm_topic msg) (mm_payload msg)])
      else if sv_connect_ok E d
      then (st\<lparr>sc_forward := insert d (sc_forward st)\<rparr>, [ToCloud d (mm_topic msg) (mm_payload msg)])
      else (st, []))"

definition forwarded_by_us :: "mqtt_message \<Rightarrow> bool" where
  "forwarded_by_us msg \<longleftrightarrow> get_property (mm_properties msg) ''forwarded-for'' \<in> {Some ''ha'', Some ''growatt''}"

definition on_message ::
    "('f, 'x) float_ops_scheme \<Rightarrow> ('f, 'm) source_env_scheme \<Rightarrow> mqtt_message \<Rightarrow> source_client \<Rightarrow>
     source_client \<times> 'f source_out list" where
  "on_message F E msg st =
     (let d = extract_device_id (mm_topic msg) in
      if sc_stopped st \<or> forwarded_by_us msg \<or> d = [] then (st, [])
      else (let (st1, cloud) = (if allows_device (sv_policy E) d then publish_to_growatt_server E d msg st else (st, []));
                dat = unscramble (mm_payload msg);
                (st2, outs) = (if length dat < 8 then (st1, []) else route_device_message F E d dat st1)
            in (st2, cloud @ outs)))"

text \<open>A packet of the cloud for a device.\<close>

definition on_cloud_message ::
    "('f, 'm) source_env_scheme \<Rightarrow> mqtt_message \<Rightarrow> source_client \<Rightarrow> 'f source_out list" where
  "on_cloud_message E msg st =
     (let d = extract_device_id (mm_topic msg); dat = unscramble (mm_payload msg) in
      if sc_stopped st \<or> d = [] \<or> length dat < 8 \<or> \<not> allows_device (sv_policy E) d then []
      else (case u16_at dat 6 of
          None \<Rightarrow> []
        | Some msg_type \<Rightarrow>
            if should_block_cloud_message (sv_policy E) msg_type then []
            else [ToDevice (hd (split_on (CHR ''/'') (mm_topic msg)) @ ''/33/'' @ d) (mm_payload msg)]))"

section \<open>Commands to a device\<close>

text \<open>A command to a gateway goes to the inverter behind it, once that is known.\<close>

definition command_target :: "function_single \<Rightarrow> source_client \<Rightarrow> string option" where
  "command_target cmd st =
     (if is_gateway (fs_device_id cmd)
      then (case dict_get (sc_gateways st) (fs_device_id cmd) of
          Some e \<Rightarrow> if e = [] then None else Some e | None \<Rightarrow> None)
      else Some (fs_device_id cmd))"

definition send_command ::
    "(bytes \<Rightarrow> int) \<Rightarrow> function_single \<Rightarrow> source_client \<Rightarrow> (string \<times> bytes) option py" where
  "send_command crc cmd st =
     (case command_target cmd st of
        None \<Rightarrow> Inr None
      | Some d \<Rightarrow>
          bindE (single_build (cmd\<lparr>fs_device_id := d\<rparr>)) (\<lambda>b.
          bindE (append_crc crc (scramble b)) (\<lambda>packet. Inr (Some (''s/33/'' @ d, packet)))))"

section \<open>The machine\<close>

definition stop_source :: "source_client \<Rightarrow> source_client" where
  "stop_source st =
     (if sc_stopped st then st
      else st\<lparr>sc_stopped := True, sc_forward := {}, sc_writes := stop_writes (sc_writes st)\<rparr>)"

text \<open>What changes the client: messages of devices, the steps of configuration writes, a stop.\<close>

datatype 'f source_event =
    DeviceMessage "'f source_env" mqtt_message
  | WriteStep write_event
  | SourceStopped

fun source_step :: "('f, 'x) float_ops_scheme \<Rightarrow> source_client \<Rightarrow> 'f source_event \<Rightarrow> source_client" where
  "source_step F st (DeviceMessage E msg) = fst (on_message F E msg st)"
| "source_step F st (WriteStep w) = st\<lparr>sc_writes := writes_step (sc_writes st) w\<rparr>"
| "source_step F st SourceStopped = stop_source st"

definition new_source :: source_client where
  "new_source = \<lparr>sc_gateways = [], sc_gateway_dirty = {}, sc_forward = {}, sc_writes = no_writes, sc_stopped = False\<rparr>"

definition source_ok :: "source_client \<Rightarrow> bool" where
  "source_ok st \<longleftrightarrow>
     (\<forall>g e. dict_get (sc_gateways st) g = Some e \<longrightarrow> is_gateway g \<and> prefix ''PTQ'' e) \<and>
     (\<forall>g \<in> sc_gateway_dirty st. dict_get (sc_gateways st) g \<noteq> None) \<and>
     writes_ok (sc_writes st)"

lemma remember_gateway_ok: "source_ok st \<Longrightarrow> source_ok (remember_gateway p s g e st)"
  by (auto simp: source_ok_def remember_gateway_def Let_def split: option.splits)

lemma remember_gateway_same:
  "sc_stopped (remember_gateway p s g e st) = sc_stopped st"
  "sc_forward (remember_gateway p s g e st) = sc_forward st"
  "sc_writes (remember_gateway p s g e st) = sc_writes st"
  by (auto simp: remember_gateway_def Let_def split: option.splits)

lemma handle_config_ok: "source_ok st \<Longrightarrow> source_ok (fst (handle_config E d dat mt st))"
  by (simp add: handle_config_def Let_def remember_gateway_ok)

lemma handle_config_response_state: "fst (handle_config_response E dat st) = st"
  by (simp add: handle_config_response_def split: sum.splits)

lemma handle_config_ack_ok: "source_ok st \<Longrightarrow> source_ok (fst (handle_config_ack E dat st))"
  by (auto simp: handle_config_ack_def source_ok_def Let_def ack_ok split: sum.splits)

lemma route_device_message_ok: "source_ok st \<Longrightarrow> source_ok (fst (route_device_message F E d dat st))"
  by (auto simp: route_device_message_def handle_config_ok handle_config_response_state handle_config_ack_ok
      split: option.splits noah_message.splits)

lemma publish_to_growatt_server_ok: "source_ok st \<Longrightarrow> source_ok (fst (publish_to_growatt_server E d msg st))"
  by (simp add: publish_to_growatt_server_def source_ok_def)

lemma on_message_state:
  "fst (on_message F E msg st) =
   (let d = extract_device_id (mm_topic msg); dat = unscramble (mm_payload msg);
        st1 = (if allows_device (sv_policy E) d then fst (publish_to_growatt_server E d msg st) else st)
    in if sc_stopped st \<or> forwarded_by_us msg \<or> d = [] then st
       else if length dat < 8 then st1 else fst (route_device_message F E d dat st1))"
  by (simp add: on_message_def Let_def split: prod.splits)

lemma on_message_ok: "source_ok st \<Longrightarrow> source_ok (fst (on_message F E msg st))"
  by (simp add: on_message_state Let_def route_device_message_ok publish_to_growatt_server_ok)

lemma source_step_ok: "source_ok st \<Longrightarrow> source_ok (source_step F st ev)"
proof (induction F st ev rule: source_step.induct)
  case (2 F st w)
  then show ?case by (simp add: source_ok_def writes_step_ok)
next
  case (3 F st)
  then show ?case by (simp add: source_ok_def stop_source_def) (simp add: writes_ok_def stop_writes_def)
qed (simp add: on_message_ok)

interpretation sources: step_machine "source_step F" source_ok for F
  by unfold_locales (rule source_step_ok)

lemma restored_ok: "source_ok (restore_gateways found new_source)"
proof -
  have new: "source_ok new_source" by (simp add: source_ok_def new_source_def no_writes_ok)
  have "source_ok st \<Longrightarrow> source_ok (restore_gateways found st)" for st
    by (induction found arbitrary: st) (auto simp: restore_gateways_def remember_gateway_ok)
  then show ?thesis using new by simp
qed

lemma source_run_ok: "source_ok (foldl (source_step F) (restore_gateways found new_source) events)"
  by (rule sources.run_inv [OF restored_ok])

section \<open>Outputs\<close>

lemma on_message_outs:
  "snd (on_message F E msg st) =
   (let d = extract_device_id (mm_topic msg); dat = unscramble (mm_payload msg);
        (st1, cloud) = (if allows_device (sv_policy E) d then publish_to_growatt_server E d msg st else (st, []))
    in if sc_stopped st \<or> forwarded_by_us msg \<or> d = [] then []
       else cloud @ (if length dat < 8 then [] else snd (route_device_message F E d dat st1)))"
  by (simp add: on_message_def Let_def split: prod.splits)

text \<open>What the outputs to Home Assistant may be: nothing for the cloud, and a password register that is read back
  comes as an empty value.\<close>

definition local_out :: "'f source_out \<Rightarrow> bool" where
  "local_out out =
     (case out of
        ToCloud d topic payload \<Rightarrow> False
      | ToDevice topic payload \<Rightarrow> False
      | OnConfigValue d register_no v retain \<Rightarrow> if register_no = 7 then v = VStr [] \<and> retain else True
      | _ \<Rightarrow> True)"

lemma local_metadata: "list_all local_out (metadata_outs E st d register v)"
  by (simp add: metadata_outs_def local_out_def Let_def split: option.splits prod.splits)

lemma local_entry: "list_all local_out (config_entry_outs E st d entry)"
  by (simp add: config_entry_outs_def Let_def local_metadata) (simp add: local_out_def)

lemma local_response: "list_all local_out (snd (handle_config_response E dat st))"
  by (auto simp: handle_config_response_def list_all_iff split: sum.splits
      dest: local_entry [unfolded list_all_iff, rule_format])

lemma local_config: "list_all local_out (snd (handle_config E d dat mt st))"
  by (simp add: handle_config_def Let_def local_out_def)

lemma local_modbus: "list_all local_out (handle_modbus F E d dat st)"
  by (auto simp: handle_modbus_def modbus_outs_def local_out_def Let_def split: option.splits)

lemma local_noah_or_modbus: "list_all local_out (handle_noah_or_modbus F E d dat st)"
  using local_modbus
  by (auto simp: handle_noah_or_modbus_def local_out_def split: option.splits noah_message.splits)

lemma local_route: "list_all local_out (snd (route_device_message F E d dat st))"
proof -
  have "snd (handle_config_ack E dat st) = []"
    by (simp add: handle_config_ack_def Let_def split: sum.splits)
  then show ?thesis
    using local_response local_config local_noah_or_modbus
    by (auto simp: route_device_message_def local_out_def split: option.splits noah_message.splits)
qed

lemma local_facts:
  assumes "list_all local_out outs"
  shows "filter (\<lambda>out. case out of ToCloud d topic payload \<Rightarrow> True | _ \<Rightarrow> False) outs = []"
    and "list_all (\<lambda>out. case out of
        OnConfigValue d register_no v retain \<Rightarrow> if register_no = 7 then v = VStr [] \<and> retain else True
      | _ \<Rightarrow> True) outs"
  using assms by (induction outs) (auto simp: local_out_def split: source_out.splits)

lemma remember_forward [simp]: "sc_forward (remember_gateway persist ok g e st) = sc_forward st"
  by (simp add: remember_gateway_def Let_def split: option.split)

lemma route_forward: "sc_forward (fst (route_device_message F E d dat st)) = sc_forward st"
proof -
  have "sc_forward (fst (handle_config_response E dat st)) = sc_forward st"
    "sc_forward (fst (handle_config_ack E dat st)) = sc_forward st"
    by (simp_all add: handle_config_response_def handle_config_ack_def Let_def split: sum.split)
  moreover have "sc_forward (fst (handle_config E d dat mt st)) = sc_forward st" for mt
    by (simp add: handle_config_def Let_def)
  ultimately show ?thesis by (simp add: route_device_message_def split: option.split noah_message.split)
qed

lemma header_type_plain: "u16_at (unscramble pkt) 6 = u16_at pkt 6"
proof (cases "8 \<le> length pkt")
  case True
  then show ?thesis by (simp add: u16_at_def unscramble_def scramble_nth)
qed (simp add: u16_at_def unscramble_def)

section \<open>A data packet\<close>

lemma header_bytes_type:
  assumes "valid_message m"
  shows "u16_at (header_bytes m @ rest) 4 = Some (msg_len m)"
    and "u16_at (header_bytes m @ rest) 6 = Some (256 + fn_code (msg_function m))"
proof -
  have n: "0 \<le> msg_len m" "msg_len m \<le> 65535"
    using msg_len_body [OF assms] assms by (simp_all add: valid_message_def)
  show "u16_at (header_bytes m @ rest) 4 = Some (msg_len m)"
    using n by (simp add: header_bytes_def wire_reads)
  have "uint (word_of_int (fn_code (msg_function m)) :: byte) = fn_code (msg_function m)"
    using fn_code_byte by (rule uint_word_of_int_byte)
  moreover have "int (length (be16 (msg_unknown m) @ be16 7 @ be16 (msg_len m))) = 6" by simp
  ultimately show "u16_at (header_bytes m @ rest) 6 = Some (256 + fn_code (msg_function m))"
    using u16_at_append [of 6 "be16 (msg_unknown m) @ be16 7 @ be16 (msg_len m)" 1
        "word_of_int (fn_code (msg_function m))" "serial_field (msg_device_id m) @ rest"]
    by (simp add: header_bytes_def un16_def)
qed

lemma route_data_message:
  assumes "valid_message m" "msg_function m = READ_INPUT_REGISTER \<or> msg_function m = READ_SINGLE_REGISTER"
    and "length t = 2" "\<not> is_config_length (msg_len m)"
  shows "route_device_message F E d (header_bytes m @ body_bytes m @ t) st = (st, modbus_outs F E d m st)"
proof -
  let ?dat = "header_bytes m @ body_bytes m @ t"
  have code: "fn_code (msg_function m) = 4 \<or> fn_code (msg_function m) = 5" using assms(2) by auto
  have t4: "u16_at ?dat 4 = Some (msg_len m)" and t6: "u16_at ?dat 6 = Some (256 + fn_code (msg_function m))"
    using header_bytes_type [OF assms(1), of "body_bytes m @ t"] by simp_all
  have "dict_get noah_decoders (256 + fn_code (msg_function m)) = None"
    using code by (auto simp: noah_decoders_def)
  then have "parse_noah_message ?dat = None" by (simp add: parse_noah_message_def t6)
  moreover have "message_parse ?dat = Some m" using message_parse_built [OF assms(1), of t] assms(3) by simp
  ultimately have h: "handle_noah_or_modbus F E d ?dat st = modbus_outs F E d m st"
    by (simp add: handle_noah_or_modbus_def handle_modbus_def)
  have ns: "256 + fn_code (msg_function m) \<noteq> 297" "256 + fn_code (msg_function m) \<noteq> 281"
    "256 + fn_code (msg_function m) \<noteq> 280" "256 + fn_code (msg_function m) \<noteq> 28516"
    using code by auto
  show ?thesis unfolding route_device_message_def t4 t6 using assms(4) ns h by simp
qed

lemma route_long_data_message:
  assumes "valid_message m" "is_config_length (msg_len m)"
  shows "route_device_message F E d (header_bytes m @ body_bytes m @ t) st =
    handle_config E d (header_bytes m @ body_bytes m @ t) (256 + fn_code (msg_function m)) st"
proof -
  have "u16_at (header_bytes m @ body_bytes m @ t) 4 = Some (msg_len m)"
    "u16_at (header_bytes m @ body_bytes m @ t) 6 = Some (256 + fn_code (msg_function m))"
    using header_bytes_type [OF assms(1), of "body_bytes m @ t"] by simp_all
  then show ?thesis using assms(2) by (simp add: route_device_message_def)
qed

lemma modbus_outs_gateways: "sc_gateways st' = sc_gateways st \<Longrightarrow> modbus_outs F E d m st' = modbus_outs F E d m st"
  by (simp add: modbus_outs_def)

lemma publish_gateways: "sc_gateways (fst (publish_to_growatt_server E d msg st)) = sc_gateways st"
  by (simp add: publish_to_growatt_server_def)

lemma length_header_bytes: "8 \<le> length (header_bytes m)"
  by (simp add: header_bytes_def)

text \<open>The outputs that leave for Home Assistant.\<close>

definition home_outs :: "'f source_out list \<Rightarrow> 'f source_out list" where
  "home_outs = filter (\<lambda>out. case out of ToCloud d topic payload \<Rightarrow> False | _ \<Rightarrow> True)"

lemma home_outs_simps:
  "home_outs (xs @ ys) = home_outs xs @ home_outs ys"
  "home_outs (snd (publish_to_growatt_server E d msg st)) = []"
  by (simp_all add: home_outs_def publish_to_growatt_server_def)

lemma home_outs_local: "list_all local_out outs \<Longrightarrow> home_outs outs = outs"
  by (auto simp: home_outs_def filter_id_conv list_all_iff local_out_def split: source_out.splits)

lemma home_outs_on_message:
  "home_outs (snd (on_message F E msg st)) =
   (let d = extract_device_id (mm_topic msg); dat = unscramble (mm_payload msg)
    in if sc_stopped st \<or> forwarded_by_us msg \<or> d = [] \<or> length dat < 8 then []
       else snd (route_device_message F E d dat
         (if allows_device (sv_policy E) d then fst (publish_to_growatt_server E d msg st) else st)))"
proof -
  obtain st1 cloud where p: "publish_to_growatt_server E (extract_device_id (mm_topic msg)) msg st = (st1, cloud)"
    by fastforce
  then have "home_outs cloud = []" by (metis home_outs_simps(2) snd_conv)
  then show ?thesis
    using p by (simp add: on_message_outs Let_def home_outs_simps(1) home_outs_local [OF local_route])
      (simp add: home_outs_def)
qed

lemma modbus_local: "list_all local_out (modbus_outs F E d m st)"
  by (auto simp: modbus_outs_def local_out_def Let_def split: option.splits)

lemma data_packet_outs:
  assumes "valid_message m" "msg_function m = READ_INPUT_REGISTER \<or> msg_function m = READ_SINGLE_REGISTER"
    and "message_build m = Inr b" "length t = 2" "mm_payload msg = scramble (b @ t)"
    and "\<not> is_config_length (msg_len m)" "extract_device_id (mm_topic msg) \<noteq> []"
    and "\<not> forwarded_by_us msg" "\<not> sc_stopped st"
  shows "home_outs (snd (on_message F E msg st)) = modbus_outs F E (extract_device_id (mm_topic msg)) m st"
proof -
  let ?d = "extract_device_id (mm_topic msg)"
  let ?st = "if allows_device (sv_policy E) ?d then fst (publish_to_growatt_server E ?d msg st) else st"
  have dat: "unscramble (mm_payload msg) = header_bytes m @ body_bytes m @ t"
    using assms(3,5) message_build_valid [OF assms(1)] by (simp add: unscramble_def)
  have "home_outs (snd (on_message F E msg st)) = snd (route_device_message F E ?d (header_bytes m @ body_bytes m @ t) ?st)"
    using assms(7-9) length_header_bytes [of m] by (simp add: home_outs_on_message dat Let_def)
  also have "\<dots> = modbus_outs F E ?d m ?st" by (simp add: route_data_message [OF assms(1,2,4,6)])
  also have "\<dots> = modbus_outs F E ?d m st" by (rule modbus_outs_gateways) (simp add: publish_gateways)
  finally show ?thesis .
qed

section \<open>Properties\<close>

text \<open>A well-formed data message of a device, built, given a two-byte trailer, scrambled and
  published under any topic that names a device, reaches Home Assistant as exactly the registers of the
  device's map that the message carries, provided its length field is none of the three that mark a
  configuration packet.\<close>

theorem data_packet_delivered:
  assumes "valid_message m" "msg_function m = READ_INPUT_REGISTER \<or> msg_function m = READ_SINGLE_REGISTER"
    and "message_build m = Inr b" "length t = 2" "mm_payload msg = scramble (b @ t)"
    and "\<not> is_config_length (msg_len m)" "extract_device_id (mm_topic msg) \<noteq> []"
    and "\<not> forwarded_by_us msg" "\<not> sc_stopped st"
  shows "home_outs (snd (on_message F E msg st)) = modbus_outs F E (extract_device_id (mm_topic msg)) m st"
  using assms by (rule data_packet_outs)

definition sample_message :: modbus_message where
  "sample_message =
     \<lparr>msg_unknown = 1, msg_device_id = ''QMN1'', msg_metadata = None, msg_function = READ_SINGLE_REGISTER,
      msg_blocks = [\<lparr>blk_start = 3, blk_end = 3, blk_values = [0, 7]\<rparr>], msg_write_ack = None\<rparr>"

definition sample_holding :: ha_holding_register where
  "sample_holding =
     \<lparr>hh_name = ''Limit'', hh_publish = True, hh_type = ''number'', hh_min = None, hh_max = None,
      hh_step = None, hh_state_class = None, hh_device_class = None, hh_unit = None, hh_icon = None,
      hh_options = None\<rparr>"

definition sample_source_env :: "int source_env" where
  "sample_source_env =
     \<lparr>sv_policy = \<lparr>cp_enabled = False, cp_allowlist = {}, cp_block_config = True\<rparr>,
      sv_maps = (\<lambda>k. \<lparr>input_registers = [],
         holding_registers = [(''limit'', \<lparr>hr_growatt = Some \<lparr>gr_position = \<lparr>pos_register = 3, pos_offset = 0, pos_size = 2\<rparr>,
           gr_data = \<lparr>rd_type = DT_INT, rd_float_options = None, rd_enum_options = None, rd_mult = None\<rparr>\<rparr>,
           hr_ha = sample_holding\<rparr>)],
         config_registers = []\<rparr>),
      sv_raises = (\<lambda>out. False), sv_connect_ok = (\<lambda>d. True), sv_save_ok = True\<rparr>"

theorem data_packet_delivered_witness:
  "\<exists>b. message_build sample_message = Inr b \<and>
     home_outs (snd (on_message whole_floats sample_source_env
       \<lparr>mm_topic = ''c/QMN1'', mm_payload = scramble (b @ [1, 2]), mm_properties = []\<rparr> new_source)) =
     [OnHolding \<lparr>hin_device = ''QMN1'',
        hin_payload = [\<lparr>hv_name = ''limit'', hv_value = VInt 7, hv_register = sample_holding\<rparr>]\<rparr>]"
proof -
  have valid: "valid_message sample_message" and f: "msg_function sample_message = READ_SINGLE_REGISTER"
    and len: "\<not> is_config_length (msg_len sample_message)" by code_simp+
  obtain b where b: "message_build sample_message = Inr b" using message_build_valid [OF valid] by blast
  have d: "extract_device_id ''c/QMN1'' = ''QMN1''" by code_simp
  have outs: "modbus_outs whole_floats sample_source_env ''QMN1'' sample_message new_source =
     [OnHolding \<lparr>hin_device = ''QMN1'',
        hin_payload = [\<lparr>hv_name = ''limit'', hv_value = VInt 7, hv_register = sample_holding\<rparr>]\<rparr>]"
    by code_simp
  have "\<not> sc_stopped new_source" by (simp add: new_source_def)
  then show ?thesis
    using data_packet_delivered [OF valid disjI2 [OF f] b, of "[1, 2]"
        "\<lparr>mm_topic = ''c/QMN1'', mm_payload = scramble (b @ [1, 2]), mm_properties = []\<rparr>" new_source
        whole_floats sample_source_env] len b d outs
    by (simp add: forwarded_by_us_def)
qed

text \<open>The length field decides first: a well-formed data message whose length field is 340, 341 or 387
  is taken for a configuration packet, and none of its register values reaches Home Assistant.\<close>

theorem long_data_packet_misrouted:
  assumes "valid_message m" "is_config_length (msg_len m)" "message_build m = Inr b"
    and "mm_payload msg = scramble (b @ t)"
  shows "list_all (\<lambda>out. case out of OnInput s \<Rightarrow> False | OnHolding s \<Rightarrow> False | _ \<Rightarrow> True)
    (home_outs (snd (on_message F E msg st)))"
proof -
  let ?p = "\<lambda>out. case out of OnInput s \<Rightarrow> False | OnHolding s \<Rightarrow> False | _ \<Rightarrow> True"
  have dat: "unscramble (mm_payload msg) = header_bytes m @ body_bytes m @ t"
    using assms(3,4) message_build_valid [OF assms(1)] by (simp add: unscramble_def)
  have "list_all ?p (snd (handle_config E d dat' mt st'))" for d dat' mt st'
    by (simp add: handle_config_def Let_def)
  then show ?thesis
    by (simp add: home_outs_on_message dat Let_def route_long_data_message [OF assms(1,2)])
qed

definition long_message :: modbus_message where
  "long_message = sample_message\<lparr>msg_blocks := [\<lparr>blk_start = 0, blk_end = 151, blk_values = replicate 304 0\<rparr>]\<rparr>"

theorem long_data_packet_misrouted_witness:
  "\<exists>b. message_build long_message = Inr b \<and>
     list_all (\<lambda>out. case out of OnInput s \<Rightarrow> False | OnHolding s \<Rightarrow> False | _ \<Rightarrow> True)
       (home_outs (snd (on_message whole_floats sample_source_env
         \<lparr>mm_topic = ''c/QMN1'', mm_payload = scramble (b @ [1, 2]), mm_properties = []\<rparr> new_source)))"
proof -
  have "valid_message long_message" "is_config_length (msg_len long_message)" by code_simp+
  moreover from this(1) obtain b where "message_build long_message = Inr b" using message_build_valid by blast
  ultimately show ?thesis
    using long_data_packet_misrouted [of long_message b
        "\<lparr>mm_topic = ''c/QMN1'', mm_payload = scramble (b @ [1, 2]), mm_properties = []\<rparr>" "[1, 2]"
        whole_floats sample_source_env new_source] by auto
qed

text \<open>C9: What one message of a device makes the program send to the cloud: the packet itself, unchanged, once,
  exactly when the program runs, did not forward the message itself, can name the device, the policy allows
  the device and its cloud connection is open or can be opened; otherwise nothing. The connections that are
  open afterwards are those from before and the one that was used. A message that is forwarded by the
  program itself, or comes when it has stopped, has no effect. In the answer to a read, the register 7 (the
  password) is reported only as an empty retained value.\<close>

theorem device_message_outputs:
  "let d = extract_device_id (mm_topic msg); (st', outs) = on_message F E msg st;
       relevant = (\<not> sc_stopped st \<and> \<not> forwarded_by_us msg \<and> d \<noteq> []);
       to_cloud = (relevant \<and> allows_device (sv_policy E) d \<and> (d \<in> sc_forward st \<or> sv_connect_ok E d))
   in filter (\<lambda>out. case out of ToCloud d' topic payload \<Rightarrow> True | _ \<Rightarrow> False) outs =
        (if to_cloud then [ToCloud d (mm_topic msg) (mm_payload msg)] else []) \<and>
      sc_forward st' = sc_forward st \<union> (if to_cloud then {d} else {}) \<and>
      (if relevant then True else (st', outs) = (st, [])) \<and>
      list_all (\<lambda>out. case out of
          OnConfigValue d' register_no v retain \<Rightarrow> if register_no = 7 then v = VStr [] \<and> retain else True
        | _ \<Rightarrow> True) outs"
proof -
  let ?d = "extract_device_id (mm_topic msg)"
  obtain st1 cloud where p: "(if allows_device (sv_policy E) ?d then publish_to_growatt_server E ?d msg st else (st, [])) = (st1, cloud)"
    by fastforce
  have cloud: "cloud = (if allows_device (sv_policy E) ?d \<and> (?d \<in> sc_forward st \<or> sv_connect_ok E ?d)
      then [ToCloud ?d (mm_topic msg) (mm_payload msg)] else [])"
    "sc_forward st1 = sc_forward st \<union>
      (if allows_device (sv_policy E) ?d \<and> (?d \<in> sc_forward st \<or> sv_connect_ok E ?d) then {?d} else {})"
    using p by (auto simp: publish_to_growatt_server_def split: if_splits)
  obtain st2 outs where r: "(if length (unscramble (mm_payload msg)) < 8 then (st1, [])
      else route_device_message F E ?d (unscramble (mm_payload msg)) st1) = (st2, outs)" by fastforce
  have outs: "list_all local_out outs" "sc_forward st2 = sc_forward st1"
    using local_route [of F E ?d "unscramble (mm_payload msg)" st1] route_forward [of F E ?d "unscramble (mm_payload msg)" st1] r
    by (auto split: if_splits)
  have om: "on_message F E msg st =
      (if sc_stopped st \<or> forwarded_by_us msg \<or> ?d = [] then (st, []) else (st2, cloud @ outs))"
    by (simp add: on_message_def p r Let_def)
  show ?thesis
    using cloud outs local_facts [OF outs(1)] by (simp add: om Let_def)
qed

text \<open>C29: A cloud packet passes to the device unchanged, under the topic of that device, only if the
  policy allows the device; with blocking on, no configuration packet (0x0118 or 0x0110 in the
  unscrambled header) passes.\<close>

theorem cloud_message_gate:
  "list_all (\<lambda>out. case out of
       ToDevice topic payload \<Rightarrow>
         payload = mm_payload msg \<and>
         topic = hd (split_on (CHR ''/'') (mm_topic msg)) @ ''/33/'' @ extract_device_id (mm_topic msg) \<and>
         allows_device (sv_policy E) (extract_device_id (mm_topic msg)) \<and> \<not> sc_stopped st \<and>
         (if cp_block_config (sv_policy E) then u16_at payload 6 \<notin> {Some 0x0118, Some 0x0110} else True)
     | _ \<Rightarrow> False)
   (on_cloud_message E msg st)"
  by (auto simp: on_cloud_message_def Let_def header_type_plain should_block_cloud_message_def split: option.splits)

text \<open>Every register of a read response is reported back once, in order, whatever the callbacks do:
  that is what advances the queue of configuration reads.\<close>

theorem response_advances_reads:
  "List.map_filter (\<lambda>out. case out of OnReadResponse d r \<Rightarrow> Some (d, r) | _ \<Rightarrow> None)
     (snd (handle_config_response E dat st)) =
   (case parse_config_message dat of
      Inl e \<Rightarrow> []
    | Inr cfg \<Rightarrow> map (\<lambda>entry. (cm_device_id cfg, ce_register entry)) (cm_entries cfg))"
proof -
  let ?f = "\<lambda>out. case out of OnReadResponse d r \<Rightarrow> Some (d, r) | _ \<Rightarrow> None"
  have append: "List.map_filter ?f (xs @ ys) = List.map_filter ?f xs @ List.map_filter ?f ys" for xs ys
    by (simp add: List.map_filter_def)
  have meta: "List.map_filter ?f (metadata_outs E st d register v) = []" for d register v
    by (auto simp: metadata_outs_def List.map_filter_def Let_def split: option.splits prod.splits)
  have entry: "List.map_filter ?f (config_entry_outs E st d entry) = [(d, ce_register entry)]" for d entry
    by (simp add: config_entry_outs_def Let_def append meta)
  have "List.map_filter ?f (concat (map (config_entry_outs E st d) entries)) =
      map (\<lambda>entry. (d, ce_register entry)) entries" for d entries
    by (induction entries) (simp_all add: append entry)
  moreover have "List.map_filter ?f [] = []" by (simp add: List.map_filter_def)
  ultimately show ?thesis by (simp add: handle_config_response_def split: sum.splits)
qed

text \<open>C14: Whatever files were restored and whatever happened since, a command that is sent never goes to a
  gateway itself; it goes to the topic of one device, and its packet, unscrambled, is that command
  addressed to that device.\<close>

theorem command_reaches_inverter:
  "let st = foldl (source_step F) (restore_gateways found new_source) events in
   case send_command crc cmd st of
     Inr (Some (topic, packet)) \<Rightarrow>
       (\<exists>d. topic = ''s/33/'' @ d \<and> \<not> is_gateway d \<and>
         (if is_gateway (fs_device_id cmd) then dict_get (sc_gateways st) (fs_device_id cmd) = Some d \<and> prefix ''PTQ'' d
          else d = fs_device_id cmd) \<and>
         (if valid_single (cmd\<lparr>fs_device_id := d\<rparr>)
          then single_parse (unscramble packet) = Some (cmd\<lparr>fs_device_id := d\<rparr>) else True))
   | _ \<Rightarrow> True"
proof -
  let ?st = "foldl (source_step F) (restore_gateways found new_source) events"
  have ok: "dict_get (sc_gateways ?st) g = Some e \<Longrightarrow> is_gateway g \<and> prefix ''PTQ'' e" for g e
    using source_run_ok [of F found events] by (simp add: source_ok_def)
  have ptq: "prefix ''PTQ'' e \<Longrightarrow> \<not> is_gateway e" for e
    by (auto simp: gateway_prefix prefix_def)
  show ?thesis
  proof (cases "command_target cmd ?st")
    case (Some d)
    have d: "\<not> is_gateway d \<and> (if is_gateway (fs_device_id cmd)
        then dict_get (sc_gateways ?st) (fs_device_id cmd) = Some d \<and> prefix ''PTQ'' d else d = fs_device_id cmd)"
      using Some ok ptq by (auto simp: command_target_def split: option.splits if_splits)
    show ?thesis
    proof (cases "send_command crc cmd ?st")
      case (Inr r)
      then obtain b packet where b: "single_build (cmd\<lparr>fs_device_id := d\<rparr>) = Inr b"
        "append_crc crc (scramble b) = Inr packet" "r = Some (''s/33/'' @ d, packet)"
        using Some by (auto simp: send_command_def bindE_Inr_iff)
      have "single_parse (unscramble packet) = Some (cmd\<lparr>fs_device_id := d\<rparr>)"
        if v: "valid_single (cmd\<lparr>fs_device_id := d\<rparr>)"
      proof -
        have bytes: "b = single_bytes (cmd\<lparr>fs_device_id := d\<rparr>)" using single_build_valid [OF v] b(1) by simp
        then have len: "8 \<le> length (scramble b)" by (simp add: single_bytes_def command_bytes_def)
        obtain t where t: "packet = scramble b @ t" "length t = 2"
          using b(2) by (auto simp: append_crc_def bindE_Inr_iff pack_H_Inr_iff)
        have "unscramble packet = b @ drop (length b) (unscramble packet)"
          using scramble_append_tail [OF len, of t] t(1)
          by (metis append_take_drop_id length_scramble scramble_scramble unscramble_def)
        moreover have "length (drop (length b) (unscramble packet)) = 2" using t by (simp add: unscramble_def)
        ultimately show ?thesis using single_parse_bytes [OF v, of "drop (length b) (unscramble packet)"] bytes by simp
      qed
      then show ?thesis using d Inr b(3) by auto
    qed simp
  qed (simp add: send_command_def)
qed

end
