(* ===== verification/Diagnostics.thy ===== *)
theory Diagnostics
  imports Prelude
begin

text \<open>
  \<open>grobro/grobro/diagnostic_io.py\<close>: diagnostic records are appended to a file that is rotated through
  three backups, after an incomplete last record was repaired; MQTT callbacks hand their records to one
  worker thread through a bounded queue.

  A string is the list of its UTF-8 bytes, so its length is the size the program counts. Whether bytes
  parse as JSON is the argument \<open>json_ok\<close>. The file operations succeed; a job whose write fails is an event
  of the worker.
\<close>

section \<open>The files\<close>

definition max_file_bytes :: nat where
  "max_file_bytes = 10 * 1024 * 1024"

definition chunk_bytes :: nat where
  "chunk_bytes = 8192"

definition backups :: nat where
  "backups = 3"

definition newline :: char where
  "newline = CHR 0x0A"

text \<open>The current file of a path and its backups \<open>.1\<close>, \<open>.2\<close>, \<open>.3\<close>.\<close>

record log_files =
  lf_current :: "string option"
  lf_backup :: "nat \<Rightarrow> string option"

text \<open>The bytes after the last newline, and those up to it.\<close>

definition after_newline :: "string \<Rightarrow> string" where
  "after_newline s = rev (takeWhile (\<lambda>c. c \<noteq> newline) (rev s))"

definition upto_newline :: "string \<Rightarrow> string" where
  "upto_newline s = rev (dropWhile (\<lambda>c. c \<noteq> newline) (rev s))"

text \<open>
  The search for the last newline reads the file backwards in chunks: the boundary found and the tail
  after it, unless that grew beyond the limit.
\<close>

function scan_tail :: "nat \<Rightarrow> nat \<Rightarrow> string \<Rightarrow> nat \<Rightarrow> string option \<Rightarrow> nat \<times> string option" where
  "scan_tail chunk limit s position tail =
     (if position = 0 then (0, tail)
      else (let start = position - Suc chunk;
                piece = take (position - start) (drop start s);
                extra = after_newline piece;
                longer = (case tail of
                    None \<Rightarrow> None
                  | Some t \<Rightarrow> if length extra + length t \<le> limit then Some (extra @ t) else None)
            in if newline \<in> set piece then (start + (length piece - length extra), longer)
               else scan_tail chunk limit s start longer))"
  by auto
termination by (relation "measure (\<lambda>(chunk, limit, s, position, tail). position)") auto

declare scan_tail.simps [simp del]

definition repair_incomplete_tail :: "(string \<Rightarrow> bool) \<Rightarrow> string \<Rightarrow> string" where
  "repair_incomplete_tail json_ok s =
     (if s = [] \<or> last s = newline then s
      else (let (boundary, tail) = scan_tail (chunk_bytes - 1) max_file_bytes s (length s) (Some [])
            in case tail of
                 Some t \<Rightarrow> if json_ok t then s @ [newline] else take boundary s
               | None \<Rightarrow> take boundary s))"

text \<open>\<open>str.splitlines(keepends=True)\<close>: the line boundaries of Python, the non-ASCII ones as UTF-8.\<close>

definition line_boundary :: "char \<Rightarrow> bool" where
  "line_boundary c \<longleftrightarrow> (let n = of_char c :: nat in (10 \<le> n \<and> n \<le> 13) \<or> (28 \<le> n \<and> n \<le> 30))"

text \<open>The length of the line boundary at the head, 0 when there is none.\<close>

definition boundary_length :: "string \<Rightarrow> nat" where
  "boundary_length s =
     (if prefix [CHR 0x0D, CHR 0x0A] s then 2
      else if prefix [CHR 0xC2, CHR 0x85] s then 2
      else if prefix [CHR 0xE2, CHR 0x80, CHR 0xA8] s \<or> prefix [CHR 0xE2, CHR 0x80, CHR 0xA9] s then 3
      else (case s of [] \<Rightarrow> 0 | c # _ \<Rightarrow> if line_boundary c then 1 else 0))"

function split_lines :: "string \<Rightarrow> string \<Rightarrow> string list" where
  "split_lines line s =
     (if s = [] then (if line = [] then [] else [line])
      else (let n = boundary_length s in
        if n > 0 then (line @ take n s) # split_lines [] (drop n s)
        else split_lines (line @ [hd s]) (tl s)))"
  by auto
termination by (relation "measure (\<lambda>(line, s). length s)") (auto simp: Let_def)

declare split_lines.simps [simp del]

text \<open>The oldest backup goes, the others move up, the current file becomes backup 1.\<close>

definition rotate_logs :: "log_files \<Rightarrow> log_files" where
  "rotate_logs fs =
     (let b0 = (lf_backup fs)(backups := None);
          b = foldl (\<lambda>b i. case b i of None \<Rightarrow> b | Some s \<Rightarrow> b(Suc i := Some s, i := None)) b0 [2, 1]
      in \<lparr>lf_current = None, lf_backup = b(1 := lf_current fs)\<rparr>)"

definition current_text :: "log_files \<Rightarrow> string" where
  "current_text fs = (case lf_current fs of None \<Rightarrow> [] | Some s \<Rightarrow> s)"

fun write_records :: "string list \<Rightarrow> nat \<Rightarrow> log_files \<Rightarrow> log_files" where
  "write_records [] existing fs = fs"
| "write_records (line # lines) existing fs =
     (if length line > max_file_bytes then write_records lines existing fs
      else if existing > 0 \<and> existing + length line > max_file_bytes
      then write_records lines (length line)
             ((rotate_logs fs)\<lparr>lf_current := Some (current_text (rotate_logs fs) @ line)\<rparr>)
      else write_records lines (existing + length line) (fs\<lparr>lf_current := Some (current_text fs @ line)\<rparr>))"

definition write_lines :: "(string \<Rightarrow> bool) \<Rightarrow> string \<Rightarrow> log_files \<Rightarrow> log_files" where
  "write_lines json_ok text_of fs =
     (let repaired = map_option (repair_incomplete_tail json_ok) (lf_current fs);
          existing = (case repaired of None \<Rightarrow> 0 | Some s \<Rightarrow> length s)
      in write_records (split_lines [] text_of) existing (fs\<lparr>lf_current := repaired\<rparr>))"

section \<open>Repair\<close>

lemma after_upto: "upto_newline s @ after_newline s = s"
proof -
  have "rev s = takeWhile (\<lambda>c. c \<noteq> newline) (rev s) @ dropWhile (\<lambda>c. c \<noteq> newline) (rev s)" by simp
  then have "rev (rev s) = rev (dropWhile (\<lambda>c. c \<noteq> newline) (rev s)) @ rev (takeWhile (\<lambda>c. c \<noteq> newline) (rev s))"
    by (metis rev_append)
  then show ?thesis by (simp add: after_newline_def upto_newline_def)
qed

lemma after_newline_append:
  "after_newline (xs @ ys) = (if newline \<in> set ys then after_newline ys else after_newline xs @ ys)"
  by (auto simp: after_newline_def takeWhile_append)

lemma after_newline_none: "newline \<notin> set s \<Longrightarrow> after_newline s = s"
  unfolding after_newline_def by (subst takeWhile_eq_all_conv [THEN iffD2]) auto

lemma length_after_newline: "length (after_newline s) \<le> length s"
  using length_takeWhile_le [of "\<lambda>c. c \<noteq> newline" "rev s"] by (simp add: after_newline_def)

lemma length_upto_newline: "length (upto_newline s) \<le> length s"
  using length_dropWhile_le [of "\<lambda>c. c \<noteq> newline" "rev s"] by (simp add: upto_newline_def)

lemma upto_newline_ends: "upto_newline s = [] \<or> last (upto_newline s) = newline"
proof (cases "dropWhile (\<lambda>c. c \<noteq> newline) (rev s)")
  case (Cons c cs)
  then have "c = newline" using hd_dropWhile [of "\<lambda>c. c \<noteq> newline" "rev s"] by simp
  then show ?thesis using Cons by (simp add: upto_newline_def)
qed (simp add: upto_newline_def)

text \<open>The chunked search finds what one look at the whole file finds.\<close>

lemma scan_tail_step:
  assumes "position \<noteq> 0" "start = position - Suc chunk" "piece = take (position - start) (drop start s)"
    and "longer = (case tail of None \<Rightarrow> None
      | Some t \<Rightarrow> if length (after_newline piece) + length t \<le> limit then Some (after_newline piece @ t) else None)"
  shows "scan_tail chunk limit s position tail =
    (if newline \<in> set piece then (start + (length piece - length (after_newline piece)), longer)
     else scan_tail chunk limit s start longer)"
proof -
  have "(position = 0) = False" using assms(1) by simp
  then show ?thesis by (subst scan_tail.simps) (simp only: Let_def if_False assms(2-4))
qed

lemma scan_tail_spec:
  assumes "position \<le> length s" "newline \<notin> set (drop position s)"
    and "tail = (if length (drop position s) \<le> limit then Some (drop position s) else None)"
  shows "scan_tail chunk limit s position tail =
    (length s - length (after_newline s),
     if length (after_newline s) \<le> limit then Some (after_newline s) else None)"
  using assms
proof (induction position arbitrary: tail rule: less_induct)
  case (less position)
  show ?case
  proof (cases "position = 0")
    case True
    then show ?thesis using less(3,4) by (simp add: scan_tail.simps after_newline_none)
  next
    case False
    define start where "start = position - Suc chunk"
    define piece where "piece = take (position - start) (drop start s)"
    define longer where "longer = (case tail of None \<Rightarrow> None
      | Some t \<Rightarrow> if length (after_newline piece) + length t \<le> limit then Some (after_newline piece @ t) else None)"
    have le: "start < position" using False by (simp add: start_def)
    have split: "drop start s = piece @ drop position s"
      using le unfolding piece_def by (metis append_take_drop_id drop_drop le_add_diff_inverse2 less_imp_le)
    have len: "length piece = position - start" using less(2) le by (simp add: piece_def)
    have whole: "s = take start s @ piece @ drop position s" using split by (metis append_take_drop_id)
    note step = scan_tail_step [OF False start_def piece_def longer_def]
    have tail: "longer = (if length (after_newline piece @ drop position s) \<le> limit
        then Some (after_newline piece @ drop position s) else None)"
      using less(4) by (auto simp: longer_def)
    show ?thesis
    proof (cases "newline \<in> set piece")
      case True
      have "after_newline s = after_newline (take start s @ piece @ drop position s)" using whole by simp
      also have "\<dots> = after_newline piece @ drop position s" using less(3) True by (simp add: after_newline_append)
      finally have "after_newline s = after_newline piece @ drop position s" .
      moreover have "start + (length piece - length (after_newline piece)) =
          length s - length (after_newline piece @ drop position s)"
        using len le less(2) length_after_newline [of piece] by simp
      ultimately show ?thesis using step True tail by simp
    next
      case no: False
      have d: "drop start s = after_newline piece @ drop position s" using split no by (simp add: after_newline_none)
      then have "longer = (if length (drop start s) \<le> limit then Some (drop start s) else None)"
        using tail by simp
      moreover have "newline \<notin> set (drop start s)" using split no less(3) by simp
      moreover have "start \<le> length s" using le less(2) by simp
      ultimately have "scan_tail chunk limit s start longer =
          (length s - length (after_newline s), if length (after_newline s) \<le> limit then Some (after_newline s) else None)"
        using less(1) [OF le] by blast
      then show ?thesis using step no by simp
    qed
  qed
qed

text \<open>The repair in one line: the file up to its last newline, or completed when the tail is a record.\<close>

lemma repair_spec:
  "repair_incomplete_tail json_ok s =
   (if after_newline s \<noteq> [] \<and> length (after_newline s) \<le> max_file_bytes \<and> json_ok (after_newline s)
    then s @ [newline] else upto_newline s)"
proof (cases "s = [] \<or> last s = newline")
  case True
  then have "after_newline s = []" by (cases s rule: rev_cases) (auto simp: after_newline_def)
  then show ?thesis using True after_upto [of s] by (simp add: repair_incomplete_tail_def)
next
  case False
  then have ne: "after_newline s \<noteq> []" by (cases s rule: rev_cases) (auto simp: after_newline_def)
  have "take (length s - length (after_newline s)) s = upto_newline s"
    using after_upto [of s] by (metis append_eq_conv_conj diff_add_inverse2 length_append)
  then show ?thesis
    using False ne scan_tail_spec [of "length s" s "Some []" max_file_bytes "chunk_bytes - 1"]
    by (simp add: repair_incomplete_tail_def Let_def split: option.splits)
qed

lemma repair_complete: "repair_incomplete_tail json_ok s = [] \<or> last (repair_incomplete_tail json_ok s) = newline"
  using upto_newline_ends by (auto simp: repair_spec)

lemma length_repair: "length (repair_incomplete_tail json_ok s) \<le> length s + 1"
  using length_upto_newline [of s] by (simp add: repair_spec)

section \<open>Rotation\<close>

text \<open>What the files of a path hold, oldest first.\<close>

definition backup_text :: "log_files \<Rightarrow> nat \<Rightarrow> string" where
  "backup_text fs i = (case lf_backup fs i of None \<Rightarrow> [] | Some s \<Rightarrow> s)"

definition history :: "log_files \<Rightarrow> string" where
  "history fs = backup_text fs 3 @ backup_text fs 2 @ backup_text fs 1 @ current_text fs"

text \<open>A file stays within the limit, or one byte beyond it when its last record was completed.\<close>

definition file_ok :: "string \<Rightarrow> bool" where
  "file_ok s \<longleftrightarrow> length s \<le> max_file_bytes \<or> (length s = max_file_bytes + 1 \<and> last s = newline)"

definition within_limits :: "log_files \<Rightarrow> bool" where
  "within_limits fs \<longleftrightarrow> file_ok (current_text fs) \<and> (\<forall>i. file_ok (backup_text fs i))"

lemma file_ok_repair: "file_ok s \<Longrightarrow> file_ok (repair_incomplete_tail json_ok s)"
proof (cases "s = [] \<or> last s = newline")
  case False
  moreover assume "file_ok s"
  ultimately have "length s \<le> max_file_bytes" by (auto simp: file_ok_def)
  then show ?thesis using length_upto_newline [of s] by (auto simp: file_ok_def repair_spec)
qed (simp add: repair_incomplete_tail_def)

lemma rotate_texts:
  "current_text (rotate_logs fs) = []"
  "backup_text (rotate_logs fs) (Suc 0) = current_text fs"
  "backup_text (rotate_logs fs) 2 = backup_text fs (Suc 0)"
  "backup_text (rotate_logs fs) 3 = backup_text fs 2"
  by (auto simp: rotate_logs_def current_text_def backup_text_def backups_def Let_def split: option.splits)

lemma rotate_others: "i \<notin> {1, 2, 3} \<Longrightarrow> lf_backup (rotate_logs fs) i = lf_backup fs i"
  by (auto simp: rotate_logs_def backups_def Let_def split: option.splits)

lemma rotate_history: "backup_text fs 3 @ history (rotate_logs fs) = history fs"
  by (simp add: history_def rotate_texts)

lemma rotate_limits: "within_limits fs \<Longrightarrow> within_limits (rotate_logs fs)"
proof -
  assume fs: "within_limits fs"
  have "file_ok (backup_text (rotate_logs fs) i)" for i
  proof (cases "i \<in> {1, 2, 3}")
    case True
    then show ?thesis using fs by (auto simp: within_limits_def rotate_texts)
  next
    case False
    then have "backup_text (rotate_logs fs) i = backup_text fs i" by (simp add: backup_text_def rotate_others)
    then show ?thesis using fs by (simp add: within_limits_def)
  qed
  then show ?thesis by (simp add: within_limits_def rotate_texts file_ok_def)
qed

lemma history_append:
  "history (fs\<lparr>lf_current := Some (current_text fs @ line)\<rparr>) = history fs @ line"
  "backup_text (fs\<lparr>lf_current := c\<rparr>) i = backup_text fs i"
  by (simp_all add: history_def backup_text_def current_text_def)

lemma write_records_limits:
  "within_limits fs \<Longrightarrow> existing = length (current_text fs) \<Longrightarrow> within_limits (write_records lines existing fs)"
proof (induction lines existing fs rule: write_records.induct)
  case (2 line lines existing fs)
  have rotated: "within_limits (rotate_logs fs)" using 2(4) by (rule rotate_limits)
  have keep: "within_limits (f\<lparr>lf_current := Some (current_text f @ line)\<rparr>)"
    if "within_limits f" "length (current_text f) + length line \<le> max_file_bytes" for f
    using that by (simp add: within_limits_def history_append) (simp add: current_text_def file_ok_def)
  have len: "length (current_text (f\<lparr>lf_current := Some (current_text f @ line)\<rparr>)) =
      length (current_text f) + length line" for f
    by (simp add: current_text_def)
  show ?case
  proof (cases "length line > max_file_bytes")
    case True
    then show ?thesis using 2(1) 2(4,5) by simp
  next
    case small: False
    show ?thesis
    proof (cases "existing > 0 \<and> existing + length line > max_file_bytes")
      case True
      then show ?thesis
        using 2(2) [OF small True] keep [OF rotated] small rotate_texts(1) [of fs] len [of "rotate_logs fs"] by simp
    next
      case False
      then have "existing + length line \<le> max_file_bytes" using small by auto
      then show ?thesis using 2(3) [OF small False] keep [OF 2(4)] 2(5) len [of fs] False small by simp
    qed
  qed
qed simp

text \<open>The records that fit a file, in order.\<close>

definition kept_records :: "string list \<Rightarrow> string" where
  "kept_records lines = concat (filter (\<lambda>line. length line \<le> max_file_bytes) lines)"

lemma write_records_history:
  "\<exists>lost. lost @ history (write_records lines existing fs) = history fs @ kept_records lines"
proof (induction lines existing fs rule: write_records.induct)
  case (2 line lines existing fs)
  show ?case
  proof (cases "length line > max_file_bytes")
    case True
    then show ?thesis using 2(1) by (simp add: kept_records_def)
  next
    case small: False
    show ?thesis
    proof (cases "existing > 0 \<and> existing + length line > max_file_bytes")
      case True
      obtain lost where "lost @ history (write_records (line # lines) existing fs) =
          history (rotate_logs fs) @ line @ kept_records lines"
        using 2(2) [OF small True] small True by (auto simp: history_append)
      then have "(backup_text fs 3 @ lost) @ history (write_records (line # lines) existing fs) =
          (backup_text fs 3 @ history (rotate_logs fs)) @ line @ kept_records lines" by simp
      then show ?thesis using small unfolding rotate_history
        by (intro exI [of _ "backup_text fs 3 @ lost"]) (simp add: kept_records_def del: write_records.simps)
    next
      case False
      then show ?thesis
        using 2(3) [OF small False] small False by (auto simp: kept_records_def history_append)
    qed
  qed
qed (simp add: kept_records_def)

text \<open>Nothing is lost while everything fits one file.\<close>

lemma write_records_keeps:
  "existing + length (kept_records lines) \<le> max_file_bytes \<Longrightarrow>
   history (write_records lines existing fs) = history fs @ kept_records lines"
proof (induction lines existing fs rule: write_records.induct)
  case (2 line lines existing fs)
  show ?case
  proof (cases "length line > max_file_bytes")
    case True
    then show ?thesis using 2(1,4) by (simp add: kept_records_def)
  next
    case small: False
    then have "existing + length line + length (kept_records lines) \<le> max_file_bytes"
      using 2(4) by (simp add: kept_records_def)
    moreover from this have "\<not> (existing > 0 \<and> existing + length line > max_file_bytes)" by simp
    ultimately show ?thesis using 2(3) [OF small] small by (simp add: kept_records_def history_append)
  qed
qed (simp add: kept_records_def)

lemma split_lines_concat: "concat (split_lines line s) = line @ s"
proof (induction line s rule: split_lines.induct)
  case (1 line s)
  show ?case
    using 1 by (subst split_lines.simps) (auto simp: Let_def)
qed

section \<open>The worker\<close>

type_synonym job = "string \<times> string"

definition job_size :: "job \<Rightarrow> nat" where
  "job_size j = length (snd j)"

record writer =
  dw_queue :: "job list"
  dw_bytes :: nat
  dw_active :: "job option"
  dw_closed :: bool
  dw_thread :: bool
  dw_exited :: bool
  dw_max_jobs :: nat
  dw_max_bytes :: nat

definition new_writer :: "nat \<Rightarrow> nat \<Rightarrow> writer" where
  "new_writer max_jobs max_bytes =
     \<lparr>dw_queue = [], dw_bytes = 0, dw_active = None, dw_closed = False, dw_thread = False, dw_exited = False,
      dw_max_jobs = max_jobs, dw_max_bytes = max_bytes\<rparr>"

text \<open>A record is refused when the writer is closed or full, or when the worker cannot be started.\<close>

definition submit :: "bool \<Rightarrow> job \<Rightarrow> writer \<Rightarrow> writer \<times> bool" where
  "submit thread_ok j w =
     (if dw_closed w then (w, False)
      else if length (dw_queue w) \<ge> dw_max_jobs w \<or> dw_bytes w + job_size j > dw_max_bytes w then (w, False)
      else if \<not> dw_thread w \<and> \<not> thread_ok then (w, False)
      else (w\<lparr>dw_queue := dw_queue w @ [j], dw_bytes := dw_bytes w + job_size j, dw_thread := True\<rparr>, True))"

text \<open>The two locked sections of the worker loop, and its end.\<close>

definition take_job :: "writer \<Rightarrow> writer" where
  "take_job w =
     (case dw_queue w of
        [] \<Rightarrow> if dw_closed w then w\<lparr>dw_exited := True\<rparr> else w
      | j # q \<Rightarrow> w\<lparr>dw_queue := q, dw_active := Some j\<rparr>)"

definition finish_job :: "writer \<Rightarrow> writer" where
  "finish_job w =
     (case dw_active w of
        None \<Rightarrow> w
      | Some j \<Rightarrow> w\<lparr>dw_bytes := dw_bytes w - job_size j, dw_active := None\<rparr>)"

definition close_writer :: "writer \<Rightarrow> writer" where
  "close_writer w = w\<lparr>dw_closed := True\<rparr>"

text \<open>
  The interleavings: any thread may submit or close at any time, the worker takes a job when it has
  none and ends it with the files written or not. The trace keeps what was accepted and what was ended.
\<close>

datatype writer_label = Accepted job | Refused job | Taken job | Ended job | Closed | Exited

inductive writer_step :: "writer \<Rightarrow> writer_label \<Rightarrow> writer \<Rightarrow> bool" where
  submit_ok: "submit b j w = (w', True) \<Longrightarrow> writer_step w (Accepted j) w'"
| submit_no: "submit b j w = (w', False) \<Longrightarrow> writer_step w (Refused j) w'"
| worker_take: "dw_thread w \<Longrightarrow> dw_active w = None \<Longrightarrow> dw_queue w = j # q \<Longrightarrow> writer_step w (Taken j) (take_job w)"
| worker_end: "dw_thread w \<Longrightarrow> dw_active w = Some j \<Longrightarrow> writer_step w (Ended j) (finish_job w)"
| close: "writer_step w Closed (close_writer w)"
| worker_exit: "dw_thread w \<Longrightarrow> dw_active w = None \<Longrightarrow> dw_queue w = [] \<Longrightarrow> dw_closed w \<Longrightarrow>
    writer_step w Exited (take_job w)"

inductive_cases writer_step_cases: "writer_step w l w'"

inductive writer_run :: "writer \<Rightarrow> writer_label list \<Rightarrow> writer \<Rightarrow> bool" where
  start: "writer_run w [] w"
| step: "writer_run w ls w' \<Longrightarrow> writer_step w' l w'' \<Longrightarrow> writer_run w (ls @ [l]) w''"

definition accepted_jobs :: "writer_label list \<Rightarrow> job list" where
  "accepted_jobs ls = List.map_filter (\<lambda>l. case l of Accepted j \<Rightarrow> Some j | _ \<Rightarrow> None) ls"

definition ended_jobs :: "writer_label list \<Rightarrow> job list" where
  "ended_jobs ls = List.map_filter (\<lambda>l. case l of Ended j \<Rightarrow> Some j | _ \<Rightarrow> None) ls"

definition active_jobs :: "writer \<Rightarrow> job list" where
  "active_jobs w = (case dw_active w of None \<Rightarrow> [] | Some j \<Rightarrow> [j])"

definition writer_ok :: "writer \<Rightarrow> bool" where
  "writer_ok w \<longleftrightarrow>
     dw_bytes w = sum_list (map job_size (active_jobs w @ dw_queue w)) \<and>
     length (dw_queue w) \<le> dw_max_jobs w \<and> dw_bytes w \<le> dw_max_bytes w \<and>
     (\<not> dw_thread w \<longrightarrow> dw_queue w = [] \<and> dw_active w = None) \<and>
     (dw_exited w \<longrightarrow> dw_closed w \<and> dw_queue w = [] \<and> dw_active w = None)"

lemmas writer_defs = submit_def take_job_def finish_job_def close_writer_def active_jobs_def

lemma writer_step_ok:
  assumes "writer_step w l w'" "writer_ok w"
  shows "writer_ok w' \<and> dw_max_jobs w' = dw_max_jobs w \<and> dw_max_bytes w' = dw_max_bytes w"
  using assms(1)
proof cases
  case (submit_ok b j)
  then show ?thesis
    using assms(2) by (auto simp: writer_defs writer_ok_def Let_def split: if_splits option.splits)
next
  case (submit_no b j)
  then show ?thesis using assms(2) by (auto simp: writer_defs split: if_splits)
next
  case (worker_take j q)
  then show ?thesis using assms(2) by (auto simp: writer_defs writer_ok_def)
next
  case (worker_end j)
  then show ?thesis using assms(2) by (auto simp: writer_defs writer_ok_def)
next
  case close
  then show ?thesis using assms(2) by (auto simp: writer_defs writer_ok_def)
next
  case worker_exit
  then show ?thesis using assms(2) by (auto simp: writer_defs writer_ok_def)
qed

text \<open>One step of the abstract queue: what was accepted is what was ended, is active, and is queued.\<close>

lemma writer_step_queue:
  assumes "writer_step w l w'"
  shows "active_jobs w @ dw_queue w @ accepted_jobs [l] = ended_jobs [l] @ active_jobs w' @ dw_queue w'"
  using assms
  by cases (auto simp: writer_defs accepted_jobs_def ended_jobs_def List.map_filter_def split: if_splits option.splits)

lemma jobs_append:
  "accepted_jobs (ls @ [l]) = accepted_jobs ls @ accepted_jobs [l]"
  "ended_jobs (ls @ [l]) = ended_jobs ls @ ended_jobs [l]"
  by (simp_all add: accepted_jobs_def ended_jobs_def List.map_filter_def)

lemma writer_run_ok:
  "writer_run w ls w' \<Longrightarrow> writer_ok w \<Longrightarrow>
   writer_ok w' \<and> dw_max_jobs w' = dw_max_jobs w \<and> dw_max_bytes w' = dw_max_bytes w"
  by (induction rule: writer_run.induct) (use writer_step_ok in \<open>auto\<close>)

lemma writer_run_queue:
  "writer_run w ls w' \<Longrightarrow>
   active_jobs w @ dw_queue w @ accepted_jobs ls = ended_jobs ls @ active_jobs w' @ dw_queue w'"
proof (induction rule: writer_run.induct)
  case (start w)
  then show ?case by (simp add: accepted_jobs_def ended_jobs_def List.map_filter_def)
next
  case (step w ls w' l w'')
  have "active_jobs w @ dw_queue w @ accepted_jobs (ls @ [l]) = (active_jobs w @ dw_queue w @ accepted_jobs ls) @ accepted_jobs [l]"
    by (simp add: jobs_append)
  also have "\<dots> = ended_jobs ls @ active_jobs w' @ dw_queue w' @ accepted_jobs [l]" by (simp add: step.IH)
  also have "\<dots> = ended_jobs (ls @ [l]) @ active_jobs w'' @ dw_queue w''"
    by (simp add: writer_step_queue [OF step.hyps(2)] jobs_append)
  finally show ?case .
qed

lemma new_writer_ok: "writer_ok (new_writer a b)"
  by (simp add: writer_ok_def new_writer_def active_jobs_def)

text \<open>The worker alone empties the queue.\<close>

fun drain :: "nat \<Rightarrow> writer \<Rightarrow> writer" where
  "drain 0 w = w"
| "drain (Suc n) w = drain n (if dw_active w = None then take_job w else finish_job w)"

definition work_left :: "writer \<Rightarrow> nat" where
  "work_left w = 2 * length (dw_queue w) + (if dw_active w = None then 0 else 1)"

lemma drain_done:
  "work_left w \<le> n \<Longrightarrow> dw_queue (drain n w) = [] \<and> dw_active (drain n w) = None"
proof (induction n arbitrary: w)
  case 0
  then show ?case by (auto simp: work_left_def split: if_splits)
next
  case (Suc n)
  have "work_left (if dw_active w = None then take_job w else finish_job w) \<le> n"
    using Suc.prems by (auto simp: work_left_def take_job_def finish_job_def split: list.splits if_splits)
  then show ?case using Suc.IH by simp
qed

section \<open>Properties\<close>

text \<open>C34: However submissions, the worker and a close interleave, the writer is a bounded queue: what was
  accepted is exactly what was ended, is being written and is still queued, in that order; the queue never
  holds more records or bytes than allowed; and a worker that has left has ended everything accepted.\<close>

theorem diagnostic_queue_refines:
  assumes "writer_run (new_writer max_jobs max_bytes) ls w"
  shows "accepted_jobs ls = ended_jobs ls @ active_jobs w @ dw_queue w \<and>
    length (dw_queue w) \<le> max_jobs \<and>
    sum_list (map job_size (active_jobs w @ dw_queue w)) \<le> max_bytes \<and>
    (if dw_exited w then ended_jobs ls = accepted_jobs ls else True)"
proof -
  have ok: "writer_ok w" "dw_max_jobs w = max_jobs" "dw_max_bytes w = max_bytes"
    using writer_run_ok [OF assms new_writer_ok] by (simp_all add: new_writer_def)
  have q: "accepted_jobs ls = ended_jobs ls @ active_jobs w @ dw_queue w"
    using writer_run_queue [OF assms] by (simp add: new_writer_def active_jobs_def)
  have "dw_exited w \<Longrightarrow> active_jobs w = [] \<and> dw_queue w = []"
    using ok(1) by (auto simp: writer_ok_def active_jobs_def)
  then show ?thesis using q ok by (auto simp: writer_ok_def)
qed

text \<open>A run of a writer of two records: one record is accepted and taken by the worker, a second one is accepted
  while the first is being written.\<close>

lemma sample_writer_run:
  "writer_run (new_writer 2 2) [Accepted (''a'', ''x''), Taken (''a'', ''x''), Accepted (''a'', ''y'')]
     ((new_writer 2 2)\<lparr>dw_queue := [(''a'', ''y'')], dw_bytes := 2, dw_thread := True, dw_active := Some (''a'', ''x'')\<rparr>)"
proof -
  let ?j = "(''a'', ''x'')" and ?k = "(''a'', ''y'')" and ?w0 = "new_writer 2 2"
  let ?w1 = "?w0\<lparr>dw_queue := [?j], dw_bytes := 1, dw_thread := True\<rparr>"
  let ?w2 = "?w1\<lparr>dw_queue := [], dw_active := Some ?j\<rparr>"
  let ?w3 = "?w2\<lparr>dw_queue := [?k], dw_bytes := 2\<rparr>"
  have "writer_step ?w0 (Accepted ?j) ?w1"
    by (rule submit_ok [of True]) (simp add: submit_def new_writer_def job_size_def)
  then have r1: "writer_run ?w0 ([] @ [Accepted ?j]) ?w1" by (rule step [OF start])
  have "writer_step ?w1 (Taken ?j) (take_job ?w1)"
    by (rule worker_take [of _ _ "[]"]) (simp_all add: new_writer_def)
  then have "writer_step ?w1 (Taken ?j) ?w2" by (simp add: take_job_def new_writer_def)
  with r1 have r2: "writer_run ?w0 (([] @ [Accepted ?j]) @ [Taken ?j]) ?w2" by (rule step)
  have "writer_step ?w2 (Accepted ?k) ?w3"
    by (rule submit_ok [of True]) (simp add: submit_def new_writer_def job_size_def)
  with r2 have "writer_run ?w0 ((([] @ [Accepted ?j]) @ [Taken ?j]) @ [Accepted ?k]) ?w3" by (rule step)
  then show ?thesis by (simp add: new_writer_def)
qed

theorem diagnostic_queue_refines_witness:
  "\<exists>w. writer_run (new_writer 2 2) [Accepted (''a'', ''x''), Taken (''a'', ''x''), Accepted (''a'', ''y'')] w \<and>
     active_jobs w = [(''a'', ''x'')] \<and> dw_queue w = [(''a'', ''y'')] \<and>
     accepted_jobs [Accepted (''a'', ''x''), Taken (''a'', ''x''), Accepted (''a'', ''y'')] =
       ended_jobs [Accepted (''a'', ''x''), Taken (''a'', ''x''), Accepted (''a'', ''y'')] @ active_jobs w @ dw_queue w \<and>
     length (dw_queue w) \<le> 2 \<and> sum_list (map job_size (active_jobs w @ dw_queue w)) \<le> 2"
  using diagnostic_queue_refines [OF sample_writer_run] sample_writer_run
  by (intro exI conjI) (assumption | simp add: active_jobs_def)+

text \<open>The worker alone ends everything that is queued, whatever was accepted before.\<close>

theorem diagnostic_worker_drains:
  assumes "2 * length (dw_queue w) + 1 \<le> n"
  shows "dw_queue (drain n w) = [] \<and> dw_active (drain n w) = None"
  using drain_done [of w n] assms by (simp add: work_left_def split: if_splits)

theorem diagnostic_worker_drains_witness:
  "dw_queue (drain 3 ((new_writer 2 9)\<lparr>dw_queue := [(''a'', ''x'')], dw_bytes := 1\<rparr>)) = []"
  using diagnostic_worker_drains [of "(new_writer 2 9)\<lparr>dw_queue := [(''a'', ''x'')], dw_bytes := 1\<rparr>" 3] by simp

text \<open>C37: The chunked repair of a file leaves the complete records and, at most, completes a last record that
  parses; a file that ends with a newline is left alone.\<close>

theorem diagnostic_repair:
  "repair_incomplete_tail json_ok s =
     (if after_newline s \<noteq> [] \<and> length (after_newline s) \<le> max_file_bytes \<and> json_ok (after_newline s)
      then s @ [newline] else upto_newline s) \<and>
   (if last s = newline then repair_incomplete_tail json_ok s = s else True)"
  using repair_spec [of json_ok s] by (simp add: repair_incomplete_tail_def)

text \<open>Writing records never reorders, repeats or interleaves them: the four files together are the end of
  what they held followed by the new records (those of more than the limit are discarded), and nothing is
  dropped while everything fits the current file.\<close>

theorem diagnostic_records_kept:
  "let repaired = fs\<lparr>lf_current := map_option (repair_incomplete_tail json_ok) (lf_current fs)\<rparr>;
       records = kept_records (split_lines [] text_of); after = write_lines json_ok text_of fs
   in (\<exists>lost. lost @ history after = history repaired @ records) \<and>
      (if length (current_text repaired) + length records \<le> max_file_bytes
       then history after = history repaired @ records else True) \<and>
      concat (split_lines [] text_of) = text_of"
proof -
  let ?r = "fs\<lparr>lf_current := map_option (repair_incomplete_tail json_ok) (lf_current fs)\<rparr>"
  have w: "write_lines json_ok text_of fs =
      write_records (split_lines [] text_of) (length (current_text ?r)) ?r"
    by (simp add: write_lines_def current_text_def Let_def split: option.splits)
  show ?thesis
    unfolding Let_def w
    using write_records_history [of "split_lines [] text_of" "length (current_text ?r)" ?r]
      write_records_keeps [of "length (current_text ?r)" "split_lines [] text_of" ?r]
      split_lines_concat [of "[]" text_of]
    by auto
qed

text \<open>Every file stays within the size limit, or one newline beyond it, whatever is written.\<close>

theorem diagnostic_files_bounded:
  assumes "within_limits fs"
  shows "within_limits (write_lines json_ok text_of fs)"
proof -
  let ?r = "fs\<lparr>lf_current := map_option (repair_incomplete_tail json_ok) (lf_current fs)\<rparr>"
  have cur: "current_text ?r = (case lf_current fs of None \<Rightarrow> [] | Some s \<Rightarrow> repair_incomplete_tail json_ok s)"
    by (simp add: current_text_def split: option.splits)
  have "within_limits ?r"
    using assms file_ok_repair [of _ json_ok]
    by (simp add: within_limits_def cur history_append(2)) (simp add: current_text_def split: option.splits)
  then show ?thesis
    using write_records_limits [of ?r "length (current_text ?r)" "split_lines [] text_of"]
    by (simp add: write_lines_def cur Let_def split: option.splits)
qed

theorem diagnostic_files_bounded_witness:
  "within_limits (write_lines (\<lambda>s. True) ''x'' \<lparr>lf_current = Some ''y'', lf_backup = (\<lambda>i. None)\<rparr>)"
  by (rule diagnostic_files_bounded)
    (simp add: within_limits_def file_ok_def current_text_def backup_text_def max_file_bytes_def)

end
