(* ===== verification/Captures.thy ===== *)
theory Captures
  imports NoahPackets Diagnostics DeviceFamily
begin

text \<open>
  \<open>grobro/grobro/raw_dump.py\<close> and \<open>noah_traffic_debug.py\<close>: every MQTT message as one JSON line with its payload in
  Base64. The lines go to the worker of \<open>diagnostic_io.py\<close>. The directory is given as the absolute path it
  resolves to; \<open>json.dumps\<close>, the clock and whether the worker thread starts are arguments.
\<close>

section \<open>Base64\<close>

text \<open>\<open>base64.b64encode\<close>.\<close>

definition b64_digit :: "int \<Rightarrow> char" where
  "b64_digit n =
     (if n < 26 then char_of (nat (65 + n)) else if n < 52 then char_of (nat (71 + n))
      else if n < 62 then char_of (nat (n - 4)) else if n = 62 then CHR ''+'' else CHR ''/'')"

fun b64encode :: "bytes \<Rightarrow> string" where
  "b64encode (a # b # c # rest) =
     map b64_digit [uint a div 4, uint a mod 4 * 16 + uint b div 16, uint b mod 16 * 4 + uint c div 64, uint c mod 64] @
     b64encode rest"
| "b64encode [a, b] =
     map b64_digit [uint a div 4, uint a mod 4 * 16 + uint b div 16, uint b mod 16 * 4] @ ''=''"
| "b64encode [a] = map b64_digit [uint a div 4, uint a mod 4 * 16] @ ''==''"
| "b64encode [] = []"

section \<open>Raw dump\<close>

definition dump_record :: "int \<Rightarrow> string \<Rightarrow> bytes \<Rightarrow> (string \<times> 'f json) list" where
  "dump_record now_ms topic raw =
     [(''captured_at_ms'', JInt now_ms), (''topic'', JStr topic), (''payload_length'', JInt (int (length raw))),
      (''payload_encoding'', JStr ''base64''), (''payload_base64'', JStr (b64encode raw))]"

definition append_record ::
    "('f json \<Rightarrow> string) \<Rightarrow> bool \<Rightarrow> string \<Rightarrow> (string \<times> 'f json) list \<Rightarrow> writer \<Rightarrow> writer" where
  "append_record dumps thread_ok path entry w = fst (submit thread_ok (path, dumps (JObj entry) @ [newline]) w)"

definition dump_message_jsonl ::
    "('f json \<Rightarrow> string) \<Rightarrow> bool \<Rightarrow> int \<Rightarrow> string \<Rightarrow> string \<Rightarrow> bytes \<Rightarrow> writer \<Rightarrow> writer" where
  "dump_message_jsonl dumps thread_ok now_ms dump_dir topic payload w =
     append_record dumps thread_ok (dump_dir @ ''/messages.jsonl'') (dump_record now_ms topic payload) w"

section \<open>NOAH traffic\<close>

definition message_types :: "bytes option \<Rightarrow> int option \<times> int option" where
  "message_types packet =
     (case packet of
        None \<Rightarrow> (None, None)
      | Some dat \<Rightarrow> if length dat < 8 then (None, None) else (u16_at dat 4, u16_at dat 6))"

definition json_opt :: "('a \<Rightarrow> 'f json) \<Rightarrow> 'a option \<Rightarrow> 'f json" where
  "json_opt f v = (case v of None \<Rightarrow> JNull | Some x \<Rightarrow> f x)"

text \<open>The dictionaries of \<open>noah_protocol_debug.py\<close>.\<close>

fun control_json :: "noah_control \<Rightarrow> 'f json" where
  "control_json (Read0105 d register_no echoed answer) = JObj
     ([(''message_type'', JStr ''0x0105''), (''operation'', JStr ''holding_register_read''), (''device_id'', JStr d),
       (''register'', JInt register_no), (''echoed_register'', JInt echoed)] @
      (case answer of None \<Rightarrow> [(''kind'', JStr ''request'')]
       | Some v \<Rightarrow> [(''kind'', JStr ''response''), (''value'', JInt v)]))"
| "control_json (Write0106 d register_no status v) = JObj
     ([(''message_type'', JStr ''0x0106''), (''operation'', JStr ''holding_register_write''), (''device_id'', JStr d),
       (''register'', JInt register_no)] @
      (case status of None \<Rightarrow> [(''kind'', JStr ''request''), (''value'', JInt v)]
       | Some n \<Rightarrow> [(''kind'', JStr ''ack''), (''status'', JInt n), (''value'', JInt v)]))"
| "control_json (Config0118 d config_type tlv_len register_no value_len v ascii) = JObj
     [(''message_type'', JStr ''0x0118''), (''operation'', JStr ''config_write''), (''kind'', JStr ''command''),
      (''device_id'', JStr d), (''config_type'', JInt config_type), (''tlv_length'', JInt tlv_len),
      (''register'', JInt register_no), (''value_length'', JInt value_len), (''value'', JStr v),
      (''value_encoding'', JStr (if ascii then ''ascii'' else ''hex''))]"

record traffic =
  tf_device :: string
  tf_direction :: string
  tf_topic :: string
  tf_payload :: bytes
  tf_decoded :: "bytes option"
  tf_qos :: "int option"
  tf_retain :: "bool option"
  tf_forwarded_for :: "string option"

definition traffic_record :: "string \<Rightarrow> traffic \<Rightarrow> (string \<times> 'f json) list" where
  "traffic_record now t =
     (let raw = tf_payload t; clear = tf_decoded t;
          (raw_type4, raw_type6) = message_types (Some raw); (clear_type4, clear_type6) = message_types clear
      in [(''captured_at'', JStr now), (''device_id'', JStr (tf_device t)), (''direction'', JStr (tf_direction t)),
          (''topic'', JStr (tf_topic t)), (''qos'', json_opt JInt (tf_qos t)), (''retain'', json_opt JBool (tf_retain t)),
          (''forwarded_for'', json_opt JStr (tf_forwarded_for t)), (''payload_len'', JInt (int (length raw))),
          (''payload_b64'', JStr (b64encode raw)), (''raw_msg_type_offset4'', json_opt JInt raw_type4),
          (''raw_msg_type_offset6'', json_opt JInt raw_type6),
          (''decoded_len'', json_opt (\<lambda>c. JInt (int (length c))) clear),
          (''decoded_b64'', json_opt (\<lambda>c. JStr (b64encode c)) clear),
          (''decoded_msg_type_offset4'', json_opt JInt clear_type4), (''decoded_msg_type_offset6'', json_opt JInt clear_type6),
          (''decoded_interpretation'', json_opt control_json (decode_interesting_noah_packet clear))])"

definition capture_noah_mqtt_traffic ::
    "('f json \<Rightarrow> string) \<Rightarrow> bool \<Rightarrow> bool \<Rightarrow> string \<Rightarrow> string \<Rightarrow> traffic \<Rightarrow> writer \<Rightarrow> writer" where
  "capture_noah_mqtt_traffic dumps thread_ok enabled now debug_dir t w =
     (if \<not> enabled \<or> \<not> uses_noah_protocol (tf_device t) then w
      else append_record dumps thread_ok (debug_dir @ ''/noah_mqtt_traffic.jsonl'') (traffic_record now t) w)"

section \<open>Decoding\<close>

text \<open>Base64 read back, as the specification of what a dump keeps.\<close>

definition b64_value :: "char \<Rightarrow> int" where
  "b64_value c =
     (let n = int (of_char c :: nat) in
      if 65 \<le> n \<and> n \<le> 90 then n - 65 else if 97 \<le> n \<and> n \<le> 122 then n - 71
      else if 48 \<le> n \<and> n \<le> 57 then n + 4 else if c = CHR ''+'' then 62 else 63)"

definition byte_from :: "int \<Rightarrow> byte" where
  "byte_from n = word_of_int n"

fun b64decode :: "string \<Rightarrow> bytes option" where
  "b64decode (a # b # c # d # rest) =
     (let x = b64_value a; y = b64_value b; z = b64_value c in
      if c = CHR ''='' then (if rest = [] then Some [byte_from (x * 4 + y div 16)] else None)
      else if d = CHR ''='' then
        (if rest = [] then Some [byte_from (x * 4 + y div 16), byte_from (y mod 16 * 16 + z div 4)] else None)
      else map_option (\<lambda>bs. [byte_from (x * 4 + y div 16), byte_from (y mod 16 * 16 + z div 4),
             byte_from (z mod 4 * 64 + b64_value d)] @ bs) (b64decode rest))"
| "b64decode [] = Some []"
| "b64decode _ = None"

lemma b64_digit_code:
  "0 \<le> n \<Longrightarrow> n < 64 \<Longrightarrow> int (of_char (b64_digit n) :: nat) =
     (if n < 26 then 65 + n else if n < 52 then 71 + n else if n < 62 then n - 4 else if n = 62 then 43 else 47)"
  by (auto simp: b64_digit_def)

lemma b64_digit_value:
  assumes "0 \<le> n" "n < 64"
  shows "b64_value (b64_digit n) = n \<and> b64_digit n \<noteq> CHR ''=''"
proof -
  have "int (of_char (b64_digit n) :: nat) \<noteq> int (of_char (CHR ''='') :: nat)"
    using b64_digit_code [OF assms] assms by (auto split: if_splits)
  then have "b64_digit n \<noteq> CHR ''=''" by auto
  moreover have "b64_digit n = CHR ''+'' \<longleftrightarrow> n = 62"
  proof
    assume "b64_digit n = CHR ''+''"
    then have "int (of_char (b64_digit n) :: nat) = 43" by simp
    then show "n = 62" using b64_digit_code [OF assms] assms by (auto split: if_splits)
  qed (simp add: b64_digit_def)
  ultimately show ?thesis
    unfolding b64_value_def Let_def b64_digit_code [OF assms] using assms by auto
qed

lemma digits_16: "0 \<le> k \<Longrightarrow> k < 16 \<Longrightarrow> (x * 16 + k) div 16 = x \<and> (x * 16 + k) mod 16 = (k :: int)"
  by simp

lemma digits_4: "0 \<le> k \<Longrightarrow> k < 4 \<Longrightarrow> (x * 4 + k) div 4 = x \<and> (x * 4 + k) mod 4 = (k :: int)"
  by simp

lemma byte_bounds:
  fixes b :: byte
  shows "0 \<le> uint b div 4" "uint b div 4 < 64" "0 \<le> uint b div 16" "uint b div 16 < 16" "0 \<le> uint b div 64" "uint b div 64 < 4"
  using uint_bounded [of b] by (simp_all add: pos_imp_zdiv_nonneg_iff)

lemma b64_values:
  fixes a b :: byte
  shows "b64_value (b64_digit (uint a div 4)) = uint a div 4"
    "b64_value (b64_digit (uint a mod 4 * 16 + uint b div 16)) = uint a mod 4 * 16 + uint b div 16"
    "b64_value (b64_digit (uint a mod 16 * 4 + uint b div 64)) = uint a mod 16 * 4 + uint b div 64"
    "b64_value (b64_digit (uint a mod 64)) = uint a mod 64"
    "b64_value (b64_digit (uint a mod 4 * 16)) = uint a mod 4 * 16"
    "b64_value (b64_digit (uint a mod 16 * 4)) = uint a mod 16 * 4"
    "b64_digit (uint a mod 16 * 4 + uint b div 64) \<noteq> CHR ''=''" "b64_digit (uint a mod 64) \<noteq> CHR ''=''"
    "b64_digit (uint a mod 16 * 4) \<noteq> CHR ''=''"
proof -
  have m: "0 \<le> uint a mod 4" "uint a mod 4 < 4" "0 \<le> uint a mod 16" "uint a mod 16 < 16" "0 \<le> uint a mod 64" "uint a mod 64 < 64"
    by simp_all
  have r: "0 \<le> n \<and> n < 64 \<Longrightarrow> b64_value (b64_digit n) = n" "0 \<le> n \<and> n < 64 \<Longrightarrow> b64_digit n \<noteq> CHR ''=''" for n
    using b64_digit_value by blast+
  show "b64_value (b64_digit (uint a div 4)) = uint a div 4" using byte_bounds [of a] by (intro r) simp
  show "b64_value (b64_digit (uint a mod 4 * 16 + uint b div 16)) = uint a mod 4 * 16 + uint b div 16"
    using m byte_bounds [of b] by (intro r conjI) linarith+
  show "b64_value (b64_digit (uint a mod 16 * 4 + uint b div 64)) = uint a mod 16 * 4 + uint b div 64"
    "b64_digit (uint a mod 16 * 4 + uint b div 64) \<noteq> CHR ''=''"
    using m byte_bounds [of b] by (intro r conjI; linarith)+
  show "b64_value (b64_digit (uint a mod 64)) = uint a mod 64" "b64_digit (uint a mod 64) \<noteq> CHR ''=''"
    using m by (intro r conjI; linarith)+
  show "b64_value (b64_digit (uint a mod 4 * 16)) = uint a mod 4 * 16" using m by (intro r conjI) linarith+
  show "b64_value (b64_digit (uint a mod 16 * 4)) = uint a mod 16 * 4" "b64_digit (uint a mod 16 * 4) \<noteq> CHR ''=''"
    using m by (intro r conjI; linarith)+
qed

lemma byte_from_uint [simp]: "byte_from (uint b) = b" "byte_from (uint b div 4 * 4 + uint b mod 4) = b"
  "byte_from (uint b div 16 * 16 + uint b mod 16) = b" "byte_from (uint b div 64 * 64 + uint b mod 64) = b"
  by (simp_all add: byte_from_def div_mult_mod_eq del: of_int_add of_int_mult)

lemma b64_roundtrip: "b64decode (b64encode bs) = Some bs"
  by (induction bs rule: b64encode.induct)
     (simp_all add: Let_def b64_values digits_16 digits_4 byte_bounds)

section \<open>Properties\<close>

text \<open>A raw dump loses nothing: the line queued is a record of the topic and of a payload that decodes to the
  bytes of the message.\<close>

theorem raw_dump_lossless:
  "\<exists>entry s. dump_message_jsonl dumps thread_ok now_ms dump_dir topic payload w =
       fst (submit thread_ok (dump_dir @ ''/messages.jsonl'', dumps (JObj entry) @ [newline]) w) \<and>
     map_of entry ''topic'' = Some (JStr topic) \<and> map_of entry ''payload_length'' = Some (JInt (int (length payload))) \<and>
     map_of entry ''payload_base64'' = Some (JStr s) \<and> b64decode s = Some payload"
  unfolding dump_message_jsonl_def append_record_def
  by (intro exI [of _ "dump_record now_ms topic payload"] exI [of _ "b64encode payload"])
     (simp add: dump_record_def b64_roundtrip)

text \<open>So does the traffic log of NOAH devices, of the packet on the wire and of its unscrambled text; it says
  nothing of other devices.\<close>

theorem noah_traffic_lossless:
  "let w' = capture_noah_mqtt_traffic dumps thread_ok enabled now debug_dir t w in
   if enabled \<and> uses_noah_protocol (tf_device t)
   then (\<exists>entry s. w' = fst (submit thread_ok (debug_dir @ ''/noah_mqtt_traffic.jsonl'', dumps (JObj entry) @ [newline]) w) \<and>
      map_of entry ''payload_b64'' = Some (JStr s) \<and> b64decode s = Some (tf_payload t) \<and>
      (case tf_decoded t of
         None \<Rightarrow> map_of entry ''decoded_b64'' = Some JNull
       | Some c \<Rightarrow> \<exists>s'. map_of entry ''decoded_b64'' = Some (JStr s') \<and> b64decode s' = Some c))
   else w' = w"
proof -
  have "map_of (traffic_record now t) ''payload_b64'' = Some (JStr (b64encode (tf_payload t)))"
    "map_of (traffic_record now t) ''decoded_b64'' = Some (json_opt (\<lambda>c. JStr (b64encode c)) (tf_decoded t))"
    by (simp_all add: traffic_record_def Let_def split_def)
  then show ?thesis
    unfolding Let_def capture_noah_mqtt_traffic_def append_record_def
    by (auto simp: b64_roundtrip json_opt_def intro!: exI [of _ "traffic_record now t"] split: option.split)
qed

end
