(* ===== verification/SourceConnection.thy ===== *)
theory SourceConnection
  imports SourceClient Captures "HOL-Library.Multiset"
begin

text \<open>
  The connections of \<open>grobro/grobro/client.py\<close>: the callbacks of the device broker that decide when reads
  may start, the cloud connection of every forwarded device with its failures, and the bounded
  shutdown. A cloud connection is a number given when its client is created; \<open>cl_closed\<close> lists the
  \<open>disconnect\<close> calls in their order, a worker thread of the shutdown makes its call in a step of its own.
\<close>

section \<open>The device broker\<close>

record link =
  ln_ready :: bool
  ln_stopped :: bool
  ln_failure_logged :: bool
  ln_rejection_logged :: bool
  ln_meter :: "(string, string) dict"

datatype link_out = LogFailure | LogRejection | Subscribe string | CallReady

definition link_failed :: "link \<Rightarrow> link \<times> link_out list" where
  "link_failed l =
     (if ln_stopped l \<or> ln_failure_logged l then (l, [])
      else (l\<lparr>ln_failure_logged := True\<rparr>, [LogFailure]))"

definition link_connected :: "bool \<Rightarrow> link \<Rightarrow> link \<times> link_out list" where
  "link_connected is_failure l =
     (let l1 = l\<lparr>ln_ready := False\<rparr>
      in if ln_stopped l1 then (l1, [])
         else if is_failure then link_failed l1
         else (l1\<lparr>ln_failure_logged := False, ln_meter := []\<rparr>, [Subscribe ''c/#'']))"

definition link_disconnected :: "link \<Rightarrow> link" where
  "link_disconnected l = l\<lparr>ln_ready := False\<rparr>"

definition link_subscribed :: "bool \<Rightarrow> bool \<Rightarrow> link \<Rightarrow> link \<times> link_out list" where
  "link_subscribed has_on_ready rejected l =
     (if ln_stopped l then (l, [])
      else if rejected
      then (l\<lparr>ln_ready := False, ln_rejection_logged := True\<rparr>, if ln_rejection_logged l then [] else [LogRejection])
      else (l\<lparr>ln_rejection_logged := False, ln_ready := True\<rparr>, if has_on_ready then [CallReady] else []))"

definition start_source :: "int option \<Rightarrow> unit py" where
  "start_source loop_result =
     (case loop_result of
        Some code \<Rightarrow> if code \<noteq> 0 then Inl RuntimeError else Inr ()
      | None \<Rightarrow> Inr ())"

section \<open>Cloud connections\<close>

text \<open>How setting up one connection goes: the first call that raises, or a loop that refuses to start.\<close>

record cloud_answers =
  ca_connect :: "py_error option"
  ca_subscribe :: "py_error option"
  ca_loop :: "int option py"

record clouds =
  cl_clients :: "(string, nat) dict"
  cl_next :: nat
  cl_workers :: "nat list"
  cl_closed :: "nat list"
  cl_stopped :: bool

definition no_clouds :: clouds where
  "no_clouds = \<lparr>cl_clients = [], cl_next = 0, cl_workers = [], cl_closed = [], cl_stopped = False\<rparr>"

definition cloud_failure :: "cloud_answers \<Rightarrow> py_error option" where
  "cloud_failure A =
     (case ca_connect A of
        Some e \<Rightarrow> Some e
      | None \<Rightarrow>
          (case ca_subscribe A of
             Some e \<Rightarrow> Some e
           | None \<Rightarrow>
               (case ca_loop A of
                  Inl e \<Rightarrow> Some e
                | Inr None \<Rightarrow> None
                | Inr (Some code) \<Rightarrow> if code \<noteq> 0 then Some RuntimeError else None)))"

definition cloud_key :: "string \<Rightarrow> string" where
  "cloud_key d = ''forward_client_'' @ d"

definition connect_to_growatt_server :: "cloud_answers \<Rightarrow> string \<Rightarrow> clouds \<Rightarrow> clouds \<times> nat option py" where
  "connect_to_growatt_server A d st =
     (if cl_stopped st then (st, Inr None)
      else case dict_get (cl_clients st) (cloud_key d) of
             Some h \<Rightarrow> (st, Inr (Some h))
           | None \<Rightarrow>
               (let h = cl_next st; st1 = st\<lparr>cl_next := Suc h\<rparr>
                in case cloud_failure A of
                     Some e \<Rightarrow> (st1\<lparr>cl_closed := cl_closed st1 @ [h]\<rparr>, Inl e)
                   | None \<Rightarrow> (st1\<lparr>cl_clients := dict_set (cloud_key d) h (cl_clients st1)\<rparr>, Inr (Some h))))"

text \<open>The packets handed to a cloud connection.\<close>

definition hand_to_cloud ::
    "cloud_answers \<Rightarrow> string \<Rightarrow> mqtt_message \<Rightarrow> clouds \<Rightarrow> clouds \<times> (nat \<times> string \<times> bytes) list" where
  "hand_to_cloud A d msg st =
     (case connect_to_growatt_server A d st of
        (st1, Inr (Some h)) \<Rightarrow> (st1, [(h, mm_topic msg, mm_payload msg)])
      | (st1, _) \<Rightarrow> (st1, []))"

text \<open>
  The shutdown. A connection whose worker can be started is disconnected by it, later; the others at
  once. A second stop does nothing.
\<close>

definition stop_clouds :: "(nat \<Rightarrow> bool) \<Rightarrow> clouds \<Rightarrow> clouds" where
  "stop_clouds thread_ok st =
     (if cl_stopped st then st
      else let forwards = map snd (cl_clients st)
           in st\<lparr>cl_stopped := True, cl_clients := [],
                 cl_workers := cl_workers st @ filter thread_ok forwards,
                 cl_closed := cl_closed st @ filter (\<lambda>h. \<not> thread_ok h) forwards\<rparr>)"

definition run_worker :: "nat \<Rightarrow> clouds \<Rightarrow> clouds" where
  "run_worker h st =
     (if h \<in> set (cl_workers st)
      then st\<lparr>cl_workers := remove1 h (cl_workers st), cl_closed := cl_closed st @ [h]\<rparr> else st)"

text \<open>The wait for the workers: each is joined for what is left of the common deadline.\<close>

definition join_worker :: "'t::linordered_idom \<Rightarrow> 't \<Rightarrow> 't \<Rightarrow> 't" where
  "join_worker deadline ends now =
     (let allowed = max 0 (deadline - now) in if ends \<le> now then now else min ends (now + allowed))"

fun join_workers :: "'t::linordered_idom \<Rightarrow> 't list \<Rightarrow> 't \<Rightarrow> 't" where
  "join_workers deadline [] now = now"
| "join_workers deadline (ends # rest) now = join_workers deadline rest (join_worker deadline ends now)"

definition shutdown_wait :: "'t::linordered_idom list \<Rightarrow> 't \<Rightarrow> 't" where
  "shutdown_wait ends now = join_workers (now + 3) ends now"

datatype cloud_event =
    CloudPacket cloud_answers string mqtt_message
  | StopClouds "nat \<Rightarrow> bool"
  | WorkerRuns nat

fun cloud_step :: "clouds \<Rightarrow> cloud_event \<Rightarrow> clouds" where
  "cloud_step st (CloudPacket A d msg) = fst (hand_to_cloud A d msg st)"
| "cloud_step st (StopClouds thread_ok) = stop_clouds thread_ok st"
| "cloud_step st (WorkerRuns h) = run_worker h st"

section \<open>Checked publications\<close>

text \<open>The user property a publication carries, which tells it apart when it comes back.\<close>

datatype mark = FromGrowatt | FromHa | Unmarked

definition capture_direction :: "mark \<Rightarrow> string" where
  "capture_direction m =
     (case m of
        FromGrowatt \<Rightarrow> ''grobro_to_device_from_cloud''
      | FromHa \<Rightarrow> ''grobro_to_device_from_ha''
      | Unmarked \<Rightarrow> ''grobro_to_cloud_or_device'')"

definition names_device_topic :: "string \<Rightarrow> bool" where
  "names_device_topic topic \<longleftrightarrow> list_ex (prefix ''/33/'') (suffixes topic)"

text \<open>
  The record of a checked publication, written before the client is asked to publish; the answer of
  the client is returned as it is, so only the record is an effect of its own.
\<close>

definition publish_checked_record ::
    "('f json \<Rightarrow> string) \<Rightarrow> bool \<Rightarrow> bool \<Rightarrow> string \<Rightarrow> string \<Rightarrow> mark \<Rightarrow> int option \<Rightarrow> bool option \<Rightarrow>
      string \<Rightarrow> bytes option \<Rightarrow> writer \<Rightarrow> writer" where
  "publish_checked_record dumps thread_ok enabled now debug_dir m qos retain topic payload w =
     (case payload of
        None \<Rightarrow> w
      | Some b \<Rightarrow>
          (let d = extract_device_id topic
           in if enabled \<and> names_device_topic topic \<and> uses_noah_protocol d
              then capture_noah_mqtt_traffic dumps thread_ok enabled now debug_dir
                     \<lparr>tf_device = d, tf_direction = capture_direction m, tf_topic = topic, tf_payload = b,
                      tf_decoded = Some (unscramble b), tf_qos = qos, tf_retain = retain,
                      tf_forwarded_for = None\<rparr> w
              else w))"

section \<open>Meter data without a receiver\<close>

text \<open>
  Meter data that nobody has subscribed to inside the program is published by the source client itself,
  unless it is what was accepted last for that device; the memory is forgotten at every connection.
\<close>

definition source_meter_fresh :: "link \<Rightarrow> string \<Rightarrow> string \<Rightarrow> bool" where
  "source_meter_fresh l d content \<longleftrightarrow> dict_get (ln_meter l) d \<noteq> Some content"

definition commit_source_meter :: "link \<Rightarrow> string \<Rightarrow> string \<Rightarrow> link" where
  "commit_source_meter l d content = l\<lparr>ln_meter := dict_set d content (ln_meter l)\<rparr>"

definition handle_smart_meter ::
    "bool \<Rightarrow> broker \<Rightarrow> string \<Rightarrow> string \<Rightarrow> string \<Rightarrow> link \<times> (publish \<times> answer) list \<Rightarrow>
     (link \<times> (publish \<times> answer) list) \<times> (string \<times> string) option py" where
  "handle_smart_meter has_on_smart_meter B base d content st =
     (if has_on_smart_meter then (st, Inr (Some (d, content)))
      else case st of (l, sent) \<Rightarrow>
        if \<not> source_meter_fresh l d content then (st, Inr None)
        else (let msg = \<lparr>pb_topic = base @ ''/sensor/grobro/'' @ d @ ''/smart_meter/state'',
                         pb_payload = content, pb_retain = False\<rparr>
              in case B sent msg of
                   Raised e \<Rightarrow> ((l, send B msg sent), Inl e)
                 | Answer r \<Rightarrow>
                     ((if publish_succeeded r then commit_source_meter l d content else l, send B msg sent), Inr None)))"

definition forget_meter :: "link \<Rightarrow> link" where
  "forget_meter l = fst (link_connected False (l\<lparr>ln_stopped := False\<rparr>))"

interpretation source_meter: last_value_cache source_meter_fresh commit_source_meter forget_meter "(=)"
  by unfold_locales
    (auto simp: source_meter_fresh_def commit_source_meter_def forget_meter_def link_connected_def)

lemma meter_not_repeated:
  assumes "handle_smart_meter False B base d content (l, sent) = ((l', sent'), Inr None)"
    and "sent' \<noteq> sent" "accepted (B sent \<lparr>pb_topic = base @ ''/sensor/grobro/'' @ d @ ''/smart_meter/state'',
                         pb_payload = content, pb_retain = False\<rparr>)"
  shows "handle_smart_meter False B base d content (l', sent') = ((l', sent'), Inr None)"
  using assms source_meter.duplicate_suppressed [of content content l d]
  by (auto simp: handle_smart_meter_def Let_def send_def split: if_splits answer.splits)

section \<open>Every connection is accounted for\<close>

text \<open>
  A connection that was created is the one in use of its device, waits for its worker, or has been
  disconnected, once; after a stop none is in use and none is created.
\<close>

definition clouds_mset :: "clouds \<Rightarrow> nat multiset" where
  "clouds_mset st = mset (map snd (cl_clients st)) + mset (cl_workers st) + mset (cl_closed st)"

definition created :: "nat \<Rightarrow> nat multiset" where
  "created n = mset [0..<n]"

lemma created_Suc: "created (Suc n) = add_mset n (created n)"
  by (simp add: created_def del: mset_upt)

definition clouds_ok :: "clouds \<Rightarrow> bool" where
  "clouds_ok st \<longleftrightarrow>
     clouds_mset st = created (cl_next st) \<and> dict_wf (cl_clients st) \<and> (cl_stopped st \<longrightarrow> cl_clients st = [])"

lemma no_clouds_ok: "clouds_ok no_clouds"
  by (simp add: clouds_ok_def clouds_mset_def created_def no_clouds_def)

lemma connect_cases:
  "fst (connect_to_growatt_server A d st) = st \<or>
   \<not> cl_stopped st \<and> dict_get (cl_clients st) (cloud_key d) = None \<and>
   (fst (connect_to_growatt_server A d st) =
      st\<lparr>cl_next := Suc (cl_next st), cl_closed := cl_closed st @ [cl_next st]\<rparr> \<or>
    fst (connect_to_growatt_server A d st) =
      st\<lparr>cl_next := Suc (cl_next st), cl_clients := dict_set (cloud_key d) (cl_next st) (cl_clients st)\<rparr>)"
  by (simp add: connect_to_growatt_server_def Let_def split: option.splits)

lemma connect_ok:
  assumes "clouds_ok st"
  shows "clouds_ok (fst (connect_to_growatt_server A d st))"
  using connect_cases [of A d st] assms
  by (elim disjE conjE) (simp_all add: clouds_ok_def clouds_mset_def created_Suc dict_set_fresh dict_wf_def map_of_eq_None_iff)

lemma hand_to_cloud_state: "fst (hand_to_cloud A d msg st) = fst (connect_to_growatt_server A d st)"
  by (simp add: hand_to_cloud_def split: prod.splits sum.splits option.splits)

lemma stop_clouds_mset: "clouds_mset (stop_clouds thread_ok st) = clouds_mset st"
proof -
  have "mset (map snd (cl_clients st)) =
      mset (filter thread_ok (map snd (cl_clients st))) + mset (filter (\<lambda>h. \<not> thread_ok h) (map snd (cl_clients st)))"
    by (metis mset_filter multiset_partition)
  then show ?thesis
    by (simp only: clouds_mset_def stop_clouds_def Let_def) (simp add: ac_simps)
qed

lemma stop_clouds_ok: "clouds_ok st \<Longrightarrow> clouds_ok (stop_clouds thread_ok st)"
  unfolding clouds_ok_def stop_clouds_mset by (simp add: stop_clouds_def Let_def)

lemma run_worker_mset: "clouds_mset (run_worker h st) = clouds_mset st"
proof (cases "h \<in> set (cl_workers st)")
  case True
  then have "mset (cl_workers st) = add_mset h (mset (remove1 h (cl_workers st)))" by simp
  with True show ?thesis by (simp only: clouds_mset_def run_worker_def) (simp add: ac_simps)
qed (simp add: run_worker_def)

lemma run_worker_ok: "clouds_ok st \<Longrightarrow> clouds_ok (run_worker h st)"
  unfolding clouds_ok_def run_worker_mset by (simp add: run_worker_def)

interpretation clouds: step_machine cloud_step clouds_ok
proof (unfold_locales)
  fix st e
  assume "clouds_ok st"
  then show "clouds_ok (cloud_step st e)"
    by (cases e) (simp_all add: hand_to_cloud_state connect_ok stop_clouds_ok run_worker_ok)
qed

text \<open>C24: Over any packets, failing connections, stops and worker steps, every cloud connection ever
  created is exactly once among those in use, those waiting for their shutdown worker and those
  disconnected; no device has two; and once stopped, none is in use.
\<close>

theorem connections_accounted:
  "let st = foldl cloud_step no_clouds es
   in mset (map snd (cl_clients st) @ cl_workers st @ cl_closed st) = mset [0..<cl_next st] \<and>
      distinct (map fst (cl_clients st)) \<and> (if cl_stopped st then cl_clients st = [] else True)"
  using clouds.run_inv [OF no_clouds_ok, of es] by (simp add: Let_def clouds_ok_def clouds_mset_def created_def dict_wf_def ac_simps del: mset_upt)

lemma stopped_opens_nothing: "cl_stopped st \<Longrightarrow> hand_to_cloud A d msg st = (st, [])"
  by (simp add: hand_to_cloud_def connect_to_growatt_server_def)

lemma stop_clouds_twice: "stop_clouds f (stop_clouds g st) = stop_clouds g st"
  by (simp add: stop_clouds_def Let_def)

text \<open>The connections refine the set of forwarded devices that the source client is modelled with.\<close>

definition forwards :: "clouds \<Rightarrow> string set \<Rightarrow> bool" where
  "forwards st F \<longleftrightarrow> (\<forall>d. d \<in> F \<longleftrightarrow> dict_get (cl_clients st) (cloud_key d) \<noteq> None)"

lemma hand_to_cloud_refines:
  fixes E :: "('f, 'm) source_env_scheme"
  assumes "forwards st (sc_forward s)" "\<not> cl_stopped st" "sv_connect_ok E d \<longleftrightarrow> cloud_failure A = None"
    and "hand_to_cloud A d msg st = (st', outs)" "publish_to_growatt_server E d msg s = (s', souts)"
  shows "forwards st' (sc_forward s') \<and> souts = map (\<lambda>(h, t, p). ToCloud d t p) outs"
  using assms
  by (auto simp: forwards_def hand_to_cloud_def connect_to_growatt_server_def publish_to_growatt_server_def
      Let_def cloud_key_def split: option.splits if_splits)

lemma stop_refines: "forwards st F \<Longrightarrow> \<not> cl_stopped st \<Longrightarrow> forwards (stop_clouds f st) {}"
  by (simp add: forwards_def stop_clouds_def Let_def)

section \<open>The shutdown is bounded\<close>

lemma join_worker_bounded: "join_worker deadline e now \<le> max deadline now"
  by (auto simp: join_worker_def Let_def max_def min_def)

lemma join_worker_forward: "now \<le> join_worker deadline e now"
  by (auto simp: join_worker_def Let_def max_def)

lemma join_workers_bounded: "join_workers deadline ends now \<le> max deadline now"
proof (induction ends arbitrary: now)
  case (Cons e rest)
  from Cons.IH [of "join_worker deadline e now"] join_worker_bounded [of deadline e now]
  show ?case by auto
qed simp

lemma join_workers_forward: "now \<le> join_workers deadline ends now"
proof (induction ends arbitrary: now)
  case (Cons e rest)
  from join_worker_forward [of now deadline e] Cons.IH [of "join_worker deadline e now"]
  show ?case by simp
qed simp

lemma shutdown_bounded: "shutdown_wait ends now \<le> now + 3"
  using join_workers_bounded [of "now + 3" ends now] by (simp add: shutdown_wait_def)

lemma shutdown_waits_for_workers:
  "list_all (\<lambda>e. e \<le> deadline) ends \<Longrightarrow> now \<le> deadline \<Longrightarrow>
   list_all (\<lambda>e. e \<le> join_workers deadline ends now) ends"
proof (induction ends arbitrary: now)
  case (Cons x rest)
  let ?n = "join_worker deadline x now"
  have n: "x \<le> ?n" "?n \<le> deadline" using Cons.prems by (auto simp: join_worker_def Let_def)
  from Cons.IH [of ?n] Cons.prems n join_workers_forward [of ?n deadline rest]
  show ?case by simp
qed simp

section \<open>The device broker: readiness and log noise\<close>

datatype link_event = Connected bool | ConnectFailed | Disconnected | Subscribed bool bool | LinkStopped

text \<open>A stop withdraws the readiness before it marks the client as stopped.\<close>

definition link_stop :: "link \<Rightarrow> link" where
  "link_stop l = l\<lparr>ln_ready := False, ln_stopped := True\<rparr>"

fun link_step :: "link \<Rightarrow> link_event \<Rightarrow> link \<times> link_out list" where
  "link_step l (Connected is_failure) = link_connected is_failure l"
| "link_step l ConnectFailed = link_failed l"
| "link_step l Disconnected = (link_disconnected l, [])"
| "link_step l (Subscribed has_on_ready rejected) = link_subscribed has_on_ready rejected l"
| "link_step l LinkStopped = (link_stop l, [])"

fun link_run :: "link \<Rightarrow> link_event list \<Rightarrow> link \<times> link_out list" where
  "link_run l [] = (l, [])"
| "link_run l (e # es) =
     (let (l1, o1) = link_step l e; (l2, o2) = link_run l1 es in (l2, o1 @ o2))"

lemma stopped_link_silent:
  "ln_stopped l \<Longrightarrow> \<not> ln_ready l \<Longrightarrow> snd (link_run l es) = [] \<and> \<not> ln_ready (fst (link_run l es))"
proof (induction es arbitrary: l)
  case (Cons e es)
  have "ln_stopped (fst (link_step l e)) \<and> \<not> ln_ready (fst (link_step l e)) \<and> snd (link_step l e) = []"
    using Cons.prems
    by (cases e) (auto simp: link_connected_def link_failed_def link_disconnected_def link_subscribed_def
        link_stop_def Let_def)
  with Cons.IH [of "fst (link_step l e)"] show ?case by (auto simp: Let_def split: prod.splits)
qed simp

text \<open>A broker that stays away is reported once per connection that had succeeded, and once more.\<close>

lemma failures_logged_once:
  "length (filter ((=) LogFailure) (snd (link_run l es)))
     \<le> (if ln_failure_logged l then 0 else 1) + length (filter ((=) (Subscribe ''c/#'')) (snd (link_run l es)))"
proof (induction es arbitrary: l)
  case (Cons e es)
  obtain l1 o1 where s: "link_step l e = (l1, o1)" by force
  obtain l2 o2 where r: "link_run l1 es = (l2, o2)" by force
  have "length (filter ((=) LogFailure) o1) + (if ln_failure_logged l1 then 0 else 1)
      \<le> (if ln_failure_logged l then 0 else 1) + length (filter ((=) (Subscribe ''c/#'')) o1)"
    using s by (cases e) (auto simp: link_connected_def link_failed_def link_disconnected_def link_subscribed_def
        link_stop_def Let_def split: if_splits)
  with Cons.IH [of l1] show ?case by (simp add: s r)
qed simp

text \<open>Ready means subscribed: readiness comes only with an accepted subscription.\<close>

lemma ready_after_subscription:
  assumes "ln_ready (fst (link_step l e))" "\<not> ln_ready l"
  shows "\<exists>has_on_ready. e = Subscribed has_on_ready False"
  using assms
  by (cases e) (auto simp: link_connected_def link_failed_def link_disconnected_def link_subscribed_def
      link_stop_def Let_def split: if_splits)

end
