(* ===== verification/DiagnosticScope.thy ===== *)
theory DiagnosticScope
  imports Diagnostics
begin

text \<open>
  Which writer a diagnostic record goes to (\<open>diagnostic_io.py\<close>): \<open>diagnostic_scope\<close> makes the writer of the
  client whose callback runs the active one for the time of the callback, whatever it raises, and
  \<open>append_lines\<close> hands a record to the active writer, or writes it at once when there is none. Then what
  the answers of \<open>flush\<close> and \<open>stop\<close> say. Writers are numbered; \<open>dg_direct\<close> lists what was written at once.
\<close>

section \<open>Scopes\<close>

record scopes =
  dg_active :: "nat option"
  dg_writers :: "nat \<Rightarrow> writer"
  dg_direct :: "job list"

definition append_lines :: "bool \<Rightarrow> string \<Rightarrow> string \<Rightarrow> scopes \<Rightarrow> scopes" where
  "append_lines thread_ok path line st =
     (case dg_active st of
        Some i \<Rightarrow> st\<lparr>dg_writers := (dg_writers st)(i := fst (submit thread_ok (path, line) (dg_writers st i)))\<rparr>
      | None \<Rightarrow> st\<lparr>dg_direct := dg_direct st @ [(path, line)]\<rparr>)"

text \<open>A callback is a state transformer that may raise; the old scope returns in either case.\<close>

definition diagnostic_scope :: "nat option \<Rightarrow> (scopes \<Rightarrow> scopes \<times> 'e option) \<Rightarrow> scopes \<Rightarrow> scopes \<times> 'e option" where
  "diagnostic_scope own_writer callback st =
     (let token = dg_active st; (st', r) = callback (st\<lparr>dg_active := own_writer\<rparr>)
      in (st'\<lparr>dg_active := token\<rparr>, r))"

text \<open>What callbacks do with it: append records, call back into another client, raise.\<close>

datatype 'e activity =
    AppendText bool string string
  | Callback "nat option" "'e activity list"
  | RaiseError 'e

fun run_activity :: "'e activity \<Rightarrow> scopes \<Rightarrow> scopes \<times> 'e option"
  and run_activities :: "'e activity list \<Rightarrow> scopes \<Rightarrow> scopes \<times> 'e option" where
  "run_activity (AppendText thread_ok path line) st = (append_lines thread_ok path line st, None)"
| "run_activity (Callback own_writer acts) st = diagnostic_scope own_writer (run_activities acts) st"
| "run_activity (RaiseError e) st = (st, Some e)"
| "run_activities [] st = (st, None)"
| "run_activities (a # acts) st =
     (case run_activity a st of
        (st', None) \<Rightarrow> run_activities acts st'
      | (st', Some e) \<Rightarrow> (st', Some e))"

text \<open>The routing alone: the records in order, each with the writer of the innermost callback around it.\<close>

fun routed :: "nat option \<Rightarrow> 'e activity \<Rightarrow> (nat option \<times> bool \<times> job) list \<times> 'e option"
  and routed_all :: "nat option \<Rightarrow> 'e activity list \<Rightarrow> (nat option \<times> bool \<times> job) list \<times> 'e option" where
  "routed own (AppendText thread_ok path line) = ([(own, thread_ok, (path, line))], None)"
| "routed own (Callback own_writer acts) = routed_all own_writer acts"
| "routed own (RaiseError e) = ([], Some e)"
| "routed_all own [] = ([], None)"
| "routed_all own (a # acts) =
     (case routed own a of
        (rs, Some e) \<Rightarrow> (rs, Some e)
      | (rs, None) \<Rightarrow> (case routed_all own acts of (rs', r) \<Rightarrow> (rs @ rs', r)))"

definition deliver :: "nat option \<times> bool \<times> job \<Rightarrow> scopes \<Rightarrow> scopes" where
  "deliver rec st =
     (case rec of
        (None, thread_ok, j) \<Rightarrow> st\<lparr>dg_direct := dg_direct st @ [j]\<rparr>
      | (Some i, thread_ok, j) \<Rightarrow>
          st\<lparr>dg_writers := (dg_writers st)(i := fst (submit thread_ok j (dg_writers st i)))\<rparr>)"

lemma deliver_active: "deliver r (st\<lparr>dg_active := a\<rparr>) = (deliver r st)\<lparr>dg_active := a\<rparr>"
  by (cases r) (auto simp: deliver_def split: option.splits)

lemma deliver_keeps_scope: "dg_active (deliver r st) = dg_active st"
  by (cases r) (auto simp: deliver_def split: option.splits)

lemma delivered_active: "fold deliver rs (st\<lparr>dg_active := a\<rparr>) = (fold deliver rs st)\<lparr>dg_active := a\<rparr>"
  by (induction rs arbitrary: st) (simp_all add: deliver_active)

lemma delivered_scope: "dg_active (fold deliver rs st) = dg_active st"
  by (induction rs arbitrary: st) (simp_all add: deliver_keeps_scope)

text \<open>
  Running callbacks is delivering each record to the writer of its innermost callback: no exception and no
  nesting leaves a scope behind, and nothing reaches the writer of another client.
\<close>

lemma activities_routed:
  fixes a :: "'e activity" and acts :: "'e activity list"
  shows "run_activity a st = (fold deliver (fst (routed (dg_active st) a)) st, snd (routed (dg_active st) a))"
    and "run_activities acts st =
      (fold deliver (fst (routed_all (dg_active st) acts)) st, snd (routed_all (dg_active st) acts))"
proof (induction a st and acts st rule: run_activity_run_activities.induct)
  case (1 thread_ok path line st)
  then show ?case by (simp add: append_lines_def deliver_def split: option.split)
next
  case (2 own_writer acts st)
  have "st\<lparr>dg_active := dg_active st\<rparr> = st" by simp
  with 2 show ?case by (simp add: diagnostic_scope_def Let_def delivered_active delivered_scope del: scopes.surjective)
next
  case (5 a acts st)
  obtain rs r where a: "routed (dg_active st) a = (rs, r)" by force
  show ?case
  proof (cases r)
    case None
    with 5 a show ?thesis by (simp add: delivered_scope split: prod.split)
  next
    case (Some e)
    with 5 a show ?thesis by simp
  qed
qed simp_all

theorem diagnostics_reach_their_writer:
  "let (st', r) = run_activities acts st; (records, r') = routed_all (dg_active st) acts
   in r = r' \<and> dg_active st' = dg_active st \<and>
      dg_direct st' = dg_direct st @ map (snd \<circ> snd) (filter (\<lambda>rec. fst rec = None) records) \<and>
      dg_writers st' i =
        fold (\<lambda>(own, thread_ok, j) w. fst (submit thread_ok j w)) (filter (\<lambda>rec. fst rec = Some i) records)
          (dg_writers st i)"
proof -
  have direct: "dg_direct (fold deliver rs s) = dg_direct s @ map (snd \<circ> snd) (filter (\<lambda>rec. fst rec = None) rs)" for rs s
    by (induction rs arbitrary: s) (auto simp: deliver_def split: option.splits)
  have writers: "dg_writers (fold deliver rs s) i =
      fold (\<lambda>(own, thread_ok, j) w. fst (submit thread_ok j w)) (filter (\<lambda>rec. fst rec = Some i) rs)
        (dg_writers s i)" for rs s
    by (induction rs arbitrary: s) (auto simp: deliver_def split: option.splits)
  show ?thesis
    by (simp add: activities_routed(2) Let_def delivered_scope direct writers split: prod.split)
qed

section \<open>Flush and stop\<close>

text \<open>What \<open>wait_for\<close> answers is the condition when the wait ends, in time or not.\<close>

definition flush_answer :: "writer \<Rightarrow> bool" where
  "flush_answer w \<longleftrightarrow> dw_queue w = [] \<and> dw_active w = None"

text \<open>\<open>stop\<close> answers when the join is over: the worker has left, or there never was one.\<close>

definition stop_answer :: "writer \<Rightarrow> bool" where
  "stop_answer w \<longleftrightarrow> \<not> dw_thread w \<or> dw_exited w"

definition join_time :: "'t::linordered_idom \<Rightarrow> 't \<Rightarrow> 't \<Rightarrow> 't" where
  "join_time limit started now = max 0 (limit - (now - started))"

lemma stop_in_time: "started \<le> now \<Longrightarrow> now \<le> started + limit \<Longrightarrow> now + join_time limit started now \<le> started + limit"
  by (simp add: join_time_def algebra_simps)

text \<open>Both answers are reliable: everything accepted so far has been ended.\<close>

theorem drained_answers:
  assumes "writer_run (new_writer max_jobs max_bytes) ls w" "flush_answer w \<or> stop_answer w"
  shows "ended_jobs ls = accepted_jobs ls"
proof -
  have "writer_ok w" using writer_run_ok [OF assms(1) new_writer_ok] by simp
  then have "dw_queue w = []" "dw_active w = None"
    using assms(2) by (auto simp: writer_ok_def flush_answer_def stop_answer_def)
  with writer_run_queue [OF assms(1)] show ?thesis
    by (simp add: new_writer_def active_jobs_def)
qed

end
