(* ===== verification/RulesCache.thy ===== *)
theory RulesCache
  imports Telemetry
begin

text \<open>
  The cache of \<open>_register_rules\<close> in \<open>ha/performance.py\<close>: the rules of a register map under the identity of
  the map object, at most 32 of them, the least recently used evicted first. An identity is the address of
  the object and may be used again once the object is gone; the cache keeps what it holds alive. What
  is shown: whatever is allocated, freed and asked for, the cache answers what a fresh computation would.
\<close>

text \<open>A reference to a map: its identity with what is stored there.\<close>

type_synonym 'f map_ref = "nat \<times> 'f register_map"

type_synonym 'f rules_cache = "(nat, 'f map_ref \<times> 'f register_rules) dict"

definition register_rules_cache_limit :: nat where
  "register_rules_cache_limit = 32"

definition move_to_end :: "'k \<Rightarrow> ('k, 'v) dict \<Rightarrow> ('k, 'v) dict" where
  "move_to_end k d = (case dict_get d k of None \<Rightarrow> d | Some v \<Rightarrow> dict_pop k d @ [(k, v)])"

function evict_oldest :: "nat \<Rightarrow> ('k, 'v) dict \<Rightarrow> ('k, 'v) dict" where
  "evict_oldest limit d = (if limit < length d then evict_oldest limit (tl d) else d)"
  by pat_completeness auto
termination by (relation "measure (\<lambda>(limit, d). length d)") auto

definition store_rules :: "nat \<Rightarrow> 'f register_map \<Rightarrow> 'f rules_cache \<Rightarrow> 'f rules_cache \<times> 'f register_rules" where
  "store_rules cache_key known cache =
     (let rules = register_rules (Some known);
          stored = move_to_end cache_key (dict_set cache_key ((cache_key, known), rules) cache)
      in (evict_oldest register_rules_cache_limit stored, rules))"

definition cached_register_rules ::
    "'f map_ref option \<Rightarrow> 'f rules_cache \<Rightarrow> 'f rules_cache \<times> 'f register_rules" where
  "cached_register_rules known_registers cache =
     (case known_registers of
        None \<Rightarrow> (cache, register_rules None)
      | Some (cache_key, known) \<Rightarrow>
          (case dict_get cache cache_key of
             Some ((kept, content), rules) \<Rightarrow>
               if kept = cache_key then (move_to_end cache_key cache, rules)
               else store_rules cache_key known cache
           | None \<Rightarrow> store_rules cache_key known cache))"

section \<open>Objects that come and go\<close>

text \<open>
  The objects alive, by address. A map is never changed in place; its memory may be given back once
  neither the program nor the cache refers to it.
\<close>

type_synonym 'f rules_world = "(nat \<Rightarrow> 'f register_map option) \<times> 'f rules_cache"

definition kept_alive :: "'f rules_cache \<Rightarrow> nat set" where
  "kept_alive cache = (\<lambda>(k, (kept, content), rules). kept) ` set cache"

datatype 'f rules_event = AllocMap nat "'f register_map" | FreeMap nat | AskRules nat

fun rules_step :: "'f rules_world \<Rightarrow> 'f rules_event \<Rightarrow> 'f rules_world" where
  "rules_step (heap, cache) (AllocMap a m) = (if heap a = None then (heap(a \<mapsto> m), cache) else (heap, cache))"
| "rules_step (heap, cache) (FreeMap a) =
     (if a \<in> kept_alive cache then (heap, cache) else (heap(a := None), cache))"
| "rules_step (heap, cache) (AskRules a) =
     (case heap a of
        None \<Rightarrow> (heap, cache)
      | Some m \<Rightarrow> (heap, fst (cached_register_rules (Some (a, m)) cache)))"

definition rule_entry_ok :: "(nat \<Rightarrow> 'f register_map option) \<Rightarrow> nat \<times> 'f map_ref \<times> 'f register_rules \<Rightarrow> bool" where
  "rule_entry_ok heap e \<longleftrightarrow>
     (case e of (k, (kept, content), rules) \<Rightarrow>
        kept = k \<and> heap k = Some content \<and> rules = register_rules (Some content))"

definition rules_ok :: "'f rules_world \<Rightarrow> bool" where
  "rules_ok w \<longleftrightarrow>
     (case w of (heap, cache) \<Rightarrow>
        dict_wf cache \<and> length cache \<le> register_rules_cache_limit \<and> list_all (rule_entry_ok heap) cache)"

declare evict_oldest.simps [simp del]

lemma evict_oldest_drop: "evict_oldest limit d = drop (length d - limit) d"
proof (induction limit d rule: evict_oldest.induct)
  case (1 limit d)
  show ?case
  proof (cases "limit < length d")
    case True
    then obtain x xs where d: "d = x # xs" by (cases d) auto
    from True 1 d show ?thesis
      by (subst evict_oldest.simps) (simp add: Suc_diff_le)
  next
    case False
    then show ?thesis by (subst evict_oldest.simps) simp
  qed
qed

lemma move_to_end_wf: "dict_wf d \<Longrightarrow> dict_wf (move_to_end k d)"
  by (simp add: move_to_end_def dict_wf_def AList.delete_keys distinct_removeAll split: option.split)

lemma delete_subset: "set (dict_pop k d) \<subseteq> set d"
  by (induction d) auto

lemma move_to_end_set: "set (move_to_end k d) \<subseteq> set d"
  using delete_subset [of k d] by (auto simp: move_to_end_def map_of_SomeD split: option.splits)

lemma move_to_end_length:
  assumes "dict_wf d"
  shows "length (move_to_end k d) = length d"
proof (cases "dict_get d k")
  case (Some v)
  then have k: "k \<in> set (map fst d)" using map_of_SomeD by force
  have "length (dict_pop k d) = length (removeAll k (map fst d))"
    by (metis AList.delete_keys length_map)
  also have "\<dots> = length d - 1"
    using assms k by (simp add: dict_wf_def distinct_remove1_removeAll [symmetric] length_remove1)
  finally show ?thesis using Some k by (cases d) (simp_all add: move_to_end_def)
qed (simp add: move_to_end_def)

lemma update_subset: "set (dict_set k v d) \<subseteq> insert (k, v) (set d)"
  by (induction d) auto

lemma rules_ok_subset:
  assumes "rules_ok (heap, cache)" "dict_wf cache'" "length cache' \<le> register_rules_cache_limit"
    and "\<And>e. e \<in> set cache' \<Longrightarrow> e \<in> set cache \<or> rule_entry_ok heap e"
  shows "rules_ok (heap, cache')"
  using assms unfolding rules_ok_def list_all_iff by blast

lemma store_rules_ok:
  assumes "rules_ok (heap, cache)" "heap a = Some m"
  shows "rules_ok (heap, fst (store_rules a m cache))" "snd (store_rules a m cache) = register_rules (Some m)"
proof -
  define stored where "stored = move_to_end a (dict_set a ((a, m), register_rules (Some m)) cache)"
  have wf: "dict_wf stored" using assms(1) by (simp add: stored_def move_to_end_wf rules_ok_def)
  have set: "e \<in> set cache \<or> e = (a, (a, m), register_rules (Some m))"
    if "e \<in> set (evict_oldest register_rules_cache_limit stored)" for e
    using that move_to_end_set [of a "dict_set a ((a, m), register_rules (Some m)) cache"]
      update_subset [of a "((a, m), register_rules (Some m))" cache]
    unfolding evict_oldest_drop stored_def [symmetric] by (auto dest: in_set_dropD)
  have result: "store_rules a m cache =
      (evict_oldest register_rules_cache_limit stored, register_rules (Some m))"
    by (simp add: store_rules_def Let_def stored_def)
  have "rules_ok (heap, evict_oldest register_rules_cache_limit stored)"
  proof (rule rules_ok_subset [OF assms(1)])
    show "dict_wf (evict_oldest register_rules_cache_limit stored)"
      using wf by (simp add: dict_wf_def evict_oldest_drop drop_map [symmetric] distinct_drop)
    show "length (evict_oldest register_rules_cache_limit stored) \<le> register_rules_cache_limit"
      by (simp add: evict_oldest_drop)
    show "e \<in> set cache \<or> rule_entry_ok heap e"
      if "e \<in> set (evict_oldest register_rules_cache_limit stored)" for e
      using set [OF that] assms(2) by (auto simp: rule_entry_ok_def)
  qed
  then show "rules_ok (heap, fst (store_rules a m cache))" "snd (store_rules a m cache) = register_rules (Some m)"
    by (simp_all add: result)
qed

lemma cached_rules_ok:
  assumes "rules_ok (heap, cache)" "heap a = Some m"
  shows "rules_ok (heap, fst (cached_register_rules (Some (a, m)) cache)) \<and>
    snd (cached_register_rules (Some (a, m)) cache) = register_rules (Some m)"
proof (cases "dict_get cache a")
  case None
  then show ?thesis using store_rules_ok [OF assms] by (simp add: cached_register_rules_def)
next
  case (Some e)
  obtain kept content rules where e: "e = ((kept, content), rules)" by (metis prod.collapse)
  have entry: "kept = a" "content = m" "rules = register_rules (Some m)"
    using assms map_of_SomeD [OF Some] by (auto simp: rules_ok_def list_all_iff rule_entry_ok_def e)
  have "rules_ok (heap, move_to_end a cache)"
    by (rule rules_ok_subset [OF assms(1)])
      (use assms(1) move_to_end_set [of a cache] in \<open>auto simp: rules_ok_def move_to_end_wf move_to_end_length\<close>)
  then show ?thesis using Some e entry by (simp add: cached_register_rules_def)
qed

interpretation rules: step_machine rules_step rules_ok
proof
  fix w :: "'a rules_world" and e :: "'a rules_event"
  obtain heap cache where w: "w = (heap, cache)" by (cases w)
  assume ok: "rules_ok w"
  show "rules_ok (rules_step w e)"
  proof (cases e)
    case (AllocMap a m)
    have "rule_entry_ok (heap(a \<mapsto> m)) e" if "heap a = None" "rule_entry_ok heap e" for e
      using that by (auto simp: rule_entry_ok_def split: prod.splits)
    with ok w AllocMap show ?thesis by (auto simp: rules_ok_def list_all_iff)
  next
    case (FreeMap a)
    have "rule_entry_ok (heap(a := None)) e" if "a \<notin> kept_alive cache" "e \<in> set cache" "rule_entry_ok heap e" for e
      using that by (force simp: rule_entry_ok_def kept_alive_def split: prod.splits)
    with ok w FreeMap show ?thesis by (auto simp: rules_ok_def list_all_iff)
  next
    case (AskRules a)
    with ok w cached_rules_ok [of heap cache a] show ?thesis by (auto split: option.split)
  qed
qed

text \<open>
  Whatever maps were created, asked about and given back before, at the same addresses or others, the
  cache answers for every map alive what computing its rules anew would, and never holds more than
  32 of them.
\<close>

theorem rules_cache_transparent:
  "case foldl rules_step (\<lambda>_. None, []) events of
     (heap, cache) \<Rightarrow>
       length cache \<le> 32 \<and>
       (case heap a of
          None \<Rightarrow> True
        | Some m \<Rightarrow> snd (cached_register_rules (Some (a, m)) cache) = register_rules (Some m))"
proof -
  obtain heap cache where run: "foldl rules_step (\<lambda>_. None, []) events = (heap, cache)" by force
  have "rules_ok (heap, cache)"
    using rules.run_inv [of "(\<lambda>_. None, [])" events] run by (simp add: rules_ok_def)
  with run show ?thesis
    using cached_rules_ok [of heap cache a]
    by (auto simp: rules_ok_def register_rules_cache_limit_def split: option.split)
qed

end
