(* ===== verification/RuntimeTimers.thy ===== *)
theory RuntimeTimers
  imports MqttResult
begin

text \<open>
  The timer discipline of the Home Assistant side (\<open>grobro/ha/timer_runtime.py\<close> and its users): a
  background job keeps one current timer; a callback first takes the runtime lock and then looks whether
  the client was stopped and whether its timer is still the current one. A timer is named by its position
  in the list of all timers ever created, so an old one may fire at any later moment.
\<close>

section \<open>One current timer\<close>

locale timer_slot =
  fixes fire :: "'e \<Rightarrow> nat \<Rightarrow> 's \<Rightarrow> 's"
    and arm :: "'e \<Rightarrow> 's \<Rightarrow> 's"
    and stop :: "'s \<Rightarrow> 's"
    and current :: "'s \<Rightarrow> nat option"
    and created :: "'s \<Rightarrow> nat"
    and stopped :: "'s \<Rightarrow> bool"
  assumes fire_stale: "current s \<noteq> Some n \<Longrightarrow> fire e n s = s"
    and fire_created: "created s \<le> created (fire e n s)"
    and fire_current: "current s = Some n \<Longrightarrow> \<not> stopped s \<Longrightarrow> n < created s \<Longrightarrow>
      current (fire e n s) = None \<or>
      (\<exists>m. current (fire e n s) = Some m \<and> created s \<le> m \<and> m < created (fire e n s))"
    and arm_created: "created s \<le> created (arm e s)"
    and arm_current: "\<not> stopped s \<Longrightarrow>
      current (arm e s) = None \<or>
      (\<exists>m. current (arm e s) = Some m \<and> created s \<le> m \<and> m < created (arm e s))"
    and arm_stopped: "stopped s \<Longrightarrow> arm e s = s"
    and stop_current: "current (stop s) = None"
    and stop_created: "created (stop s) = created s"
    and stop_stopped: "stopped (stop s)"
    and fire_stopped: "stopped (fire e n s) = stopped s"
begin

definition slot_ok :: "'s \<Rightarrow> bool" where
  "slot_ok s \<longleftrightarrow> (\<forall>n. current s = Some n \<longrightarrow> n < created s \<and> \<not> stopped s)"

lemma slot_kept_by_fire: "slot_ok s \<Longrightarrow> slot_ok (fire e n s)"
proof (cases "current s = Some n")
  case True
  moreover assume "slot_ok s"
  ultimately show ?thesis using fire_current [of s n e] fire_stopped [of e n s] by (auto simp: slot_ok_def)
qed (simp add: fire_stale)

lemma slot_kept_by_arm: "slot_ok s \<Longrightarrow> stopped (arm e s) = stopped s \<Longrightarrow> slot_ok (arm e s)"
  by (cases "stopped s") (use arm_current [of s e] arm_stopped [of s e] in \<open>auto simp: slot_ok_def\<close>)

lemma slot_kept_by_stop: "slot_ok (stop s)"
  by (simp add: slot_ok_def stop_current)

text \<open>A timer that was replaced, or cancelled by a stop, does nothing when it fires after all.\<close>

lemma replaced_timer_harmless:
  assumes "\<not> stopped s" "n < created s"
  shows "fire e' n (arm e s) = arm e s"
proof -
  have "current (arm e s) \<noteq> Some n" using arm_current [OF assms(1), of e] assms(2) by auto
  then show ?thesis by (rule fire_stale)
qed

lemma fired_once: "slot_ok s \<Longrightarrow> current s = Some n \<Longrightarrow> fire e' n (fire e n s) = fire e n s"
  using fire_current [of s n e] fire_stale [of "fire e n s" n e'] by (auto simp: slot_ok_def)

lemma cancelled_timers_harmless: "fire e n (stop s) = stop s"
  by (rule fire_stale) (simp add: stop_current)

lemma stopped_stays_quiet: "foldl (\<lambda>s (e, n). fire e n s) (stop s) es = stop s"
  by (induction es) (simp_all add: cancelled_timers_harmless split_def)

end

end
