(* ===== verification/ClockSync.thy ===== *)
theory ClockSync
  imports RuntimeTimers ModbusMessage DeviceFamily ConfigParser
begin

text \<open>
  \<open>grobro/ha/time_sync_runtime.py\<close>: twice a day, at midnight and at noon, the current time is written
  to the clock register of every known device that has one. Instants are counted in microseconds of the
  local day, as \<open>datetime\<close> keeps them; the division that makes a float of seconds is left out.
\<close>

section \<open>Definitions\<close>

definition us_per_second :: int where
  "us_per_second = 1000000"

definition us_per_hour :: int where
  "us_per_hour = 3600 * us_per_second"

definition us_per_day :: int where
  "us_per_day = 24 * us_per_hour"

definition us_of_day :: "datetime \<Rightarrow> int" where
  "us_of_day t = ((dt_hour t * 60 + dt_minute t) * 60 + dt_second t) * us_per_second + dt_micro t"

definition time_sync_hours :: "int list" where
  "time_sync_hours = [0, 12]"

definition next_at_hour :: "int \<Rightarrow> int \<Rightarrow> int" where
  "next_at_hour current hour =
     (let candidate = hour * us_per_hour in if candidate \<le> current then candidate + us_per_day else candidate)"

definition us_until_next_time_sync :: "datetime \<Rightarrow> int" where
  "us_until_next_time_sync now =
     (let current = us_of_day now; candidates = map (next_at_hour current) time_sync_hours
      in max us_per_second (fold min (tl candidates) (hd candidates) - current))"

text \<open>\<open>strftime("%Y-%m-%d %H:%M:%S")\<close>.\<close>

definition time_text :: "datetime \<Rightarrow> string" where
  "time_text t =
     pad_zeros 4 (dt_year t) @ ''-'' @ pad_zeros 2 (dt_month t) @ ''-'' @ pad_zeros 2 (dt_day t) @ '' '' @
     pad_zeros 2 (dt_hour t) @ '':'' @ pad_zeros 2 (dt_minute t) @ '':'' @ pad_zeros 2 (dt_second t)"

record 'f clock_env =
  ke_maps :: "map_id \<Rightarrow> 'f register_map"
  ke_devices :: "string list"
  ke_command :: "(string \<Rightarrow> int \<Rightarrow> string \<Rightarrow> answer) option"
  ke_now :: datetime
  ke_now_later :: datetime
  ke_timer_ok :: "nat \<Rightarrow> bool"

record clock_sync =
  ks_timer :: "nat option"
  ks_delays :: "int list"
  ks_stopped :: bool

definition no_clock_sync :: clock_sync where
  "no_clock_sync = \<lparr>ks_timer = None, ks_delays = [], ks_stopped = False\<rparr>"

text \<open>The commands sent, and how many the broker accepted.\<close>

definition sync_supported_clocks :: "('f, 'm) clock_env_scheme \<Rightarrow> (string \<times> int \<times> string) list \<times> nat" where
  "sync_supported_clocks E =
     (case ke_command E of
        None \<Rightarrow> ([], 0)
      | Some command \<Rightarrow>
          (let targets = filter (supports_time_sync (ke_maps E)) (ke_devices E); v = time_text (ke_now E)
           in (map (\<lambda>d. (d, time_sync_register, v)) targets,
               length (filter (\<lambda>d. accepted (command d time_sync_register v)) targets))))"

definition schedule_next_time_sync :: "('f, 'm) clock_env_scheme \<Rightarrow> clock_sync \<Rightarrow> clock_sync" where
  "schedule_next_time_sync E st =
     (if ks_stopped st then st
      else (let n = length (ks_delays st) in
        st\<lparr>ks_timer := (if ke_timer_ok E n then Some n else None),
           ks_delays := ks_delays st @ [us_until_next_time_sync (ke_now_later E)]\<rparr>))"

definition fire_clock_timer ::
    "('f, 'm) clock_env_scheme \<Rightarrow> nat \<Rightarrow> clock_sync \<Rightarrow> clock_sync \<times> (string \<times> int \<times> string) list" where
  "fire_clock_timer E n st =
     (if ks_stopped st \<or> ks_timer st \<noteq> Some n then (st, [])
      else (schedule_next_time_sync E (st\<lparr>ks_timer := None\<rparr>), fst (sync_supported_clocks E)))"

definition stop_clock_sync :: "clock_sync \<Rightarrow> clock_sync" where
  "stop_clock_sync st = st\<lparr>ks_timer := None, ks_stopped := True\<rparr>"

section \<open>Lemmas\<close>

interpretation clock_timer: timer_slot "\<lambda>E n st. fst (fire_clock_timer E n st)" schedule_next_time_sync
    stop_clock_sync ks_timer "\<lambda>st. length (ks_delays st)" ks_stopped
  by unfold_locales (auto simp: fire_clock_timer_def schedule_next_time_sync_def stop_clock_sync_def Let_def)

lemma us_of_day_bounds:
  assumes "valid_datetime t"
  shows "0 \<le> us_of_day t" "us_of_day t < us_per_day"
proof -
  have b: "0 \<le> dt_hour t" "dt_hour t \<le> 23" "0 \<le> dt_minute t" "dt_minute t \<le> 59"
    "0 \<le> dt_second t" "dt_second t \<le> 59" "0 \<le> dt_micro t" "dt_micro t \<le> 999999"
    using assms by (simp_all add: valid_datetime_def)
  then show "0 \<le> us_of_day t" by (simp add: us_of_day_def us_per_second_def)
  have "dt_hour t * 3600 + dt_minute t * 60 + dt_second t \<le> 86399" using b by linarith
  then show "us_of_day t < us_per_day"
    using b(8) by (simp add: us_of_day_def us_per_second_def us_per_day_def us_per_hour_def)
qed

lemma next_at_hour_spec:
  assumes "0 \<le> now" "now < us_per_day" "0 \<le> h" "h \<le> 23"
  shows "now < next_at_hour now h" "next_at_hour now h \<le> now + us_per_day"
  using assms by (auto simp: next_at_hour_def us_per_day_def us_per_hour_def us_per_second_def Let_def)

text \<open>The next instant is the next multiple of twelve hours.\<close>

lemma next_sync_instant:
  assumes "0 \<le> now" "now < us_per_day"
  shows "fold min (tl (map (next_at_hour now) time_sync_hours)) (hd (map (next_at_hour now) time_sync_hours)) =
    12 * us_per_hour * (now div (12 * us_per_hour) + 1)"
proof (cases "now < 12 * us_per_hour")
  case True
  then have "now div (12 * us_per_hour) = 0" using assms(1) by (simp add: us_per_hour_def us_per_second_def)
  then show ?thesis
    using True assms by (simp add: time_sync_hours_def next_at_hour_def us_per_day_def us_per_hour_def us_per_second_def)
next
  case False
  have "now div (12 * us_per_hour) = 1"
    using False assms(2)
    by (intro int_div_pos_eq [where r = "now - 12 * us_per_hour"]) (simp_all add: us_per_day_def us_per_hour_def us_per_second_def)
  then show ?thesis
    using False assms by (simp add: time_sync_hours_def next_at_hour_def us_per_day_def us_per_hour_def us_per_second_def)
qed

text \<open>While timers can be started the chain of synchronizations never breaks off.\<close>

lemma clock_chain_alive:
  assumes "\<forall>(E, n) \<in> set es. ke_timer_ok E = (\<lambda>k. True)" "ks_timer st \<noteq> None"
  shows "ks_timer (foldl (\<lambda>s (E, n). fst (fire_clock_timer E n s)) st es) \<noteq> None"
  using assms
proof (induction es arbitrary: st)
  case (Cons e es)
  obtain E n where e: "e = (E, n)" by fastforce
  have "ke_timer_ok E = (\<lambda>k. True)" using Cons.prems(1) e by simp
  then have "ks_timer (fst (fire_clock_timer E n st)) \<noteq> None"
    using Cons.prems(2) by (simp add: fire_clock_timer_def schedule_next_time_sync_def Let_def)
  then show ?case using Cons.IH [of "fst (fire_clock_timer E n st)"] Cons.prems(1) e by simp
qed simp

section \<open>Properties\<close>

text \<open>The delay to the next clock write is at least a second and at most twelve hours, and it ends
  exactly at midnight or noon, the first one after now, unless that is less than a second away.\<close>

theorem time_sync_delay:
  assumes "valid_datetime now"
  shows "us_per_second \<le> us_until_next_time_sync now \<and> us_until_next_time_sync now \<le> 12 * us_per_hour \<and>
    us_until_next_time_sync now =
      max us_per_second (12 * us_per_hour * (us_of_day now div (12 * us_per_hour) + 1) - us_of_day now)"
proof -
  let ?u = "us_of_day now" let ?h = "12 * us_per_hour"
  have d: "us_until_next_time_sync now = max us_per_second (?h * (?u div ?h + 1) - ?u)"
    using next_sync_instant [OF us_of_day_bounds [OF assms]]
    by (simp add: us_until_next_time_sync_def Let_def)
  have "?u = ?h * (?u div ?h) + ?u mod ?h" by simp
  moreover have "0 \<le> ?u mod ?h" by (simp add: us_per_hour_def us_per_second_def)
  ultimately have "?h * (?u div ?h + 1) - ?u \<le> ?h" by (simp only: distrib_left mult_1_right)
  moreover have "us_per_second \<le> ?h" by (simp add: us_per_hour_def us_per_second_def)
  ultimately show ?thesis unfolding d by (simp add: max_def)
qed

theorem time_sync_delay_witness:
  "us_until_next_time_sync \<lparr>dt_year = 2024, dt_month = 2, dt_day = 29, dt_hour = 11, dt_minute = 30,
     dt_second = 0, dt_micro = 0\<rparr> = 1800 * us_per_second"
proof -
  let ?t = "\<lparr>dt_year = 2024, dt_month = 2, dt_day = 29, dt_hour = 11, dt_minute = 30, dt_second = 0, dt_micro = 0\<rparr>"
  have "valid_datetime ?t" "us_of_day ?t = 41400 * us_per_second" by code_simp+
  then show ?thesis using time_sync_delay [of ?t] by (simp add: us_per_hour_def us_per_second_def)
qed

text \<open>One synchronization writes register 31 of exactly the known devices that have a clock, each once
  and in order, all with the same time, whatever the answers; gateways are never written.\<close>

theorem time_sync_targets:
  "fst (sync_supported_clocks E) =
     (if ke_command E = None then []
      else map (\<lambda>d. (d, 31, time_text (ke_now E))) (filter (supports_time_sync (ke_maps E)) (ke_devices E))) \<and>
   list_all (\<lambda>(d, r, v). \<not> is_gateway d) (fst (sync_supported_clocks E)) \<and>
   snd (sync_supported_clocks E) \<le> length (fst (sync_supported_clocks E))"
proof (cases "ke_command E")
  case (Some command)
  have "length (filter p (filter q xs)) \<le> length (filter q xs)" for p q and xs :: "string list"
    by (rule length_filter_le)
  then show ?thesis
    using Some
    by (auto simp: sync_supported_clocks_def Let_def time_sync_register_def list_all_iff time_sync_not_gateway
        simp del: filter_filter)
qed (simp add: sync_supported_clocks_def)

end
