(* ===== verification/HaCommands.thy ===== *)
theory HaCommands
  imports ConfigReads ClockSync ModbusFunction
begin

text \<open>
  Commands from Home Assistant, \<open>__handle_message\<close> of \<open>grobro/ha/client.py\<close>: the topic names the
  kind of entity, the device, the register and the action; numbers, switches, times and selections become
  a write of a holding register and a read back, buttons become reads, configuration entities become
  configuration writes.

  A payload is bytes. Python decodes it as UTF-8, strictly or skipping what is no UTF-8; a string is the
  list of its UTF-8 bytes, so strict decoding keeps the bytes. What the callbacks and the broker answer is
  the argument \<open>co_answer\<close>.
\<close>

section \<open>Text of a payload\<close>

definition continuation :: "byte \<Rightarrow> bool" where
  "continuation b \<longleftrightarrow> 0x80 \<le> b \<and> b \<le> 0xBF"

text \<open>The length of the UTF-8 character at the head, 0 when there is none.\<close>

fun utf8_head :: "bytes \<Rightarrow> nat" where
  "utf8_head [] = 0"
| "utf8_head (a # rest) =
     (if a < 0x80 then 1
      else (case rest of
          [] \<Rightarrow> 0
        | b # rest2 \<Rightarrow>
            if 0xC2 \<le> a \<and> a \<le> 0xDF then (if continuation b then 2 else 0)
            else (case rest2 of
                [] \<Rightarrow> 0
              | c # rest3 \<Rightarrow>
                  if 0xE0 \<le> a \<and> a \<le> 0xEF
                  then (if continuation b \<and> continuation c \<and> (a = 0xE0 \<longrightarrow> 0xA0 \<le> b) \<and> (a = 0xED \<longrightarrow> b \<le> 0x9F)
                        then 3 else 0)
                  else (case rest3 of
                      [] \<Rightarrow> 0
                    | e # _ \<Rightarrow>
                        if 0xF0 \<le> a \<and> a \<le> 0xF4 \<and> continuation b \<and> continuation c \<and> continuation e \<and>
                           (a = 0xF0 \<longrightarrow> 0x90 \<le> b) \<and> (a = 0xF4 \<longrightarrow> b \<le> 0x8F)
                        then 4 else 0))))"

lemma utf8_head_le: "utf8_head b \<le> length b"
  by (induction b rule: utf8_head.induct) (auto split: list.splits)

function decode_utf8 :: "bytes \<Rightarrow> string py" where
  "decode_utf8 b =
     (if b = [] then Inr []
      else if utf8_head b = 0 then Inl UnicodeError
      else bindE (decode_utf8 (drop (utf8_head b) b)) (\<lambda>s.
             Inr (map char_of_byte (take (utf8_head b) b) @ s)))"
  by auto
termination by (relation "measure length") auto

function decode_utf8_ignore :: "bytes \<Rightarrow> string" where
  "decode_utf8_ignore b =
     (if b = [] then []
      else if utf8_head b = 0 then decode_utf8_ignore (tl b)
      else map char_of_byte (take (utf8_head b) b) @ decode_utf8_ignore (drop (utf8_head b) b))"
  by auto
termination by (relation "measure length") auto

declare decode_utf8.simps [simp del] decode_utf8_ignore.simps [simp del]

section \<open>Definitions\<close>

datatype ha_topic = StatusTopic | CommandTopic string string string string | OtherTopic

definition command_types :: "string list" where
  "command_types = [''number'', ''time'', ''button'', ''switch'', ''select'', ''config'']"

definition command_subscriptions :: "string \<Rightarrow> string list" where
  "command_subscriptions base =
     concat (map (\<lambda>t. map (\<lambda>action. base @ ''/'' @ t @ ''/grobro/+/+/'' @ action) [''set'', ''read'']) command_types) @
     [base @ ''/status'']"

definition remove_prefix :: "string \<Rightarrow> string \<Rightarrow> string" where
  "remove_prefix p s = (if prefix p s then drop (length p) s else s)"

definition parse_ha_topic :: "string \<Rightarrow> string \<Rightarrow> ha_topic" where
  "parse_ha_topic base topic =
     (if topic = base @ ''/status'' then StatusTopic
      else (case split_on (CHR ''/'') (remove_prefix (base @ ''/'') topic) of
          [cmd_type, _, device_id, cmd_name, action] \<Rightarrow>
            if cmd_type \<in> set command_types then CommandTopic cmd_type device_id cmd_name action else OtherTopic
        | _ \<Rightarrow> OtherTopic))"

definition is_birth_message :: "bytes \<Rightarrow> bool" where
  "is_birth_message payload \<longleftrightarrow> py_lower (py_strip (decode_utf8_ignore payload)) = ''online''"

datatype command_call =
    Modbus function_single
  | ConfigCommand string int string
  | SwitchState string string

record 'f command_env =
  co_max_slots :: int
  co_maps :: "map_id \<Rightarrow> 'f register_map"
  co_answer :: "command_call \<Rightarrow> answer"
  co_config_wired :: bool
  co_now :: datetime
  co_reads :: read_env

definition command_registers :: "('f, 'm) command_env_scheme \<Rightarrow> string \<Rightarrow> 'f register_map option" where
  "command_registers E d = map_option (co_maps E) (get_known_registers d)"

definition holding_position :: "'f holding_register \<Rightarrow> int option" where
  "holding_position reg = map_option (\<lambda>g. pos_register (gr_position g)) (hr_growatt reg)"

text \<open>\<open>{value: int(key) for key, value in options.items()}\<close>; a key that is no number raises.\<close>

fun reverse_options :: "(string, string) dict \<Rightarrow> (string, int) dict \<Rightarrow> (string, int) dict py" where
  "reverse_options [] acc = Inr acc"
| "reverse_options ((key, v) # rest) acc =
     (case py_int_of_str key of
        None \<Rightarrow> Inl ValueError
      | Some n \<Rightarrow> reverse_options rest (dict_set v n acc))"

definition int_value :: "string \<Rightarrow> int py" where
  "int_value s = (case py_int_of_str s of None \<Rightarrow> Inl ValueError | Some n \<Rightarrow> Inr n)"

text \<open>The number to write; \<open>None\<close> for a selection that is not offered.\<close>

definition parse_setting :: "string \<Rightarrow> ha_holding_register \<Rightarrow> string \<Rightarrow> int option py" where
  "parse_setting cmd_type ha raw_value =
     (if cmd_type = ''switch'' then
        (if py_upper raw_value = ''ON'' then Inr (Some 1)
         else if py_upper raw_value = ''OFF'' then Inr (Some 0)
         else Inl ValueError)
      else if cmd_type = ''time'' then
        (case take 2 (split_on (CHR '':'') raw_value) of
           [h, m] \<Rightarrow>
             bindE (int_value h) (\<lambda>hour. bindE (int_value m) (\<lambda>minute.
               if 0 \<le> hour \<and> hour \<le> 23 \<and> 0 \<le> minute \<and> minute \<le> 59 then Inr (Some (hour * 256 + minute))
               else Inl ValueError))
         | _ \<Rightarrow> Inl ValueError)
      else if cmd_type = ''select'' then
        (case hh_options ha of
           Some (entry # entries) \<Rightarrow>
             bindE (reverse_options (entry # entries) []) (\<lambda>table. Inr (dict_get table raw_value))
         | _ \<Rightarrow> bindE (int_value raw_value) (\<lambda>n. Inr (Some n)))
      else bindE (int_value raw_value) (\<lambda>n. Inr (Some n)))"

definition read_register_command :: "string \<Rightarrow> int \<Rightarrow> command_call" where
  "read_register_command d r = Modbus (make_modbus_command d READ_SINGLE_REGISTER r None)"

definition write_register_command :: "string \<Rightarrow> int \<Rightarrow> int \<Rightarrow> command_call" where
  "write_register_command d r v = Modbus (make_modbus_command d PRESET_SINGLE_REGISTER r (Some v))"

text \<open>
  The write, the read back whose failure is only logged, and for a NEO power switch the state mirrored
  once the write was accepted.
\<close>

definition set_register ::
    "('f, 'm) command_env_scheme \<Rightarrow> string \<Rightarrow> string \<Rightarrow> string \<Rightarrow> int \<Rightarrow> string \<Rightarrow> int \<Rightarrow>
     command_call list \<times> unit py" where
  "set_register E cmd_type d cmd_name r raw_value v =
     (let write = write_register_command d r v; reads = read_register_command d r in
      case co_answer E write of
        Raised e \<Rightarrow> ([write], Inl e)
      | Answer res \<Rightarrow>
          if cmd_type = ''switch'' \<and> cmd_name = ''inverter_power'' \<and> is_family d ''neo'' \<and>
             publish_succeeded res
          then (let mirror = SwitchState d (py_upper raw_value) in
            ([write, reads, mirror], (case co_answer E mirror of Raised e \<Rightarrow> Inl e | Answer r \<Rightarrow> Inr ())))
          else ([write, reads], Inr ()))"

definition handle_set ::
    "('f, 'm) command_env_scheme \<Rightarrow> 'f register_map \<Rightarrow> string \<Rightarrow> string \<Rightarrow> string \<Rightarrow> bytes \<Rightarrow>
     command_call list \<times> unit py" where
  "handle_set E known cmd_type d cmd_name payload =
     (case decode_utf8 payload of
        Inl e \<Rightarrow> ([], Inl e)
      | Inr s \<Rightarrow>
          (case dict_get (holding_registers known) cmd_name of
             None \<Rightarrow> ([], Inr ())
           | Some reg \<Rightarrow>
               (case parse_setting cmd_type (hr_ha reg) (py_strip s) of
                  Inl e \<Rightarrow> ([], Inl e)
                | Inr None \<Rightarrow> ([], Inr ())
                | Inr (Some v) \<Rightarrow>
                    (case holding_position reg of
                       None \<Rightarrow> ([], Inl AttributeError)
                     | Some r \<Rightarrow> set_register E cmd_type d cmd_name r (py_strip s) v))))"

text \<open>Register 31 is always written with the current time, whatever the payload.\<close>

definition handle_config_set ::
    "('f, 'm) command_env_scheme \<Rightarrow> string \<Rightarrow> string \<Rightarrow> bytes \<Rightarrow> command_call list \<times> unit py" where
  "handle_config_set E d cmd_name payload =
     (case int_value cmd_name of
        Inl e \<Rightarrow> ([], Inl e)
      | Inr register_no \<Rightarrow>
          (case decode_utf8 payload of
             Inl e \<Rightarrow> ([], Inl e)
           | Inr s \<Rightarrow>
               if \<not> co_config_wired E then ([], Inr ())
               else (let call = ConfigCommand d register_no
                           (if register_no = time_sync_register then time_text (co_now E) else py_strip s)
                 in ([call], (case co_answer E call of Raised e \<Rightarrow> Inl e | Answer r \<Rightarrow> Inr ())))))"

definition handle_read_button ::
    "('f, 'm) command_env_scheme \<Rightarrow> 'f register_map \<Rightarrow> string \<Rightarrow> string \<Rightarrow> command_call list \<times> unit py" where
  "handle_read_button E known d cmd_name =
     (case dict_get (holding_registers known) cmd_name of
        None \<Rightarrow> ([], Inr ())
      | Some reg \<Rightarrow>
          (case holding_position reg of
             None \<Rightarrow> ([], Inl AttributeError)
           | Some r \<Rightarrow>
               (let call = read_register_command d r
                in ([call], (case co_answer E call of Raised e \<Rightarrow> Inl e | Answer x \<Rightarrow> Inr ())))))"

definition holding_list :: "'f register_map \<Rightarrow> (string \<times> int option) list" where
  "holding_list known = map (\<lambda>(name, reg). (name, holding_position reg)) (holding_registers known)"

definition handle_read_all ::
    "('f, 'm) command_env_scheme \<Rightarrow> 'f register_map \<Rightarrow> string \<Rightarrow> config_reads \<Rightarrow>
     (config_reads \<times> command_call list) \<times> unit py" where
  "handle_read_all E known d st =
     (let ((st1, sent), r) = read_all (co_reads E) (\<lambda>r. co_answer E (read_register_command d r)) (co_max_slots E)
            (holding_list known) d st
      in ((st1, map (read_register_command d) sent), r))"

definition handle_command ::
    "('f, 'm) command_env_scheme \<Rightarrow> string \<Rightarrow> string \<Rightarrow> string \<Rightarrow> string \<Rightarrow> bytes \<Rightarrow> config_reads \<Rightarrow>
     (config_reads \<times> command_call list) \<times> unit py" where
  "handle_command E cmd_type d cmd_name action payload st =
     (case command_registers E d of
        None \<Rightarrow> ((st, []), Inr ())
      | Some known \<Rightarrow>
          if cmd_type = ''button'' \<and> cmd_name = ''read_all'' then handle_read_all E known d st
          else (let (calls, r) =
             (if cmd_type = ''button'' \<and> action = ''read'' then handle_read_button E known d cmd_name
              else if cmd_type \<in> {''number'', ''switch'', ''time'', ''select''} \<and> action = ''set''
              then handle_set E known cmd_type d cmd_name payload
              else if cmd_type = ''config'' \<and> action = ''set'' then handle_config_set E d cmd_name payload
              else ([], Inr ()))
            in ((st, calls), r)))"

section \<open>Lemmas\<close>

lemma byte_of_char_of_byte: "byte_of_char (char_of_byte b) = b"
proof -
  have "unat b < 256" using unsigned_less [of b] by simp
  then show ?thesis by (simp add: byte_of_char_def char_of_byte_def)
qed

text \<open>The UTF-8 decoder keeps the bytes; on ASCII it always succeeds.\<close>

lemma decode_utf8_bytes: "decode_utf8 b = Inr s \<Longrightarrow> map byte_of_char s = b"
proof (induction b arbitrary: s rule: decode_utf8.induct)
  case (1 b)
  have round: "map byte_of_char (map char_of_byte xs) = xs" for xs
    by (induction xs) (simp_all add: byte_of_char_of_byte)
  show ?case
  proof (cases "b = [] \<or> utf8_head b = 0")
    case True
    then show ?thesis using 1(2) by (auto simp: decode_utf8.simps [of b] split: if_splits)
  next
    case False
    then obtain s' where s': "decode_utf8 (drop (utf8_head b) b) = Inr s'"
      and s: "s = map char_of_byte (take (utf8_head b) b) @ s'"
      using 1(2) by (subst (asm) decode_utf8.simps) (auto simp: bindE_Inr_iff)
    have "map byte_of_char s' = drop (utf8_head b) b" using 1(1) False s' by simp
    then show ?thesis using s round [of "take (utf8_head b) b"] by simp
  qed
qed

lemma decode_utf8_ascii: "list_all (\<lambda>x. x < 128) b \<Longrightarrow> decode_utf8 b = Inr (map char_of_byte b)"
proof (induction b)
  case (Cons a b)
  then show ?case by (subst decode_utf8.simps) simp
qed (simp add: decode_utf8.simps)

lemma read_all_sent: "read_all E command max_slots holding d st = ((st', sent), r) \<Longrightarrow>
   \<forall>x \<in> set sent. Some x \<in> snd ` set holding"
proof -
  have loop: "send_holding_reads command max_slots hs = (s, q) \<Longrightarrow> \<forall>x \<in> set s. Some x \<in> snd ` set hs"
    for hs s q
  proof (induction hs arbitrary: s q)
    case (Cons h hs)
    obtain name position where h: "h = (name, position)" by fastforce
    obtain s1 q1 where rest: "send_holding_reads command max_slots hs = (s1, q1)" by fastforce
    show ?case
      using Cons.prems Cons.IH [OF rest] rest h
      by (auto split: sum.splits bool.splits option.splits answer.splits if_splits)
  qed simp
  assume "read_all E command max_slots holding d st = ((st', sent), r)"
  then show ?thesis
    using loop by (auto simp: read_all_def Let_def split: if_splits prod.splits sum.splits bool.splits; blast)
qed

lemma handle_command_reads_ok:
  assumes "reads_ok st" "handle_command E cmd_type d cmd_name action payload st = ((st', calls), r)"
  shows "reads_ok st'"
proof (cases "command_registers E d")
  case None
  then show ?thesis using assms by (simp add: handle_command_def)
next
  case (Some known)
  show ?thesis
  proof (cases "cmd_type = ''button'' \<and> cmd_name = ''read_all''")
    case True
    obtain st1 sent r1 where "read_all (co_reads E) (\<lambda>r. co_answer E (read_register_command d r)) (co_max_slots E)
        (holding_list known) d st = ((st1, sent), r1)" by (metis prod.collapse)
    then show ?thesis
      using read_all_ok [OF assms(1)] assms(2) Some True by (auto simp: handle_command_def handle_read_all_def)
  next
    case False
    then have "handle_command E cmd_type d cmd_name action payload st = ((st', calls), r) \<Longrightarrow> st' = st"
      using Some unfolding handle_command_def by (auto simp: Let_def split: prod.splits)
    then show ?thesis using assms by simp
  qed
qed

text \<open>What a call of a command for one device may be: a read of a holding register of its map, a write of the one
  the topic names, a write of the configuration register whose number the topic is, the mirrored switch.\<close>

definition call_of_device ::
    "('f, 'm) command_env_scheme \<Rightarrow> string \<Rightarrow> string \<Rightarrow> string \<Rightarrow> string \<Rightarrow> command_call \<Rightarrow> bool" where
  "call_of_device E cmd_type d cmd_name action call =
     (case call of
        Modbus s \<Rightarrow>
          fs_device_id s = d \<and>
          (\<exists>known reg. command_registers E d = Some known \<and> holding_position reg = Some (fs_register s) \<and>
             (fs_function s = READ_SINGLE_REGISTER \<and> reg \<in> snd ` set (holding_registers known) \<or>
              fs_function s = PRESET_SINGLE_REGISTER \<and> dict_get (holding_registers known) cmd_name = Some reg \<and>
              action = ''set'' \<and> cmd_type \<in> {''number'', ''switch'', ''time'', ''select''}))
      | ConfigCommand d' r v \<Rightarrow>
          d' = d \<and> cmd_type = ''config'' \<and> action = ''set'' \<and> py_int_of_str cmd_name = Some r \<and>
          (if r = 31 then v = time_text (co_now E) else True)
      | SwitchState d' s \<Rightarrow>
          d' = d \<and> is_family d ''neo'' \<and> cmd_type = ''switch'' \<and> cmd_name = ''inverter_power'' \<and>
          (s = ''ON'' \<or> s = ''OFF''))"

lemma parse_switch: "parse_setting ''switch'' ha s = Inr (Some v) \<Longrightarrow> py_upper s = ''ON'' \<or> py_upper s = ''OFF''"
  by (simp add: parse_setting_def split: if_splits)

lemma handle_set_calls:
  assumes "command_registers E d = Some known" "cmd_type \<in> {''number'', ''switch'', ''time'', ''select''}"
  shows "list_all (call_of_device E cmd_type d cmd_name ''set'') (fst (handle_set E known cmd_type d cmd_name payload))"
proof -
  have reg: "reg \<in> snd ` set (holding_registers known)" if "dict_get (holding_registers known) cmd_name = Some reg" for reg
    using that by (force dest: map_of_SomeD)
  have "list_all (call_of_device E cmd_type d cmd_name ''set'') (fst (set_register E cmd_type d cmd_name r s v))"
    if pos: "dict_get (holding_registers known) cmd_name = Some reg" "holding_position reg = Some r"
      and v: "parse_setting cmd_type (hr_ha reg) s = Inr (Some v)" for reg r s v
  proof -
    have "cmd_type = ''switch'' \<Longrightarrow> py_upper s = ''ON'' \<or> py_upper s = ''OFF''" using parse_switch v by blast
    then show ?thesis
      using assms reg [OF pos(1)] pos
      by (auto simp: set_register_def call_of_device_def write_register_command_def read_register_command_def
          make_modbus_command_def Let_def split: answer.splits)
  qed
  then show ?thesis
    by (auto simp: handle_set_def split: sum.splits option.splits)
qed

lemma handle_read_all_calls:
  assumes "command_registers E d = Some known"
  shows "list_all (call_of_device E cmd_type d cmd_name action) (snd (fst (handle_read_all E known d st)))"
proof -
  obtain st1 sent r where run: "read_all (co_reads E) (\<lambda>r. co_answer E (read_register_command d r)) (co_max_slots E)
      (holding_list known) d st = ((st1, sent), r)" by (metis prod.collapse)
  have "\<exists>reg. holding_position reg = Some n \<and> reg \<in> snd ` set (holding_registers known)" if "n \<in> set sent" for n
    using read_all_sent [OF run] that by (auto simp: holding_list_def) force
  then show ?thesis
    using assms run
    by (auto simp: handle_read_all_def list_all_iff call_of_device_def read_register_command_def
        make_modbus_command_def)
qed

text \<open>A time of the day as Home Assistant writes it.\<close>

definition hhmm :: "int \<Rightarrow> int \<Rightarrow> string" where
  "hhmm h m = two_digits h @ '':'' @ two_digits m"

lemma py_int_of_digits:
  assumes "list_all is_digit s" "s \<noteq> []"
  shows "py_int_of_str s = Some (int (fold (\<lambda>c a. 10 * a + digit_val c) s 0))"
proof -
  obtain c cs where cs: "s = c # cs" using assms(2) by (cases s) auto
  have "\<not> py_space (hd s)" "\<not> py_space (last s)" using assms by (simp_all add: list_all_iff is_digit_not_space)
  then have "py_strip s = s" using assms(2) by (rule py_strip_id [rotated])
  moreover have "c \<noteq> CHR ''-''" "c \<noteq> CHR ''+''" using assms(1) cs by (auto simp: is_digit_def)
  moreover have "int_digits 0 False s = Some (fold (\<lambda>c a. 10 * a + digit_val c) s 0)"
    using int_digits_append [of s False 0 "[]"] assms by simp
  ultimately show ?thesis using cs by (simp add: py_int_of_str_def)
qed

lemma two_digits_facts:
  assumes "0 \<le> n" "n \<le> 59"
  shows "py_int_of_str (two_digits n) = Some n" "CHR '':'' \<notin> set (two_digits n)"
    "list_all is_ascii (two_digits n)" "list_all (\<lambda>c. \<not> py_space c) (two_digits n)" "two_digits n \<noteq> []"
proof -
  have dig: "list_all is_digit (two_digits n)" and ne: "two_digits n \<noteq> []"
    using assms str_of_nat_digits [of "nat n"]
    by (simp_all add: two_digits_def str_of_int_def list_all_iff is_digit_def)
  have "fold (\<lambda>c a. 10 * a + digit_val c) (two_digits n) 0 = nat n"
    using assms str_of_nat_value [of "nat n"] by (simp add: two_digits_def str_of_int_def digit_val_def)
  then show "py_int_of_str (two_digits n) = Some n" using py_int_of_digits [OF dig ne] assms by simp
  show "two_digits n \<noteq> []" by (rule ne)
  show "CHR '':'' \<notin> set (two_digits n)" using dig by (auto simp: list_all_iff is_digit_def)
  show "list_all is_ascii (two_digits n)" using dig by (auto simp: list_all_iff is_digit_def is_ascii_def Let_def)
  show "list_all (\<lambda>c. \<not> py_space c) (two_digits n)" using dig by (simp add: list_all_iff is_digit_not_space)
qed

lemma hhmm_payload:
  assumes "0 \<le> h" "h \<le> 23" "0 \<le> m" "m \<le> 59"
  shows "decode_utf8 (map byte_of_char (hhmm h m)) = Inr (hhmm h m)" "py_strip (hhmm h m) = hhmm h m"
    "parse_setting ''time'' ha (hhmm h m) = Inr (Some (h * 256 + m))"
proof -
  note h = two_digits_facts [of h] and m = two_digits_facts [of m]
  have ascii: "list_all is_ascii (hhmm h m)" using h(3) m(3) assms by (simp add: hhmm_def is_ascii_def)
  then have "list_all (\<lambda>x. x < 128) (map byte_of_char (hhmm h m))"
    by (auto simp: list_all_iff byte_of_char_less)
  from decode_utf8_ascii [OF this] show "decode_utf8 (map byte_of_char (hhmm h m)) = Inr (hhmm h m)"
    by (simp add: comp_def)
  have "list_all (\<lambda>c. \<not> py_space c) (hhmm h m)" using h(4) m(4) assms by (simp add: hhmm_def py_space_def)
  moreover have "hhmm h m \<noteq> []" by (simp add: hhmm_def)
  ultimately have "\<not> py_space (hd (hhmm h m))" "\<not> py_space (last (hhmm h m))"
    by (simp_all add: list_all_iff)
  then show "py_strip (hhmm h m) = hhmm h m"
    unfolding py_strip_def using strip_by_padded [of py_space "[]" "hhmm h m"] by simp
  have "split_on (CHR '':'') (hhmm h m) = [two_digits h, two_digits m]"
    using h(2) m(2) assms by (simp add: hhmm_def split_on_append split_on_no_sep)
  then show "parse_setting ''time'' ha (hhmm h m) = Inr (Some (h * 256 + m))"
    using h(1) m(1) assms by (simp add: parse_setting_def int_value_def)
qed

lemma handle_time:
  assumes "command_registers E d = Some known" "dict_get (holding_registers known) name = Some reg"
    and "holding_position reg = Some r" "0 \<le> h" "h \<le> 23" "0 \<le> m" "m \<le> 59"
    and "co_answer E (write_register_command d r (h * 256 + m)) = Answer a"
  shows "handle_command E ''time'' d name ''set'' (map byte_of_char (hhmm h m)) st =
    ((st, [write_register_command d r (h * 256 + m), read_register_command d r]), Inr ())"
  using assms hhmm_payload [OF assms(4-7)]
  by (simp add: handle_command_def handle_set_def set_register_def Let_def)

lemma command_calls_only:
  "list_all (call_of_device E cmd_type d cmd_name action)
     (snd (fst (handle_command E cmd_type d cmd_name action payload st)))"
proof (cases "command_registers E d")
  case (Some known)
  have button: "list_all (call_of_device E cmd_type d cmd_name action) (fst (handle_read_button E known d cmd_name))"
    using Some by (force simp: handle_read_button_def call_of_device_def read_register_command_def
        make_modbus_command_def Let_def split: option.splits answer.splits dest: map_of_SomeD)
  have config: "list_all (call_of_device E ''config'' d cmd_name ''set'') (fst (handle_config_set E d cmd_name payload))"
    by (auto simp: handle_config_set_def call_of_device_def int_value_def time_sync_register_def Let_def
        split: sum.splits option.splits)
  have calls: "snd (fst (handle_command E cmd_type d cmd_name action payload st)) =
      (if cmd_type = ''button'' \<and> cmd_name = ''read_all'' then snd (fst (handle_read_all E known d st))
       else if cmd_type = ''button'' \<and> action = ''read'' then fst (handle_read_button E known d cmd_name)
       else if cmd_type \<in> {''number'', ''switch'', ''time'', ''select''} \<and> action = ''set''
       then fst (handle_set E known cmd_type d cmd_name payload)
       else if cmd_type = ''config'' \<and> action = ''set'' then fst (handle_config_set E d cmd_name payload)
       else [])"
    using Some by (simp add: handle_command_def Let_def split: prod.splits)
  show ?thesis
    unfolding calls
    using button config handle_set_calls [OF Some, of cmd_type cmd_name payload] handle_read_all_calls [OF Some]
    by (cases "cmd_type \<in> {''number'', ''switch'', ''time'', ''select''} \<and> action = ''set''") auto
qed (simp add: handle_command_def)

section \<open>Properties\<close>

text \<open>What a command makes the program send is about the device of the topic and nothing else: reads of
  holding registers its register map has, writes only of the setting the topic names, the
  configuration register whose number the topic is (known or not), where register 31 always gets the current time, and the state of
  a NEO power switch.\<close>

theorem command_calls_sound:
  "list_all (call_of_device E cmd_type d cmd_name action)
     (snd (fst (handle_command E cmd_type d cmd_name action payload st)))"
  by (rule command_calls_only)

text \<open>A time set in Home Assistant is written to its register and read back, and what the register then
  holds is shown as the very same time.\<close>

theorem time_setting_roundtrip:
  assumes "command_registers E d = Some known" "dict_get (holding_registers known) name = Some reg"
    and "hr_growatt reg = Some g" "rd_type (gr_data g) = DT_TIME_HHMM"
    and "0 \<le> h" "h \<le> 23" "0 \<le> m" "m \<le> 59"
    and "accepted (co_answer E (write_register_command d (pos_register (gr_position g)) (h * 256 + m)))"
  shows "\<exists>v. handle_command E ''time'' d name ''set'' (map byte_of_char (hhmm h m)) st =
      ((st, [write_register_command d (pos_register (gr_position g)) v,
             read_register_command d (pos_register (gr_position g))]), Inr ()) \<and>
    parse_register F (gr_data g) (Some (be16 v)) = Some (VStr (hhmm h m))"
proof -
  obtain a where "co_answer E (write_register_command d (pos_register (gr_position g)) (h * 256 + m)) = Answer a"
    using assms(9) by (cases "co_answer E (write_register_command d (pos_register (gr_position g)) (h * 256 + m))") auto
  moreover have "holding_position reg = Some (pos_register (gr_position g))"
    using assms(3) by (simp add: holding_position_def)
  ultimately show ?thesis
    using handle_time [OF assms(1,2) _ assms(5-8)] parse_register_time [OF assms(4-8), of F] by (auto simp: hhmm_def)
qed

definition sample_slot :: "int holding_register" where
  "sample_slot =
     \<lparr>hr_growatt = Some \<lparr>gr_position = \<lparr>pos_register = 254, pos_offset = 0, pos_size = 2\<rparr>,
        gr_data = \<lparr>rd_type = DT_TIME_HHMM, rd_float_options = None, rd_enum_options = None, rd_mult = None\<rparr>\<rparr>,
      hr_ha = \<lparr>hh_name = ''Slot 1 Start Time'', hh_publish = True, hh_type = ''time'', hh_min = None, hh_max = None,
        hh_step = None, hh_state_class = None, hh_device_class = None, hh_unit = None, hh_icon = None,
        hh_options = None\<rparr>\<rparr>"

definition sample_command_env :: "int command_env" where
  "sample_command_env =
     \<lparr>co_max_slots = 1,
      co_maps = (\<lambda>k. \<lparr>input_registers = [], holding_registers = [(''slot1_start_time'', sample_slot)], config_registers = []\<rparr>),
      co_answer = (\<lambda>c. Answer ResNone), co_config_wired = True,
      co_now = \<lparr>dt_year = 2024, dt_month = 2, dt_day = 29, dt_hour = 11, dt_minute = 30, dt_second = 0, dt_micro = 0\<rparr>,
      co_reads = \<lparr>re_wired = True, re_ready = (\<lambda>d. True), re_timer_ok = (\<lambda>n. True), re_read = None,
        re_registers = (\<lambda>d. None)\<rparr>\<rparr>"

theorem time_setting_roundtrip_witness:
  "\<exists>v. handle_command sample_command_env ''time'' ''0PVP1'' ''slot1_start_time'' ''set'' (map byte_of_char (hhmm 7 5)) no_reads =
      ((no_reads, [write_register_command ''0PVP1'' 254 v, read_register_command ''0PVP1'' 254]), Inr ()) \<and>
    parse_register whole_floats
      \<lparr>rd_type = DT_TIME_HHMM, rd_float_options = None, rd_enum_options = None, rd_mult = None\<rparr> (Some (be16 v)) =
      Some (VStr (hhmm 7 5))"
proof -
  have k: "get_known_registers ''0PVP1'' \<noteq> None" by code_simp
  then obtain known where known: "command_registers sample_command_env ''0PVP1'' = Some known"
    and "known = \<lparr>input_registers = [], holding_registers = [(''slot1_start_time'', sample_slot)], config_registers = []\<rparr>"
    by (auto simp: command_registers_def sample_command_env_def)
  then have "dict_get (holding_registers known) ''slot1_start_time'' = Some sample_slot" by simp
  from time_setting_roundtrip [OF known this, of _ 7 5 no_reads whole_floats]
  show ?thesis by (auto simp: sample_slot_def sample_command_env_def publish_succeeded_def)
qed

end
