(* ===== verification/Discovery.thy ===== *)
theory Discovery
  imports Telemetry HaCommands DeviceConfig "HOL-Library.List_Lexorder" "HOL-Library.Char_ord"
begin

text \<open>
  \<open>grobro/ha/discovery_payload.py\<close> and the device information of \<open>grobro/ha/client.py\<close>: the entities
  announced to Home Assistant, from the register map of the device. JSON objects are dictionaries in
  insertion order; \<open>json.dumps\<close> sorts the keys, so the order of the fs does not matter.
\<close>

section \<open>Device information\<close>

definition mac_digits :: "string \<Rightarrow> string" where
  "mac_digits s = filter (\<lambda>c. c \<noteq> CHR '':'' \<and> c \<noteq> CHR ''-'' \<and> c \<noteq> CHR ''.'') (py_lower (py_strip s))"

definition is_hex_digit :: "char \<Rightarrow> bool" where
  "is_hex_digit c \<longleftrightarrow> (let n = of_char c :: nat in (48 \<le> n \<and> n \<le> 57) \<or> (97 \<le> n \<and> n \<le> 102))"

fun pairs_of :: "string \<Rightarrow> string list" where
  "pairs_of (a # b # rest) = [a, b] # pairs_of rest"
| "pairs_of _ = []"

definition normalize_mac_address :: "string \<Rightarrow> string option" where
  "normalize_mac_address s =
     (let compact = mac_digits s in
      if length compact \<noteq> 12 \<or> \<not> list_all is_hex_digit compact then None
      else Some (join_with '':'' (pairs_of compact)))"

definition model_names :: "(string, string) dict" where
  "model_names = [(''55'', ''NEO-series''), (''72'', ''NEXA-series''), (''61'', ''NOAH-series'')]"

definition known_text :: "device_config \<Rightarrow> string \<Rightarrow> string option" where
  "known_text config f = (case dict_get config f of Some [] \<Rightarrow> None | v \<Rightarrow> v)"

definition device_model :: "string \<Rightarrow> device_config \<Rightarrow> string" where
  "device_model type_name config =
     (case (case dict_get config ''device_type'' of None \<Rightarrow> None | Some t \<Rightarrow> dict_get model_names t) of
        Some m \<Rightarrow> m
      | None \<Rightarrow> type_name @ ''-series'') @
     (case known_text config ''model_id'' of None \<Rightarrow> [] | Some m \<Rightarrow> '' ('' @ m @ '')'')"

definition device_info :: "string \<Rightarrow> device_config \<Rightarrow> (string \<times> 'f json) list" where
  "device_info d config =
     [(''identifiers'', JArr [JStr d]), (''name'', JStr (''Growatt '' @ d)), (''manufacturer'', JStr ''Growatt''),
      (''serial_number'', JStr d), (''model'', JStr (device_model (get_device_type_name d) config))] @
     (case known_text config ''sw_version'' of None \<Rightarrow> [] | Some v \<Rightarrow> [(''sw_version'', JStr v)]) @
     (case known_text config ''hw_version'' of None \<Rightarrow> [] | Some v \<Rightarrow> [(''hw_version'', JStr v)]) @
     (case known_text config ''mac_address'' of
        None \<Rightarrow> []
      | Some m \<Rightarrow>
          (case normalize_mac_address m of
             None \<Rightarrow> []
           | Some mac \<Rightarrow> [(''connections'', JArr [JArr [JStr ''mac'', JStr mac]])]))"

section \<open>The entities\<close>

record discovery_env =
  de_base :: string
  de_bridge :: string
  de_max_bat :: int
  de_pv_count :: "int option"
  de_max_slots :: int
  de_timeout :: int
  de_sensor :: bool

definition redundant_default_icons :: "(string \<times> string) list" where
  "redundant_default_icons =
     [(''battery'', ''mdi:battery''), (''temperature'', ''mdi:thermometer''), (''current'', ''mdi:current-ac''),
      (''frequency'', ''mdi:sine-wave''), (''signal_strength'', ''mdi:wifi''), (''voltage'', ''mdi:flash''),
      (''voltage'', ''mdi:sine-wave''), (''power'', ''mdi:flash'')]"

definition uses_redundant_default_icon :: "string option \<Rightarrow> string option \<Rightarrow> bool" where
  "uses_redundant_default_icon device_class icon =
     (case (device_class, icon) of
        (Some c, Some i) \<Rightarrow> (c, i) \<in> set redundant_default_icons
      | _ \<Rightarrow> False)"

definition text_field :: "string \<Rightarrow> string option \<Rightarrow> (string \<times> 'f json) list" where
  "text_field k v = (case v of None \<Rightarrow> [] | Some s \<Rightarrow> [(k, JStr s)])"

definition int_field :: "string \<Rightarrow> int option \<Rightarrow> (string \<times> 'f json) list" where
  "int_field k v = (case v of None \<Rightarrow> [] | Some n \<Rightarrow> [(k, JInt n)])"

text \<open>\<open>model_dump(exclude_none=True)\<close>, the default icon dropped, the options of a selection as a list.\<close>

definition ha_dump :: "ha_holding_register \<Rightarrow> (string \<times> 'f json) list" where
  "ha_dump ha =
     [(''name'', JStr (hh_name ha)), (''publish'', JBool (hh_publish ha)), (''type'', JStr (hh_type ha))] @
     int_field ''min'' (hh_min ha) @ int_field ''max'' (hh_max ha) @ int_field ''step'' (hh_step ha) @
     text_field ''state_class'' (hh_state_class ha) @ text_field ''device_class'' (hh_device_class ha) @
     text_field ''unit_of_measurement'' (hh_unit ha) @
     (if uses_redundant_default_icon (hh_device_class ha) (hh_icon ha) then [] else text_field ''icon'' (hh_icon ha)) @
     (case hh_options ha of
        None \<Rightarrow> []
      | Some opts \<Rightarrow>
          [(''options'', if hh_type ha = ''select'' then JArr (map (\<lambda>(k, v). JStr v) opts)
                        else JObj (map (\<lambda>(k, v). (k, JStr v)) opts))])"

definition command_topic :: "discovery_env \<Rightarrow> string \<Rightarrow> string \<Rightarrow> string \<Rightarrow> string \<Rightarrow> string" where
  "command_topic E kind d entity action =
     de_base E @ ''/'' @ kind @ ''/grobro/'' @ d @ ''/'' @ entity @ ''/'' @ action"

definition command_component ::
    "discovery_env \<Rightarrow> string \<Rightarrow> command_register \<Rightarrow> string \<times> 'f json" where
  "command_component E d entry =
     (let ha = cmd_ha entry;
          unique_id = ''grobro_'' @ d @ ''_cmd_'' @ cmd_name entry;
          component = dict_update
            [(''platform'', JStr (hh_type ha)), (''name'', JStr (hh_name ha)), (''unique_id'', JStr unique_id),
             (''state_topic'', JStr (command_topic E (cmd_topic_root entry) d (cmd_state_id entry) ''get''))]
            (ha_dump ha)
      in (unique_id,
          JObj (if hh_type ha = ''sensor'' then component
                else dict_set ''command_topic''
                  (JStr (command_topic E (cmd_topic_root entry) d (cmd_id entry) ''set'')) component)))"

text \<open>The commands that are published; a holding register called \<open>slot\<close> raises.\<close>

fun command_components ::
    "discovery_env \<Rightarrow> string \<Rightarrow> command_register list \<Rightarrow> (string \<times> 'f json) list py" where
  "command_components E d [] = Inr []"
| "command_components E d (entry # rest) =
     (if \<not> hh_publish (cmd_ha entry) then command_components E d rest
      else bindE (if cmd_is_config entry then Inr False else slot_left_out (de_max_slots E) (cmd_name entry)) (\<lambda>left_out.
        if left_out then command_components E d rest
        else bindE (command_components E d rest) (\<lambda>more. Inr (command_component E d entry # more))))"

definition button_components :: "discovery_env \<Rightarrow> string \<Rightarrow> (string \<times> 'f json) list" where
  "button_components E d =
     (let restart_uid = ''grobro_'' @ d @ ''_restart_datalogger''; time_sync_uid = ''grobro_'' @ d @ ''_sync_time'';
          read_all_uid = ''grobro_'' @ d @ ''_cmd_read_all''
      in [(restart_uid, JObj
             [(''platform'', JStr ''button''), (''name'', JStr ''Restart Datalogger''),
              (''command_topic'', JStr (command_topic E ''config'' d ''32'' ''set'')), (''payload_press'', JStr ''1''),
              (''icon'', JStr ''mdi:restart''), (''unique_id'', JStr restart_uid)]),
          (time_sync_uid, JObj
             [(''platform'', JStr ''button''), (''name'', JStr ''Sync Time''), (''icon'', JStr ''mdi:clock-outline''),
              (''command_topic'', JStr (command_topic E ''config'' d ''31'' ''set'')),
              (''unique_id'', JStr time_sync_uid)]),
          (read_all_uid, JObj
             [(''command_topic'', JStr (command_topic E ''button'' d ''read_all'' ''read'')),
              (''platform'', JStr ''button''), (''unique_id'', JStr read_all_uid),
              (''name'', JStr ''Read All Values'')])])"

definition value_template :: "string \<Rightarrow> string" where
  "value_template name = ''{{ value_json['' @ [CHR 0x27] @ name @ [CHR 0x27] @ ''] }}''"

definition state_topic :: "discovery_env \<Rightarrow> string \<Rightarrow> string \<Rightarrow> string" where
  "state_topic E d what = de_base E @ ''/grobro/'' @ d @ ''/'' @ what"

definition pv_four_states :: "string list" where
  "pv_four_states = [''Vpv3'', ''Ipv3'', ''Ppv3'', ''Vpv4'', ''Ipv4'', ''Ppv4'', ''Epv3_today'', ''Epv3_total'']"

definition state_announced :: "discovery_env \<Rightarrow> string \<Rightarrow> 'f input_register \<Rightarrow> bool" where
  "state_announced E name reg \<longleftrightarrow>
     (hi_publish (ir_ha reg) \<or> (de_pv_count E = Some 4 \<and> name \<in> set pv_four_states)) \<and>
     \<not> beyond_battery (de_max_bat E) name \<and>
     \<not> (sublist ''_ser_part_'' name \<and> prefix ''bat'' name)"

definition null_or_text :: "string option \<Rightarrow> 'f json" where
  "null_or_text v = (case v of None \<Rightarrow> JNull | Some s \<Rightarrow> JStr s)"

definition state_component :: "discovery_env \<Rightarrow> string \<Rightarrow> string \<Rightarrow> 'g input_register \<Rightarrow> string \<times> 'f json" where
  "state_component E d name reg =
     (let ha = ir_ha reg; unique_id = ''grobro_'' @ d @ ''_'' @ name
      in (unique_id, JObj
        ([(''platform'', JStr ''sensor''), (''name'', JStr (hi_name ha)),
          (''state_topic'', JStr (state_topic E d ''state'')), (''value_template'', JStr (value_template name)),
          (''unique_id'', JStr unique_id), (''device_class'', null_or_text (hi_device_class ha)),
          (''state_class'', null_or_text (hi_state_class ha)), (''unit_of_measurement'', null_or_text (hi_unit ha))] @
         int_field ''suggested_display_precision'' (hi_precision ha) @
         (if uses_redundant_default_icon (hi_device_class ha) (hi_icon ha) then []
          else [(''icon'', null_or_text (hi_icon ha))]))))"

definition state_components ::
    "discovery_env \<Rightarrow> string \<Rightarrow> (string, 'g input_register) dict \<Rightarrow> (string \<times> 'f json) list" where
  "state_components E d inputs =
     map (\<lambda>(name, reg). state_component E d name reg) (filter (\<lambda>(name, reg). state_announced E name reg) inputs)"

definition simple_sensor :: "string \<Rightarrow> string \<Rightarrow> (string \<times> 'f json) list \<Rightarrow> string \<Rightarrow> string \<Rightarrow> string \<times> 'f json" where
  "simple_sensor unique_id name fs topic icon =
     (unique_id, JObj ([(''platform'', JStr ''sensor''), (''name'', JStr name), (''state_topic'', JStr topic)] @ fs @
        [(''unique_id'', JStr unique_id), (''icon'', JStr icon)]))"

definition combined_serial_components ::
    "discovery_env \<Rightarrow> string \<Rightarrow> string list \<Rightarrow> (string \<times> 'f json) list" where
  "combined_serial_components E d names =
     (if is_family d ''noah'' \<and> list_ex (\<lambda>name. prefix ''bat'' name \<and> sublist ''_ser_part_'' name) names
      then map (\<lambda>n. let combined = ''bat'' @ str_of_int n @ ''_serial'' in
             simple_sensor (''grobro_'' @ d @ ''_'' @ combined) (''Bat'' @ str_of_int n @ '' Serial'')
               [(''value_template'', JStr (value_template combined))] (state_topic E d ''state'') ''mdi:identifier'')
           (filter (\<lambda>n. \<not> n > de_max_bat E) [2, 3, 4])
      else [])"

definition firmware_components :: "discovery_env \<Rightarrow> string \<Rightarrow> string list \<Rightarrow> (string \<times> 'f json) list" where
  "firmware_components E d names =
     (case sort (filter (prefix ''fw_version_part_'') names) of
        [] \<Rightarrow> []
      | parts \<Rightarrow>
          [simple_sensor (''grobro_'' @ d @ ''_fw_version'') ''Firmware Version''
             [(''value_template'', JStr (join_with ''.'' (map value_template parts)))]
             (state_topic E d ''state'') ''mdi:information''])"

definition identity_components :: "discovery_env \<Rightarrow> string \<Rightarrow> (string \<times> 'f json) list" where
  "identity_components E d =
     [simple_sensor (''grobro_'' @ d @ ''_serial'') ''Device SN'' [] (state_topic E d ''serial'') ''mdi:identifier'',
      simple_sensor (''grobro_'' @ d @ ''_type'') ''Device Type'' [] (state_topic E d ''type'') ''mdi:chip''] @
     (if de_timeout E > 0 \<and> de_sensor E
      then (let unique_id = ''grobro_'' @ d @ ''_online'' in
        [(unique_id, JObj
           [(''platform'', JStr ''binary_sensor''), (''name'', JStr ''Online''),
            (''state_topic'', JStr (state_topic E d ''online'')), (''device_class'', JStr ''connectivity''),
            (''unique_id'', JStr unique_id)])])
      else [])"

definition discovery_components ::
    "discovery_env \<Rightarrow> string \<Rightarrow> 'g register_map \<Rightarrow> (string \<times> 'f json) list py" where
  "discovery_components E d known =
     bindE (command_components E d (iter_command_registers known)) (\<lambda>commands.
       let names = map fst (input_registers known) in
       Inr (dict_update [] (commands @ button_components E d @ state_components E d (input_registers known) @
         combined_serial_components E d names @ firmware_components E d names @ identity_components E d)))"

definition build_discovery_payload ::
    "discovery_env \<Rightarrow> string \<Rightarrow> 'g register_map \<Rightarrow> (string \<times> 'f json) list \<Rightarrow> (string \<times> 'f json) list py" where
  "build_discovery_payload E d known info =
     bindE (discovery_components E d known) (\<lambda>cmps.
       Inr [(''dev'', JObj info),
            (''availability'', JArr [JObj [(''topic'', JStr (state_topic E d ''availability''))],
                                    JObj [(''topic'', JStr (de_bridge E))]]),
            (''availability_mode'', JStr ''all''),
            (''o'', JObj [(''name'', JStr ''grobro''), (''url'', JStr ''https://github.com/robertzaage/GroBro'')]),
            (''cmps'', JObj cmps)])"

section \<open>Lemmas\<close>

lemma dict_update_subset: "set (dict_update d e) \<subseteq> set d \<union> set e"
proof (induction e arbitrary: d)
  case (Cons kv e)
  have "set (dict_set (fst kv) (snd kv) d) \<subseteq> insert kv (set d)"
    by (induction d) auto
  then show ?case using Cons.IH [of "dict_set (fst kv) (snd kv) d"] by (auto simp: dict_update_def split_def)
qed (simp add: dict_update_def)

text \<open>A command topic is understood by the command handler as what it announces.\<close>

lemma parse_command_topic:
  assumes "kind \<in> set command_types" "CHR ''/'' \<notin> set d" "CHR ''/'' \<notin> set entity" "CHR ''/'' \<notin> set action"
  shows "parse_ha_topic (de_base E) (command_topic E kind d entity action) = CommandTopic kind d entity action"
proof -
  have kind: "CHR ''/'' \<notin> set kind" using assms(1) by (auto simp: command_types_def)
  have rest: "remove_prefix (de_base E @ ''/'') (command_topic E kind d entity action) =
      kind @ CHR ''/'' # ''grobro'' @ CHR ''/'' # d @ CHR ''/'' # entity @ CHR ''/'' # action"
    by (simp add: remove_prefix_def command_topic_def)
  have split: "split_on (CHR ''/'') (kind @ CHR ''/'' # ''grobro'' @ CHR ''/'' # d @ CHR ''/'' # entity @ CHR ''/'' # action) =
      [kind, ''grobro'', d, entity, action]"
    using kind assms(2-4) by (simp add: split_on_append split_on_no_sep)
  have "command_topic E kind d entity action \<noteq> de_base E @ ''/status''"
  proof
    assume "command_topic E kind d entity action = de_base E @ ''/status''"
    then have "CHR ''/'' \<in> set ''status''" by (simp add: command_topic_def)
    then show False by simp
  qed
  then show ?thesis unfolding parse_ha_topic_def rest split using assms(1) by simp
qed

lemma ha_dump_keys:
  "fst ` set (ha_dump ha) \<subseteq> {''name'', ''publish'', ''type'', ''min'', ''max'', ''step'', ''state_class'',
     ''device_class'', ''unit_of_measurement'', ''icon'', ''options''}"
  by (auto simp: ha_dump_def int_field_def text_field_def split: option.splits if_splits)

lemma component_fields:
  fixes d :: "(string \<times> 'f json) list"
  assumes "k \<notin> {''name'', ''publish'', ''type'', ''min'', ''max'', ''step'', ''state_class'',
     ''device_class'', ''unit_of_measurement'', ''icon'', ''options''}"
  shows "dict_get (dict_update d (ha_dump ha)) k = dict_get d k"
proof -
  have "k \<notin> fst ` set (ha_dump ha :: (string \<times> 'f json) list)" using assms ha_dump_keys [of ha] by blast
  then have "map_of (rev (ha_dump ha :: (string \<times> 'f json) list)) k = None" by (simp add: map_of_eq_None_iff)
  then show ?thesis by (simp add: dict_get_update map_add_def)
qed

text \<open>What a control must announce for the handler to act on it as the entity it shows: its topic is the command
  topic of a published holding register with the label, kind and identity of the control, or of a published
  configuration register with them, or of one of the three buttons. Only sensors have no command.\<close>

definition setting_of :: "string \<Rightarrow> string \<Rightarrow> (string \<times> 'f json) list \<Rightarrow> string \<Rightarrow> ha_holding_register \<Rightarrow> bool" where
  "setting_of d cid fs name ha \<longleftrightarrow>
     hh_publish ha \<and> cid = ''grobro_'' @ d @ ''_cmd_'' @ name \<and>
     dict_get fs ''name'' = Some (JStr (hh_name ha)) \<and> dict_get fs ''platform'' = Some (JStr (hh_type ha))"

definition button_of :: "(string \<times> 'f json) list \<Rightarrow> string \<Rightarrow> bool" where
  "button_of fs label \<longleftrightarrow>
     dict_get fs ''name'' = Some (JStr label) \<and> dict_get fs ''platform'' = Some (JStr ''button'')"

definition command_matches ::
    "string \<Rightarrow> 'g register_map \<Rightarrow> string \<Rightarrow> (string \<times> 'f json) list \<Rightarrow> string \<Rightarrow> string \<Rightarrow> string \<Rightarrow> bool" where
  "command_matches d known cid fs kind entity action =
     (if kind = ''config'' then action = ''set'' \<and>
        (list_ex (\<lambda>(name, reg). py_int_of_str entity = Some (cr_register reg) \<and> setting_of d cid fs name (cr_ha reg))
           (config_registers known) \<or>
         entity = ''32'' \<and> button_of fs ''Restart Datalogger'' \<and> dict_get fs ''payload_press'' = Some (JStr ''1'') \<or>
         entity = ''31'' \<and> button_of fs ''Sync Time'')
      else if kind = ''button'' then entity = ''read_all'' \<and> action = ''read'' \<and> button_of fs ''Read All Values''
      else action = ''set'' \<and> kind \<in> {''number'', ''switch'', ''time'', ''select''} \<and>
        (case dict_get (holding_registers known) entity of
           None \<Rightarrow> False
         | Some reg \<Rightarrow> kind = hh_type (hr_ha reg) \<and> setting_of d cid fs entity (hr_ha reg)))"

definition control_handled :: "discovery_env \<Rightarrow> string \<Rightarrow> 'g register_map \<Rightarrow> string \<times> 'f json \<Rightarrow> bool" where
  "control_handled E d known component =
     (case snd component of
        JObj fs \<Rightarrow>
          (case dict_get fs ''command_topic'' of
             None \<Rightarrow> dict_get fs ''platform'' \<in> {Some (JStr ''sensor''), Some (JStr ''binary_sensor'')}
           | Some (JStr topic) \<Rightarrow>
               (case parse_ha_topic (de_base E) topic of
                  CommandTopic kind d' entity action \<Rightarrow>
                    d' = d \<and> command_matches d known (fst component) fs kind entity action
                | _ \<Rightarrow> False)
           | Some _ \<Rightarrow> False)
      | _ \<Rightarrow> False)"

definition has_unique_id :: "string \<times> 'f json \<Rightarrow> bool" where
  "has_unique_id entry =
     (case snd entry of JObj fs \<Rightarrow> dict_get fs ''unique_id'' = Some (JStr (fst entry)) | _ \<Rightarrow> False)"

text \<open>The register maps the program ships: dictionaries, where every holding register is one of the settable kinds.\<close>

definition settable_map :: "'g register_map \<Rightarrow> bool" where
  "settable_map known \<longleftrightarrow>
     dict_wf (holding_registers known) \<and>
     list_all (\<lambda>(name, reg). CHR ''/'' \<notin> set name \<and>
       hh_type (hr_ha reg) \<in> {''number'', ''switch'', ''time'', ''select'', ''sensor''}) (holding_registers known)"

text \<open>The fields of a control before its topic is added.\<close>

definition component_of :: "discovery_env \<Rightarrow> string \<Rightarrow> command_register \<Rightarrow> (string \<times> 'f json) list" where
  "component_of E d entry = dict_update
     [(''platform'', JStr (hh_type (cmd_ha entry))), (''name'', JStr (hh_name (cmd_ha entry))),
      (''unique_id'', JStr (''grobro_'' @ d @ ''_cmd_'' @ cmd_name entry)),
      (''state_topic'', JStr (command_topic E (cmd_topic_root entry) d (cmd_state_id entry) ''get''))]
     (ha_dump (cmd_ha entry))"

lemma ha_dump_name:
  fixes fs :: "(string \<times> 'f json) list"
  shows "dict_get (dict_update fs (ha_dump ha)) ''name'' = Some (JStr (hh_name ha))"
proof -
  let ?d = "ha_dump ha :: (string \<times> 'f json) list"
  have "''name'' \<notin> fst ` set (tl ?d)"
    by (auto simp: ha_dump_def int_field_def text_field_def split: option.splits if_splits)
  then have "map_of (rev (tl ?d)) ''name'' = None" by (simp add: map_of_eq_None_iff)
  then have "map_of (rev ((''name'', JStr (hh_name ha)) # tl ?d)) ''name'' = Some (JStr (hh_name ha))"
    by (simp add: map_add_def)
  moreover have "(''name'', JStr (hh_name ha)) # tl ?d = ?d" by (simp add: ha_dump_def)
  ultimately have "map_of (rev ?d) ''name'' = Some (JStr (hh_name ha))" by (simp only:)
  then show ?thesis by (simp add: dict_get_update)
qed

lemma component_of_fields:
  "dict_get (component_of E d entry) ''platform'' = Some (JStr (hh_type (cmd_ha entry)))"
  "dict_get (component_of E d entry) ''name'' = Some (JStr (hh_name (cmd_ha entry)))"
  "dict_get (component_of E d entry) ''command_topic'' = None"
  by (simp_all add: component_of_def component_fields ha_dump_name)

lemma command_component_sound:
  fixes known :: "'g register_map"
  assumes "settable_map known" "CHR ''/'' \<notin> set d" "entry \<in> set (iter_command_registers known)" "hh_publish (cmd_ha entry)"
  shows "control_handled E d known (command_component E d entry :: string \<times> 'f json)"
    and "has_unique_id (command_component E d entry :: string \<times> 'f json)"
proof -
  show "has_unique_id (command_component E d entry :: string \<times> 'f json)"
    by (simp add: has_unique_id_def command_component_def Let_def component_fields)
  have kinds: "set command_types = {''number'', ''time'', ''button'', ''switch'', ''select'', ''config''}"
    by (simp add: command_types_def)
  define fs where "fs = (if hh_type (cmd_ha entry) = ''sensor'' then component_of E d entry
      else dict_set ''command_topic'' (JStr (command_topic E (cmd_topic_root entry) d (cmd_id entry) ''set''))
        (component_of E d entry :: (string \<times> 'f json) list))"
  have c: "command_component E d entry = (''grobro_'' @ d @ ''_cmd_'' @ cmd_name entry, JObj fs)"
    by (simp add: command_component_def component_of_def fs_def Let_def)
  have own: "setting_of d (''grobro_'' @ d @ ''_cmd_'' @ cmd_name entry) fs (cmd_name entry) (cmd_ha entry)"
    using assms(4) by (simp add: setting_of_def fs_def component_of_fields)
  have topic: "dict_get fs ''command_topic'' = (if hh_type (cmd_ha entry) = ''sensor'' then None
      else Some (JStr (command_topic E (cmd_topic_root entry) d (cmd_id entry) ''set'')))"
    by (simp add: fs_def component_of_fields)
  consider (holding) name reg where "(name, reg) \<in> set (holding_registers known)" "cmd_id entry = name"
      "cmd_topic_root entry = hh_type (hr_ha reg)" "cmd_ha entry = hr_ha reg" "cmd_name entry = name"
    | (config) name reg where "(name, reg) \<in> set (config_registers known)" "cmd_id entry = str_of_int (cr_register reg)"
      "cmd_topic_root entry = ''config''" "cmd_ha entry = cr_ha reg" "cmd_name entry = name"
    using assms(3) by (auto simp: iter_command_registers_def)
  then show "control_handled E d known (command_component E d entry :: string \<times> 'f json)"
  proof cases
    case holding
    have reg: "CHR ''/'' \<notin> set name" "hh_type (hr_ha reg) \<in> {''number'', ''switch'', ''time'', ''select'', ''sensor''}"
      using assms(1) holding(1) by (auto simp: settable_map_def list_all_iff)
    have in_map: "dict_get (holding_registers known) name = Some reg"
      using assms(1) holding(1) by (simp add: settable_map_def dict_wf_def)
    show ?thesis
    proof (cases "hh_type (hr_ha reg) = ''sensor''")
      case True
      then show ?thesis using own holding by (simp add: c control_handled_def topic setting_of_def)
    next
      case False
      then have "hh_type (hr_ha reg) \<in> set command_types" using reg(2) kinds by auto
      from parse_command_topic [OF this assms(2) reg(1), of "''set''" E]
      have "parse_ha_topic (de_base E) (command_topic E (hh_type (hr_ha reg)) d name ''set'') =
          CommandTopic (hh_type (hr_ha reg)) d name ''set''" by simp
      then show ?thesis
        using holding False reg(2) in_map own by (auto simp: c control_handled_def topic command_matches_def)
    qed
  next
    case config
    from parse_command_topic [of "''config''" d "str_of_int (cr_register reg)" "''set''" E]
    have p: "parse_ha_topic (de_base E) (command_topic E ''config'' d (str_of_int (cr_register reg)) ''set'') =
        CommandTopic ''config'' d (str_of_int (cr_register reg)) ''set''"
      using kinds assms(2) str_of_int_no_slash by simp
    have "list_ex (\<lambda>(name, reg'). py_int_of_str (str_of_int (cr_register reg)) = Some (cr_register reg') \<and>
        setting_of d (''grobro_'' @ d @ ''_cmd_'' @ cmd_name entry) fs name (cr_ha reg')) (config_registers known)"
      using config(1) own config(4,5) by (auto simp: list_ex_iff py_int_str_of_int intro!: bexI [of _ "(name, reg)"])
    then show ?thesis
      using config own p by (simp add: c control_handled_def topic command_matches_def setting_of_def)
  qed
qed

lemma command_components_from:
  "command_components E d entries = Inr cs \<Longrightarrow> c \<in> set cs \<Longrightarrow>
   \<exists>entry \<in> set entries. hh_publish (cmd_ha entry) \<and> c = command_component E d entry"
  by (induction entries arbitrary: cs) (fastforce simp: bindE_Inr_iff split: if_splits)+

lemma button_components_sound:
  fixes c :: "string \<times> 'f json"
  assumes "CHR ''/'' \<notin> set d" "c \<in> set (button_components E d)"
  shows "control_handled E d known c" "has_unique_id c"
proof -
  have "parse_ha_topic (de_base E) (command_topic E ''config'' d ''31'' ''set'') = CommandTopic ''config'' d ''31'' ''set''"
    "parse_ha_topic (de_base E) (command_topic E ''config'' d ''32'' ''set'') = CommandTopic ''config'' d ''32'' ''set''"
    using parse_command_topic [of "''config''" d "''31''" "''set''" E]
      parse_command_topic [of "''config''" d "''32''" "''set''" E] assms(1)
    by (simp_all add: command_types_def)
  moreover have "parse_ha_topic (de_base E) (command_topic E ''button'' d ''read_all'' ''read'') =
      CommandTopic ''button'' d ''read_all'' ''read''"
    using parse_command_topic [of "''button''" d "''read_all''" "''read''" E] assms(1) by (simp add: command_types_def)
  ultimately have "list_all (control_handled E d known) (button_components E d :: (string \<times> 'f json) list)"
    unfolding button_components_def Let_def by (simp add: control_handled_def command_matches_def button_of_def)
  then show "control_handled E d known c" using assms(2) by (simp add: list_all_iff)
  show "has_unique_id c" using assms(2) by (auto simp: button_components_def has_unique_id_def Let_def)
qed

lemma sensor_components_sound:
  assumes "c \<in> set (state_components E d inputs) \<union> set (combined_serial_components E d names) \<union>
    set (firmware_components E d names) \<union> set (identity_components E d)"
  shows "control_handled E d known c" "has_unique_id c"
  using assms
  by (auto simp: state_components_def state_component_def combined_serial_components_def firmware_components_def
      identity_components_def simple_sensor_def control_handled_def has_unique_id_def int_field_def Let_def
      split: list.splits if_splits option.splits)

section \<open>Properties\<close>

text \<open>C17: Every entity that is announced has its own identity, every entity that is no sensor has a command
  topic, and the command handler reads that topic as this very entity: for this device, with the name of the
  published holding register whose label, kind and identity the control shows, with the number of the
  published configuration register whose label, kind and identity it shows, or as the restart, the time
  synchronisation or \<open>Read All\<close>.\<close>

theorem announced_controls_handled:
  assumes "settable_map known" "CHR ''/'' \<notin> set d" "discovery_components E d known = Inr cmps"
  shows "dict_wf cmps \<and> list_all (\<lambda>c. has_unique_id c \<and> control_handled E d known c) cmps"
proof -
  obtain commands where c: "command_components E d (iter_command_registers known) = Inr commands"
    and cmps: "cmps = dict_update [] (commands @ button_components E d @ state_components E d (input_registers known) @
         combined_serial_components E d (map fst (input_registers known)) @
         firmware_components E d (map fst (input_registers known)) @ identity_components E d)"
    using assms(3) by (auto simp: discovery_components_def bindE_Inr_iff Let_def)
  have "has_unique_id x \<and> control_handled E d known x" if "x \<in> set cmps" for x
  proof -
    have "x \<in> set commands \<union> set (button_components E d) \<union> (set (state_components E d (input_registers known)) \<union>
        set (combined_serial_components E d (map fst (input_registers known))) \<union>
        set (firmware_components E d (map fst (input_registers known))) \<union> set (identity_components E d))"
      using that dict_update_subset unfolding cmps by fastforce
    then consider "x \<in> set commands" | "x \<in> set (button_components E d)"
      | "x \<in> set (state_components E d (input_registers known)) \<union>
        set (combined_serial_components E d (map fst (input_registers known))) \<union>
        set (firmware_components E d (map fst (input_registers known))) \<union> set (identity_components E d)"
      by blast
    then show ?thesis
    proof cases
      case 1
      then show ?thesis using command_components_from [OF c] command_component_sound [OF assms(1,2)] by metis
    next
      case 2
      then show ?thesis using button_components_sound [OF assms(2)] by blast
    next
      case 3
      then show ?thesis by (intro conjI sensor_components_sound)
    qed
  qed
  moreover have "dict_wf cmps" unfolding cmps by (rule dict_wf_update) simp
  ultimately show ?thesis by (simp add: list_all_iff)
qed

definition sample_discovery_env :: discovery_env where
  "sample_discovery_env = \<lparr>de_base = ''ha'', de_bridge = ''ha/bridge'', de_max_bat = 1, de_pv_count = None,
     de_max_slots = 1, de_timeout = 120, de_sensor = False\<rparr>"

definition sample_map :: "int register_map" where
  "sample_map =
     \<lparr>input_registers = [], holding_registers = [(''slot1_start_time'', sample_slot)], config_registers = []\<rparr>"

theorem announced_controls_handled_witness:
  "\<exists>cmps. discovery_components sample_discovery_env ''0PVP1'' sample_map = Inr (cmps :: (string \<times> int json) list) \<and>
     dict_wf cmps \<and> list_all (control_handled sample_discovery_env ''0PVP1'' sample_map) cmps"
proof -
  have "\<not> isl (discovery_components sample_discovery_env ''0PVP1'' sample_map :: (string \<times> int json) list py)"
    by code_simp
  then obtain cmps :: "(string \<times> int json) list"
    where cmps: "discovery_components sample_discovery_env ''0PVP1'' sample_map = Inr cmps"
    by (cases "discovery_components sample_discovery_env ''0PVP1'' sample_map :: (string \<times> int json) list py") auto
  have "settable_map sample_map" "CHR ''/'' \<notin> set ''0PVP1''" by code_simp+
  from announced_controls_handled [OF this cmps] cmps show ?thesis by (auto simp: list_all_iff)
qed

end
