(* ===== verification/DiscoveryRuntime.thy ===== *)
theory DiscoveryRuntime
  imports Discovery
begin

text \<open>
  \<open>grobro/ha/discovery_runtime.py\<close>, \<open>grobro/ha/firmware_runtime.py\<close> and the discovery part of
  \<open>grobro/ha/client.py\<close>: the announced payload is cleaned, given the composed firmware version, and sent
  together with one-time repair and clean-up messages; what was sent is remembered so that an unchanged
  announcement is not repeated.

  Arguments stand for the libraries: \<open>json.dumps\<close> and \<open>json.loads\<close>, \<open>ipaddress\<close>, and the translation of
  entity names.
\<close>

section \<open>Firmware\<close>

text \<open>\<open>NOAH: 19.19.14 + 4.0.1.9 -> 19.19.14.4019\<close>.\<close>

definition compact_datalogger_version :: "string option \<Rightarrow> string option" where
  "compact_datalogger_version v =
     (case v of
        None \<Rightarrow> None
      | Some s \<Rightarrow>
          (let parts = split_on (CHR ''.'') (py_strip s) in
           if py_strip s = [] \<or> list_ex (\<lambda>p. p = [] \<or> \<not> list_all is_digit p) parts then None
           else Some (concat parts)))"

definition part_number :: "string \<Rightarrow> int" where
  "part_number name =
     (case split_on (CHR ''_'') name of
        [_] \<Rightarrow> 9999
      | parts \<Rightarrow> (case py_int_of_str (last parts) of Some n \<Rightarrow> n | None \<Rightarrow> 9999))"

definition firmware_part_names :: "string list \<Rightarrow> string list" where
  "firmware_part_names names = sort_key part_number (filter (prefix ''fw_version_part_'') names)"

fun firmware_parts :: "('f, 'x) float_ops_scheme \<Rightarrow> (string, 'f pyval) dict \<Rightarrow> string list \<Rightarrow> string list option" where
  "firmware_parts F payload [] = Some []"
| "firmware_parts F payload (name # names) =
     (case dict_get payload name of
        None \<Rightarrow> None
      | Some VNone \<Rightarrow> None
      | Some v \<Rightarrow>
          if py_strip (val_str F v) = [] then None
          else map_option ((#) (py_strip (val_str F v))) (firmware_parts F payload names))"

definition compose_combined_firmware ::
    "('f, 'x) float_ops_scheme \<Rightarrow> (string, 'f pyval) dict \<Rightarrow> string option \<Rightarrow> string list \<Rightarrow> string option" where
  "compose_combined_firmware F payload datalogger_version names =
     (if names = [] then None
      else (case firmware_parts F payload names of
          None \<Rightarrow> None
        | Some parts \<Rightarrow>
            Some (join_with ''.'' parts @
              (case compact_datalogger_version datalogger_version of
                 None \<Rightarrow> [] | Some [] \<Rightarrow> [] | Some s \<Rightarrow> ''.'' @ s))))"

section \<open>Cleaning\<close>

datatype ip_answer = IpAddress bool string bool

record 'f cleanup_env =
  ce_config :: "string \<Rightarrow> device_config option"
  ce_ip :: "string \<Rightarrow> ip_answer option"
  ce_translate :: "string \<Rightarrow> string"
  ce_dump :: "'f json \<Rightarrow> string"
  ce_load :: "string \<Rightarrow> 'f json option"
  ce_base :: string
  ce_map :: "string \<Rightarrow> 'f register_map option"

definition configured_serial :: "('f, 'm) cleanup_env_scheme \<Rightarrow> string \<Rightarrow> string" where
  "configured_serial E d =
     (case ce_config E d of
        None \<Rightarrow> d
      | Some config \<Rightarrow>
          (case dict_get config ''serial_number'' of
             None \<Rightarrow> d
           | Some s \<Rightarrow> if py_strip s = [] then d else py_strip s))"

text \<open>An address is given as its version (6 or not), its canonical text and whether it is unspecified.\<close>

definition configured_local_ip :: "('f, 'm) cleanup_env_scheme \<Rightarrow> string \<Rightarrow> string option" where
  "configured_local_ip E d =
     (case ce_config E d of
        None \<Rightarrow> None
      | Some config \<Rightarrow>
          (case dict_get config ''local_ip'' of
             None \<Rightarrow> None
           | Some s \<Rightarrow>
               if s = [] then None
               else (case ce_ip E (strip_nul (py_strip s)) of
                   None \<Rightarrow> None
                 | Some (IpAddress v6 canonical unspecified) \<Rightarrow> if unspecified then None else Some canonical)))"

definition configuration_url_for_ip :: "('f, 'm) cleanup_env_scheme \<Rightarrow> string \<Rightarrow> string py" where
  "configuration_url_for_ip E ip_value =
     (case ce_ip E ip_value of
        None \<Rightarrow> Inl ValueError
      | Some (IpAddress v6 canonical unspecified) \<Rightarrow>
          Inr (if v6 then ''http://['' @ canonical @ '']'' else ''http://'' @ canonical))"

definition is_upstream_neo_inverter_power :: "string \<Rightarrow> string \<Rightarrow> bool" where
  "is_upstream_neo_inverter_power d component_id \<longleftrightarrow>
     is_family d ''neo'' \<and> component_id = ''grobro_'' @ d @ ''_cmd_inverter_power''"

definition clean_component :: "('f, 'm) cleanup_env_scheme \<Rightarrow> string \<Rightarrow> string \<Rightarrow> 'f json \<Rightarrow> 'f json" where
  "clean_component E d component_id component =
     (case component of
        JObj fs \<Rightarrow>
          (let named = (case dict_get fs ''name'' of
                 Some (JStr s) \<Rightarrow> dict_set ''name'' (JStr (ce_translate E s)) fs
               | _ \<Rightarrow> fs)
           in if is_upstream_neo_inverter_power d component_id then JObj named
              else (let bare = dict_pop ''type'' (dict_pop ''publish'' named) in
                JObj (if dict_get bare ''platform'' = Some (JStr ''sensor'') then dict_pop ''command_topic'' bare else bare)))
      | other \<Rightarrow> other)"

definition fork_url :: string where
  "fork_url = ''https://github.com/criticallimit/GroBro''"

definition clean_origin :: "'f json \<Rightarrow> 'f json" where
  "clean_origin origin = (case origin of JObj fs \<Rightarrow> JObj (dict_set ''url'' (JStr fork_url) fs) | other \<Rightarrow> other)"

definition clean_device :: "('f, 'm) cleanup_env_scheme \<Rightarrow> string \<Rightarrow> 'f json \<Rightarrow> 'f json py" where
  "clean_device E d device_meta =
     (case device_meta of
        JObj fs \<Rightarrow>
          (let serial = dict_set ''serial_number'' (JStr (configured_serial E d)) fs in
           case configured_local_ip E d of
             None \<Rightarrow> Inr (JObj (dict_pop ''configuration_url'' serial))
           | Some [] \<Rightarrow> Inr (JObj (dict_pop ''configuration_url'' serial))
           | Some ip \<Rightarrow>
               bindE (configuration_url_for_ip E ip) (\<lambda>url.
                 Inr (JObj (dict_set ''configuration_url'' (JStr url) serial))))
      | other \<Rightarrow> Inr other)"

definition clean_components :: "('f, 'm) cleanup_env_scheme \<Rightarrow> string \<Rightarrow> 'f json \<Rightarrow> 'f json" where
  "clean_components E d components =
     (case components of
        JObj cs \<Rightarrow>
          JObj (map (\<lambda>(cid, c). (cid, clean_component E d cid c))
            (dict_pop (''grobro_'' @ d @ ''_cmd_system_time'') (dict_pop (''grobro_'' @ d @ ''_sync_time'') cs)))
      | other \<Rightarrow> other)"

definition map_field :: "string \<Rightarrow> ('f json \<Rightarrow> 'f json) \<Rightarrow> (string \<times> 'f json) list \<Rightarrow> (string \<times> 'f json) list" where
  "map_field k f fs = (case dict_get fs k of None \<Rightarrow> fs | Some v \<Rightarrow> dict_set k (f v) fs)"

definition clean_discovery_payload ::
    "('f, 'm) cleanup_env_scheme \<Rightarrow> string \<Rightarrow> (string \<times> 'f json) list \<Rightarrow> (string \<times> 'f json) list py" where
  "clean_discovery_payload E d data =
     (let with_origin = map_field ''o'' clean_origin data in
      bindE (case dict_get with_origin ''dev'' of
               None \<Rightarrow> Inr with_origin
             | Some meta \<Rightarrow> bindE (clean_device E d meta) (\<lambda>m. Inr (dict_set ''dev'' m with_origin)))
        (\<lambda>with_device. Inr (map_field ''cmps'' (clean_components E d) with_device)))"

text \<open>The composed firmware as the value of the sensor and as the version of the device.\<close>

definition apply_firmware_discovery ::
    "string \<Rightarrow> (string \<times> 'f json) list \<Rightarrow> string option \<Rightarrow> (string \<times> 'f json) list" where
  "apply_firmware_discovery d data firmware_version =
     (let with_template = map_field ''cmps'' (\<lambda>components. case components of
            JObj cs \<Rightarrow>
              JObj (map_field (''grobro_'' @ d @ ''_fw_version'') (\<lambda>component. case component of
                JObj fs \<Rightarrow> JObj (dict_set ''value_template'' (JStr (value_template ''fw_version'')) fs)
              | other \<Rightarrow> other) cs)
          | other \<Rightarrow> other) data
      in case firmware_version of
           None \<Rightarrow> with_template
         | Some [] \<Rightarrow> with_template
         | Some v \<Rightarrow> map_field ''dev'' (\<lambda>meta. case meta of
               JObj fs \<Rightarrow> JObj (dict_set ''sw_version'' (JStr v) fs)
             | other \<Rightarrow> other) with_template)"

text \<open>Three components are announced once as bare stubs, which removes them. \<open>cmps\<close> must be an object.\<close>

definition removal_stubs :: "string \<Rightarrow> (string \<times> 'f json) list" where
  "removal_stubs d =
     [(''grobro_'' @ d @ ''_cmd_mqtt_ip'', JObj [(''platform'', JStr ''text'')]),
      (''grobro_'' @ d @ ''_cmd_system_time'', JObj [(''platform'', JStr ''text'')]),
      (''grobro_'' @ d @ ''_sync_time'', JObj [(''platform'', JStr ''button'')])]"

definition build_discovery_repair_payload ::
    "string \<Rightarrow> (string \<times> 'f json) list \<Rightarrow> (string \<times> 'f json) list py" where
  "build_discovery_repair_payload d clean_data =
     (case dict_get clean_data ''cmps'' of
        None \<Rightarrow> Inr (dict_set ''cmps'' (JObj (dict_update [] (removal_stubs d))) clean_data)
      | Some (JObj cs) \<Rightarrow> Inr (dict_set ''cmps'' (JObj (dict_update cs (removal_stubs d))) clean_data)
      | Some _ \<Rightarrow> Inl TypeError)"

text \<open>The retained topics of older versions, each once and sorted.\<close>

definition legacy_topics :: "string \<Rightarrow> string \<Rightarrow> 'g register_map \<Rightarrow> string list" where
  "legacy_topics base d known =
     sort (remdups
       ((base @ ''/number/grobro/'' @ d @ ''_set_wirk/config'') #
        concat (map (\<lambda>(name, reg).
          if is_family d ''neo'' \<and> name = ''inverter_power'' then []
          else [base @ ''/'' @ hh_type (hr_ha reg) @ ''/grobro/'' @ d @ ''_'' @ name @ ''/config'',
                base @ ''/'' @ hh_type (hr_ha reg) @ ''/grobro/'' @ d @ ''_'' @ name @ ''_read/config''])
          (holding_registers known)) @
        map (\<lambda>(name, reg). base @ ''/sensor/grobro/'' @ d @ ''_'' @ name @ ''/config'') (input_registers known)))"

section \<open>Lemmas\<close>

lemma map_field_get:
  "dict_get (map_field k f fs) k' = (if k' = k then map_option f (dict_get fs k) else dict_get fs k')"
  by (auto simp: map_field_def split: option.splits)

lemma dict_get_map_values: "dict_get (map (\<lambda>(k, v). (k, f k v)) fs) k = map_option (f k) (dict_get fs k)"
  by (induction fs) auto

lemma clean_component_fields:
  assumes "clean_component E d cid c = JObj fs"
  shows "if is_upstream_neo_inverter_power d cid then True
    else dict_get fs ''publish'' = None \<and> dict_get fs ''type'' = None \<and>
      (if dict_get fs ''platform'' = Some (JStr ''sensor'') then dict_get fs ''command_topic'' = None else True)"
  using assms by (auto simp: clean_component_def Let_def split: json.splits if_splits option.splits)

lemma clean_payload_components:
  assumes "clean_discovery_payload E d data = Inr out"
  shows "dict_get out ''cmps'' = map_option (clean_components E d) (dict_get data ''cmps'')"
  using assms
  by (auto simp: clean_discovery_payload_def Let_def bindE_Inr_iff map_field_get split: option.splits)

section \<open>Properties\<close>

text \<open>Cleaning removes the clock entities, keeps every other entity under its name, and leaves no field in
  it that Home Assistant rejects (the power switch of a NEO keeps its fields).\<close>

theorem cleaned_discovery:
  assumes "clean_discovery_payload E d data = Inr out" "dict_get data ''cmps'' = Some (JObj cs)" "dict_wf cs"
  shows "\<exists>cs'. dict_get out ''cmps'' = Some (JObj cs') \<and>
    (\<forall>cid. (dict_get cs' cid = None) =
       (dict_get cs cid = None \<or> cid = ''grobro_'' @ d @ ''_cmd_system_time'' \<or> cid = ''grobro_'' @ d @ ''_sync_time'')) \<and>
    (\<forall>cid fs. dict_get cs' cid = Some (JObj fs) \<longrightarrow> \<not> is_upstream_neo_inverter_power d cid \<longrightarrow>
       dict_get fs ''publish'' = None \<and> dict_get fs ''type'' = None \<and>
       (dict_get fs ''platform'' = Some (JStr ''sensor'') \<longrightarrow> dict_get fs ''command_topic'' = None))"
proof -
  let ?kept = "dict_pop (''grobro_'' @ d @ ''_cmd_system_time'') (dict_pop (''grobro_'' @ d @ ''_sync_time'') cs)"
  let ?cs = "map (\<lambda>(cid, c). (cid, clean_component E d cid c)) ?kept"
  have out: "dict_get out ''cmps'' = Some (JObj ?cs)"
    using clean_payload_components [OF assms(1)] assms(2) by (simp add: clean_components_def)
  have get: "dict_get ?cs cid = map_option (clean_component E d cid) (dict_get ?kept cid)" for cid
    by (rule dict_get_map_values)
  have keys: "(dict_get ?cs cid = None) =
      (dict_get cs cid = None \<or> cid = ''grobro_'' @ d @ ''_cmd_system_time'' \<or> cid = ''grobro_'' @ d @ ''_sync_time'')"
    for cid unfolding get by simp
  have fields: "\<not> is_upstream_neo_inverter_power d cid \<Longrightarrow> dict_get ?cs cid = Some (JObj fs) \<Longrightarrow>
      dict_get fs ''publish'' = None \<and> dict_get fs ''type'' = None \<and>
      (dict_get fs ''platform'' = Some (JStr ''sensor'') \<longrightarrow> dict_get fs ''command_topic'' = None)" for cid fs
  proof -
    assume a: "\<not> is_upstream_neo_inverter_power d cid" "dict_get ?cs cid = Some (JObj fs)"
    then obtain c where "clean_component E d cid c = JObj fs" unfolding get by auto
    from clean_component_fields [OF this] a(1) show ?thesis by (simp split: if_splits)
  qed
  show ?thesis using out keys fields by blast
qed

definition sample_cleanup_env :: "int cleanup_env" where
  "sample_cleanup_env =
     \<lparr>ce_config = (\<lambda>_. None), ce_ip = (\<lambda>_. None), ce_translate = (\<lambda>s. s), ce_dump = (\<lambda>_. []),
      ce_load = (\<lambda>_. None), ce_base = ''ha'', ce_map = (\<lambda>_. None)\<rparr>"

definition sample_components :: "(string \<times> int json) list" where
  "sample_components =
     [(''grobro_D_sync_time'', JObj [(''platform'', JStr ''button'')]),
      (''s'', JObj [(''platform'', JStr ''sensor''), (''publish'', JBool True), (''command_topic'', JStr ''t'')])]"

theorem cleaned_discovery_witness:
  "\<exists>out cs'. clean_discovery_payload sample_cleanup_env ''D'' [(''cmps'', JObj sample_components)] = Inr out \<and>
     dict_get out ''cmps'' = Some (JObj cs') \<and> dict_get cs' ''grobro_D_sync_time'' = None \<and> dict_get cs' ''s'' \<noteq> None"
proof -
  obtain out where out: "clean_discovery_payload sample_cleanup_env ''D'' [(''cmps'', JObj sample_components)] = Inr out"
    by (simp add: clean_discovery_payload_def map_field_def)
  have "dict_wf sample_components" by code_simp
  then obtain cs' where cs': "dict_get out ''cmps'' = Some (JObj cs')" "\<forall>cid. (dict_get cs' cid = None) =
       (dict_get sample_components cid = None \<or> cid = ''grobro_'' @ ''D'' @ ''_cmd_system_time'' \<or>
        cid = ''grobro_'' @ ''D'' @ ''_sync_time'')"
    using cleaned_discovery [OF out] by (auto simp del: append.simps)
  have "dict_get cs' ''grobro_D_sync_time'' = None" "dict_get cs' ''s'' \<noteq> None"
    unfolding cs'(2) [rule_format] by (simp_all add: sample_components_def)
  with out cs'(1) show ?thesis by blast
qed

end
