(* ===== verification/DiscoveryPublish.thy ===== *)
theory DiscoveryPublish
  imports DiscoveryRuntime Availability
begin

text \<open>
  How \<open>grobro/ha/client.py\<close> announces a device: \<open>_publish_discovery_message\<close> rewrites what goes out,
  \<open>__publish_device_discovery\<close> decides whether anything goes out, and remembers it.

  An \<open>act\<close> is a piece of code that changes the state and returns or raises. All messages are retained,
  and every answer of the broker is in the log of the state.
\<close>

section \<open>Code with a state that may raise\<close>

type_synonym ('s, 'a) act = "'s \<Rightarrow> 's \<times> 'a py"

definition retA :: "'a \<Rightarrow> ('s, 'a) act" where
  "retA a st = (st, Inr a)"

definition bindA :: "('s, 'a) act \<Rightarrow> ('a \<Rightarrow> ('s, 'b) act) \<Rightarrow> ('s, 'b) act" where
  "bindA m k st = (case m st of (st1, Inl e) \<Rightarrow> (st1, Inl e) | (st1, Inr a) \<Rightarrow> k a st1)"

definition updA :: "('s \<Rightarrow> 's) \<Rightarrow> ('s, unit) act" where
  "updA f st = (f st, Inr ())"

fun forA :: "('a \<Rightarrow> ('s, 'b) act) \<Rightarrow> 'a list \<Rightarrow> ('s, 'b list) act" where
  "forA f [] st = (st, Inr [])"
| "forA f (x # xs) st = bindA (f x) (\<lambda>r. bindA (forA f xs) (\<lambda>rs. retA (r # rs))) st"

section \<open>Definitions\<close>

text \<open>The signature of an announcement: the batteries shown, the PV inputs known, the language.\<close>

type_synonym signature = "int \<times> int option \<times> string"

record 'sig discovery_state =
  ds_log :: "(publish \<times> answer) list"
  ds_repaired :: "string set"
  ds_cleaned :: "string set"
  ds_migrated :: "string set"
  ds_announced :: "string list"
  ds_signature :: "(string, signature) dict"
  ds_payload :: "(string, string) dict"
  ds_firmware :: "(string, string) dict"
  ds_pv_count :: "(string, int) dict"
  ds_store :: "'sig config_store"
  ds_files :: files

record ('f, 'sig) announce_env = "'f cleanup_env" +
  an_broker :: broker
  an_bridge :: string
  an_max_slots :: int
  an_timeout :: int
  an_sensor :: bool
  an_language :: string
  an_view :: "'sig disk_view"
  an_dump_config :: "device_config \<Rightarrow> string"
  an_faults :: fs_faults

definition put :: "broker \<Rightarrow> string \<Rightarrow> string \<Rightarrow> ('sig discovery_state, call_result) act" where
  "put B topic payload st =
     (let msg = \<lparr>pb_topic = topic, pb_payload = payload, pb_retain = True\<rparr>
      in (st\<lparr>ds_log := send B msg (ds_log st)\<rparr>,
          case B (ds_log st) msg of Raised e \<Rightarrow> Inl e | Answer r \<Rightarrow> Inr r))"

definition discovery_topic :: "string \<Rightarrow> string \<Rightarrow> string" where
  "discovery_topic base d = base @ ''/device/'' @ d @ ''/config''"

definition config_topic_device :: "string \<Rightarrow> string \<Rightarrow> string option" where
  "config_topic_device base topic =
     (let p = base @ ''/device/''; s = ''/config'' in
      if prefix p topic \<and> suffix s topic then Some (drop (length p) (take (length topic - length s) topic)) else None)"

definition state_topic_device :: "string \<Rightarrow> string \<Rightarrow> string option" where
  "state_topic_device base topic =
     (let p = base @ ''/grobro/'' in
      if prefix p topic then Some (hd (split_on (CHR ''/'') (drop (length p) topic))) else None)"

text \<open>The settings of the clean-up as the current caches give them.\<close>

definition cleanup_now :: "('f, 'sig, 'm) announce_env_scheme \<Rightarrow> 'sig discovery_state \<Rightarrow> ('f, 'sig, 'm) announce_env_scheme" where
  "cleanup_now E st = E\<lparr>ce_config := dict_get (cs_cache (ds_store st))\<rparr>"

text \<open>\<open>except (TypeError, ValueError)\<close>; a \<open>UnicodeError\<close> is a \<open>ValueError\<close>.\<close>

definition rewrite_error :: "py_error \<Rightarrow> bool" where
  "rewrite_error e \<longleftrightarrow> e \<in> {TypeError, ValueError, UnicodeError}"

definition final_payload ::
    "('f, 'sig, 'm) announce_env_scheme \<Rightarrow> 'sig discovery_state \<Rightarrow> string \<Rightarrow> (string \<times> 'f json) list \<Rightarrow>
     (string \<times> 'f json) list py" where
  "final_payload E st d data =
     bindE (clean_discovery_payload (cleanup_now E st) d data) (\<lambda>clean_data.
       Inr (apply_firmware_discovery d clean_data (dict_get (ds_firmware st) d)))"

definition publish_repair ::
    "('f, 'sig, 'm) announce_env_scheme \<Rightarrow> string \<Rightarrow> string \<Rightarrow> (string \<times> 'f json) list \<Rightarrow>
     ('sig discovery_state, unit) act" where
  "publish_repair E d topic clean_data st =
     (if d \<in> ds_repaired st then (st, Inr ())
      else (case build_discovery_repair_payload d clean_data of
          Inl e \<Rightarrow> (st, Inl e)
        | Inr repair \<Rightarrow>
            bindA (put (an_broker E) topic (ce_dump E (JObj repair))) (\<lambda>r.
              updA (\<lambda>s. if publish_succeeded r then s\<lparr>ds_repaired := insert d (ds_repaired s)\<rparr> else s)) st))"

text \<open>The \<open>try\<close> block: the text that is sent afterwards, the old one when the block was left early.\<close>

definition rewrite_payload ::
    "('f, 'sig, 'm) announce_env_scheme \<Rightarrow> string \<Rightarrow> string \<Rightarrow> string \<Rightarrow> ('sig discovery_state, string) act" where
  "rewrite_payload E d topic payload st =
     (case ce_load E payload of
        None \<Rightarrow> (st, Inr payload)
      | Some (JObj data) \<Rightarrow>
          (case final_payload E st d data of
             Inl e \<Rightarrow> (st, if rewrite_error e then Inr payload else Inl e)
           | Inr clean_data \<Rightarrow>
               (case publish_repair E d topic clean_data st of
                  (st1, Inl e) \<Rightarrow> (st1, if rewrite_error e then Inr payload else Inl e)
                | (st1, Inr _) \<Rightarrow> (st1, Inr (ce_dump E (JObj clean_data)))))
      | Some _ \<Rightarrow> (st, Inl AttributeError))"

definition clear_legacy_component_discovery ::
    "('f, 'sig, 'm) announce_env_scheme \<Rightarrow> string \<Rightarrow> ('sig discovery_state, bool) act" where
  "clear_legacy_component_discovery E d =
     (case ce_map E d of
        None \<Rightarrow> retA True
      | Some known \<Rightarrow>
          bindA (forA (\<lambda>topic. put (an_broker E) topic []) (legacy_topics (ce_base E) d known)) (\<lambda>results.
            retA (list_all publish_succeeded results)))"

text \<open>\<open>(mqtt.MQTT_ERR_UNKNOWN, None)\<close>.\<close>

definition cleanup_failed :: call_result where
  "cleanup_failed = ResSeq [Some 13, None]"

definition publish_with_cleanup ::
    "('f, 'sig, 'm) announce_env_scheme \<Rightarrow> bool \<Rightarrow> string \<Rightarrow> string \<Rightarrow> string \<Rightarrow>
     ('sig discovery_state, call_result) act" where
  "publish_with_cleanup E is_device_config d topic payload =
     bindA (put (an_broker E) topic payload) (\<lambda>result st.
       if is_device_config \<and> payload \<noteq> [] \<and> publish_succeeded result \<and> d \<notin> ds_cleaned st
       then bindA (clear_legacy_component_discovery E d) (\<lambda>ok.
         bindA (put (an_broker E) topic payload) (\<lambda>again.
           if \<not> ok then retA cleanup_failed
           else bindA (updA (\<lambda>s. if publish_succeeded again then s\<lparr>ds_cleaned := insert d (ds_cleaned s)\<rparr> else s))
             (\<lambda>_. retA again))) st
       else (st, Inr result))"

definition message_device :: "string \<Rightarrow> string \<Rightarrow> string option" where
  "message_device base topic =
     (case config_topic_device base topic of None \<Rightarrow> state_topic_device base topic | Some d \<Rightarrow> Some d)"

text \<open>What is sent in the end: the serial and the version have values of their own.\<close>

definition send_rewritten ::
    "('f, 'sig, 'm) announce_env_scheme \<Rightarrow> bool \<Rightarrow> string \<Rightarrow> string \<Rightarrow> string \<Rightarrow> ('sig discovery_state, call_result) act" where
  "send_rewritten E is_config d topic text st =
     (let text1 = (if topic = ce_base E @ ''/grobro/'' @ d @ ''/serial''
                   then configured_serial (cleanup_now E st) d else text) in
      if topic = ce_base E @ ''/grobro/'' @ d @ ''/sw_version''
      then (case Option.bind (dict_get (cs_cache (ds_store st)) d) (\<lambda>config. known_text config ''sw_version'') of
          None \<Rightarrow> (st, Inr ResNone)
        | Some version \<Rightarrow> publish_with_cleanup E is_config d topic version st)
      else publish_with_cleanup E is_config d topic text1 st)"

definition publish_discovery_message ::
    "('f, 'sig, 'm) announce_env_scheme \<Rightarrow> string \<Rightarrow> string \<Rightarrow> ('sig discovery_state, call_result) act" where
  "publish_discovery_message E topic payload =
     (let is_config = config_topic_device (ce_base E) topic \<noteq> None in
      case message_device (ce_base E) topic of
        None \<Rightarrow> put (an_broker E) topic payload
      | Some d \<Rightarrow>
          if d = [] then put (an_broker E) topic payload
          else bindA (if is_config \<and> payload \<noteq> [] then rewrite_payload E d topic payload else retA payload)
            (send_rewritten E is_config d topic))"

section \<open>Announcing a device\<close>

definition migration_text :: string where
  "migration_text = ''{'' @ [CHR 0x22] @ ''migrate_discovery'' @ [CHR 0x22] @ '': true}''"

definition migration_topics :: "string \<Rightarrow> string \<Rightarrow> 'g register_map \<Rightarrow> string list" where
  "migration_topics base d known =
     (base @ ''/number/grobro/'' @ d @ ''_set_wirk/config'') #
     concat (map (\<lambda>(name, reg).
        [base @ ''/'' @ hh_type (hr_ha reg) @ ''/grobro/'' @ d @ ''_'' @ name @ ''/config'',
         base @ ''/'' @ hh_type (hr_ha reg) @ ''/grobro/'' @ d @ ''_'' @ name @ ''_read/config'']) (holding_registers known)) @
     map (\<lambda>(name, reg). base @ ''/sensor/grobro/'' @ d @ ''_'' @ name @ ''/config'') (input_registers known)"

definition migrate_entity_discovery ::
    "('f, 'sig, 'm) announce_env_scheme \<Rightarrow> string \<Rightarrow> 'f register_map \<Rightarrow> ('sig discovery_state, unit) act" where
  "migrate_entity_discovery E d known st =
     (if d \<in> ds_migrated st then (st, Inr ())
      else bindA (forA (\<lambda>topic. publish_discovery_message E topic migration_text) (migration_topics (ce_base E) d known))
        (\<lambda>results. updA (\<lambda>s. if list_all publish_succeeded results
                             then s\<lparr>ds_migrated := insert d (ds_migrated s)\<rparr> else s)) st)"

definition publish_discovery_metadata ::
    "('f, 'sig, 'm) announce_env_scheme \<Rightarrow> string \<Rightarrow> bool \<Rightarrow> ('sig discovery_state, bool) act" where
  "publish_discovery_metadata E d include_sw_version =
     bindA (forA (\<lambda>(name, v). publish_discovery_message E (ce_base E @ ''/grobro/'' @ d @ ''/'' @ name) v)
        ([(''serial'', d), (''type'', get_device_type_name d)] @
         (if include_sw_version then [(''sw_version'', d)] else [])))
       (\<lambda>results. retA (list_all publish_succeeded results))"

text \<open>The configuration: cached, else from its file, else a minimal one, which is stored.\<close>

definition config_for_discovery ::
    "('f, 'sig, 'm) announce_env_scheme \<Rightarrow> string \<Rightarrow> 'sig discovery_state \<Rightarrow> 'sig discovery_state \<times> device_config" where
  "config_for_discovery E d st =
     (let cached = (\<lambda>config store. store\<lparr>cs_cache := dict_set d config (cs_cache store)\<rparr>) in
      case dict_get (cs_cache (ds_store st)) d of
        Some config \<Rightarrow> (st, config)
      | None \<Rightarrow>
          (case dv_load (an_view E) (config_path d) of
             Some config \<Rightarrow> (st\<lparr>ds_store := cached config (ds_store st)\<rparr>, config)
           | None \<Rightarrow>
               (let config = make_device_config [(''serial_number'', d)];
                    ((store, fs), ok) = persist_device_config (an_dump_config E) (an_faults E) d config
                      (ds_store st, ds_files st)
                in (st\<lparr>ds_store := cached config store, ds_files := fs\<rparr>, config))))"

definition announce_settings ::
    "('f, 'sig, 'm) announce_env_scheme \<Rightarrow> int \<Rightarrow> int option \<Rightarrow> discovery_env" where
  "announce_settings E max_bat pv_count =
     \<lparr>de_base = ce_base E, de_bridge = an_bridge E, de_max_bat = max_bat, de_pv_count = pv_count,
      de_max_slots = an_max_slots E, de_timeout = an_timeout E, de_sensor = an_sensor E\<rparr>"

definition note_announced :: "string \<Rightarrow> 'sig discovery_state \<Rightarrow> 'sig discovery_state" where
  "note_announced d st = (if d \<in> set (ds_announced st) then st else st\<lparr>ds_announced := ds_announced st @ [d]\<rparr>)"

definition finish_announcement ::
    "('f, 'sig, 'm) announce_env_scheme \<Rightarrow> string \<Rightarrow> signature \<Rightarrow> bool \<Rightarrow> ('sig discovery_state, unit) act" where
  "finish_announcement E d sig include_sw_version =
     bindA (updA (note_announced d)) (\<lambda>_.
       bindA (publish_discovery_metadata E d include_sw_version) (\<lambda>ok.
         updA (\<lambda>s. if ok then s\<lparr>ds_signature := dict_set d sig (ds_signature s)\<rparr> else s)))"

definition send_announcement ::
    "('f, 'sig, 'm) announce_env_scheme \<Rightarrow> string \<Rightarrow> signature \<Rightarrow> string \<Rightarrow> ('sig discovery_state, unit) act" where
  "send_announcement E d sig payload =
     (let topic = discovery_topic (ce_base E) d in
      bindA (publish_discovery_message E topic []) (\<lambda>_.
        bindA (publish_discovery_message E topic payload) (\<lambda>result.
          if \<not> publish_succeeded result then retA ()
          else bindA (updA (\<lambda>s. s\<lparr>ds_payload := dict_set d payload (ds_payload s)\<rparr>)) (\<lambda>_.
            finish_announcement E d sig False))))"

definition announce_if_new ::
    "('f, 'sig, 'm) announce_env_scheme \<Rightarrow> string \<Rightarrow> 'f register_map \<Rightarrow> signature \<Rightarrow> ('sig discovery_state, unit) act" where
  "announce_if_new E d known sig st =
     (if d \<in> set (ds_announced st) \<and> dict_get (ds_signature st) d = Some sig then (st, Inr ())
      else (let (st2, config) = config_for_discovery E d st; (max_bat, pv_count, language) = sig in
        case build_discovery_payload (announce_settings E max_bat pv_count) d known (device_info d config) of
          Inl e \<Rightarrow> (st2, Inl e)
        | Inr payload \<Rightarrow>
            if dict_get (ds_payload st2) d = Some (ce_dump E (JObj payload)) then finish_announcement E d sig True st2
            else send_announcement E d sig (ce_dump E (JObj payload)) st2))"

definition publish_device_discovery ::
    "('f, 'sig, 'm) announce_env_scheme \<Rightarrow> string \<Rightarrow> int \<Rightarrow> ('sig discovery_state, unit) act" where
  "publish_device_discovery E d max_bat st =
     (case ce_map E d of
        None \<Rightarrow> (st, Inr ())
      | Some known \<Rightarrow>
          bindA (migrate_entity_discovery E d known)
            (\<lambda>_. announce_if_new E d known (max_bat, dict_get (ds_pv_count st) d, an_language E)) st)"

text \<open>\<open>_invalidate_discovery_for_firmware_change\<close>: the next announcement is sent again.\<close>

definition invalidate_discovery :: "string \<Rightarrow> 'sig discovery_state \<Rightarrow> 'sig discovery_state" where
  "invalidate_discovery d st =
     st\<lparr>ds_announced := remove1 d (ds_announced st), ds_payload := dict_pop d (ds_payload st),
        ds_signature := dict_pop d (ds_signature st)\<rparr>"

text \<open>The part of \<open>clear_reconnect_caches\<close> that concerns discovery.\<close>

definition clear_discovery_caches :: "'sig discovery_state \<Rightarrow> 'sig discovery_state" where
  "clear_discovery_caches st = st\<lparr>ds_signature := [], ds_payload := [], ds_announced := []\<rparr>"

section \<open>Reasoning about code with a state\<close>

text \<open>What a piece of code does to the state whatever it returns, and what it returns when it does not raise.\<close>

definition stepsA :: "('s \<Rightarrow> 's \<Rightarrow> bool) \<Rightarrow> ('s, 'a) act \<Rightarrow> bool" where
  "stepsA R m \<longleftrightarrow> (\<forall>st. R st (fst (m st)))"

definition yields :: "('a \<Rightarrow> bool) \<Rightarrow> ('s, 'a) act \<Rightarrow> bool" where
  "yields P m \<longleftrightarrow> (\<forall>st st' a. m st = (st', Inr a) \<longrightarrow> P a)"

definition preorder_rel :: "('s \<Rightarrow> 's \<Rightarrow> bool) \<Rightarrow> bool" where
  "preorder_rel R \<longleftrightarrow> (\<forall>s. R s s) \<and> (\<forall>s t u. R s t \<longrightarrow> R t u \<longrightarrow> R s u)"

named_theorems act_rules

lemma bindA_Inr:
  "bindA m k st = (st', Inr b) \<longleftrightarrow> (\<exists>st1 a. m st = (st1, Inr a) \<and> k a st1 = (st', Inr b))"
  by (auto simp: bindA_def split: prod.splits sum.splits)

lemma stepsA_retA [act_rules]: "preorder_rel R \<Longrightarrow> stepsA R (retA a)"
  by (simp add: stepsA_def retA_def preorder_rel_def)

lemma stepsA_updA: "(\<And>st. R st (f st)) \<Longrightarrow> stepsA R (updA f)"
  by (simp add: stepsA_def updA_def)

lemma stepsA_bindA [act_rules]:
  assumes "preorder_rel R" "stepsA R m" "\<And>a. stepsA R (k a)"
  shows "stepsA R (bindA m k)"
proof -
  have "R st (fst (bindA m k st))" for st
  proof -
    obtain st1 r where m: "m st = (st1, r)" by fastforce
    have "R st st1" using assms(2) m by (metis fst_conv stepsA_def)
    moreover have "R st1 (fst (k a st1))" for a using assms(3) by (simp add: stepsA_def)
    ultimately show ?thesis
      using assms(1) m unfolding preorder_rel_def bindA_def by (cases r) (simp, force)
  qed
  then show ?thesis by (simp add: stepsA_def)
qed

lemma stepsA_forA [act_rules]:
  assumes "preorder_rel R" "\<And>x. x \<in> set xs \<Longrightarrow> stepsA R (f x)"
  shows "stepsA R (forA f xs)"
  using assms(2)
proof (induction xs)
  case Nil
  then show ?case using assms(1) by (simp add: stepsA_def preorder_rel_def)
next
  case (Cons x xs)
  have "forA f (x # xs) = bindA (f x) (\<lambda>r. bindA (forA f xs) (\<lambda>rs. retA (r # rs)))" by (rule ext) simp
  then show ?case using Cons by (simp add: stepsA_bindA stepsA_retA assms(1))
qed

lemma yields_retA [act_rules]: "P a \<Longrightarrow> yields P (retA a)"
  by (simp add: yields_def retA_def)

lemma yields_bindA: "yields P m \<Longrightarrow> (\<And>a. P a \<Longrightarrow> yields Q (k a)) \<Longrightarrow> yields Q (bindA m k)"
  by (fastforce simp: yields_def bindA_Inr)

lemma yields_cond: "yields P m \<Longrightarrow> P x \<Longrightarrow> yields P (\<lambda>st. if c st then m st else (st, Inr x))"
  by (auto simp: yields_def)

lemma yields_after: "(\<And>a. yields Q (k a)) \<Longrightarrow> yields Q (bindA m k)"
  by (rule yields_bindA [where P = "\<lambda>_. True"]) (simp_all add: yields_def)

lemma yields_forA: "(\<And>x. yields P (f x)) \<Longrightarrow> yields (list_all P) (forA f xs)"
proof (induction xs)
  case (Cons x xs)
  have "forA f (x # xs) = bindA (f x) (\<lambda>r. bindA (forA f xs) (\<lambda>rs. retA (r # rs)))" by (rule ext) simp
  then show ?case using Cons by (auto intro!: yields_bindA [where P = P] yields_bindA [where P = "list_all P"] yields_retA)
qed (simp add: yields_def)

lemma yields_mono: "yields P m \<Longrightarrow> (\<And>a. P a \<Longrightarrow> Q a) \<Longrightarrow> yields Q m"
  by (auto simp: yields_def)

lemma stepsA_cond [act_rules]:
  "stepsA R m \<Longrightarrow> stepsA R m' \<Longrightarrow> stepsA R (\<lambda>st. if c st then m st else m' st)"
  by (simp add: stepsA_def)

lemma stepsA_return [act_rules]: "preorder_rel R \<Longrightarrow> stepsA R (\<lambda>st. (st, r))"
  by (simp add: stepsA_def preorder_rel_def)

section \<open>What the messages leave alone\<close>

text \<open>
  A preorder on states that sending on the topics \<open>ok\<close> respects, as well as setting the two clean-up flags:
  every message of the discovery respects it.
\<close>

locale sending =
  fixes R :: "'sig discovery_state \<Rightarrow> 'sig discovery_state \<Rightarrow> bool"
    and ok :: "string \<Rightarrow> bool"
  assumes preorder: "preorder_rel R"
    and put_steps: "ok topic \<Longrightarrow> stepsA R (put B topic payload)"
    and repaired_step: "R st (st\<lparr>ds_repaired := x\<rparr>)"
    and cleaned_step: "R st (st\<lparr>ds_cleaned := x\<rparr>)"
begin

lemma R_refl: "R st st"
  using preorder by (simp add: preorder_rel_def)

lemmas steps = stepsA_bindA [OF preorder] stepsA_retA [OF preorder] stepsA_forA [OF preorder]
  stepsA_return [OF preorder] stepsA_cond put_steps

lemma flag_steps:
  "stepsA R (updA (\<lambda>s. if b then s\<lparr>ds_repaired := insert d (ds_repaired s)\<rparr> else s))"
  "stepsA R (updA (\<lambda>s. if b then s\<lparr>ds_cleaned := insert d (ds_cleaned s)\<rparr> else s))"
  by (rule stepsA_updA, simp add: repaired_step R_refl) (rule stepsA_updA, simp add: cleaned_step R_refl)

lemma legacy_steps:
  assumes "\<And>known. ce_map E d = Some known \<Longrightarrow> list_all ok (legacy_topics (ce_base E) d known)"
  shows "stepsA R (clear_legacy_component_discovery E d)"
  using assms by (auto simp: clear_legacy_component_discovery_def list_all_iff intro!: steps split: option.splits)

lemma cleanup_steps:
  assumes "ok topic" "\<And>known. ce_map E d = Some known \<Longrightarrow> list_all ok (legacy_topics (ce_base E) d known)"
  shows "stepsA R (publish_with_cleanup E is_config d topic payload)"
proof -
  have again: "stepsA R (if \<not> y then retA cleanup_failed
       else bindA (updA (\<lambda>s. if b then s\<lparr>ds_cleaned := insert d (ds_cleaned s)\<rparr> else s)) (\<lambda>_. retA r))" for y b r
    by (cases y) (auto intro: steps flag_steps)
  show ?thesis
    unfolding publish_with_cleanup_def by (intro steps legacy_steps again assms)
qed

lemma repair_steps: "ok topic \<Longrightarrow> stepsA R (publish_repair E d topic clean_data)"
proof -
  assume "ok topic"
  then have sent: "stepsA R (bindA (put (an_broker E) topic msg) (\<lambda>r.
      updA (\<lambda>s. if publish_succeeded r then s\<lparr>ds_repaired := insert d (ds_repaired s)\<rparr> else s)))" for msg
    by (intro steps flag_steps)
  show ?thesis
    using sent R_refl by (auto simp: publish_repair_def stepsA_def split: sum.splits)
qed

lemma rewrite_steps: "ok topic \<Longrightarrow> stepsA R (rewrite_payload E d topic payload)"
proof -
  assume "ok topic"
  then have rep: "R st (fst (publish_repair E d topic c st))" for c st
    by (rule repair_steps [unfolded stepsA_def, rule_format])
  have "R st (fst (rewrite_payload E d topic payload st))" for st
  proof (cases "ce_load E payload")
    case (Some j)
    show ?thesis
    proof (cases j)
      case (JObj data)
      show ?thesis
      proof (cases "final_payload E st d data")
        case (Inr c)
        obtain st1 r where r: "publish_repair E d topic c st = (st1, r)" by fastforce
        then show ?thesis
          using rep [of st c] Some JObj Inr by (cases r) (auto simp: rewrite_payload_def)
      qed (simp add: rewrite_payload_def Some JObj R_refl)
    qed (simp_all add: rewrite_payload_def Some R_refl)
  qed (simp add: rewrite_payload_def R_refl)
  then show ?thesis by (simp add: stepsA_def)
qed

lemma message_steps:
  assumes "ok topic" "\<And>d known. ce_map E d = Some known \<Longrightarrow> list_all ok (legacy_topics (ce_base E) d known)"
  shows "stepsA R (publish_discovery_message E topic payload)"
proof -
  have sent: "R st (fst (publish_with_cleanup E is_config d topic x st))" for is_config d x st
    using assms by (intro cleanup_steps [unfolded stepsA_def, rule_format])
  then have "stepsA R (send_rewritten E is_config d topic x)" for is_config d x
    using sent R_refl by (auto simp: stepsA_def send_rewritten_def Let_def split: option.splits)
  then show ?thesis
    using assms(1) by (auto simp: publish_discovery_message_def Let_def split: option.splits intro!: steps rewrite_steps)
qed

end

text \<open>Messages touch the log, the clean-up flags and nothing else.\<close>

definition only_sends :: "'sig discovery_state \<Rightarrow> 'sig discovery_state \<Rightarrow> bool" where
  "only_sends st st' \<longleftrightarrow>
     ds_migrated st' = ds_migrated st \<and> ds_announced st' = ds_announced st \<and>
     ds_signature st' = ds_signature st \<and> ds_payload st' = ds_payload st \<and>
     ds_firmware st' = ds_firmware st \<and> ds_pv_count st' = ds_pv_count st \<and>
     ds_store st' = ds_store st \<and> ds_files st' = ds_files st"

definition same_on :: "string \<Rightarrow> 'sig discovery_state \<Rightarrow> 'sig discovery_state \<Rightarrow> bool" where
  "same_on topic st st' \<longleftrightarrow> broker_state (ds_log st') topic = broker_state (ds_log st) topic"

lemma only_sends_preorder: "preorder_rel only_sends"
  by (simp add: preorder_rel_def only_sends_def)

lemma same_on_preorder: "preorder_rel (same_on topic)"
  by (auto simp: preorder_rel_def same_on_def)

interpretation frame: sending only_sends "\<lambda>topic. True"
  by unfold_locales (simp_all add: only_sends_preorder stepsA_def put_def only_sends_def Let_def)

lemma put_same_on: "topic \<noteq> topic' \<Longrightarrow> stepsA (same_on topic) (put B topic' payload)"
  by (simp add: stepsA_def put_def same_on_def broker_state_send Let_def)


lemma publish_message_only_sends: "stepsA only_sends (publish_discovery_message E topic payload)"
  by (rule frame.message_steps) (simp_all add: list_all_iff)

section \<open>What the broker holds afterwards\<close>

lemma plain_message_same_on:
  fixes E :: "('f, 'sig, 'm) announce_env_scheme"
  assumes "config_topic_device (ce_base E) topic = None" "topic \<noteq> topic'"
  shows "stepsA (same_on topic') (publish_discovery_message E topic payload)"
proof -
  note R = same_on_preorder [of topic']
  have "stepsA (same_on topic') (publish_with_cleanup E False d topic x)" for d x
    unfolding publish_with_cleanup_def
    by (simp add: stepsA_bindA [OF R] put_same_on [OF assms(2) [symmetric]] stepsA_return [OF R])
  then have sent: "same_on topic' st (fst (publish_with_cleanup E False d topic x st))" for d x st
    by (simp add: stepsA_def)
  have refl: "same_on topic' st st" for st :: "'sig discovery_state" by (simp add: same_on_def)
  have "stepsA (same_on topic') (send_rewritten E False d topic x)" for d x
    using sent refl by (auto simp: stepsA_def send_rewritten_def Let_def split: option.splits)
  then show ?thesis
    using assms(1) put_same_on [OF assms(2) [symmetric]]
    by (auto simp: publish_discovery_message_def Let_def stepsA_bindA [OF R] stepsA_retA [OF R] split: option.splits)
qed





lemma prefix_same_length: "length p = length q \<Longrightarrow> prefix p t \<Longrightarrow> prefix q t \<Longrightarrow> p = q"
  by (metis append_eq_append_conv prefix_def)


lemma config_topic_state: "config_topic_device base (base @ ''/grobro/'' @ rest) = None"
  by (simp add: config_topic_device_def Let_def)


lemma metadata_same_on:
  assumes "\<forall>name. ce_base E @ ''/grobro/'' @ d @ ''/'' @ name \<noteq> topic"
  shows "stepsA (same_on topic) (publish_discovery_metadata E d b)"
proof -
  have "stepsA (same_on topic) (publish_discovery_message E (ce_base E @ ''/grobro/'' @ d @ ''/'' @ name) v)" for name v
    using assms config_topic_state [of "ce_base E" "d @ ''/'' @ name"] by (intro plain_message_same_on) simp_all
  then show ?thesis
    unfolding publish_discovery_metadata_def
    by (auto intro!: stepsA_bindA [OF same_on_preorder] stepsA_forA [OF same_on_preorder] stepsA_retA [OF same_on_preorder])
qed

lemma metadata_only_sends: "stepsA only_sends (publish_discovery_metadata E d b)"
  unfolding publish_discovery_metadata_def by (auto intro!: frame.steps publish_message_only_sends)

lemma finish_announcement_frame:
  assumes "finish_announcement E d sig b st = (st', r)"
  shows "broker_state (ds_log st') (discovery_topic (ce_base E) d') = broker_state (ds_log st) (discovery_topic (ce_base E) d')"
    and "ds_payload st' = ds_payload st" "ds_store st' = ds_store st" "ds_firmware st' = ds_firmware st"
    and "ds_pv_count st' = ds_pv_count st" "ds_migrated st' = ds_migrated st"
    and "d \<in> set (ds_announced st')"
proof -
  let ?t = "discovery_topic (ce_base E) d'"
  obtain st2 q where meta: "publish_discovery_metadata E d b (note_announced d st) = (st2, q)" by fastforce
  have st': "ds_log st' = ds_log st2 \<and> ds_payload st' = ds_payload st2 \<and> ds_store st' = ds_store st2 \<and>
      ds_firmware st' = ds_firmware st2 \<and> ds_pv_count st' = ds_pv_count st2 \<and> ds_migrated st' = ds_migrated st2 \<and>
      ds_announced st' = ds_announced st2"
    using assms meta by (auto simp: finish_announcement_def bindA_def updA_def split: sum.splits if_splits)
  have "\<forall>name. ce_base E @ ''/grobro/'' @ d @ ''/'' @ name \<noteq> ?t" by (simp add: discovery_topic_def)
  from metadata_same_on [OF this, of b, unfolded stepsA_def, rule_format, of "note_announced d st"]
  have "same_on ?t (note_announced d st) st2" by (simp add: meta)
  then show "broker_state (ds_log st') ?t = broker_state (ds_log st) ?t"
    using st' by (simp add: same_on_def note_announced_def split: if_splits)
  have "only_sends (note_announced d st) st2"
    using metadata_only_sends [of E d b, unfolded stepsA_def, rule_format, of "note_announced d st"] meta by simp
  then show "ds_payload st' = ds_payload st" "ds_store st' = ds_store st" "ds_firmware st' = ds_firmware st"
    "ds_pv_count st' = ds_pv_count st" "ds_migrated st' = ds_migrated st" "d \<in> set (ds_announced st')"
    using st' by (auto simp: only_sends_def note_announced_def split: if_splits)
qed

text \<open>The state before the announcement proper: the migration and the configuration.\<close>

lemma migrate_frame:
  assumes "migrate_entity_discovery E d known st = (st', r)"
  shows "ds_payload st' = ds_payload st" "ds_announced st' = ds_announced st" "ds_signature st' = ds_signature st"
    "ds_pv_count st' = ds_pv_count st" "ds_store st' = ds_store st" "ds_firmware st' = ds_firmware st"
proof -
  define rest where "rest = forA (\<lambda>topic. publish_discovery_message E topic migration_text)
      (migration_topics (ce_base E) d known)"
  have "stepsA only_sends rest"
    unfolding rest_def by (auto intro!: frame.steps publish_message_only_sends)
  moreover obtain st1 q where r: "rest st = (st1, q)" by fastforce
  ultimately have sent: "only_sends st st1" by (metis fst_conv stepsA_def)
  have out: "st' = st \<or> st' = st1 \<or> st' = st1\<lparr>ds_migrated := insert d (ds_migrated st1)\<rparr>"
    using assms r unfolding migrate_entity_discovery_def rest_def [symmetric]
    by (cases q) (auto simp: bindA_def updA_def split: if_splits)
  show "ds_payload st' = ds_payload st" "ds_announced st' = ds_announced st" "ds_signature st' = ds_signature st"
    "ds_pv_count st' = ds_pv_count st" "ds_store st' = ds_store st" "ds_firmware st' = ds_firmware st"
    using out sent by (auto simp: only_sends_def)
qed

lemma config_for_discovery_frame:
  assumes "config_for_discovery E d st = (st', config)"
  shows "ds_payload st' = ds_payload st" "ds_announced st' = ds_announced st" "ds_signature st' = ds_signature st"
    "ds_pv_count st' = ds_pv_count st" "ds_migrated st' = ds_migrated st"
  using assms by (auto simp: config_for_discovery_def Let_def split: option.splits prod.splits)


section \<open>A broker that accepts everything\<close>

definition accepting :: "broker \<Rightarrow> bool" where
  "accepting B \<longleftrightarrow> (\<forall>lg p. accepted (B lg p))"

lemma put_accepting: "accepting B \<Longrightarrow> yields publish_succeeded (put B topic payload)"
proof -
  assume a: "accepting B"
  have "publish_succeeded r" if "B lg p = Answer r" for lg p r
    using a that unfolding accepting_def by (metis accepted.simps(1))
  then show ?thesis by (auto simp: yields_def put_def Let_def split: answer.splits)
qed

lemma publish_with_cleanup_accepting:
  assumes "accepting (an_broker E)"
  shows "yields publish_succeeded (publish_with_cleanup E is_config d topic payload)"
proof -
  note p = put_accepting [OF assms]
  have legacy: "yields (\<lambda>ok. ok) (clear_legacy_component_discovery E d)"
    by (auto simp: clear_legacy_component_discovery_def split: option.splits
        intro!: yields_retA yields_bindA [where P = "list_all publish_succeeded"] yields_forA p)
  have again: "yields publish_succeeded (bindA (put (an_broker E) topic payload) (\<lambda>again.
      if \<not> ok then retA cleanup_failed
      else bindA (updA (\<lambda>s. if publish_succeeded again then s\<lparr>ds_cleaned := insert d (ds_cleaned s)\<rparr> else s))
        (\<lambda>_. retA again)))" if ok for ok
    using that by (intro yields_bindA [OF p]) (simp add: yields_after yields_retA)
  show ?thesis
    unfolding publish_with_cleanup_def
    by (intro yields_bindA [OF p] yields_cond yields_bindA [OF legacy] again)
qed

lemma publish_message_accepting:
  assumes "accepting (an_broker E)"
  shows "yields publish_succeeded (publish_discovery_message E topic payload)"
proof -
  note p = put_accepting [OF assms] and c = publish_with_cleanup_accepting [OF assms]
  have sent: "yields publish_succeeded (send_rewritten E is_config d topic x)" for is_config d x
    using c by (auto simp: yields_def send_rewritten_def Let_def publish_succeeded_def [of ResNone] split: option.splits if_splits)
  show ?thesis
    by (auto simp: publish_discovery_message_def Let_def intro!: p yields_after sent split: option.splits)
qed

lemma migrate_accepting:
  assumes "accepting (an_broker E)" "migrate_entity_discovery E d known st = (st', Inr ())"
  shows "d \<in> ds_migrated st'"
proof (cases "d \<in> ds_migrated st")
  case True
  then show ?thesis using assms(2) by (simp add: migrate_entity_discovery_def)
next
  case False
  then obtain st1 results where "forA (\<lambda>topic. publish_discovery_message E topic migration_text)
      (migration_topics (ce_base E) d known) st = (st1, Inr results)"
    and st': "st' = (if list_all publish_succeeded results then st1\<lparr>ds_migrated := insert d (ds_migrated st1)\<rparr> else st1)"
    using assms(2) by (auto simp: migrate_entity_discovery_def bindA_Inr updA_def)
  moreover have "yields (list_all publish_succeeded)
      (forA (\<lambda>topic. publish_discovery_message E topic migration_text) (migration_topics (ce_base E) d known))"
    by (rule yields_forA) (rule publish_message_accepting [OF assms(1)])
  ultimately show ?thesis by (simp add: yields_def)
qed

lemma finish_accepting:
  assumes "accepting (an_broker E)" "finish_announcement E d sig b st = (st', Inr ())"
  shows "dict_get (ds_signature st') d = Some sig"
proof -
  obtain st1 ok where m: "publish_discovery_metadata E d b (note_announced d st) = (st1, Inr ok)"
    and st': "st' = (if ok then st1\<lparr>ds_signature := dict_set d sig (ds_signature st1)\<rparr> else st1)"
    using assms(2) by (auto simp: finish_announcement_def bindA_Inr updA_def)
  have "yields (\<lambda>ok. ok) (publish_discovery_metadata E d b)"
    unfolding publish_discovery_metadata_def
    by (auto intro!: yields_bindA [where P = "list_all publish_succeeded"] yields_forA
        publish_message_accepting [OF assms(1)] yields_retA)
  then have ok using m unfolding yields_def by blast
  then show ?thesis using st' by simp
qed

lemma send_accepting:
  assumes "accepting (an_broker E)" "send_announcement E d sig payload st = (st', Inr ())"
  shows "dict_get (ds_signature st') d = Some sig" "d \<in> set (ds_announced st')"
    "ds_migrated st' = ds_migrated st" "ds_pv_count st' = ds_pv_count st"
proof -
  let ?t = "discovery_topic (ce_base E) d"
  obtain st1 r1 st2 r2 where first: "publish_discovery_message E ?t [] st = (st1, Inr r1)"
    and second: "publish_discovery_message E ?t payload st1 = (st2, Inr r2)"
    and rest: "(if \<not> publish_succeeded r2 then retA ()
       else bindA (updA (\<lambda>s. s\<lparr>ds_payload := dict_set d payload (ds_payload s)\<rparr>)) (\<lambda>_. finish_announcement E d sig False)) st2
       = (st', Inr ())"
    using assms(2) by (auto simp: send_announcement_def Let_def bindA_Inr)
  have ok: "publish_succeeded r2"
    using publish_message_accepting [OF assms(1), of ?t payload] second by (auto simp: yields_def)
  have "only_sends st st1" "only_sends st1 st2"
    using publish_message_only_sends [of E ?t "[]", unfolded stepsA_def, rule_format, of st] first
      publish_message_only_sends [of E ?t payload, unfolded stepsA_def, rule_format, of st1] second by simp_all
  moreover have fin: "finish_announcement E d sig False (st2\<lparr>ds_payload := dict_set d payload (ds_payload st2)\<rparr>) = (st', Inr ())"
    using rest ok by (simp add: bindA_def updA_def)
  ultimately show "dict_get (ds_signature st') d = Some sig" "d \<in> set (ds_announced st')"
    "ds_migrated st' = ds_migrated st" "ds_pv_count st' = ds_pv_count st"
    using finish_announcement_frame [OF fin] finish_accepting [OF assms(1) fin] by (simp_all add: only_sends_def)
qed

lemma announce_if_new_cases:
  assumes "announce_if_new E d known sig st = (st', Inr ())"
  obtains (silent) "st' = st" "d \<in> set (ds_announced st)" "dict_get (ds_signature st) d = Some sig"
    | (same) st2 config where "config_for_discovery E d st = (st2, config)"
        "finish_announcement E d sig True st2 = (st', Inr ())"
    | (new) st2 config payload where "config_for_discovery E d st = (st2, config)"
        "send_announcement E d sig payload st2 = (st', Inr ())"
  using assms by (auto simp: announce_if_new_def split: if_splits prod.splits sum.splits)

section \<open>Properties\<close>


text \<open>C19: With a broker that accepts everything one announcement is enough: the same one again sends nothing
  and changes nothing.\<close>

theorem announcement_settles:
  assumes "accepting (an_broker E)" "publish_device_discovery E d max_bat st = (st', Inr ())"
  shows "publish_device_discovery E d max_bat st' = (st', Inr ())"
proof (cases "ce_map E d")
  case (Some known)
  define sig where "sig = (max_bat, dict_get (ds_pv_count st) d, an_language E)"
  obtain st1 where m: "migrate_entity_discovery E d known st = (st1, Inr ())"
    and run: "announce_if_new E d known sig st1 = (st', Inr ())"
    using assms(2) Some by (auto simp: publish_device_discovery_def sig_def bindA_Inr)
  have "ds_migrated st' = ds_migrated st1 \<and> ds_pv_count st' = ds_pv_count st1 \<and> d \<in> set (ds_announced st') \<and>
      dict_get (ds_signature st') d = Some sig"
    using run
  proof (cases rule: announce_if_new_cases)
    case (same st2 config)
    then show ?thesis
      using config_for_discovery_frame [OF same(1)] finish_announcement_frame [OF same(2)] finish_accepting [OF assms(1) same(2)]
      by simp
  next
    case (new st2 config p)
    then show ?thesis
      using config_for_discovery_frame [OF new(1)] send_accepting [OF assms(1) new(2)] by simp
  qed simp
  then show ?thesis
    using Some migrate_frame(4) [OF m] migrate_accepting [OF assms(1) m]
    by (simp add: publish_device_discovery_def bindA_def migrate_entity_discovery_def announce_if_new_def sig_def)
qed (use assms(2) in \<open>auto simp: publish_device_discovery_def\<close>)

section \<open>Concrete runs\<close>

text \<open>A device with one register, which is announced from the second battery on.\<close>

definition second_battery :: "int input_register" where
  "second_battery =
     \<lparr>ir_growatt = \<lparr>gr_position = \<lparr>pos_register = 1, pos_offset = 0, pos_size = 2\<rparr>,
        gr_data = \<lparr>rd_type = DT_INT, rd_float_options = None, rd_enum_options = None, rd_mult = None\<rparr>\<rparr>,
      ir_ha = \<lparr>hi_name = ''B'', hi_publish = True, hi_state_class = None, hi_device_class = None, hi_unit = None,
        hi_icon = None, hi_precision = None\<rparr>\<rparr>"

definition one_or_two :: "int json \<Rightarrow> string" where
  "one_or_two j =
     (case j of
        JObj fs \<Rightarrow>
          (case dict_get fs ''cmps'' of
             Some (JObj cs) \<Rightarrow> (if dict_get cs ''grobro_D_bat2_x'' = None then ''one'' else ''two'')
           | _ \<Rightarrow> [])
      | _ \<Rightarrow> [])"

definition sample_announce_env :: "broker \<Rightarrow> (int, unit) announce_env" where
  "sample_announce_env B =
     \<lparr>ce_config = (\<lambda>_. None), ce_ip = (\<lambda>_. None), ce_translate = (\<lambda>s. s), ce_dump = one_or_two,
      ce_load = (\<lambda>_. None), ce_base = ''h'',
      ce_map = (\<lambda>_. Some \<lparr>input_registers = [(''bat2_x'', second_battery)], holding_registers = [], config_registers = []\<rparr>),
      an_broker = B, an_bridge = ''b'', an_max_slots = 1, an_timeout = 120, an_sensor = False, an_language = ''en'',
      an_view = \<lparr>dv_stat = (\<lambda>_. None), dv_load = (\<lambda>_. Some [])\<rparr>, an_dump_config = (\<lambda>_. []), an_faults = no_faults\<rparr>"

definition new_discovery :: "unit discovery_state" where
  "new_discovery =
     \<lparr>ds_log = [], ds_repaired = {}, ds_cleaned = {}, ds_migrated = {}, ds_announced = [], ds_signature = [],
      ds_payload = [], ds_firmware = [], ds_pv_count = [],
      ds_store = \<lparr>cs_cache = [], cs_snapshots = [], cs_dirty = {}\<rparr>, ds_files = Map.empty\<rparr>"

definition accept_all :: broker where
  "accept_all lg p = Answer (ResRc 0)"

definition refuse_two :: broker where
  "refuse_two lg p = Answer (ResRc (if pb_payload p = ''two'' then 15 else 0))"

definition first_announcement :: "unit discovery_state \<times> unit py" where
  "first_announcement = publish_device_discovery (sample_announce_env accept_all) ''D'' 1 new_discovery"

lemma first_announcement_sent:
  "snd first_announcement = Inr ()" "dict_get (ds_payload (fst first_announcement)) ''D'' = Some ''one''"
  by code_simp+


theorem announcement_settles_witness:
  "publish_device_discovery (sample_announce_env accept_all) ''D'' 1 (fst first_announcement) =
     (fst first_announcement, Inr ())"
proof (rule announcement_settles)
  show "accepting (an_broker (sample_announce_env accept_all))"
    by (simp add: accepting_def sample_announce_env_def accept_all_def publish_succeeded_def)
  show "publish_device_discovery (sample_announce_env accept_all) ''D'' 1 new_discovery = (fst first_announcement, Inr ())"
    using first_announcement_sent(1) by (simp add: first_announcement_def prod_eq_iff)
qed

text \<open>A refused announcement can stay lost: the empty message before it already removed the device, and
  when the next packet shows the number of batteries of the announcement before, that one still counts as
  sent.\<close>

definition announce_batteries :: "int \<Rightarrow> unit discovery_state \<Rightarrow> unit discovery_state" where
  "announce_batteries n st = fst (publish_device_discovery (sample_announce_env refuse_two) ''D'' n st)"

theorem refused_announcement_lost:
  "let once = announce_batteries 1 new_discovery; refused = announce_batteries 2 once; back = announce_batteries 1 refused
   in broker_state (ds_log once) ''h/device/D/config'' = Some ''one'' \<and>
      broker_state (ds_log refused) ''h/device/D/config'' = Some [] \<and> ds_log back = ds_log refused"
  by code_simp

end
