(* ===== verification/DeviceInventory.thy ===== *)
theory DeviceInventory
  imports BatteryPosition DeviceFamily "HOL-Library.List_Lexorder" "HOL-Library.Char_ord" "HOL-Library.Product_Lexorder"
begin

text \<open>
  \<open>grobro/ha/device_inventory.py\<close>: what the web page shows of the devices seen since the start. Every
  call takes one lock and is atomic. The item of a device is a record: its two Wi-Fi keys always have the
  same value, the batteries are absent until the first telemetry, the live values are a dictionary.
\<close>

section \<open>Definitions\<close>

record 'f battery_view =
  bw_slot :: int
  bw_serial :: "string option"
  bw_soc :: "'f pyval option"
  bw_temperature :: "'f pyval option"

record 'f device_view =
  dw_family :: string
  dw_name :: string
  dw_wifi :: "int option"
  dw_batteries :: "'f battery_view list option"
  dw_values :: "(string, 'f pyval) dict"

type_synonym 'f inventory = "(string, 'f device_view) dict"

definition new_device_view :: "string \<Rightarrow> 'f device_view" where
  "new_device_view d =
     \<lparr>dw_family = (case get_device_family d of Some f \<Rightarrow> df_key f | None \<Rightarrow> ''unknown''),
      dw_name = (case get_device_family d of Some f \<Rightarrow> df_display_name f | None \<Rightarrow> ''UNKNOWN''),
      dw_wifi = None, dw_batteries = None, dw_values = []\<rparr>"

definition update_device :: "string \<Rightarrow> ('f device_view \<Rightarrow> 'f device_view) \<Rightarrow> 'f inventory \<Rightarrow> 'f inventory" where
  "update_device d f devs =
     dict_set d (f (case dict_get devs d of None \<Rightarrow> new_device_view d | Some item \<Rightarrow> item)) devs"

definition observe_device :: "string \<Rightarrow> 'f inventory \<Rightarrow> 'f inventory" where
  "observe_device device_id devs =
     (let d = py_strip device_id in
      if d = [] then devs
      else if dict_get devs d \<noteq> None then devs
      else dict_set d (new_device_view d) devs)"

text \<open>The signal in dBm; anything that is no negative number down to -120 is ignored.\<close>

definition wifi_reading :: "('f, 'x) float_ops_scheme \<Rightarrow> 'f pyval option \<Rightarrow> int option" where
  "wifi_reading F v =
     (case v of
        None \<Rightarrow> None
      | Some VNone \<Rightarrow> None
      | Some w \<Rightarrow>
          (case py_int_of_str (py_strip (val_str F w)) of
             None \<Rightarrow> None
           | Some signal \<Rightarrow> if signal \<ge> 0 \<or> signal < -120 then None else Some signal))"

definition observe_wifi_signal ::
    "('f, 'x) float_ops_scheme \<Rightarrow> string \<Rightarrow> 'f pyval option \<Rightarrow> 'f inventory \<Rightarrow> 'f inventory" where
  "observe_wifi_signal F device_id v devs =
     (let d = py_strip device_id in
      if d = [] then devs
      else (case wifi_reading F v of
          None \<Rightarrow> devs
        | Some signal \<Rightarrow> update_device d (\<lambda>item. item\<lparr>dw_wifi := Some signal\<rparr>) devs))"

definition present :: "'f pyval option \<Rightarrow> 'f pyval option" where
  "present v = (case v of Some VNone \<Rightarrow> None | w \<Rightarrow> w)"

definition battery_view_of ::
    "(int, string) dict \<Rightarrow> (string, 'f pyval) dict \<Rightarrow> int \<Rightarrow> 'f battery_view" where
  "battery_view_of serials payload slot =
     \<lparr>bw_slot = slot, bw_serial = dict_get serials slot,
      bw_soc = present (dict_get payload (''bat_'' @ str_of_int slot @ ''_soc_pct'')),
      bw_temperature = present (dict_get payload (''bat'' @ str_of_int slot @ ''_temp''))\<rparr>"

definition live_keys :: "string list" where
  "live_keys = [''bat_sysstate'', ''charging_discharging'', ''out_power'', ''pv_tot_power'', ''tot_bat_soc_pct'']"

definition live_values :: "(string, 'f pyval) dict \<Rightarrow> (string, 'f pyval) dict \<Rightarrow> (string, 'f pyval) dict" where
  "live_values payload old =
     foldl (\<lambda>values key. case present (dict_get payload key) of None \<Rightarrow> values | Some v \<Rightarrow> dict_set key v values)
       old live_keys"

definition observe_telemetry ::
    "('f, 'x) float_ops_scheme \<Rightarrow> string \<Rightarrow> (string, 'f pyval) dict \<Rightarrow> int \<Rightarrow> 'f inventory \<Rightarrow> 'f inventory" where
  "observe_telemetry F device_id payload max_bat devs =
     (let d = py_strip device_id in
      if d = [] then devs
      else (let devs1 = observe_wifi_signal F d (dict_get payload ''wifi_signal_strength'') devs;
                serials = serials_from_payload F payload;
                batteries = map (battery_view_of serials payload) [1..max 1 (min 4 max_bat)]
        in update_device d
             (\<lambda>item. item\<lparr>dw_batteries := Some batteries, dw_values := live_values payload (dw_values item)\<rparr>) devs1))"

text \<open>The snapshot, sorted by display name and device id.\<close>

definition get_device_inventory :: "'f inventory \<Rightarrow> (string \<times> 'f device_view) list" where
  "get_device_inventory devs = sort_key (\<lambda>(d, item). (dw_name item, d)) devs"

section \<open>Lemmas\<close>

datatype 'f observation =
    SeenDevice string
  | SeenSignal string "'f pyval option"
  | SeenTelemetry string "(string, 'f pyval) dict" int

fun observe :: "('f, 'x) float_ops_scheme \<Rightarrow> 'f inventory \<Rightarrow> 'f observation \<Rightarrow> 'f inventory" where
  "observe F devs (SeenDevice d) = observe_device d devs"
| "observe F devs (SeenSignal d v) = observe_wifi_signal F d v devs"
| "observe F devs (SeenTelemetry d payload max_bat) = observe_telemetry F d payload max_bat devs"

text \<open>What every item shows: the family of its own id, a signal in range, the slots from 1 up to at most 4.\<close>

definition view_ok :: "string \<Rightarrow> 'f device_view \<Rightarrow> bool" where
  "view_ok d item \<longleftrightarrow>
     d \<noteq> [] \<and> dw_family item = dw_family (new_device_view d :: 'f device_view) \<and>
     dw_name item = dw_name (new_device_view d :: 'f device_view) \<and>
     (case dw_wifi item of None \<Rightarrow> True | Some s \<Rightarrow> -120 \<le> s \<and> s < 0) \<and>
     (case dw_batteries item of None \<Rightarrow> True
      | Some bs \<Rightarrow> \<exists>n. 1 \<le> n \<and> n \<le> 4 \<and> map bw_slot bs = [1..n])"

definition inventory_ok :: "'f inventory \<Rightarrow> bool" where
  "inventory_ok devs \<longleftrightarrow> dict_wf devs \<and> list_all (\<lambda>(d, item). view_ok d item) devs"

lemma inventory_ok_get: "inventory_ok devs \<Longrightarrow> dict_get devs d = Some item \<Longrightarrow> view_ok d item"
  by (auto simp: inventory_ok_def list_all_iff dest: map_of_SomeD)

lemma list_all_set_item: "list_all (\<lambda>(d, item). P d item) devs \<Longrightarrow> P d item \<Longrightarrow> list_all (\<lambda>(d, item). P d item) (dict_set d item devs)"
  by (induction devs) auto

lemma new_view_ok: "d \<noteq> [] \<Longrightarrow> view_ok d (new_device_view d)"
  by (simp add: view_ok_def) (simp add: new_device_view_def)

lemma update_device_ok:
  assumes "inventory_ok devs" "d \<noteq> []" "\<And>item. view_ok d item \<Longrightarrow> view_ok d (f item)"
  shows "inventory_ok (update_device d f devs)"
proof -
  have "view_ok d (case dict_get devs d of None \<Rightarrow> new_device_view d | Some item \<Rightarrow> item)"
    using inventory_ok_get [OF assms(1)] assms(2) by (simp add: new_view_ok split: option.splits)
  then show ?thesis
    using assms unfolding update_device_def inventory_ok_def by (simp add: list_all_set_item)
qed

lemma observe_device_ok: "inventory_ok devs \<Longrightarrow> inventory_ok (observe_device d devs)"
  by (auto simp: observe_device_def Let_def inventory_ok_def intro: list_all_set_item new_view_ok)

lemma observe_wifi_ok: "inventory_ok devs \<Longrightarrow> inventory_ok (observe_wifi_signal F d v devs)"
  by (auto simp: observe_wifi_signal_def Let_def wifi_reading_def view_ok_def
      intro!: update_device_ok split: option.splits pyval.splits if_splits)

lemma observe_telemetry_ok: "inventory_ok devs \<Longrightarrow> inventory_ok (observe_telemetry F d payload max_bat devs)"
proof -
  have slots: "map bw_slot (map (battery_view_of serials payload) xs) = xs" for serials xs
    by (induction xs) (simp_all add: battery_view_of_def)
  have range: "\<exists>n. 1 \<le> n \<and> n \<le> 4 \<and> [1..max 1 (min 4 max_bat)] = [1..n]"
    by (rule exI [of _ "max 1 (min 4 max_bat)"]) simp
  assume "inventory_ok devs"
  then show ?thesis
    by (auto simp: observe_telemetry_def Let_def view_ok_def slots simp del: map_map upto.simps
        intro!: update_device_ok observe_wifi_ok range)
qed

interpretation inventory_machine: step_machine "observe F" inventory_ok for F
proof
  show "inventory_ok devs \<Longrightarrow> inventory_ok (observe F devs e)" for devs :: "'a inventory" and e
    by (cases e) (simp_all add: observe_device_ok observe_wifi_ok observe_telemetry_ok)
qed

lemma observe_keeps_devices:
  "dict_get devs d \<noteq> None \<Longrightarrow> dict_get (observe F devs e) d \<noteq> None"
  by (cases e) (auto simp: observe_device_def observe_wifi_signal_def observe_telemetry_def update_device_def Let_def
      split: option.splits)

section \<open>Properties\<close>

text \<open>Whatever was observed, the page lists every device exactly once and in the order of display name and
  id, shows the family its id belongs to, a plausible signal, and the battery slots from 1 on.\<close>

theorem inventory_snapshot:
  "let devs = foldl (observe F) [] events; shown = get_device_inventory devs
   in distinct (map fst shown) \<and> set shown = set devs \<and>
      sorted (map (\<lambda>(d, item). (dw_name item, d)) shown) \<and> list_all (\<lambda>(d, item). view_ok d item) shown"
proof -
  have ok: "inventory_ok (foldl (observe F) [] events)"
    by (rule inventory_machine.run_inv) (simp add: inventory_ok_def)
  then have "distinct (map fst (foldl (observe F) [] events))"
    by (simp add: inventory_ok_def dict_wf_def)
  then have "distinct (map fst (get_device_inventory (foldl (observe F) [] events)))"
    by (simp add: get_device_inventory_def distinct_map inj_on_def distinct_insort)
  then show ?thesis
    using ok by (simp add: get_device_inventory_def inventory_ok_def list_all_iff Let_def)
qed

end
