(* ===== verification/NeoPower.thy ===== *)
theory NeoPower
  imports RuntimeTimers ModbusFunction DeviceFamily
begin

text \<open>
  \<open>grobro/ha/neo_power_runtime.py\<close>: holding register 0 of every known NEO device is asked for once per
  connection, by a probe that is repeated a few times after the start and after a restart of Home
  Assistant. \<open>on_command\<close> answers per device; a device is asked at most once in one pass.
\<close>

section \<open>Definitions\<close>

record 'f neo_env =
  ne_maps :: "map_id \<Rightarrow> 'f register_map"
  ne_devices :: "string list"
  ne_command :: "(function_single \<Rightarrow> answer) option"
  ne_timer_ok :: "nat \<Rightarrow> bool"

text \<open>\<open>np_created\<close> lists the delay (in half seconds) and the attempt of every timer created.\<close>

record neo_power =
  np_requested :: "string set"
  np_timer :: "nat option"
  np_created :: "(nat \<times> nat) list"
  np_stopped :: bool

definition no_neo_power :: neo_power where
  "no_neo_power = \<lparr>np_requested = {}, np_timer = None, np_created = [], np_stopped = False\<rparr>"

text \<open>The read of one device: the command sent if any, and whether it was accepted.\<close>

definition neo_read_command :: "('f, 'm) neo_env_scheme \<Rightarrow> string \<Rightarrow> function_single option" where
  "neo_read_command E d =
     (case get_known_registers d of
        None \<Rightarrow> None
      | Some k \<Rightarrow>
          (case dict_get (holding_registers (ne_maps E k)) ''inverter_power'' of
             None \<Rightarrow> None
           | Some reg \<Rightarrow>
               (case hr_growatt reg of
                  None \<Rightarrow> None
                | Some g \<Rightarrow>
                    Some (make_modbus_command d READ_SINGLE_REGISTER (pos_register (gr_position g)) None))))"

definition request_initial_neo_inverter_power ::
    "('f, 'm) neo_env_scheme \<Rightarrow> string \<Rightarrow> neo_power \<Rightarrow> (neo_power \<times> function_single list) \<times> bool" where
  "request_initial_neo_inverter_power E d st =
     (if \<not> is_family d ''neo'' \<or> d \<in> np_requested st then ((st, []), False)
      else (case (neo_read_command E d, ne_command E) of
          (Some cmd, Some command) \<Rightarrow>
            (case command cmd of
               Raised e \<Rightarrow> ((st, [cmd]), False)
             | Answer r \<Rightarrow>
                 if status_accepted r then ((st\<lparr>np_requested := insert d (np_requested st)\<rparr>, [cmd]), True)
                 else ((st, [cmd]), False))
        | _ \<Rightarrow> ((st, []), False)))"

definition clear_neo_inverter_power_read_cache :: "neo_power \<Rightarrow> neo_power" where
  "clear_neo_inverter_power_read_cache st = st\<lparr>np_requested := {}\<rparr>"

fun request_devices ::
    "('f, 'm) neo_env_scheme \<Rightarrow> string list \<Rightarrow> neo_power \<Rightarrow> neo_power \<times> function_single list" where
  "request_devices E [] st = (st, [])"
| "request_devices E (d # ds) st =
     (let ((st1, sent), ok) = request_initial_neo_inverter_power E d st; (st2, rest) = request_devices E ds st1
      in (st2, sent @ rest))"

definition request_known_neo_states :: "('f, 'm) neo_env_scheme \<Rightarrow> neo_power \<Rightarrow> neo_power \<times> function_single list" where
  "request_known_neo_states E st = request_devices E (ne_devices E) st"

definition schedule_probe :: "('f, 'm) neo_env_scheme \<Rightarrow> nat \<Rightarrow> nat \<Rightarrow> neo_power \<Rightarrow> neo_power" where
  "schedule_probe E interval attempt st =
     (let n = length (np_created st) in
      st\<lparr>np_timer := (if ne_timer_ok E n then Some n else None), np_created := np_created st @ [(interval, attempt)]\<rparr>)"

definition run_probe :: "('f, 'm) neo_env_scheme \<Rightarrow> nat \<Rightarrow> neo_power \<Rightarrow> neo_power \<times> function_single list" where
  "run_probe E attempt st =
     (let (st1, sent) = request_known_neo_states E (st\<lparr>np_timer := None\<rparr>);
          known_neos = set (filter (\<lambda>d. is_family d ''neo'') (ne_devices E))
      in if known_neos \<subseteq> np_requested st1 \<or> attempt \<ge> 3 then (st1, sent)
         else (schedule_probe E (4 * (attempt + 1)) (attempt + 1) st1, sent))"

definition fire_neo_timer ::
    "('f, 'm) neo_env_scheme \<Rightarrow> nat \<Rightarrow> neo_power \<Rightarrow> neo_power \<times> function_single list" where
  "fire_neo_timer E n st =
     (if np_stopped st \<or> np_timer st \<noteq> Some n then (st, []) else run_probe E (snd (np_created st ! n)) st)"

text \<open>A new probe replaces the running one; the delay is one second at start, half a second later.\<close>

definition schedule_known_neo_state_probe :: "('f, 'm) neo_env_scheme \<Rightarrow> nat \<Rightarrow> neo_power \<Rightarrow> neo_power" where
  "schedule_known_neo_state_probe E delay st = (if np_stopped st then st else schedule_probe E delay 0 st)"

definition stop_neo_power :: "neo_power \<Rightarrow> neo_power" where
  "stop_neo_power st = st\<lparr>np_timer := None, np_stopped := True\<rparr>"

section \<open>Lemmas\<close>

lemma request_one:
  assumes "request_initial_neo_inverter_power E d st = ((st', sent), ok)"
  shows "np_timer st' = np_timer st" "np_created st' = np_created st" "np_stopped st' = np_stopped st"
    "np_requested st \<subseteq> np_requested st'" "np_requested st' \<subseteq> np_requested st \<union> {d}"
    "d \<in> np_requested st \<Longrightarrow> sent = [] \<and> st' = st"
    "list_all (\<lambda>cmd. is_family d ''neo'' \<and> d \<notin> np_requested st \<and> fs_device_id cmd = d \<and>
       fs_function cmd = READ_SINGLE_REGISTER) sent"
    "\<forall>d' \<in> np_requested st' - np_requested st. is_family d' ''neo''"
  using assms
  by (auto simp: request_initial_neo_inverter_power_def neo_read_command_def make_modbus_command_def
      split: if_splits option.splits answer.splits)

lemma request_devices_frame:
  "request_devices E ds st = (st', sent) \<Longrightarrow>
   np_timer st' = np_timer st \<and> np_created st' = np_created st \<and> np_stopped st' = np_stopped st \<and>
   np_requested st \<subseteq> np_requested st' \<and>
   list_all (\<lambda>cmd. is_family (fs_device_id cmd) ''neo'' \<and> fs_device_id cmd \<notin> np_requested st \<and>
     fs_device_id cmd \<in> set ds \<and> fs_function cmd = READ_SINGLE_REGISTER) sent"
proof (induction ds arbitrary: st st' sent)
  case (Cons d ds)
  obtain st1 s1 ok where one: "request_initial_neo_inverter_power E d st = ((st1, s1), ok)"
    by (metis prod.collapse)
  obtain st2 s2 where rest: "request_devices E ds st1 = (st2, s2)" by fastforce
  have eq: "st' = st2" "sent = s1 @ s2" using Cons.prems one rest by simp_all
  note ih = Cons.IH [OF rest] and o = request_one [OF one]
  have "list_all (\<lambda>cmd. is_family (fs_device_id cmd) ''neo'' \<and> fs_device_id cmd \<notin> np_requested st \<and>
      fs_device_id cmd \<in> set (d # ds) \<and> fs_function cmd = READ_SINGLE_REGISTER) s1"
    using o(7) by (auto simp: list_all_iff)
  moreover have "list_all (\<lambda>cmd. is_family (fs_device_id cmd) ''neo'' \<and> fs_device_id cmd \<notin> np_requested st \<and>
      fs_device_id cmd \<in> set (d # ds) \<and> fs_function cmd = READ_SINGLE_REGISTER) s2"
    using ih o(4) by (auto simp: list_all_iff)
  ultimately show ?case using ih o(1-4) eq by auto
qed simp

lemma probe_slot:
  assumes "run_probe E a st = (st', sent)"
  shows "np_stopped st' = np_stopped st" "length (np_created st) \<le> length (np_created st')"
    "np_timer st' = None \<or> (np_timer st' = Some (length (np_created st)) \<and> a < 3 \<and>
       np_created st' = np_created st @ [(4 * (a + 1), a + 1)])"
  using assms request_devices_frame [of E "ne_devices E" "st\<lparr>np_timer := None\<rparr>"]
  by (auto simp: run_probe_def request_known_neo_states_def schedule_probe_def Let_def
      split: prod.splits if_splits)

lemma fire_neo_slot:
  fixes st :: neo_power
  shows "np_stopped (fst (fire_neo_timer E n st)) = np_stopped st"
    "length (np_created st) \<le> length (np_created (fst (fire_neo_timer E n st)))"
    "np_timer st = Some n \<Longrightarrow> \<not> np_stopped st \<Longrightarrow> np_timer (fst (fire_neo_timer E n st)) = None \<or>
       (np_timer (fst (fire_neo_timer E n st)) = Some (length (np_created st)) \<and> snd (np_created st ! n) < 3 \<and>
        np_created (fst (fire_neo_timer E n st)) =
          np_created st @ [(4 * (snd (np_created st ! n) + 1), snd (np_created st ! n) + 1)])"
proof -
  obtain st' sent where p: "run_probe E (snd (np_created st ! n)) st = (st', sent)" by fastforce
  note slot = probe_slot [OF p]
  show "np_stopped (fst (fire_neo_timer E n st)) = np_stopped st"
    "length (np_created st) \<le> length (np_created (fst (fire_neo_timer E n st)))"
    using slot(1,2) by (simp_all add: fire_neo_timer_def p)
  show "np_timer st = Some n \<Longrightarrow> \<not> np_stopped st \<Longrightarrow> np_timer (fst (fire_neo_timer E n st)) = None \<or>
       (np_timer (fst (fire_neo_timer E n st)) = Some (length (np_created st)) \<and> snd (np_created st ! n) < 3 \<and>
        np_created (fst (fire_neo_timer E n st)) =
          np_created st @ [(4 * (snd (np_created st ! n) + 1), snd (np_created st ! n) + 1)])"
    using slot(3) by (simp add: fire_neo_timer_def p)
qed

interpretation neo_timer: timer_slot "\<lambda>(E, delay) n st. fst (fire_neo_timer E n st)"
    "\<lambda>(E, delay) st. schedule_known_neo_state_probe E delay st" stop_neo_power np_timer
    "\<lambda>st. length (np_created st)" np_stopped
proof (unfold_locales, goal_cases)
  case (1 s n e)
  then show ?case by (cases e) (simp add: fire_neo_timer_def)
next
  case (3 s n e)
  then show ?case using fire_neo_slot(3) [of s n "fst e"] by (cases e) auto
next
  case (5 s e)
  then show ?case
    by (cases e) (auto simp: schedule_known_neo_state_probe_def schedule_probe_def Let_def intro: exI [of _ "length (np_created s)"])
qed (auto simp: fire_neo_slot schedule_known_neo_state_probe_def schedule_probe_def stop_neo_power_def Let_def)

text \<open>Every firing uses up one of the four attempts of the probe.\<close>

definition attempts_left :: "neo_power \<Rightarrow> nat" where
  "attempts_left st = (case np_timer st of None \<Rightarrow> 0 | Some n \<Rightarrow> 4 - snd (np_created st ! n))"

definition probe_ok :: "neo_power \<Rightarrow> bool" where
  "probe_ok st \<longleftrightarrow>
     (\<forall>n. np_timer st = Some n \<longrightarrow>
        n < length (np_created st) \<and> snd (np_created st ! n) \<le> 3 \<and> \<not> np_stopped st)"

fun fire_current_probe :: "('f, 'm) neo_env_scheme list \<Rightarrow> neo_power \<Rightarrow> neo_power" where
  "fire_current_probe [] st = st"
| "fire_current_probe (E # Es) st =
     (case np_timer st of None \<Rightarrow> st | Some n \<Rightarrow> fire_current_probe Es (fst (fire_neo_timer E n st)))"

lemma fire_probe_ok: "probe_ok st \<Longrightarrow> probe_ok (fst (fire_neo_timer E n st))"
proof (cases "np_timer st = Some n")
  case True
  moreover assume "probe_ok st"
  ultimately show ?thesis using fire_neo_slot [where E = E and n = n and st = st] by (auto simp: probe_ok_def nth_append)
qed (simp add: fire_neo_timer_def)

lemma fire_uses_attempt:
  assumes "probe_ok st" "np_timer st = Some n"
  shows "attempts_left (fst (fire_neo_timer E n st)) < attempts_left st"
  using fire_neo_slot(3) [of st n E] assms by (auto simp: attempts_left_def probe_ok_def nth_append)

lemma probe_ends:
  "probe_ok st \<Longrightarrow> attempts_left st \<le> length Es \<Longrightarrow> np_timer (fire_current_probe Es st) = None"
proof (induction Es st rule: fire_current_probe.induct)
  case (1 st)
  then show ?case by (auto simp: attempts_left_def probe_ok_def split: option.splits)
next
  case (2 E Es st)
  show ?case
  proof (cases "np_timer st")
    case (Some n)
    then show ?thesis
      using 2(1) [OF Some fire_probe_ok [OF 2(2)]] fire_uses_attempt [OF 2(2) Some, of E] 2(3) by simp
  qed simp
qed

text \<open>The events of the probe, and its invariant over all of them.\<close>

datatype 'f neo_event =
    ProbeScheduled "'f neo_env" nat
  | ProbeFires "'f neo_env" nat
  | DeviceLive "'f neo_env" string
  | Reconnected
  | NeoStopped

fun neo_step :: "neo_power \<Rightarrow> 'f neo_event \<Rightarrow> neo_power" where
  "neo_step st (ProbeScheduled E delay) = schedule_known_neo_state_probe E delay st"
| "neo_step st (ProbeFires E n) = fst (fire_neo_timer E n st)"
| "neo_step st (DeviceLive E d) = fst (fst (request_initial_neo_inverter_power E d st))"
| "neo_step st Reconnected = clear_neo_inverter_power_read_cache st"
| "neo_step st NeoStopped = stop_neo_power st"

lemma neo_step_ok: "probe_ok st \<Longrightarrow> probe_ok (neo_step st ev)"
proof (cases ev)
  case (DeviceLive E d)
  obtain st' sent ok where "request_initial_neo_inverter_power E d st = ((st', sent), ok)"
    by (metis prod.collapse)
  note one = request_one(1-3) [OF this]
  assume "probe_ok st"
  then show ?thesis using one DeviceLive \<open>request_initial_neo_inverter_power E d st = _\<close>
    by (auto simp: probe_ok_def)
next
  case (ProbeScheduled E delay)
  moreover assume "probe_ok st"
  ultimately show ?thesis
    by (cases "np_timer st") (auto simp: schedule_known_neo_state_probe_def schedule_probe_def probe_ok_def Let_def)
qed (simp_all add: fire_probe_ok clear_neo_inverter_power_read_cache_def stop_neo_power_def, simp_all add: probe_ok_def)

interpretation neo: step_machine neo_step probe_ok
  by unfold_locales (rule neo_step_ok)

lemma neo_run_ok: "probe_ok (foldl neo_step no_neo_power events)"
  by (rule neo.run_inv) (simp add: probe_ok_def no_neo_power_def)

section \<open>Properties\<close>

text \<open>C40: Whatever happened before, the probe gives up after at most four firings of its timer, whether or
  not the devices ever answer.\<close>

theorem neo_probe_ends:
  assumes "4 \<le> length Es"
  shows "np_timer (fire_current_probe Es (foldl neo_step no_neo_power events)) = None"
proof (rule probe_ends [OF neo_run_ok])
  have "attempts_left st \<le> 4" for st by (simp add: attempts_left_def split: option.splits)
  then show "attempts_left (foldl neo_step no_neo_power events) \<le> length Es" using assms le_trans by blast
qed

definition sample_neo_env :: "int neo_env" where
  "sample_neo_env = \<lparr>ne_maps = (\<lambda>k. \<lparr>input_registers = [], holding_registers = [], config_registers = []\<rparr>),
     ne_devices = [''QMN1''], ne_command = None, ne_timer_ok = (\<lambda>n. True)\<rparr>"

theorem neo_probe_ends_witness:
  "np_timer (foldl neo_step no_neo_power [ProbeScheduled sample_neo_env 2]) = Some 0 \<and>
   np_timer (fire_current_probe (replicate 4 sample_neo_env)
     (foldl neo_step no_neo_power [ProbeScheduled sample_neo_env 2])) = None"
proof
  show "np_timer (foldl neo_step no_neo_power [ProbeScheduled sample_neo_env 2]) = Some 0" by code_simp
  show "np_timer (fire_current_probe (replicate 4 sample_neo_env)
      (foldl neo_step no_neo_power [ProbeScheduled sample_neo_env 2])) = None"
    by (rule neo_probe_ends) simp
qed

text \<open>The probe only ever reads, only from NEO devices, and asks no device again whose read was
  accepted since the last reconnect.\<close>

theorem neo_probe_reads:
  "list_all (\<lambda>cmd. is_family (fs_device_id cmd) ''neo'' \<and> fs_function cmd = READ_SINGLE_REGISTER \<and>
      fs_device_id cmd \<notin> np_requested st \<and> fs_device_id cmd \<in> set (ne_devices E))
    (snd (fire_neo_timer E n st)) \<and>
   (if np_stopped st then snd (fire_neo_timer E n st) = [] else True)"
proof -
  obtain st1 sent where r: "request_devices E (ne_devices E) (st\<lparr>np_timer := None\<rparr>) = (st1, sent)" by fastforce
  then have "snd (run_probe E a st) = sent" for a
    by (simp add: run_probe_def request_known_neo_states_def Let_def)
  then show ?thesis
    using request_devices_frame [OF r] by (auto simp: fire_neo_timer_def list_all_iff)
qed

end
