(* ===== verification/HaClient.thy ===== *)
theory HaClient
  imports DiscoveryPublish DeviceInventory BatteryRuntime HaCommands NeoPower
begin

text \<open>
  The client of \<open>grobro/ha/client.py\<close> as a whole: its handlers call the operations of the components in the
  order of the code, over one state and one log of what the broker was sent. Handlers hold the runtime lock,
  so they are atomic; \<open>guard_runtime\<close> makes them do nothing once the client is stopped.

  \<open>client_env\<close> is what one handler meets outside: the settings, the broker, the disk, the clock, the
  callbacks. The parts of it that the components share (the base topic, the broker, the register maps) are
  put into the environments of the components by the functions \<open>env_\<dots>\<close>.
\<close>

section \<open>State and environment\<close>

datatype client_call =
    Command command_call
  | ConfigRead string int

record ('f, 'sig, 't) ha_client =
  hs_log :: "(publish \<times> answer) list"
  hs_calls :: "client_call list"
  hs_stopped :: bool
  hs_reads :: config_reads
  hs_av :: "'t availability"
  hs_pub :: "'f publish_caches"
  hs_disc :: "'sig discovery_state"
  hs_battery :: "('f, 'sig) battery_client"
  hs_writes :: "'f battery_write list"
  hs_counts :: "(string, int) dict"
  hs_neo :: neo_power
  hs_clock :: clock_sync
  hs_devices :: "'f inventory"

record ('f, 'sig, 't) client_env =
  he_base :: string
  he_id :: string
  he_broker :: broker
  he_floats :: "'f float_ops"
  he_state_json :: "(string, 'f pyval) dict \<Rightarrow> string"
  he_repr :: "'f json \<Rightarrow> string"
  he_maps :: "map_id \<Rightarrow> 'f register_map"
  he_max_bat :: "int option"
  he_keep_positions :: bool
  he_timeout :: 't
  he_minutes :: "string \<Rightarrow> 't option"
  he_av :: "'t av_env"
  he_reads :: read_env
  he_disc :: "('f, 'sig) announce_env"
  he_battery :: "('f, 'sig) battery_io"
  he_neo :: "'f neo_env"
  he_clock :: "'f clock_env"
  he_command :: "'f command_env"

definition configs :: "('f, 'sig, 't) ha_client \<Rightarrow> (string, device_config) dict" where
  "configs s = cs_cache (ds_store (hs_disc s))"

definition client_registers :: "('f, 'sig, 't, 'm) client_env_scheme \<Rightarrow> string \<Rightarrow> 'f register_map option" where
  "client_registers E d = map_option (he_maps E) (get_known_registers d)"

definition bridge_topic :: "('f, 'sig, 't, 'm) client_env_scheme \<Rightarrow> string" where
  "bridge_topic E = availability_topic (he_base E) (he_id E)"

definition env_av :: "('f, 'sig, 't::linordered_field, 'm) client_env_scheme \<Rightarrow> ('f, 'sig, 't) ha_client \<Rightarrow> 't av_env" where
  "env_av E s =
     (he_av E)\<lparr>ae_base := he_base E, ae_bridge_topic := bridge_topic E, ae_broker := he_broker E,
       ae_timeout := (\<lambda>d. effective_device_timeout (he_timeout E)
         (Option.bind (Option.bind (dict_get (configs s) d) (\<lambda>c. dict_get c ''data_interval'')) (he_minutes E)))\<rparr>"

definition env_disc :: "('f, 'sig, 't, 'm) client_env_scheme \<Rightarrow> ('f, 'sig) announce_env" where
  "env_disc E =
     (he_disc E)\<lparr>ce_base := he_base E, ce_map := client_registers E, an_broker := he_broker E,
       an_bridge := bridge_topic E, an_sensor := ae_sensor (he_av E)\<rparr>"

definition env_neo :: "('f, 'sig, 't, 'm) client_env_scheme \<Rightarrow> ('f, 'sig, 't) ha_client \<Rightarrow> 'f neo_env" where
  "env_neo E s = (he_neo E)\<lparr>ne_maps := he_maps E, ne_devices := map fst (configs s)\<rparr>"

definition env_clock :: "('f, 'sig, 't, 'm) client_env_scheme \<Rightarrow> ('f, 'sig, 't) ha_client \<Rightarrow> 'f clock_env" where
  "env_clock E s = (he_clock E)\<lparr>ke_maps := he_maps E, ke_devices := map fst (configs s)\<rparr>"

definition env_reads :: "('f, 'sig, 't, 'm) client_env_scheme \<Rightarrow> read_env" where
  "env_reads E =
     (he_reads E)\<lparr>re_registers := (\<lambda>d. map_option (\<lambda>k. map (\<lambda>(n, r). cr_register r) (config_registers k))
       (client_registers E d))\<rparr>"

definition switch_message :: "string \<Rightarrow> string \<Rightarrow> string \<Rightarrow> publish" where
  "switch_message base d v =
     \<lparr>pb_topic = base @ ''/switch/grobro/'' @ d @ ''/inverter_power/get'', pb_payload = v, pb_retain = True\<rparr>"

text \<open>The mirrored power switch goes to the broker, every other call to a callback.\<close>

definition env_command :: "('f, 'sig, 't, 'm) client_env_scheme \<Rightarrow> ('f, 'sig, 't) ha_client \<Rightarrow> 'f command_env" where
  "env_command E s =
     (he_command E)\<lparr>co_maps := he_maps E, co_reads := env_reads E,
       co_answer := (\<lambda>call. case call of
           SwitchState d v \<Rightarrow> he_broker E (hs_log s) (switch_message (he_base E) d v)
         | _ \<Rightarrow> co_answer (he_command E) call)\<rparr>"

section \<open>Running a component\<close>

definition with_av ::
    "('t availability \<Rightarrow> 't availability) \<Rightarrow> ('f, 'sig, 't) ha_client \<Rightarrow> ('f, 'sig, 't) ha_client" where
  "with_av f s = (let a = f ((hs_av s)\<lparr>av_log := hs_log s\<rparr>) in s\<lparr>hs_av := a, hs_log := av_log a\<rparr>)"

definition with_disc ::
    "('sig discovery_state, 'a) act \<Rightarrow> ('f, 'sig, 't) ha_client \<Rightarrow> ('f, 'sig, 't) ha_client \<times> 'a py" where
  "with_disc f s =
     (let (c, r) = f ((hs_disc s)\<lparr>ds_log := hs_log s\<rparr>) in (s\<lparr>hs_disc := c, hs_log := ds_log c\<rparr>, r))"

definition with_pub ::
    "('f publish_caches \<times> (publish \<times> answer) list \<Rightarrow> ('f publish_caches \<times> (publish \<times> answer) list) \<times> 'a) \<Rightarrow>
     ('f, 'sig, 't) ha_client \<Rightarrow> ('f, 'sig, 't) ha_client \<times> 'a" where
  "with_pub f s = (let ((c, lg), r) = f (hs_pub s, hs_log s) in (s\<lparr>hs_pub := c, hs_log := lg\<rparr>, r))"

definition activity :: "('f, 'sig, 't::linordered_field, 'm) client_env_scheme \<Rightarrow> string \<Rightarrow>
    ('f, 'sig, 't) ha_client \<Rightarrow> ('f, 'sig, 't) ha_client" where
  "activity E d s = with_av (refresh_device_activity (env_av E s) d) s"

definition refresh_reads :: "('f, 'sig, 't, 'm) client_env_scheme \<Rightarrow> string \<Rightarrow>
    ('f, 'sig, 't) ha_client \<Rightarrow> ('f, 'sig, 't) ha_client" where
  "refresh_reads E d s = s\<lparr>hs_reads := refresh_config_if_needed (env_reads E) d (hs_reads s)\<rparr>"

definition guarded :: "(('f, 'sig, 't) ha_client, unit) act \<Rightarrow> (('f, 'sig, 't) ha_client, unit) act" where
  "guarded f s = (if hs_stopped s then (s, Inr ()) else f s)"

section \<open>A device reports its configuration\<close>

definition stored_secrets :: "device_config \<Rightarrow> bool" where
  "stored_secrets c \<longleftrightarrow> dict_get c ''password'' \<noteq> None \<or> dict_get c ''raw'' \<noteq> None"

definition store_config ::
    "('f, 'sig) announce_env \<Rightarrow> string \<Rightarrow> device_config \<Rightarrow> 'sig discovery_state \<Rightarrow> 'sig discovery_state \<times> bool" where
  "store_config A d config ds =
     (let (store1, existing) = load_persisted_config (an_view A) (config_path d) (ds_store ds);
          previous = (case dict_get (cs_cache store1) d of Some c \<Rightarrow> Some c | None \<Rightarrow> existing);
          effective = merge_config previous config;
          discovery_changed = (discovery_config_data previous \<noteq> discovery_config_data (Some effective));
          save = (existing = None \<or> (case existing of None \<Rightarrow> False | Some c \<Rightarrow> stored_secrets c) \<or>
                  persisted_runtime_data existing \<noteq> persisted_runtime_data (Some effective));
          (store2, fs) = (if save then fst (persist_device_config (an_dump_config A) (an_faults A) d effective
                                              (store1, ds_files ds))
                          else (store1, ds_files ds))
      in (ds\<lparr>ds_store := store2\<lparr>cs_cache := dict_set d effective (cs_cache store2)\<rparr>, ds_files := fs\<rparr>, discovery_changed))"

definition announce ::
    "('f, 'sig, 't, 'm) client_env_scheme \<Rightarrow> string \<Rightarrow> int \<Rightarrow> (('f, 'sig, 't) ha_client, unit) act" where
  "announce E d max_bat = with_disc (publish_device_discovery (env_disc E) d max_bat)"

definition set_config ::
    "('f, 'sig, 't::linordered_field, 'm) client_env_scheme \<Rightarrow> string \<Rightarrow> device_config \<Rightarrow>
     (('f, 'sig, 't) ha_client, unit) act" where
  "set_config E d config = guarded (\<lambda>s.
     (let s1 = s\<lparr>hs_devices := observe_wifi_signal (he_floats E) d (map_option VStr (dict_get config ''wifi_signal''))
                   (observe_device d (hs_devices s))\<rparr>;
          s2 = activity E d s1;
          (ds, discovery_changed) = store_config (env_disc E) d config (hs_disc s2);
          s3 = refresh_reads E d (s2\<lparr>hs_disc := ds\<rparr>)
      in if \<not> discovery_changed \<and> d \<in> set (ds_announced (hs_disc s3)) then (s3, Inr ())
         else announce E d (snd (resolve_max_bat (he_floats E) (he_max_bat E) d None (hs_counts s3)))
           (s3\<lparr>hs_disc := (invalidate_discovery d (hs_disc s3))\<lparr>ds_migrated := ds_migrated (hs_disc s3) - {d}\<rparr>\<rparr>)))"

section \<open>A device sends telemetry\<close>

text \<open>The composed firmware: remembered, announced again when it changed, and put into the payload.\<close>

definition supports_combined_firmware :: "string \<Rightarrow> bool" where
  "supports_combined_firmware d = uses_noah_protocol d"

definition firmware_part_names_for_device :: "('f, 'sig, 't, 'm) client_env_scheme \<Rightarrow> string \<Rightarrow> string list" where
  "firmware_part_names_for_device E d =
     (case client_registers E d of None \<Rightarrow> [] | Some k \<Rightarrow> firmware_part_names (map fst (input_registers k)))"

definition firmware_of ::
    "('f, 'sig, 't, 'm) client_env_scheme \<Rightarrow> string \<Rightarrow> (string, 'f pyval) dict \<Rightarrow> ('f, 'sig, 't) ha_client \<Rightarrow> string option" where
  "firmware_of E d payload s =
     (if \<not> supports_combined_firmware d then None
      else (case compose_combined_firmware (he_floats E) payload
                   (Option.bind (dict_get (configs s) d) (\<lambda>c. dict_get c ''sw_version''))
                   (firmware_part_names_for_device E d) of
          Some [] \<Rightarrow> None
        | v \<Rightarrow> v))"

definition remember_firmware :: "string \<Rightarrow> string \<Rightarrow> 'sig discovery_state \<Rightarrow> 'sig discovery_state" where
  "remember_firmware d version ds =
     (if dict_get (ds_firmware ds) d = Some version then ds
      else invalidate_discovery d (ds\<lparr>ds_firmware := dict_set d version (ds_firmware ds)\<rparr>))"

definition add_firmware ::
    "('f, 'sig, 't, 'm) client_env_scheme \<Rightarrow> string \<Rightarrow> (string, 'f pyval) dict \<Rightarrow> ('f, 'sig, 't) ha_client \<Rightarrow>
     ('f, 'sig, 't) ha_client \<times> (string, 'f pyval) dict" where
  "add_firmware E d payload s =
     (case firmware_of E d payload s of
        None \<Rightarrow> (s, payload)
      | Some version \<Rightarrow>
          (s\<lparr>hs_disc := remember_firmware d version (hs_disc s)\<rparr>, dict_set ''fw_version'' (VStr version) payload))"

definition place_batteries ::
    "('f, 'sig, 't, 'm) client_env_scheme \<Rightarrow> string \<Rightarrow> (string, 'f pyval) dict \<Rightarrow> ('f, 'sig, 't) ha_client \<Rightarrow>
     ('f, 'sig, 't) ha_client \<times> (string, 'f pyval) dict \<times> int" where
  "place_batteries E d payload s =
     (if \<not> uses_noah_protocol d then (s, payload, 1)
      else (let (c, w, payload1, stable_max) = prepare_battery_payload (he_floats E) (he_repr E) (he_battery E)
                  (he_keep_positions E) (hs_battery s) d payload
            in (s\<lparr>hs_battery := c, hs_writes := hs_writes s @ w\<rparr>, payload1, stable_max)))"

definition request_neo_power ::
    "('f, 'sig, 't, 'm) client_env_scheme \<Rightarrow> string \<Rightarrow> ('f, 'sig, 't) ha_client \<Rightarrow> ('f, 'sig, 't) ha_client" where
  "request_neo_power E d s =
     (let ((neo, sent), ok) = request_initial_neo_inverter_power (env_neo E s) d (hs_neo s)
      in s\<lparr>hs_neo := neo, hs_calls := hs_calls s @ map (\<lambda>c. Command (Modbus c)) sent\<rparr>)"

text \<open>A configuration that could not be stored is stored again, missing reads are started, and the inventory
  learns of the device.\<close>

definition note_device ::
    "('f, 'sig, 't, 'm) client_env_scheme \<Rightarrow> string \<Rightarrow> ('f, 'sig, 't) ha_client \<Rightarrow> ('f, 'sig, 't) ha_client" where
  "note_device E d s =
     (let (store, fs) = retry_pending_device_config (an_dump_config (env_disc E)) (an_faults (env_disc E)) d
            (ds_store (hs_disc s), ds_files (hs_disc s));
          s1 = refresh_reads E d (s\<lparr>hs_disc := (hs_disc s)\<lparr>ds_store := store, ds_files := fs\<rparr>\<rparr>);
          seen = observe_device d (hs_devices s1)
      in s1\<lparr>hs_devices := (case dict_get (configs s1) d of
               None \<Rightarrow> seen
             | Some c \<Rightarrow> observe_wifi_signal (he_floats E) d (map_option VStr (dict_get c ''wifi_signal'')) seen)\<rparr>)"

text \<open>Everything before the discovery: a payload whose powers are text raises here.\<close>

definition prepare_telemetry ::
    "('f, 'sig, 't, 'm) client_env_scheme \<Rightarrow> string \<Rightarrow> (string, 'f pyval) dict \<Rightarrow>
     (('f, 'sig, 't) ha_client, (string, 'f pyval) dict \<times> int) act" where
  "prepare_telemetry E d payload s =
     (let (s1, payload1) = add_firmware E d payload (note_device E d s);
          (s2, payload2, stable_max) = place_batteries E d payload1 s1;
          (counts, shown) = resolve_max_bat (he_floats E) (he_max_bat E) d (Some payload2) (hs_counts s2);
          s3 = s2\<lparr>hs_counts := counts\<rparr>
      in case detect_neo_pv_count (he_floats E) (uses_dynamic_pv_count d) d payload2 (ds_pv_count (hs_disc s3)) of
           Inl e \<Rightarrow> (s3, Inl e)
         | Inr pv \<Rightarrow> (s3\<lparr>hs_disc := (hs_disc s3)\<lparr>ds_pv_count := pv\<rparr>\<rparr>, Inr (payload2, max shown stable_max)))"

definition publish_telemetry ::
    "('f, 'sig, 't::linordered_field, 'm) client_env_scheme \<Rightarrow> string \<Rightarrow> (string, 'f pyval) dict \<Rightarrow> int \<Rightarrow>
     (('f, 'sig, 't) ha_client, unit) act" where
  "publish_telemetry E d payload shown s =
     (let s1 = activity E d (fst (announce E d shown s));
          known = client_registers E d;
          prepared = prepare_payload (he_floats E) (register_rules known) shown payload;
          s2 = s1\<lparr>hs_devices := observe_telemetry (he_floats E) d prepared shown (hs_devices s1)\<rparr>;
          (s3, r) = with_pub (publish_state (he_floats E) (he_state_json E) (he_broker E) (he_base E) d
                (telemetry_payload (he_floats E) known (is_family d ''noah'') shown payload)) s2
      in case r of
           Inl e \<Rightarrow> (s3, Inl e)
         | Inr ok \<Rightarrow> (if ok then request_neo_power E d s3 else s3, Inr ()))"

definition publish_input_register ::
    "('f, 'sig, 't::linordered_field, 'm) client_env_scheme \<Rightarrow> string \<Rightarrow> (string, 'f pyval) dict \<Rightarrow>
     (('f, 'sig, 't) ha_client, unit) act" where
  "publish_input_register E d payload = guarded
     (bindA (prepare_telemetry E d payload) (\<lambda>(prepared, shown). publish_telemetry E d prepared shown))"

definition publish_holding_register_input ::
    "('f, 'sig, 't::linordered_field, 'm) client_env_scheme \<Rightarrow> 'f holding_input \<Rightarrow> (('f, 'sig, 't) ha_client, unit) act" where
  "publish_holding_register_input E input = guarded (\<lambda>s.
     (fst (with_pub (\<lambda>p. (publish_holding_values (he_floats E) (he_broker E) (he_base E) input p, ()))
        (activity E (hin_device input) s)), Inr ()))"

definition publish_config_register_value ::
    "('f, 'sig, 't, 'm) client_env_scheme \<Rightarrow> string \<Rightarrow> int \<Rightarrow> string \<Rightarrow> bool \<Rightarrow> (('f, 'sig, 't) ha_client, unit) act" where
  "publish_config_register_value E d register_no v retain = guarded (\<lambda>s.
     (let msg = config_value_message (he_base E) d register_no v retain
      in (s\<lparr>hs_log := send (he_broker E) msg (hs_log s)\<rparr>,
          case he_broker E (hs_log s) msg of Raised e \<Rightarrow> Inl e | Answer r \<Rightarrow> Inr ())))"

definition publish_meter ::
    "('f, 'sig, 't::linordered_field, 'm) client_env_scheme \<Rightarrow> string \<Rightarrow> string \<Rightarrow> (('f, 'sig, 't) ha_client, unit) act" where
  "publish_meter E d payload = guarded (\<lambda>s.
     (let (s1, r) = with_pub (publish_smart_meter (he_broker E) (he_base E) d payload) (activity E d s)
      in (s1, case r of Inl e \<Rightarrow> Inl e | Inr _ \<Rightarrow> Inr ())))"

section \<open>Configuration reads and restarts\<close>

definition note_reads :: "(string \<times> int) list \<Rightarrow> ('f, 'sig, 't) ha_client \<Rightarrow> ('f, 'sig, 't) ha_client" where
  "note_reads sent s = s\<lparr>hs_calls := hs_calls s @ map (\<lambda>(d, r). ConfigRead d r) sent\<rparr>"

definition handle_config_read_response ::
    "('f, 'sig, 't::linordered_field, 'm) client_env_scheme \<Rightarrow> string \<Rightarrow> int \<Rightarrow> (('f, 'sig, 't) ha_client, unit) act" where
  "handle_config_read_response E d register_no = guarded (\<lambda>s.
     (let s1 = activity E d s; ((reads, sent), r) = config_read_response (env_reads E) d register_no (hs_reads s1)
      in (note_reads sent (s1\<lparr>hs_reads := reads\<rparr>), r)))"

definition source_ready ::
    "('f, 'sig, 't, 'm) client_env_scheme \<Rightarrow> (('f, 'sig, 't) ha_client, unit) act" where
  "source_ready E = guarded (\<lambda>s.
     (s\<lparr>hs_reads := handle_source_ready (env_reads E) (map fst (configs s)) (hs_reads s)\<rparr>, Inr ()))"

text \<open>After a reconnect (\<open>reconnected\<close>) or the birth message of Home Assistant: reads are reset, caches
  dropped, every known device starts offline, its configuration is read again and the NEO probe starts.\<close>

definition recover ::
    "('f, 'sig, 't::linordered_field, 'm) client_env_scheme \<Rightarrow> bool \<Rightarrow> ('f, 'sig, 't) ha_client \<Rightarrow> ('f, 'sig, 't) ha_client" where
  "recover E reconnected s =
     (let devices = map fst (configs s);
          s1 = with_av (if reconnected then connect_availability (env_av E s) devices
                        else recover_availability (env_av E s) devices) s;
          s2 = s1\<lparr>hs_disc := clear_discovery_caches (hs_disc s1), hs_pub := clear_reconnect_publish_caches (hs_pub s1),
                  hs_reads := handle_source_ready (env_reads E) devices (hs_reads s1),
                  hs_neo := clear_neo_inverter_power_read_cache (hs_neo s1)\<rparr>
      in s2\<lparr>hs_neo := schedule_known_neo_state_probe (env_neo E s2) 1 (hs_neo s2)\<rparr>)"

definition on_connect ::
    "('f, 'sig, 't::linordered_field, 'm) client_env_scheme \<Rightarrow> bool \<Rightarrow> (('f, 'sig, 't) ha_client, unit) act" where
  "on_connect E failed = guarded (\<lambda>s. (if failed then s else recover E True s, Inr ()))"

text \<open>A command; what it raises is logged. The mirrored switch state is published and forgotten, so that the
  next real reading is shown.\<close>

definition mirror_call ::
    "('f, 'sig, 't, 'm) client_env_scheme \<Rightarrow> ('f, 'sig, 't) ha_client \<Rightarrow> command_call \<Rightarrow> ('f, 'sig, 't) ha_client" where
  "mirror_call E s call =
     (case call of
        SwitchState d v \<Rightarrow>
          (let msg = switch_message (he_base E) d v; s1 = s\<lparr>hs_log := send (he_broker E) msg (hs_log s)\<rparr> in
           if accepted (he_broker E (hs_log s) msg)
           then s1\<lparr>hs_pub := (hs_pub s1)\<lparr>pc_holding := dict_pop (d, ''inverter_power'') (pc_holding (hs_pub s1))\<rparr>\<rparr>
           else s1)
      | other \<Rightarrow> s\<lparr>hs_calls := hs_calls s @ [Command other]\<rparr>)"

definition on_ha_message ::
    "('f, 'sig, 't::linordered_field, 'm) client_env_scheme \<Rightarrow> string \<Rightarrow> bytes \<Rightarrow> (('f, 'sig, 't) ha_client, unit) act" where
  "on_ha_message E topic payload = guarded (\<lambda>s.
     (case parse_ha_topic (he_base E) topic of
        OtherTopic \<Rightarrow> (s, Inr ())
      | StatusTopic \<Rightarrow> (if is_birth_message payload then recover E False s else s, Inr ())
      | CommandTopic kind d entity action \<Rightarrow>
          (let ((reads, calls), r) = handle_command (env_command E s) kind d entity action payload (hs_reads s)
           in (foldl (mirror_call E) (s\<lparr>hs_reads := reads\<rparr>) calls, Inr ()))))"

section \<open>Timers, start and stop\<close>

definition device_timer ::
    "('f, 'sig, 't::linordered_field, 'm) client_env_scheme \<Rightarrow> nat \<Rightarrow> (('f, 'sig, 't) ha_client, unit) act" where
  "device_timer E n = guarded (\<lambda>s. (with_av (\<lambda>a. fst (fire_device_timer (env_av E s) n a)) s, Inr ()))"

definition read_timer ::
    "('f, 'sig, 't, 'm) client_env_scheme \<Rightarrow> nat \<Rightarrow> (('f, 'sig, 't) ha_client, unit) act" where
  "read_timer E n = guarded (\<lambda>s.
     (let ((reads, sent), r) = fire_read_timer (env_reads E) n (hs_reads s)
      in (note_reads sent (s\<lparr>hs_reads := reads\<rparr>), r)))"

definition clock_timer ::
    "('f, 'sig, 't, 'm) client_env_scheme \<Rightarrow> nat \<Rightarrow> (('f, 'sig, 't) ha_client, unit) act" where
  "clock_timer E n = guarded (\<lambda>s.
     (let (clock, sent) = fire_clock_timer (env_clock E s) n (hs_clock s)
      in (s\<lparr>hs_clock := clock,
            hs_calls := hs_calls s @ map (\<lambda>(d, r, v). Command (ConfigCommand d r v)) sent\<rparr>, Inr ())))"

definition neo_timer ::
    "('f, 'sig, 't, 'm) client_env_scheme \<Rightarrow> nat \<Rightarrow> (('f, 'sig, 't) ha_client, unit) act" where
  "neo_timer E n = guarded (\<lambda>s.
     (let (neo, sent) = fire_neo_timer (env_neo E s) n (hs_neo s)
      in (s\<lparr>hs_neo := neo, hs_calls := hs_calls s @ map (\<lambda>c. Command (Modbus c)) sent\<rparr>, Inr ())))"

definition start_client ::
    "('f, 'sig, 't, 'm) client_env_scheme \<Rightarrow> bool \<Rightarrow> (('f, 'sig, 't) ha_client, unit) act" where
  "start_client E loop_ok s =
     (let s1 = s\<lparr>hs_stopped := False, hs_neo := (hs_neo s)\<lparr>np_stopped := False\<rparr>,
                 hs_clock := (hs_clock s)\<lparr>ks_stopped := False\<rparr>\<rparr> in
      if \<not> loop_ok then (s1, Inl RuntimeError)
      else (s1\<lparr>hs_neo := schedule_known_neo_state_probe (env_neo E s1) 2 (hs_neo s1),
               hs_clock := schedule_next_time_sync (env_clock E s1) (hs_clock s1)\<rparr>, Inr ()))"

definition stop_client ::
    "('f, 'sig, 't::linordered_field, 'm) client_env_scheme \<Rightarrow> (('f, 'sig, 't) ha_client, unit) act" where
  "stop_client E s =
     (let s1 = s\<lparr>hs_stopped := True, hs_reads := reset_config_read_state (hs_reads s),
                 hs_av := (hs_av s)\<lparr>av_timers := [], av_seen := []\<rparr>,
                 hs_neo := stop_neo_power (hs_neo s), hs_clock := stop_clock_sync (hs_clock s)\<rparr>;
          s2 = with_av (publish_offline_devices (env_av E s1) (map fst (configs s1))) s1;
          msg = \<lparr>pb_topic = bridge_topic E, pb_payload = ''offline'', pb_retain = True\<rparr>
      in (s2\<lparr>hs_log := send (he_broker E) msg (hs_log s2)\<rparr>,
          case he_broker E (hs_log s2) msg of Raised e \<Rightarrow> Inl e | Answer r \<Rightarrow> Inr ()))"

section \<open>The machine\<close>

datatype 'f client_event =
    ReportConfig string device_config
  | ReportTelemetry string "(string, 'f pyval) dict"
  | ReportHolding "'f holding_input"
  | ReportConfigValue string int string bool
  | ReportMeter string string
  | ReportRead string int
  | SourceReady
  | ConnectAnswer bool
  | HaMessage string bytes
  | DeviceTimerFires nat
  | ReadTimerFires nat
  | ClockTimerFires nat
  | NeoTimerFires nat
  | ClientStarts bool
  | ClientStops

fun handle_event ::
    "('f, 'sig, 't::linordered_field, 'm) client_env_scheme \<Rightarrow> 'f client_event \<Rightarrow> (('f, 'sig, 't) ha_client, unit) act" where
  "handle_event E (ReportConfig d config) = set_config E d config"
| "handle_event E (ReportTelemetry d payload) = publish_input_register E d payload"
| "handle_event E (ReportHolding input) = publish_holding_register_input E input"
| "handle_event E (ReportConfigValue d r v retain) = publish_config_register_value E d r v retain"
| "handle_event E (ReportMeter d payload) = publish_meter E d payload"
| "handle_event E (ReportRead d r) = handle_config_read_response E d r"
| "handle_event E SourceReady = source_ready E"
| "handle_event E (ConnectAnswer failed) = on_connect E failed"
| "handle_event E (HaMessage topic payload) = on_ha_message E topic payload"
| "handle_event E (DeviceTimerFires n) = device_timer E n"
| "handle_event E (ReadTimerFires n) = read_timer E n"
| "handle_event E (ClockTimerFires n) = clock_timer E n"
| "handle_event E (NeoTimerFires n) = neo_timer E n"
| "handle_event E (ClientStarts loop_ok) = start_client E loop_ok"
| "handle_event E ClientStops = stop_client E"

text \<open>What is read once, when the program starts, stays the same over a run: the base topic, the client id and
  whether the extra sensor is published (\<open>AVAILABILITY_SENSOR\<close>, here \<open>avs\<close>).\<close>

definition settle ::
    "string \<Rightarrow> string \<Rightarrow> bool \<Rightarrow> ('f, 'sig, 't) client_env \<Rightarrow> ('f, 'sig, 't) client_env" where
  "settle base c avs E = E\<lparr>he_base := base, he_id := c, he_av := (he_av E)\<lparr>ae_sensor := avs\<rparr>\<rparr>"

definition client_step ::
    "string \<Rightarrow> string \<Rightarrow> bool \<Rightarrow> ('f, 'sig, 't::linordered_field) ha_client \<Rightarrow> ('f, 'sig, 't) client_env \<times> 'f client_event \<Rightarrow>
     ('f, 'sig, 't) ha_client" where
  "client_step base c avs s ev = fst (handle_event (settle base c avs (fst ev)) (snd ev) s)"

definition new_client :: "('f, 'sig, 't) ha_client" where
  "new_client =
     \<lparr>hs_log = [], hs_calls = [], hs_stopped = False, hs_reads = no_reads, hs_av = no_availability,
      hs_pub = no_publish_caches,
      hs_disc = \<lparr>ds_log = [], ds_repaired = {}, ds_cleaned = {}, ds_migrated = {}, ds_announced = [],
        ds_signature = [], ds_payload = [], ds_firmware = [], ds_pv_count = [],
        ds_store = \<lparr>cs_cache = [], cs_snapshots = [], cs_dirty = {}\<rparr>, ds_files = Map.empty\<rparr>,
      hs_battery = battery_client_new, hs_writes = [], hs_counts = [], hs_neo = no_neo_power,
      hs_clock = no_clock_sync, hs_devices = []\<rparr>"

section \<open>Which topics a component leaves alone\<close>

definition quiet :: "string set \<Rightarrow> (publish \<times> answer) list \<Rightarrow> (publish \<times> answer) list \<Rightarrow> bool" where
  "quiet T lg lg' \<longleftrightarrow> (\<forall>t \<in> T. broker_state lg' t = broker_state lg t)"

definition telemetry_topics :: "string \<Rightarrow> string set" where
  "telemetry_topics base =
     range (\<lambda>d. pb_topic (state_message base d [])) \<union> range (\<lambda>d. pb_topic (meter_message base d []))"

definition availability_topics :: "string \<Rightarrow> string set" where
  "availability_topics base = range (availability_topic base)"

lemma quiet_refl [simp]: "quiet T lg lg"
  by (simp add: quiet_def)

lemma quiet_trans: "quiet T a b \<Longrightarrow> quiet T b c \<Longrightarrow> quiet T a c"
  by (simp add: quiet_def)

lemma quiet_send: "pb_topic p \<notin> T \<Longrightarrow> quiet T lg (send B p lg)"
  by (auto simp: quiet_def broker_state_send)

text \<open>The kinds of topics are told apart by their last characters.\<close>

definition topic_end :: "string \<Rightarrow> string" where
  "topic_end t = take 2 (rev t)"

lemma telemetry_topics_end: "t \<in> telemetry_topics base \<Longrightarrow> topic_end t = ''et''"
  by (auto simp: telemetry_topics_def state_message_def meter_message_def topic_end_def)

lemma availability_topics_end: "t \<in> availability_topics base \<Longrightarrow> topic_end t = ''yt''"
  by (auto simp: availability_topics_def availability_topic_def topic_end_def)

lemma caches_sound_quiet:
  assumes "caches_sound base (c, lg)" "quiet (telemetry_topics base) lg lg'"
  shows "caches_sound base (c, lg')"
proof -
  have "broker_state lg' (pb_topic (state_message base d x)) = broker_state lg (pb_topic (state_message base d x))"
    "broker_state lg' (pb_topic (meter_message base d x)) = broker_state lg (pb_topic (meter_message base d x))" for d x
    using assms(2) by (auto simp: quiet_def telemetry_topics_def state_message_def meter_message_def)
  then show ?thesis using assms(1) by (simp add: caches_sound_def)
qed

lemma cache_sound_quiet:
  assumes "cache_sound base c (a\<lparr>av_log := lg\<rparr>)" "quiet (availability_topics base) lg lg'"
  shows "cache_sound base c (a\<lparr>av_log := lg'\<rparr>)"
  using assms by (auto simp: cache_sound_def timer_of_device_def quiet_def availability_topics_def)

text \<open>Availability messages.\<close>

definition no_availability_topic :: "string set \<Rightarrow> bool" where
  "no_availability_topic T \<longleftrightarrow> (\<forall>t \<in> T. topic_end t \<notin> {''yt'', ''en''})"

definition plain_availability :: "('t, 'm) av_env_scheme \<Rightarrow> bool" where
  "plain_availability E \<longleftrightarrow> topic_end (ae_bridge_topic E) = ''yt''"

lemma av_send_quiet:
  "no_availability_topic T \<Longrightarrow> topic_end (pb_topic p) \<in> {''yt'', ''en''} \<Longrightarrow> quiet T (av_log st) (av_log (fst (av_send E p st)))"
  by (auto simp: av_send_def no_availability_topic_def intro!: quiet_send)

lemma bridge_quiet:
  assumes "no_availability_topic T" "plain_availability E"
  shows "quiet T (av_log st) (av_log (fst (publish_bridge_online E st)))"
  using assms av_send_quiet [of T "\<lparr>pb_topic = ae_bridge_topic E, pb_payload = ''online'', pb_retain = True\<rparr>"
      "st\<lparr>av_bridge_pending := True\<rparr>" E]
  by (auto simp: publish_bridge_online_def plain_availability_def split: prod.splits answer.splits)

lemma availability_message_end: "topic_end (pb_topic (availability_message E d b)) \<in> {''yt'', ''en''}"
  "topic_end (pb_topic (online_sensor_message E d b)) \<in> {''yt'', ''en''}"
  by (simp_all add: availability_message_def online_sensor_message_def device_topic_def topic_end_def)

lemma publish_availability_quiet:
  assumes "no_availability_topic T" "plain_availability E"
  shows "quiet T (av_log st) (av_log (fst (publish_availability E d b st)))"
proof -
  define st1 where "st1 = (if b \<and> av_bridge_pending st then fst (publish_bridge_online E st) else st)"
  have 1: "quiet T (av_log st) (av_log st1)" using bridge_quiet [OF assms, of st] by (simp add: st1_def)
  define st2 where "st2 = fst (av_send E (availability_message E d b) st1)"
  define st3 where "st3 = fst (av_send E (online_sensor_message E d b) st2)"
  have 2: "quiet T (av_log st1) (av_log st2)" "quiet T (av_log st2) (av_log st3)"
    unfolding st2_def st3_def by (rule av_send_quiet [OF assms(1)], rule availability_message_end)+
  have send: "av_send E (availability_message E d b) st1 = (st2, ae_broker E (av_log st1) (availability_message E d b))"
    "av_send E (online_sensor_message E d b) st2 = (st3, ae_broker E (av_log st2) (online_sensor_message E d b))"
    by (simp_all add: st2_def st3_def av_send_def)
  have "av_log (fst (publish_availability E d b st)) \<in> {av_log st1, av_log st2, av_log st3}"
    by (simp add: publish_availability_def st1_def [symmetric] Let_def send split: answer.splits)
  then show ?thesis using 1 quiet_trans [OF 1 2(1)] quiet_trans [OF quiet_trans [OF 1 2(1)] 2(2)] by auto
qed

lemma activity_quiet:
  assumes "no_availability_topic T" "plain_availability E"
  shows "quiet T (av_log st) (av_log (refresh_device_activity E d st))"
proof -
  have "av_log (reset_device_timer E d a) = av_log a" for a
    by (simp add: reset_device_timer_def arm_timeout_def Let_def split: option.splits)
  then show ?thesis
    using publish_availability_quiet [OF assms, of st d True]
      publish_availability_quiet [OF assms, of "subscribe_commands E st" d True]
    by (simp add: refresh_device_activity_def Let_def) (simp add: subscribe_commands_def)
qed

lemma fire_device_timer_quiet:
  assumes "no_availability_topic T" "plain_availability E"
  shows "quiet T (av_log st) (av_log (fst (fire_device_timer E n st)))"
proof -
  have "quiet T (av_log st) (av_log (fst (check_timeout E d st)))" for d
    using publish_availability_quiet [OF assms, of "st\<lparr>av_timers := dict_pop d (av_timers st), av_seen := dict_pop d (av_seen st)\<rparr>" d False]
    by (auto simp: check_timeout_def arm_timeout_def Let_def split: option.splits prod.splits)
  then show ?thesis by (simp add: fire_device_timer_def)
qed

lemma offline_quiet:
  assumes "no_availability_topic T" "plain_availability E"
  shows "quiet T (av_log st) (av_log (publish_offline_devices E ds st))"
proof (induction ds arbitrary: st)
  case (Cons d ds)
  show ?case
    using quiet_trans [OF publish_availability_quiet [OF assms] Cons.IH]
    by (simp add: publish_offline_devices_def)
qed (simp add: publish_offline_devices_def)

lemma recover_quiet:
  assumes "no_availability_topic T" "plain_availability E"
  shows "quiet T (av_log st) (av_log (recover_availability E ds st))"
    and "quiet T (av_log st) (av_log (connect_availability E ds st))"
proof -
  have r: "quiet T (av_log st) (av_log (recover_availability E ds st))" for st
    using offline_quiet [OF assms, of "(subscribe_commands E st)\<lparr>av_last := []\<rparr>" ds]
    by (simp add: recover_availability_def) (simp add: subscribe_commands_def)
  then show "quiet T (av_log st) (av_log (recover_availability E ds st))" .
  show "quiet T (av_log st) (av_log (connect_availability E ds st))"
    unfolding connect_availability_def by (rule quiet_trans [OF bridge_quiet [OF assms] r])
qed

text \<open>Discovery messages.\<close>

definition no_discovery_topic :: "string set \<Rightarrow> bool" where
  "no_discovery_topic T \<longleftrightarrow> (\<forall>t \<in> T. topic_end t \<notin> {''gi'', ''la'', ''ep'', ''no''})"

definition quiet_disc :: "string set \<Rightarrow> 'sig discovery_state \<Rightarrow> 'sig discovery_state \<Rightarrow> bool" where
  "quiet_disc T st st' \<longleftrightarrow> quiet T (ds_log st) (ds_log st')"

interpretation silence: sending "quiet_disc T" "\<lambda>topic. topic \<notin> T" for T
  by unfold_locales
     (auto simp: preorder_rel_def quiet_disc_def stepsA_def put_def Let_def intro: quiet_trans quiet_send)

lemma legacy_topics_end: "t \<in> set (legacy_topics base d known) \<Longrightarrow> topic_end t = ''gi''"
  by (auto simp: legacy_topics_def topic_end_def split: if_splits)

lemma migration_topics_end: "t \<in> set (migration_topics base d known) \<Longrightarrow> topic_end t = ''gi''"
  by (auto simp: migration_topics_def topic_end_def)

lemma message_quiet:
  assumes "no_discovery_topic T" "topic \<notin> T"
  shows "stepsA (quiet_disc T) (publish_discovery_message E topic payload)"
  using assms legacy_topics_end by (intro silence.message_steps) (force simp: no_discovery_topic_def list_all_iff)+

lemma metadata_quiet:
  assumes "no_discovery_topic T"
  shows "stepsA (quiet_disc T) (publish_discovery_metadata E d b)"
proof -
  have "base @ ''/grobro/'' @ d @ ''/'' @ name \<notin> T" if "name \<in> {''serial'', ''type'', ''sw_version''}" for base name
    using that assms by (auto simp: no_discovery_topic_def topic_end_def)
  then show ?thesis
    unfolding publish_discovery_metadata_def
    by (intro silence.steps message_quiet [OF assms]) (auto intro!: message_quiet [OF assms] split: if_splits)
qed

lemma finish_quiet:
  assumes "no_discovery_topic T"
  shows "stepsA (quiet_disc T) (finish_announcement E d sig b)"
proof -
  have "stepsA (quiet_disc T) (updA (note_announced d))"
    by (rule stepsA_updA) (simp add: note_announced_def quiet_disc_def)
  moreover have "stepsA (quiet_disc T) (updA (\<lambda>s. if x then s\<lparr>ds_signature := dict_set d sig (ds_signature s)\<rparr> else s))" for x
    by (rule stepsA_updA) (simp add: quiet_disc_def)
  ultimately show ?thesis
    unfolding finish_announcement_def by (intro silence.steps metadata_quiet [OF assms])
qed

lemma discovery_topic_quiet: "no_discovery_topic T \<Longrightarrow> discovery_topic base d \<notin> T"
  by (auto simp: no_discovery_topic_def discovery_topic_def topic_end_def)

lemma send_announcement_quiet:
  assumes "no_discovery_topic T"
  shows "stepsA (quiet_disc T) (send_announcement E d sig payload)"
proof -
  have "stepsA (quiet_disc T) (updA (\<lambda>s. s\<lparr>ds_payload := dict_set d payload (ds_payload s)\<rparr>))"
    by (rule stepsA_updA) (simp add: quiet_disc_def)
  then have "stepsA (quiet_disc T) (if \<not> x then retA ()
      else bindA (updA (\<lambda>s. s\<lparr>ds_payload := dict_set d payload (ds_payload s)\<rparr>)) (\<lambda>_. finish_announcement E d sig False))" for x
    by (cases x) (auto intro: silence.steps finish_quiet [OF assms])
  then show ?thesis
    unfolding send_announcement_def Let_def
    by (intro silence.steps message_quiet [OF assms] discovery_topic_quiet [OF assms])
qed

lemma config_for_discovery_quiet: "quiet_disc T st (fst (config_for_discovery E d st))"
  by (auto simp: config_for_discovery_def quiet_disc_def Let_def split: option.splits prod.splits)

lemma announce_if_new_quiet:
  assumes "no_discovery_topic T"
  shows "stepsA (quiet_disc T) (announce_if_new E d known sig)"
proof -
  have "quiet_disc T st (fst (announce_if_new E d known sig st))" for st
  proof -
    obtain st2 config where c: "config_for_discovery E d st = (st2, config)" by fastforce
    have 1: "quiet_disc T st st2" using config_for_discovery_quiet [of T st E d] c by simp
    have 2: "quiet_disc T st2 (fst (finish_announcement E d sig True st2))"
      "quiet_disc T st2 (fst (send_announcement E d sig x st2))" for x
      using finish_quiet [OF assms, of E d sig True] send_announcement_quiet [OF assms, of E d sig x]
      by (simp_all add: stepsA_def)
    have 3: "quiet_disc T st2 b \<Longrightarrow> quiet_disc T st b" for b
      using 1 by (auto simp: quiet_disc_def intro: quiet_trans)
    show ?thesis
      using 1 2 3 c by (auto simp: announce_if_new_def silence.R_refl split: sum.splits prod.splits)
  qed
  then show ?thesis by (simp add: stepsA_def)
qed

lemma discovery_quiet:
  assumes "no_discovery_topic T"
  shows "quiet_disc T st (fst (publish_device_discovery E d max_bat st))"
proof (cases "ce_map E d")
  case (Some known)
  have upd: "stepsA (quiet_disc T) (updA (\<lambda>s. if x then s\<lparr>ds_migrated := insert d (ds_migrated s)\<rparr> else s))" for x
    by (rule stepsA_updA) (simp add: quiet_disc_def)
  have topics: "t \<notin> T" if "t \<in> set (migration_topics (ce_base E) d known)" for t
    using that migration_topics_end assms by (fastforce simp: no_discovery_topic_def)
  have "stepsA (quiet_disc T) (migrate_entity_discovery E d known)"
    unfolding migrate_entity_discovery_def
    by (intro silence.steps upd message_quiet [OF assms] topics)
  then have "stepsA (quiet_disc T) (bindA (migrate_entity_discovery E d known) (\<lambda>_. announce_if_new E d known sig))" for sig
    by (intro silence.steps announce_if_new_quiet [OF assms])
  then show ?thesis using Some by (simp add: publish_device_discovery_def stepsA_def)
qed (simp add: publish_device_discovery_def silence.R_refl)

text \<open>Telemetry and settings.\<close>

lemma message_ends:
  "topic_end (pb_topic (state_message base d x)) = ''et''"
  "topic_end (pb_topic (meter_message base d x)) = ''et''"
  "topic_end (pb_topic (holding_message F base d v)) = ''te''"
  "topic_end (pb_topic (config_value_message base d r x retain)) = ''te''"
  "topic_end (pb_topic (switch_message base d x)) = ''te''"
  by (simp_all add: state_message_def meter_message_def holding_message_def config_value_message_def switch_message_def
      topic_end_def)

lemma telemetry_settled: "no_availability_topic (telemetry_topics base)" "no_discovery_topic (telemetry_topics base)"
  by (simp_all add: no_availability_topic_def no_discovery_topic_def telemetry_topics_end)

lemma availability_settled: "no_discovery_topic (availability_topics base)"
  by (simp add: no_discovery_topic_def availability_topics_end)

lemma send_quiet:
  "topic_end (pb_topic p) \<noteq> ''yt'' \<Longrightarrow> quiet (availability_topics base) lg (send B p lg)"
  "topic_end (pb_topic p) \<noteq> ''et'' \<Longrightarrow> quiet (telemetry_topics base) lg (send B p lg)"
  using availability_topics_end telemetry_topics_end by (metis quiet_send)+

lemma publish_state_quiet:
  "quiet (availability_topics base) (snd p) (snd (fst (publish_state F dump B base' d payload p)))"
  by (cases p) (auto simp: publish_state_def Let_def message_ends intro!: send_quiet split: answer.splits)

lemma publish_meter_quiet:
  "quiet (availability_topics base) (snd p) (snd (fst (publish_smart_meter B base' d payload p)))"
  by (cases p) (auto simp: publish_smart_meter_def Let_def message_ends intro!: send_quiet split: answer.splits)

lemma publish_holding_quiet:
  "quiet (availability_topics base) (snd p) (snd (publish_holding_values F B base' input p))"
proof -
  have one: "quiet (availability_topics base) (snd p) (snd (publish_holding_value F B base' d v p))" for d v p
    by (cases p) (auto simp: publish_holding_value_def Let_def message_ends intro!: send_quiet)
  have "quiet (availability_topics base) (snd p) (snd (foldl (\<lambda>s v. publish_holding_value F B base' d v s) p vs))" for d vs p
  proof (induction vs arbitrary: p)
    case (Cons v vs)
    show ?case using quiet_trans [OF one Cons.IH] by simp
  qed simp
  then show ?thesis by (simp add: publish_holding_values_def)
qed

section \<open>The invariant of the client\<close>

text \<open>
  What every handler keeps: the invariants of the components, with the caches judged by the shared log of
  what the broker was sent. With the extra sensor the cached availability can be wrong
  (\<open>refused_sensor_hides_device\<close>), so that part is kept for runs without it.
\<close>

definition client_ok :: "string \<Rightarrow> string \<Rightarrow> bool \<Rightarrow> ('f, 'sig, 't) ha_client \<Rightarrow> bool" where
  "client_ok base c avs s \<longleftrightarrow>
     reads_ok (hs_reads s) \<and> (\<not> avs \<longrightarrow> cache_sound base c ((hs_av s)\<lparr>av_log := hs_log s\<rparr>)) \<and>
     caches_sound base (hs_pub s, hs_log s) \<and> counts_ok (hs_counts s) \<and> inventory_ok (hs_devices s) \<and>
     battery_inv (hs_battery s, hs_writes s) \<and> probe_ok (hs_neo s)"

lemma settle_av: "\<not> avs \<Longrightarrow> av_settings base c (env_av (settle base c avs E) s) = env_av (settle base c avs E) s"
  by (simp add: av_settings_def env_av_def settle_def bridge_topic_def)

lemma settle_plain: "plain_availability (env_av (settle base c avs E) s)"
  by (simp add: plain_availability_def env_av_def settle_def bridge_topic_def availability_topic_def topic_end_def)

lemma settle_simps:
  "he_base (settle base c avs E) = base" "he_broker (settle base c avs E) = he_broker E"
  "he_floats (settle base c avs E) = he_floats E" "bridge_topic (settle base c avs E) = availability_topic base c"
  by (simp_all add: settle_def bridge_topic_def)

text \<open>Parts of the state that the invariant does not look at.\<close>

lemma client_ok_frame:
  "client_ok base c avs s \<Longrightarrow> hs_log s' = hs_log s \<Longrightarrow> hs_reads s' = hs_reads s \<Longrightarrow> hs_av s' = hs_av s \<Longrightarrow>
   hs_pub s' = hs_pub s \<Longrightarrow> hs_counts s' = hs_counts s \<Longrightarrow> hs_devices s' = hs_devices s \<Longrightarrow>
   hs_battery s' = hs_battery s \<Longrightarrow> hs_writes s' = hs_writes s \<Longrightarrow> hs_neo s' = hs_neo s \<Longrightarrow> client_ok base c avs s'"
  by (simp add: client_ok_def)

lemma client_ok_log:
  assumes "client_ok base c avs s" "quiet (telemetry_topics base) (hs_log s) lg" "quiet (availability_topics base) (hs_log s) lg"
  shows "client_ok base c avs (s\<lparr>hs_log := lg\<rparr>)"
  using assms caches_sound_quiet cache_sound_quiet by (auto simp: client_ok_def)

lemma with_av_ok:
  assumes "client_ok base c avs s"
    and "\<And>a. \<not> avs \<Longrightarrow> cache_sound base c a \<Longrightarrow> cache_sound base c (f a)"
    and "\<And>a. quiet (telemetry_topics base) (av_log a) (av_log (f a))"
  shows "client_ok base c avs (with_av f s)"
proof -
  let ?a = "(hs_av s)\<lparr>av_log := hs_log s\<rparr>"
  have "\<not> avs \<longrightarrow> cache_sound base c (f ?a)" using assms(1,2) by (simp add: client_ok_def)
  moreover have "(f ?a)\<lparr>av_log := av_log (f ?a)\<rparr> = f ?a" by simp
  moreover have "caches_sound base (hs_pub s, av_log (f ?a))"
    using assms(1) assms(3) [of ?a] caches_sound_quiet by (auto simp: client_ok_def)
  ultimately show ?thesis using assms(1) by (simp add: client_ok_def with_av_def Let_def)
qed

lemma activity_ok: "client_ok base c avs s \<Longrightarrow> client_ok base c avs (activity (settle base c avs E) d s)"
  unfolding activity_def
proof (rule with_av_ok)
  show "\<not> avs \<Longrightarrow> cache_sound base c a \<Longrightarrow> cache_sound base c (refresh_device_activity (env_av (settle base c avs E) s) d a)" for a
    using activity_sound [of base c a "env_av (settle base c avs E) s" d] by (simp add: settle_av)
  show "quiet (telemetry_topics base) (av_log a) (av_log (refresh_device_activity (env_av (settle base c avs E) s) d a))" for a
    by (rule activity_quiet [OF telemetry_settled(1) settle_plain])
qed

lemma with_disc_ok:
  assumes "client_ok base c avs s"
    and "\<And>T ds. no_discovery_topic T \<Longrightarrow> quiet_disc T ds (fst (f ds))"
  shows "client_ok base c avs (fst (with_disc f s))"
proof -
  obtain ds r where f: "f ((hs_disc s)\<lparr>ds_log := hs_log s\<rparr>) = (ds, r)" by fastforce
  have q: "quiet T (hs_log s) (ds_log ds)" if "no_discovery_topic T" for T
    using assms(2) [OF that, of "(hs_disc s)\<lparr>ds_log := hs_log s\<rparr>"] f by (simp add: quiet_disc_def)
  have "client_ok base c avs (s\<lparr>hs_log := ds_log ds\<rparr>)"
    by (rule client_ok_log [OF assms(1) q [OF telemetry_settled(2)] q [OF availability_settled]])
  then show ?thesis using f by (simp add: with_disc_def client_ok_def)
qed

lemma announce_ok: "client_ok base c avs s \<Longrightarrow> client_ok base c avs (fst (announce E d n s))"
  unfolding announce_def by (rule with_disc_ok) (simp_all add: discovery_quiet)

lemma with_pub_ok:
  assumes "client_ok base c avs s"
    and "\<And>p. caches_sound base p \<Longrightarrow> caches_sound base (fst (f p))"
    and "\<And>p. quiet (availability_topics base) (snd p) (snd (fst (f p)))"
  shows "client_ok base c avs (fst (with_pub f s))"
proof -
  obtain pub lg r where f: "f (hs_pub s, hs_log s) = ((pub, lg), r)" by (metis prod.collapse)
  have "caches_sound base (pub, lg)" using assms(1) assms(2) [of "(hs_pub s, hs_log s)"] f by (simp add: client_ok_def)
  moreover have "quiet (availability_topics base) (hs_log s) lg" using assms(3) [of "(hs_pub s, hs_log s)"] f by simp
  ultimately show ?thesis
    using assms(1) f cache_sound_quiet by (auto simp: client_ok_def with_pub_def)
qed

lemma refresh_reads_ok: "client_ok base c avs s \<Longrightarrow> client_ok base c avs (refresh_reads E d s)"
  by (simp add: client_ok_def refresh_reads_def refresh_ok)

lemma client_ok_disc [simp]: "client_ok base c avs (s\<lparr>hs_disc := x\<rparr>) = client_ok base c avs s"
  "client_ok base c avs (s\<lparr>hs_calls := y\<rparr>) = client_ok base c avs s"
  "client_ok base c avs (s\<lparr>hs_stopped := b\<rparr>) = client_ok base c avs s"
  "client_ok base c avs (s\<lparr>hs_clock := k\<rparr>) = client_ok base c avs s"
  by (simp_all add: client_ok_def)

lemma client_ok_devices: "client_ok base c avs s \<Longrightarrow> inventory_ok devs \<Longrightarrow> client_ok base c avs (s\<lparr>hs_devices := devs\<rparr>)"
  by (simp add: client_ok_def)

lemma client_ok_inventory: "client_ok base c avs s \<Longrightarrow> inventory_ok (hs_devices s)"
  by (simp add: client_ok_def)

lemma guarded_ok: "client_ok base c avs s \<Longrightarrow> (client_ok base c avs s \<Longrightarrow> client_ok base c avs (fst (f s))) \<Longrightarrow> client_ok base c avs (fst (guarded f s))"
  by (simp add: guarded_def)

lemma set_config_ok:
  assumes "client_ok base c avs s"
  shows "client_ok base c avs (fst (set_config (settle base c avs E) d config s))"
  unfolding set_config_def
proof (rule guarded_ok [OF assms])
  let ?E = "settle base c avs E"
  define s2 where "s2 = activity ?E d (s\<lparr>hs_devices := observe_wifi_signal (he_floats ?E) d
      (map_option VStr (dict_get config ''wifi_signal'')) (observe_device d (hs_devices s))\<rparr>)"
  have s2: "client_ok base c avs s2"
    unfolding s2_def
    by (intro activity_ok client_ok_devices assms observe_wifi_ok observe_device_ok client_ok_inventory [OF assms])
  obtain ds changed where st: "store_config (env_disc ?E) d config (hs_disc s2) = (ds, changed)" by fastforce
  have s3: "client_ok base c avs (refresh_reads ?E d (s2\<lparr>hs_disc := ds\<rparr>))" by (rule refresh_reads_ok) (simp add: s2)
  show "client_ok base c avs (fst ((\<lambda>s. (let s1 = s\<lparr>hs_devices := observe_wifi_signal (he_floats ?E) d
        (map_option VStr (dict_get config ''wifi_signal'')) (observe_device d (hs_devices s))\<rparr>;
          s2 = activity ?E d s1; (ds, discovery_changed) = store_config (env_disc ?E) d config (hs_disc s2);
          s3 = refresh_reads ?E d (s2\<lparr>hs_disc := ds\<rparr>)
      in if \<not> discovery_changed \<and> d \<in> set (ds_announced (hs_disc s3)) then (s3, Inr ())
         else announce ?E d (snd (resolve_max_bat (he_floats ?E) (he_max_bat ?E) d None (hs_counts s3)))
           (s3\<lparr>hs_disc := (invalidate_discovery d (hs_disc s3))\<lparr>ds_migrated := ds_migrated (hs_disc s3) - {d}\<rparr>\<rparr>))) s))"
    using s3 by (simp add: s2_def [symmetric] st announce_ok Let_def)
qed

lemma place_batteries_ok:
  assumes "client_ok base c avs s"
  shows "client_ok base c avs (fst (place_batteries E d payload s))"
proof (cases "uses_noah_protocol d")
  case True
  obtain b w r where p: "prepare_battery_payload (he_floats E) (he_repr E) (he_battery E) (he_keep_positions E)
      (hs_battery s) d payload = (b, w, r)" by (metis prod_cases3)
  have "battery_inv (battery_step (he_floats E) (he_repr E) (hs_battery s, hs_writes s)
      (he_battery E, he_keep_positions E, d, payload))"
    using assms by (intro battery_step_inv) (simp add: client_ok_def)
  then have "battery_inv (b, hs_writes s @ w)" by (simp add: p)
  then show ?thesis using True assms p by (cases r) (simp add: place_batteries_def client_ok_def)
qed (use assms in \<open>simp add: place_batteries_def\<close>)

lemma note_device_ok: "client_ok base c avs s \<Longrightarrow> client_ok base c avs (note_device E d s)"
proof -
  assume ok: "client_ok base c avs s"
  obtain store fs where w: "retry_pending_device_config (an_dump_config (env_disc E)) (an_faults (env_disc E)) d
      (ds_store (hs_disc s), ds_files (hs_disc s)) = (store, fs)" by fastforce
  define s1 where "s1 = refresh_reads E d (s\<lparr>hs_disc := (hs_disc s)\<lparr>ds_store := store, ds_files := fs\<rparr>\<rparr>)"
  have s1: "client_ok base c avs s1" unfolding s1_def by (rule refresh_reads_ok) (simp add: ok)
  show ?thesis
    unfolding note_device_def w Let_def prod.case s1_def [symmetric]
    using client_ok_inventory [OF s1]
    by (intro client_ok_devices [OF s1]) (simp add: observe_device_ok observe_wifi_ok split: option.splits)
qed

lemma add_firmware_ok: "client_ok base c avs s \<Longrightarrow> client_ok base c avs (fst (add_firmware E d payload s))"
  by (simp add: add_firmware_def split: option.splits)

lemma prepare_telemetry_ok:
  assumes "client_ok base c avs s" "prepare_telemetry E d payload s = (s', r)"
  shows "client_ok base c avs s'"
proof -
  obtain s3 p1 where a: "add_firmware E d payload (note_device E d s) = (s3, p1)" by fastforce
  have s3: "client_ok base c avs s3"
    using add_firmware_ok [OF note_device_ok [OF assms(1)], of E d payload E d] a by simp
  obtain s4 p2 n where b: "place_batteries E d p1 s3 = (s4, p2, n)" by (metis prod_cases3)
  have s4: "client_ok base c avs s4" using place_batteries_ok [OF s3, of E d p1] b by simp
  obtain counts m where k: "resolve_max_bat (he_floats E) (he_max_bat E) d (Some p2) (hs_counts s4) = (counts, m)"
    by fastforce
  have s5: "client_ok base c avs (s4\<lparr>hs_counts := counts\<rparr>)"
    using s4 resolve_max_bat_range [OF _ k] by (simp add: client_ok_def)
  then show ?thesis
    using assms(2) by (auto simp: prepare_telemetry_def a b k Let_def split: sum.splits)
qed

lemma request_neo_ok: "client_ok base c avs s \<Longrightarrow> client_ok base c avs (request_neo_power E d s)"
proof -
  assume ok: "client_ok base c avs s"
  obtain neo sent b where r: "request_initial_neo_inverter_power (env_neo E s) d (hs_neo s) = ((neo, sent), b)"
    by (metis prod.collapse)
  have "probe_ok (neo_step (hs_neo s) (DeviceLive (env_neo E s) d))"
    using ok by (intro neo_step_ok) (simp add: client_ok_def)
  then have "probe_ok neo" by (simp add: r)
  then show ?thesis using ok r by (simp add: request_neo_power_def client_ok_def)
qed

lemma publish_telemetry_ok:
  assumes "client_ok base c avs s"
  shows "client_ok base c avs (fst (publish_telemetry (settle base c avs E) d payload shown s))"
proof -
  let ?E = "settle base c avs E"
  define s1 where "s1 = activity ?E d (fst (announce ?E d shown s))"
  define devs where "devs = observe_telemetry (he_floats ?E) d
      (prepare_payload (he_floats ?E) (register_rules (client_registers ?E d)) shown payload) shown (hs_devices s1)"
  have s1: "client_ok base c avs s1" unfolding s1_def by (intro activity_ok announce_ok assms)
  have s2: "client_ok base c avs (s1\<lparr>hs_devices := devs\<rparr>)"
    unfolding devs_def by (intro client_ok_devices s1 observe_telemetry_ok client_ok_inventory [OF s1])
  let ?f = "publish_state (he_floats ?E) (he_state_json ?E) (he_broker ?E) (he_base ?E) d
      (telemetry_payload (he_floats ?E) (client_registers ?E d) (is_family d ''noah'') shown payload)"
  obtain s3 r where p: "with_pub ?f (s1\<lparr>hs_devices := devs\<rparr>) = (s3, r)" by fastforce
  have "client_ok base c avs (fst (with_pub ?f (s1\<lparr>hs_devices := devs\<rparr>)))"
  proof (rule with_pub_ok [OF s2])
    show "caches_sound base q \<Longrightarrow> caches_sound base (fst (?f q))" for q
      by (cases q) (simp add: settle_simps publish_state_sound)
    show "quiet (availability_topics base) (snd q) (snd (fst (?f q)))" for q
      by (rule publish_state_quiet)
  qed
  then have s3: "client_ok base c avs s3" by (simp only: p fst_conv)
  have "fst (publish_telemetry ?E d payload shown s) = s3 \<or> fst (publish_telemetry ?E d payload shown s) = request_neo_power ?E d s3"
    by (auto simp: publish_telemetry_def s1_def [symmetric] devs_def [symmetric] p Let_def split: sum.splits)
  then show ?thesis using s3 request_neo_ok by metis
qed

lemma publish_input_register_ok:
  "client_ok base c avs s \<Longrightarrow> client_ok base c avs (fst (publish_input_register (settle base c avs E) d payload s))"
  unfolding publish_input_register_def
proof (rule guarded_ok, assumption)
  assume ok: "client_ok base c avs s"
  obtain s1 r where p: "prepare_telemetry (settle base c avs E) d payload s = (s1, r)" by fastforce
  have "client_ok base c avs s1" by (rule prepare_telemetry_ok [OF ok p])
  then show "client_ok base c avs (fst (bindA (prepare_telemetry (settle base c avs E) d payload)
      (\<lambda>(prepared, shown). publish_telemetry (settle base c avs E) d prepared shown) s))"
    using publish_telemetry_ok by (cases r) (auto simp: bindA_def p)
qed

lemma publish_others_ok:
  assumes "client_ok base c avs s"
  shows "client_ok base c avs (fst (publish_holding_register_input (settle base c avs E) input s))"
    and "client_ok base c avs (fst (publish_meter (settle base c avs E) d payload s))"
    and "client_ok base c avs (fst (publish_config_register_value (settle base c avs E) d r v retain s))"
proof -
  let ?E = "settle base c avs E"
  let ?h = "\<lambda>p. (publish_holding_values (he_floats ?E) (he_broker ?E) (he_base ?E) input p, ())"
  have "client_ok base c avs (fst (with_pub ?h (activity ?E (hin_device input) s)))"
    by (rule with_pub_ok [OF activity_ok [OF assms]])
       (simp_all add: settle_simps publish_holding_values_sound publish_holding_quiet)
  then show "client_ok base c avs (fst (publish_holding_register_input ?E input s))"
    using assms by (simp add: publish_holding_register_input_def guarded_def)
  have "client_ok base c avs (fst (with_pub (publish_smart_meter (he_broker ?E) (he_base ?E) d payload) (activity ?E d s)))"
  proof (rule with_pub_ok [OF activity_ok [OF assms]])
    show "caches_sound base q \<Longrightarrow> caches_sound base (fst (publish_smart_meter (he_broker ?E) (he_base ?E) d payload q))" for q
      by (cases q) (simp add: settle_simps publish_smart_meter_sound)
    show "quiet (availability_topics base) (snd q) (snd (fst (publish_smart_meter (he_broker ?E) (he_base ?E) d payload q)))" for q
      by (rule publish_meter_quiet)
  qed
  then show "client_ok base c avs (fst (publish_meter ?E d payload s))"
    using assms by (simp add: publish_meter_def guarded_def split_def Let_def)
  show "client_ok base c avs (fst (publish_config_register_value ?E d r v retain s))"
    using assms client_ok_log [OF assms send_quiet(2,1)]
    by (simp add: publish_config_register_value_def guarded_def message_ends Let_def)
qed

lemma note_reads_ok: "client_ok base c avs s \<Longrightarrow> reads_ok reads \<Longrightarrow> client_ok base c avs (note_reads sent (s\<lparr>hs_reads := reads\<rparr>))"
  by (simp add: note_reads_def client_ok_def)

lemma client_ok_reads: "client_ok base c avs s \<Longrightarrow> reads_ok (hs_reads s)"
  by (simp add: client_ok_def)

lemma reads_events_ok:
  assumes "client_ok base c avs s"
  shows "client_ok base c avs (fst (handle_config_read_response (settle base c avs E) d r s))"
    and "client_ok base c avs (fst (source_ready (settle base c avs E) s))"
    and "client_ok base c avs (fst (read_timer (settle base c avs E) n s))"
proof -
  let ?E = "settle base c avs E"
  have act: "client_ok base c avs (activity ?E d s)" by (rule activity_ok [OF assms])
  obtain rd sent q where a: "config_read_response (env_reads ?E) d r (hs_reads (activity ?E d s)) = ((rd, sent), q)"
    by (metis prod.collapse)
  show "client_ok base c avs (fst (handle_config_read_response ?E d r s))"
    using assms note_reads_ok [OF act timeout_ok [OF client_ok_reads [OF act] a [unfolded response_timeout]]]
    by (simp add: handle_config_read_response_def guarded_def a Let_def)
  show "client_ok base c avs (fst (source_ready ?E s))"
    using assms source_ready_ok by (simp add: source_ready_def guarded_def client_ok_def)
  obtain rd sent q where b: "fire_read_timer (env_reads ?E) n (hs_reads s) = ((rd, sent), q)" by (metis prod.collapse)
  show "client_ok base c avs (fst (read_timer ?E n s))"
    using assms note_reads_ok [OF assms fire_ok [OF client_ok_reads [OF assms] b]] by (simp add: read_timer_def guarded_def b)
qed

lemma caches_cleared: "caches_sound base (c, lg) \<Longrightarrow> caches_sound base (clear_reconnect_publish_caches c, lg)"
  by (simp add: caches_sound_def clear_reconnect_publish_caches_def clear_state_publish_cache_def)

lemma connect_sound:
  "cache_sound base c a \<Longrightarrow> cache_sound base c (connect_availability (av_settings base c E) ds a)"
  by (simp add: connect_availability_def recover_sound bridge_online_sound)

lemma probe_events_ok:
  assumes "probe_ok neo"
  shows "probe_ok (clear_neo_inverter_power_read_cache neo)"
    and "probe_ok (schedule_known_neo_state_probe E delay neo)"
    and "probe_ok (fst (fire_neo_timer E n neo))"
    and "probe_ok (stop_neo_power neo)"
    and "probe_ok (neo\<lparr>np_stopped := False\<rparr>)"
  using assms fire_probe_ok [OF assms]
  by (auto simp: clear_neo_inverter_power_read_cache_def schedule_known_neo_state_probe_def schedule_probe_def
      stop_neo_power_def probe_ok_def Let_def nth_append)

lemma recover_ok:
  assumes "client_ok base c avs s"
  shows "client_ok base c avs (recover (settle base c avs E) reconnected s)"
proof -
  let ?E = "settle base c avs E" let ?ds = "map fst (configs s)"
  let ?f = "if reconnected then connect_availability (env_av ?E s) ?ds else recover_availability (env_av ?E s) ?ds"
  have "client_ok base c avs (with_av ?f s)"
  proof (rule with_av_ok [OF assms])
    show "\<not> avs \<Longrightarrow> cache_sound base c a \<Longrightarrow> cache_sound base c (?f a)" for a
      using connect_sound [of base c a "env_av ?E s" ?ds] recover_sound [of base c a "env_av ?E s" ?ds]
      by (simp add: settle_av)
    show "quiet (telemetry_topics base) (av_log a) (av_log (?f a))" for a
      by (cases reconnected) (simp_all add: recover_quiet [OF telemetry_settled(1) settle_plain])
  qed
  moreover define s1 where "s1 = with_av ?f s"
  ultimately have s1: "client_ok base c avs s1" by simp
  then have keep: "client_ok base c avs (s1\<lparr>hs_disc := x, hs_pub := clear_reconnect_publish_caches (hs_pub s1),
      hs_reads := handle_source_ready (env_reads ?E) ?ds (hs_reads s1), hs_neo := neo\<rparr>)" if "probe_ok neo" for x neo
    using that by (simp add: client_ok_def caches_cleared source_ready_ok)
  have "probe_ok (hs_neo s1)" using s1 by (simp add: client_ok_def)
  then show ?thesis
    unfolding recover_def Let_def s1_def [symmetric]
    by (simp add: keep probe_events_ok)
qed

lemma mirror_calls_ok: "client_ok base c avs s \<Longrightarrow> client_ok base c avs (foldl (mirror_call E) s calls)"
proof (induction calls arbitrary: s)
  case (Cons call calls)
  have "client_ok base c avs (mirror_call E s call)"
  proof (cases call)
    case (SwitchState d v)
    let ?lg = "send (he_broker E) (switch_message (he_base E) d v) (hs_log s)"
    have "client_ok base c avs (s\<lparr>hs_log := ?lg\<rparr>)"
      by (rule client_ok_log [OF Cons.prems]) (simp_all add: send_quiet message_ends)
    then show ?thesis
      using SwitchState by (simp add: mirror_call_def Let_def) (simp add: client_ok_def caches_sound_def)
  qed (use Cons.prems in \<open>simp_all add: mirror_call_def\<close>)
  then show ?case using Cons.IH by simp
qed simp

lemma on_ha_message_ok:
  assumes "client_ok base c avs s"
  shows "client_ok base c avs (fst (on_ha_message (settle base c avs E) topic payload s))"
  unfolding on_ha_message_def
proof (rule guarded_ok [OF assms])
  let ?E = "settle base c avs E"
  have cmd: "client_ok base c avs (foldl (mirror_call ?E) (s\<lparr>hs_reads := rd\<rparr>) calls)"
    if "handle_command (env_command ?E s) kind d entity action payload (hs_reads s) = ((rd, calls), r)"
    for kind d entity action rd calls r
    using handle_command_reads_ok [OF client_ok_reads [OF assms] that] assms
    by (intro mirror_calls_ok) (simp add: client_ok_def)
  show "client_ok base c avs (fst ((\<lambda>s. (case parse_ha_topic (he_base ?E) topic of
        OtherTopic \<Rightarrow> (s, Inr ())
      | StatusTopic \<Rightarrow> (if is_birth_message payload then recover ?E False s else s, Inr ())
      | CommandTopic kind d entity action \<Rightarrow>
          (let ((reads, calls), r) = handle_command (env_command ?E s) kind d entity action payload (hs_reads s)
           in (foldl (mirror_call ?E) (s\<lparr>hs_reads := reads\<rparr>) calls, Inr ())))) s))"
    using assms recover_ok [OF assms, of E False] cmd by (auto split: ha_topic.splits prod.splits)
qed

lemma timers_ok:
  assumes "client_ok base c avs s"
  shows "client_ok base c avs (fst (device_timer (settle base c avs E) n s))"
    and "client_ok base c avs (fst (clock_timer (settle base c avs E) n s))"
    and "client_ok base c avs (fst (neo_timer (settle base c avs E) n s))"
proof -
  let ?E = "settle base c avs E"
  have "client_ok base c avs (with_av (\<lambda>a. fst (fire_device_timer (env_av ?E s) n a)) s)"
  proof (rule with_av_ok [OF assms])
    show "\<not> avs \<Longrightarrow> cache_sound base c a \<Longrightarrow> cache_sound base c (fst (fire_device_timer (env_av ?E s) n a))" for a
      using check_timeout_sound [of base c a "env_av ?E s"] by (simp add: fire_device_timer_def settle_av)
    show "quiet (telemetry_topics base) (av_log a) (av_log (fst (fire_device_timer (env_av ?E s) n a)))" for a
      by (rule fire_device_timer_quiet [OF telemetry_settled(1) settle_plain])
  qed
  then show "client_ok base c avs (fst (device_timer ?E n s))" using assms by (simp add: device_timer_def guarded_def)
  show "client_ok base c avs (fst (clock_timer ?E n s))"
    using assms by (simp add: clock_timer_def guarded_def client_ok_def split: prod.splits)
  have "probe_ok (hs_neo s)" using assms by (simp add: client_ok_def)
  then show "client_ok base c avs (fst (neo_timer ?E n s))"
    using assms probe_events_ok(3) [of "hs_neo s" "env_neo ?E s" n]
    by (cases "fire_neo_timer (env_neo ?E s) n (hs_neo s)"; cases avs) (simp_all add: neo_timer_def guarded_def client_ok_def)
qed

lemma start_stop_ok:
  assumes "client_ok base c avs s"
  shows "client_ok base c avs (fst (start_client (settle base c avs E) loop_ok s))"
    and "client_ok base c avs (fst (stop_client (settle base c avs E) s))"
proof -
  let ?E = "settle base c avs E"
  have neo: "probe_ok (hs_neo s)" using assms by (simp add: client_ok_def)
  show "client_ok base c avs (fst (start_client ?E loop_ok s))"
    using assms probe_events_ok(5) [OF neo]
    by (simp add: start_client_def client_ok_def Let_def probe_events_ok)
  define s1 where "s1 = s\<lparr>hs_stopped := True, hs_reads := reset_config_read_state (hs_reads s),
                 hs_av := (hs_av s)\<lparr>av_timers := [], av_seen := []\<rparr>,
                 hs_neo := stop_neo_power (hs_neo s), hs_clock := stop_clock_sync (hs_clock s)\<rparr>"
  have s1: "client_ok base c avs s1"
    using assms probe_events_ok(4) [OF neo] reset_ok
    by (simp add: s1_def client_ok_def cache_sound_def timer_of_device_def)
  define s2 where "s2 = with_av (publish_offline_devices (env_av ?E s1) (map fst (configs s1))) s1"
  have s2: "client_ok base c avs s2"
    unfolding s2_def
  proof (rule with_av_ok [OF s1])
    show "\<not> avs \<Longrightarrow> cache_sound base c a \<Longrightarrow> cache_sound base c (publish_offline_devices (env_av ?E s1) ds a)" for a ds
      using offline_devices_sound [of base c a "env_av ?E s1" ds] by (simp add: settle_av)
    show "quiet (telemetry_topics base) (av_log a) (av_log (publish_offline_devices (env_av ?E s1) ds a))" for a ds
      by (rule offline_quiet [OF telemetry_settled(1) settle_plain])
  qed
  let ?msg = "\<lparr>pb_topic = bridge_topic ?E, pb_payload = ''offline'', pb_retain = True\<rparr>"
  have tel: "quiet (telemetry_topics base) (hs_log s2) (send (he_broker ?E) ?msg (hs_log s2))"
    by (rule send_quiet) (simp add: settle_simps availability_topic_def topic_end_def)
  have "client_ok base c avs (s2\<lparr>hs_log := send (he_broker ?E) ?msg (hs_log s2)\<rparr>)"
    using s2 caches_sound_quiet [OF _ tel]
    by (auto simp: client_ok_def cache_sound_def timer_of_device_def broker_state_send settle_simps availability_topic_inj)
  then show "client_ok base c avs (fst (stop_client ?E s))"
    by (simp add: stop_client_def s1_def [symmetric] s2_def [symmetric] Let_def)
qed

lemma client_step_ok: "client_ok base c avs s \<Longrightarrow> client_ok base c avs (client_step base c avs s ev)"
proof -
  assume ok: "client_ok base c avs s"
  obtain E e where ev: "ev = (E, e)" by fastforce
  show ?thesis
  proof (cases e)
    case (ConnectAnswer failed)
    then show ?thesis using ev ok by (simp add: client_step_def on_connect_def guarded_def recover_ok)
  qed (simp_all add: ev ok client_step_def set_config_ok publish_input_register_ok publish_others_ok reads_events_ok
      on_ha_message_ok timers_ok start_stop_ok)
qed

interpretation client: step_machine "client_step base c avs" "client_ok base c avs"
  by unfold_locales (rule client_step_ok)

lemma new_client_ok: "client_ok base c avs new_client"
  by (simp add: client_ok_def new_client_def no_reads_ok cache_sound_def timer_of_device_def no_availability_def
      caches_sound_def no_publish_caches_def counts_ok_def inventory_ok_def battery_inv_def battery_client_new_def
      probe_ok_def no_neo_power_def)

section \<open>Publishing a packet\<close>

lemma with_av_frame:
  "hs_pub (with_av f s) = hs_pub s" "hs_stopped (with_av f s) = hs_stopped s"
  by (simp_all add: with_av_def Let_def)

lemma announce_frame:
  "hs_pub (fst (announce E d n s)) = hs_pub s" "hs_stopped (fst (announce E d n s)) = hs_stopped s"
  by (simp_all add: announce_def with_disc_def split: prod.splits)

lemma publish_state_offered:
  assumes "should_serialize_state F c d data" "should_publish_state c d (dump data)"
  shows "snd (fst (publish_state F dump B base d data (c, lg))) = send B (state_message base d (dump data)) lg"
  using assms by (simp add: publish_state_def Let_def split: answer.splits)

text \<open>Whatever the broker answered to the discovery and availability messages before, a payload that is not
  held back by the caches is offered to it, as the last message of the packet.\<close>

lemma publish_telemetry_offered:
  assumes "should_serialize_state (he_floats E) (hs_pub s) d data" "should_publish_state (hs_pub s) d (he_state_json E data)"
    and data: "data = telemetry_payload (he_floats E) (client_registers E d) (is_family d ''noah'') shown payload"
  shows "\<exists>lg. hs_log (fst (publish_telemetry E d payload shown s)) =
    send (he_broker E) (state_message (he_base E) d (he_state_json E data)) lg"
proof -
  define s1 where "s1 = activity E d (fst (announce E d shown s))"
  define s2 where "s2 = s1\<lparr>hs_devices := observe_telemetry (he_floats E) d
      (prepare_payload (he_floats E) (register_rules (client_registers E d)) shown payload) shown (hs_devices s1)\<rparr>"
  have pub: "hs_pub s2 = hs_pub s" by (simp add: s2_def s1_def activity_def with_av_frame announce_frame)
  let ?f = "publish_state (he_floats E) (he_state_json E) (he_broker E) (he_base E) d data"
  obtain c lg r where f: "?f (hs_pub s2, hs_log s2) = ((c, lg), r)" by (metis prod.collapse)
  have lg: "lg = send (he_broker E) (state_message (he_base E) d (he_state_json E data)) (hs_log s2)"
    using publish_state_offered [of "he_floats E" "hs_pub s2" d data "he_state_json E" "he_broker E" "he_base E" "hs_log s2"]
      assms(1,2) f by (simp add: pub)
  have "hs_log (request_neo_power E d t) = hs_log t" for t
    by (simp add: request_neo_power_def split: prod.splits)
  then have "hs_log (fst (publish_telemetry E d payload shown s)) = lg"
    unfolding publish_telemetry_def Let_def s1_def [symmetric] data [symmetric] s2_def [symmetric]
    by (simp add: with_pub_def f split: sum.splits)
  then show ?thesis using lg by blast
qed

lemma stopped_step:
  assumes "hs_stopped t" "e \<noteq> ClientStops" "\<forall>b. e \<noteq> ClientStarts b"
  shows "client_step base c avs t (E', e) = t"
proof (cases e)
  case (ClientStarts b)
  then show ?thesis using assms(3) by blast
qed (use assms(1,2) in \<open>simp_all add: client_step_def guarded_def set_config_def publish_input_register_def
      publish_holding_register_input_def publish_config_register_value_def publish_meter_def
      handle_config_read_response_def source_ready_def on_connect_def on_ha_message_def device_timer_def
      read_timer_def clock_timer_def neo_timer_def\<close>)

lemma prepare_steps_frame:
  "hs_pub (refresh_reads E d s) = hs_pub s" "hs_pub (note_device E d s) = hs_pub s"
  "hs_pub (fst (add_firmware E d payload s)) = hs_pub s" "hs_pub (fst (place_batteries E d payload s)) = hs_pub s"
  by (simp_all add: refresh_reads_def note_device_def add_firmware_def place_batteries_def Let_def
      split: prod.split sum.split option.split)

lemma prepare_telemetry_frame: "hs_pub (fst (prepare_telemetry E d payload s)) = hs_pub s"
proof -
  obtain s1 p1 where a: "add_firmware E d payload (note_device E d s) = (s1, p1)" by fastforce
  obtain s2 p2 m where b: "place_batteries E d p1 s1 = (s2, p2, m)" by (metis prod.collapse)
  have "hs_pub s2 = hs_pub s"
    using prepare_steps_frame(3) [of E d payload "note_device E d s"] prepare_steps_frame(4) [of E d p1 s1]
      prepare_steps_frame(2) [of E d s] by (simp add: a b)
  then show ?thesis by (simp add: prepare_telemetry_def a b Let_def split: prod.split sum.split)
qed

lemma recover_frame:
  "hs_stopped (recover E reconnected s) = hs_stopped s"
  "should_serialize_state F (hs_pub (recover E reconnected s)) d x"
  "should_publish_state (hs_pub (recover E reconnected s)) d y"
  by (simp_all add: recover_def Let_def with_av_frame clear_reconnect_publish_caches_def should_serialize_state_def
      should_publish_state_def clear_state_publish_cache_def)

section \<open>Properties\<close>

text \<open>However connections, messages of devices and of Home Assistant, timers, starts and stops interleave, and
  whatever the broker answers: the read sequences, the battery maps, the inventory and the counts are in
  order, and what the client holds for published is what the broker holds (for the availability when the
  extra sensor is off).\<close>

theorem client_invariant:
  "let s = foldl (client_step base c avs) new_client events in
   reads_ok (hs_reads s) \<and> battery_inv (hs_battery s, hs_writes s) \<and> inventory_ok (hs_devices s) \<and>
   counts_ok (hs_counts s) \<and> probe_ok (hs_neo s) \<and>
   (case dict_get (pc_json (hs_pub s)) d of None \<Rightarrow> True
    | Some x \<Rightarrow> broker_state (hs_log s) (base @ ''/grobro/'' @ d @ ''/state'') = Some x) \<and>
   (if avs then True
    else case dict_get (av_last (hs_av s)) d of None \<Rightarrow> True
    | Some b \<Rightarrow> d = c \<or> broker_state (hs_log s) (base @ ''/grobro/'' @ d @ ''/availability'') =
        Some (if b then ''online'' else ''offline''))"
proof -
  define s where "s = foldl (client_step base c avs) new_client events"
  have ok: "client_ok base c avs s" unfolding s_def by (rule client.run_inv [OF new_client_ok])
  have state: "dict_get (pc_json (hs_pub s)) d = Some x \<Longrightarrow>
      broker_state (hs_log s) (base @ ''/grobro/'' @ d @ ''/state'') = Some x" for x
    using ok by (auto simp: client_ok_def caches_sound_def state_message_def)
  have avail: "\<not> avs \<Longrightarrow> dict_get (av_last (hs_av s)) d = Some b \<Longrightarrow> d = c \<or>
      broker_state (hs_log s) (base @ ''/grobro/'' @ d @ ''/availability'') = Some (if b then ''online'' else ''offline'')" for b
  proof -
    assume plain: "\<not> avs" and b: "dict_get (av_last (hs_av s)) d = Some b"
    have "cache_sound base c ((hs_av s)\<lparr>av_log := hs_log s\<rparr>)" using ok plain by (simp add: client_ok_def)
    then have "d = c \<or> broker_state (hs_log s) (availability_topic base d) = Some (availability_text b)"
      using b by (auto simp: cache_sound_def)
    then show ?thesis by (simp only: availability_topic_def availability_text_def)
  qed
  have cases: "case dict_get (pc_json (hs_pub s)) d of None \<Rightarrow> True
    | Some x \<Rightarrow> broker_state (hs_log s) (base @ ''/grobro/'' @ d @ ''/state'') = Some x"
    "if avs then True else case dict_get (av_last (hs_av s)) d of None \<Rightarrow> True
    | Some b \<Rightarrow> d = c \<or> broker_state (hs_log s) (base @ ''/grobro/'' @ d @ ''/availability'') =
        Some (if b then ''online'' else ''offline'')"
    subgoal by (cases "dict_get (pc_json (hs_pub s)) d") (simp_all only: option.case state)
    subgoal by (cases "dict_get (av_last (hs_av s)) d"; cases avs) (simp_all only: option.case if_True if_False avail not_False_eq_True)
    done
  show ?thesis
    using ok cases unfolding Let_def s_def [symmetric] by (simp only: client_ok_def)
qed

text \<open>Once the client is stopped it stays silent: no message, reading, timer or connection that is still under
  way changes anything or sends anything before the next start.\<close>

theorem stopped_client_silent:
  "foldl (client_step base c avs) (fst (stop_client E s))
     (filter (\<lambda>(E', e). \<not> (e = ClientStops \<or> (\<exists>b. e = ClientStarts b))) events) = fst (stop_client E s)"
proof (induction events)
  case (Cons ev events)
  have "hs_stopped (fst (stop_client E s))" by (simp add: stop_client_def Let_def with_av_frame)
  then show ?case using Cons by (auto simp: stopped_step split: prod.split)
qed simp

text \<open>After a reconnect or a restart of Home Assistant the next packet of every device is offered to the broker
  again, unless preparing it raises: no cache from before holds it back.\<close>

theorem telemetry_after_restart:
  "let s1 = recover E reconnected s; out = publish_input_register E' d payload s1 in
   if hs_stopped s then True
   else (case prepare_telemetry E' d payload s1 of
       (s2, Inl e) \<Rightarrow> out = (s2, Inl e)
     | (s2, Inr _) \<Rightarrow> \<exists>lg x. hs_log (fst out) = send (he_broker E') (state_message (he_base E') d x) lg)"
proof -
  define s1 where "s1 = recover E reconnected s"
  obtain s2 r where p: "prepare_telemetry E' d payload s1 = (s2, r)" by fastforce
  have pub: "hs_pub s2 = hs_pub s1" using prepare_telemetry_frame [of E' d payload s1] p by simp
  have fresh: "should_serialize_state F (hs_pub s2) d x" "should_publish_state (hs_pub s2) d y" for F x y
    unfolding pub s1_def by (rule recover_frame)+
  have "\<exists>lg x. hs_log (fst (publish_telemetry E' d prepared shown s2)) =
      send (he_broker E') (state_message (he_base E') d x) lg" for prepared shown
    using publish_telemetry_offered [OF fresh refl] by blast
  then show ?thesis
    unfolding Let_def s1_def [symmetric]
    using recover_frame(1) [of E reconnected s, folded s1_def]
    by (cases r) (simp_all add: p publish_input_register_def guarded_def bindA_def split: prod.split)
qed

end
