(* ===== verification/HomeConnection.thy ===== *)
theory HomeConnection
  imports HaClient
begin

text \<open>
  The connection callbacks of \<open>ha/client.py\<close> around the machine of \<open>HaClient\<close>: the two flags that keep a broker
  that stays away, or keeps refusing a subscription, from filling the log, and the guard that no callback does
  anything once the client is stopped. A connection hands over to \<open>on_connect\<close>, the recovery.
\<close>

record home_link =
  hl_failure_logged :: bool
  hl_rejection_logged :: bool

datatype home_log = HomeFailure | HomeRejection | HomeReady

definition home_connect_failed :: "bool \<Rightarrow> home_link \<Rightarrow> home_link \<times> home_log list" where
  "home_connect_failed stopped l =
     (if stopped \<or> hl_failure_logged l then (l, [])
      else (l\<lparr>hl_failure_logged := True\<rparr>, [HomeFailure]))"

definition home_subscribed :: "bool \<Rightarrow> bool \<Rightarrow> home_link \<Rightarrow> home_link \<times> home_log list" where
  "home_subscribed stopped rejected l =
     (if stopped then (l, [])
      else if rejected
      then (l\<lparr>hl_rejection_logged := True\<rparr>, if hl_rejection_logged l then [] else [HomeRejection])
      else (l\<lparr>hl_rejection_logged := False\<rparr>, []))"

text \<open>A new connection: the recovery of the client machine, and the flag that allows the next report.\<close>

definition home_connected ::
    "('f, 'sig, 't::linordered_field, 'm) client_env_scheme \<Rightarrow> bool \<Rightarrow>
     ('f, 'sig, 't) ha_client \<times> home_link \<Rightarrow> (('f, 'sig, 't) ha_client \<times> home_link) \<times> home_log list" where
  "home_connected E is_failure st =
     (case st of (s, l) \<Rightarrow>
        if hs_stopped s then ((s, l), [])
        else if is_failure then (case home_connect_failed (hs_stopped s) l of (l', outs) \<Rightarrow> ((s, l'), outs))
        else ((recover E True s, l\<lparr>hl_failure_logged := False\<rparr>), [HomeReady]))"

datatype home_link_event = HomeConnected bool | HomeConnectFailed | HomeSubscribed bool

fun home_link_step ::
    "('f, 'sig, 't::linordered_field, 'm) client_env_scheme \<Rightarrow> ('f, 'sig, 't) ha_client \<times> home_link \<Rightarrow>
     home_link_event \<Rightarrow> (('f, 'sig, 't) ha_client \<times> home_link) \<times> home_log list" where
  "home_link_step E st (HomeConnected is_failure) = home_connected E is_failure st"
| "home_link_step E (s, l) HomeConnectFailed =
     (case home_connect_failed (hs_stopped s) l of (l', outs) \<Rightarrow> ((s, l'), outs))"
| "home_link_step E (s, l) (HomeSubscribed rejected) =
     (case home_subscribed (hs_stopped s) rejected l of (l', outs) \<Rightarrow> ((s, l'), outs))"

fun home_link_run ::
    "(('f, 'sig, 't::linordered_field, 'm) client_env_scheme \<times> home_link_event) list \<Rightarrow>
     ('f, 'sig, 't) ha_client \<times> home_link \<Rightarrow> (('f, 'sig, 't) ha_client \<times> home_link) \<times> home_log list" where
  "home_link_run [] st = (st, [])"
| "home_link_run ((E, e) # es) st =
     (let (st1, o1) = home_link_step E st e; (st2, o2) = home_link_run es st1 in (st2, o1 @ o2))"

text \<open>The callbacks do to the client what the step of its machine does.\<close>

lemma home_connected_client: "fst (fst (home_connected E is_failure (s, l))) = fst (on_connect E is_failure s)"
  by (simp add: home_connected_def on_connect_def guarded_def split: prod.split)

text \<open>A refused subscription is reported once until one is accepted, a broker that stays away once per
  connection that had succeeded, and once more.\<close>

lemma home_failures_logged_once:
  "length (filter ((=) HomeFailure) (snd (home_link_run es (s, l))))
     \<le> (if hl_failure_logged l then 0 else 1) + length (filter ((=) HomeReady) (snd (home_link_run es (s, l))))"
proof (induction es arbitrary: s l)
  case (Cons x es)
  obtain E e where x: "x = (E, e)" by (cases x)
  obtain s1 l1 o1 where step: "home_link_step E (s, l) e = ((s1, l1), o1)" by (metis prod.collapse)
  obtain st2 o2 where run: "home_link_run es (s1, l1) = (st2, o2)" by (cases "home_link_run es (s1, l1)")
  have "length (filter ((=) HomeFailure) o1) + (if hl_failure_logged l1 then 0 else 1)
      \<le> (if hl_failure_logged l then 0 else 1) + length (filter ((=) HomeReady) o1)"
    using step by (cases e) (auto simp: home_connected_def home_connect_failed_def home_subscribed_def split: if_splits)
  with Cons.IH [of s1 l1] show ?case by (simp add: x step run)
qed simp

lemma stopped_home_link_silent:
  "hs_stopped s \<Longrightarrow> home_link_run es (s, l) = ((s, l), [])"
proof (induction es)
  case (Cons x es)
  obtain E e where x: "x = (E, e)" by (cases x)
  have "home_link_step E (s, l) e = ((s, l), [])"
    using Cons.prems by (cases e) (simp_all add: home_connected_def home_connect_failed_def home_subscribed_def)
  with Cons show ?case by (simp add: x)
qed simp

end
