(* ===== verification/SupervisorConfig.thy ===== *)
theory SupervisorConfig
  imports Storage
begin

text \<open>
  \<open>grobro/ha/supervisor_config.py\<close>: the add-on options and the process log, read and written through
  the Supervisor's HTTP interface. The Supervisor is a function of the requests it has received;
  \<open>SupervisorConfigError\<close> is a value with its message, and every other exception that escapes is
  \<open>Other\<close>. The JSON parser, \<open>repr\<close> of nested values and \<open>strptime\<close> are fields of \<open>sup_env\<close>.
  A string with a lone surrogate, which JSON escapes can produce, has the bytes that UTF-8 would give it.
\<close>

section \<open>Errors, requests and answers\<close>

datatype sup_error = ConfigError string | Other py_error

type_synonym 'a sup = "sup_error + 'a"

record 'f sup_request =
  sq_token :: string
  sq_accept :: string
  sq_method :: string
  sq_path :: string
  sq_body :: "'f json option"

text \<open>
  What \<open>urlopen\<close> answers: the bytes of the body; \<open>HTTPError\<close> with its decoded body (\<open>None\<close> when it
  cannot be read or decoded) and its text; an \<open>OSError\<close> or \<open>HTTPException\<close>; another exception.
\<close>

datatype sup_answer = Body string | HttpFails "string option" string | Unreachable string | OpenRaises py_error

text \<open>\<open>json.loads\<close>: a value, a malformed text (\<open>JSONDecodeError\<close>, \<open>UnicodeDecodeError\<close>,
  \<open>RecursionError\<close>), or another exception.\<close>

datatype 'f parsed = Parsed "'f json" | NotJson | ParseRaises py_error

type_synonym 'f sup_log = "('f sup_request \<times> sup_answer) list"

record ('f, 't) sup_env =
  se_token :: "string option"
  se_marker :: string
  se_started :: string
  se_threshold :: "'t option"
  se_stamp :: "string \<Rightarrow> 't option"
  se_loads :: "string \<Rightarrow> 'f parsed"
  se_loads_text :: "string \<Rightarrow> 'f parsed"
  se_repr :: "'f json \<Rightarrow> string"
  se_service :: "'f sup_log \<Rightarrow> 'f sup_request \<Rightarrow> sup_answer"

definition u_umlaut :: string where
  "u_umlaut = [CHR 0xC3, CHR 0xBC]"

definition bad_answer :: string where
  "bad_answer = ''Ung'' @ u_umlaut @ ''ltige Supervisor-Antwort''"

definition json_true :: "('f, 'x) float_ops_scheme \<Rightarrow> 'f json \<Rightarrow> bool" where
  "json_true F v =
     (case v of
        JNull \<Rightarrow> False
      | JBool b \<Rightarrow> b
      | JInt n \<Rightarrow> n \<noteq> 0
      | JFloat x \<Rightarrow> \<not> fl_eq F x (fl_of_int F 0)
      | JStr s \<Rightarrow> s \<noteq> []
      | JArr xs \<Rightarrow> xs \<noteq> []
      | JObj d \<Rightarrow> d \<noteq> [])"

definition sup_token :: "('f, 't) sup_env \<Rightarrow> string sup" where
  "sup_token E =
     (let token = py_strip (case se_token E of None \<Rightarrow> [] | Some t \<Rightarrow> t)
      in if token = [] then Inl (ConfigError (''SUPERVISOR_TOKEN ist nicht verf'' @ u_umlaut @ ''gbar''))
         else Inr token)"

definition unwrap_answer ::
    "('f, 'x) float_ops_scheme \<Rightarrow> ('f json \<Rightarrow> string) \<Rightarrow> 'f json \<Rightarrow> 'f json sup" where
  "unwrap_answer F rp payload =
     (case payload of
        JObj d \<Rightarrow>
          (case dict_get d ''result'' of
             None \<Rightarrow> Inr payload
           | Some (JStr r) \<Rightarrow>
               (if r = ''error''
                then Inl (ConfigError (case dict_get d ''message'' of
                       None \<Rightarrow> ''Supervisor-Fehler'' | Some m \<Rightarrow> json_str F rp m))
                else if r = ''ok''
                then Inr (case dict_get d ''data'' of None \<Rightarrow> JNull | Some v \<Rightarrow> v)
                else Inr payload)
           | Some _ \<Rightarrow> Inl (ConfigError bad_answer))
      | _ \<Rightarrow> Inr payload)"

text \<open>The message of an HTTP error: \<open>message\<close>, else \<open>error\<close>, else the whole object, else \<open>str(exc)\<close>.\<close>

definition http_error_message ::
    "('f, 'x) float_ops_scheme \<Rightarrow> ('f, 't) sup_env \<Rightarrow> string option \<Rightarrow> string \<Rightarrow> string" where
  "http_error_message F E body shown =
     (case body of
        None \<Rightarrow> shown
      | Some b \<Rightarrow>
          (case se_loads_text E b of
             Parsed (JObj d) \<Rightarrow>
               (let pick = (\<lambda>k. case dict_get d k of None \<Rightarrow> JNull | Some v \<Rightarrow> v)
                in if json_true F (pick ''message'') then json_str F (se_repr E) (pick ''message'')
                   else if json_true F (pick ''error'') then json_str F (se_repr E) (pick ''error'')
                   else se_repr E (JObj d))
           | _ \<Rightarrow> shown))"

text \<open>What an answer amounts to.\<close>

definition answer_value ::
    "('f, 'x) float_ops_scheme \<Rightarrow> ('f, 't) sup_env \<Rightarrow> sup_answer \<Rightarrow> 'f json sup" where
  "answer_value F E ans =
     (case ans of
        HttpFails body shown \<Rightarrow> Inl (ConfigError (http_error_message F E body shown))
      | Unreachable shown \<Rightarrow> Inl (ConfigError shown)
      | OpenRaises e \<Rightarrow> Inl (Other e)
      | Body raw \<Rightarrow>
          (if raw = [] then Inr JNull
           else case se_loads E raw of
                  Parsed v \<Rightarrow> unwrap_answer F (se_repr E) v
                | NotJson \<Rightarrow> Inl (ConfigError bad_answer)
                | ParseRaises e \<Rightarrow> Inl (Other e)))"

definition supervisor_request ::
    "('f, 'x) float_ops_scheme \<Rightarrow> ('f, 't) sup_env \<Rightarrow> string \<Rightarrow> string \<Rightarrow> 'f json option \<Rightarrow> 'f sup_log \<Rightarrow>
      'f sup_log \<times> 'f json sup" where
  "supervisor_request F E meth path payload calls =
     (case sup_token E of
        Inl e \<Rightarrow> (calls, Inl e)
      | Inr token \<Rightarrow>
          (let rq = \<lparr>sq_token = token, sq_accept = ''application/json'', sq_method = meth,
                     sq_path = path, sq_body = payload\<rparr>;
               ans = se_service E calls rq
           in (calls @ [(rq, ans)], answer_value F E ans)))"

section \<open>The process log\<close>

text \<open>\<open>bytes.decode("utf-8", errors="replace")\<close>: how many bytes a sequence needs and what its
  second byte may be, then each well-formed sequence as it is and each maximal broken prefix as
  one replacement character.\<close>

definition utf8_need :: "char \<Rightarrow> nat \<times> nat \<times> nat" where
  "utf8_need c =
     (let n = of_char c :: nat
      in if n < 128 then (1, 0, 0)
         else if 194 \<le> n \<and> n \<le> 223 then (2, 128, 191)
         else if n = 224 then (3, 160, 191)
         else if n = 237 then (3, 128, 159)
         else if 225 \<le> n \<and> n \<le> 239 then (3, 128, 191)
         else if n = 240 then (4, 144, 191)
         else if 241 \<le> n \<and> n \<le> 243 then (4, 128, 191)
         else if n = 244 then (4, 128, 143)
         else (0, 0, 0))"

definition byte_in :: "nat \<Rightarrow> nat \<Rightarrow> char \<Rightarrow> bool" where
  "byte_in lo hi c \<longleftrightarrow> lo \<le> of_char c \<and> of_char c \<le> hi"

definition utf8_good :: "char \<Rightarrow> string \<Rightarrow> nat" where
  "utf8_good c cs =
     (case utf8_need c of
        (need, lo, hi) \<Rightarrow>
          if need < 2 then need
          else case cs of
                 [] \<Rightarrow> 1
               | d # ds \<Rightarrow>
                   if byte_in lo hi d
                   then 2 + length (takeWhile (byte_in 128 191) (take (need - 2) ds)) else 1)"

function utf8_replace :: "string \<Rightarrow> string" where
  "utf8_replace [] = []"
| "utf8_replace (c # cs) =
     (if utf8_good c cs = fst (utf8_need c) \<and> 0 < utf8_good c cs
      then take (utf8_good c cs) (c # cs) @ utf8_replace (drop (utf8_good c cs) (c # cs))
      else replacement_char @ utf8_replace (drop (max 1 (utf8_good c cs)) (c # cs)))"
  by pat_completeness auto

termination utf8_replace
  by (relation "measure length") (auto simp: max_def)

definition supervisor_text_request ::
    "('f, 't) sup_env \<Rightarrow> string \<Rightarrow> 'f sup_log \<Rightarrow> 'f sup_log \<times> string sup" where
  "supervisor_text_request E path calls =
     (case sup_token E of
        Inl e \<Rightarrow> (calls, Inl e)
      | Inr token \<Rightarrow>
          (let rq = \<lparr>sq_token = token, sq_accept = ''text/plain'', sq_method = ''GET'',
                     sq_path = path, sq_body = None\<rparr>;
               ans = se_service E calls rq
           in (calls @ [(rq, ans)],
               case ans of
                 HttpFails body shown \<Rightarrow> Inl (ConfigError shown)
               | Unreachable shown \<Rightarrow> Inl (ConfigError shown)
               | OpenRaises e \<Rightarrow> Inl (Other e)
               | Body raw \<Rightarrow> Inr (utf8_replace raw))))"

text \<open>\<open>str.splitlines\<close>: the length of the line break a text begins with, and the lines.\<close>

definition break_len :: "string \<Rightarrow> nat" where
  "break_len s =
     (case s of
        [] \<Rightarrow> 0
      | c # cs \<Rightarrow>
          (let n = of_char c :: nat
           in if n = 13 then (if cs \<noteq> [] \<and> hd cs = CHR 0x0A then 2 else 1)
              else if n \<in> {10, 11, 12, 28, 29, 30} then 1
              else if take 2 s = [CHR 0xC2, CHR 0x85] then 2
              else if take 3 s = [CHR 0xE2, CHR 0x80, CHR 0xA8] \<or>
                      take 3 s = [CHR 0xE2, CHR 0x80, CHR 0xA9] then 3
              else 0))"

function log_lines :: "string \<Rightarrow> string \<Rightarrow> string list" where
  "log_lines cur [] = (if cur = [] then [] else [rev cur])"
| "log_lines cur (c # cs) =
     (if break_len (c # cs) = 0 then log_lines (c # cur) cs
      else rev cur # log_lines [] (drop (break_len (c # cs)) (c # cs)))"
  by pat_completeness auto

termination log_lines
  by (relation "measure (\<lambda>(cur, s). length s)") auto

fun take_chars :: "nat \<Rightarrow> string \<Rightarrow> string" where
  "take_chars 0 s = []"
| "take_chars (Suc n) [] = []"
| "take_chars (Suc n) (c # cs) =
     c # takeWhile (byte_in 128 191) cs @ take_chars n (dropWhile (byte_in 128 191) cs)"

fun lines_from :: "(string \<Rightarrow> 't option) \<Rightarrow> 't::linorder \<Rightarrow> string list \<Rightarrow> string list" where
  "lines_from stamp threshold [] = []"
| "lines_from stamp threshold (line # rest) =
     (case stamp (take_chars 23 line) of
        Some time \<Rightarrow> if threshold \<le> time then line # rest else lines_from stamp threshold rest
      | None \<Rightarrow> lines_from stamp threshold rest)"

definition logs_since_process_start :: "('f, 't::linorder) sup_env \<Rightarrow> string \<Rightarrow> string" where
  "logs_since_process_start E raw =
     (case se_threshold E of
        None \<Rightarrow> []
      | Some threshold \<Rightarrow>
          join_with [CHR 0x0A] (lines_from (se_stamp E) threshold (log_lines [] raw)))"

text \<open>What follows the last occurrence of a marker, \<open>str.rfind\<close> and the slice after it.\<close>

fun after_last :: "string \<Rightarrow> string \<Rightarrow> string option" where
  "after_last m [] = (if m = [] then Some [] else None)"
| "after_last m (c # cs) =
     (case after_last m cs of
        Some rest \<Rightarrow> Some rest
      | None \<Rightarrow>
          if take (length m) (c # cs) = m then Some (drop (length m) (c # cs)) else None)"

definition log_marker :: "('f, 't) sup_env \<Rightarrow> string" where
  "log_marker E = ''--- '' @ se_marker E @ '' ---''"

definition mark_process_log_start :: "('f, 't) sup_env \<Rightarrow> string" where
  "mark_process_log_start E = log_marker E @ [CHR 0x0A]"

definition line_end :: "char \<Rightarrow> bool" where
  "line_end c \<longleftrightarrow> c = CHR 0x0D \<or> c = CHR 0x0A"

definition log_view :: "string \<Rightarrow> string \<Rightarrow> bool \<Rightarrow> (string \<times> 'f json) list" where
  "log_view logs started found =
     [(''logs'', JStr logs), (''started_at'', JStr started), (''marker_found'', JBool found)]"

definition get_current_process_logs ::
    "('f, 't::linorder) sup_env \<Rightarrow> 'f sup_log \<Rightarrow> 'f sup_log \<times> (string \<times> 'f json) list sup" where
  "get_current_process_logs E calls =
     (case supervisor_text_request E ''/addons/self/logs'' calls of
        (calls', Inl e) \<Rightarrow> (calls', Inl e)
      | (calls', Inr raw) \<Rightarrow>
          (case after_last (log_marker E) raw of
             Some rest \<Rightarrow>
               (calls', Inr (log_view (dropWhile line_end rest) (se_started E) True))
           | None \<Rightarrow>
               (let logs = logs_since_process_start E raw
                in (calls', Inr (log_view logs (se_started E) (logs \<noteq> []))))))"

section \<open>Options\<close>

definition option_defaults :: "(string \<times> 'f json) list" where
  "option_defaults =
     [(''SOURCE_MQTT_HOST'', JStr ''homeassistant.local''), (''SOURCE_MQTT_PORT'', JInt 7006),
      (''SOURCE_MQTT_TLS'', JBool True), (''SOURCE_MQTT_USER'', JStr ''''),
      (''SOURCE_MQTT_PASS'', JStr ''''), (''TARGET_MQTT_HOST'', JStr ''homeassistant.local''),
      (''TARGET_MQTT_PORT'', JInt 1883), (''TARGET_MQTT_TLS'', JBool False),
      (''TARGET_MQTT_USER'', JStr ''''), (''TARGET_MQTT_PASS'', JStr ''''),
      (''MQTT_CLIENT_SUFFIX'', JStr ''''), (''HA_BASE_TOPIC'', JStr ''homeassistant''),
      (''GROWATT_CLOUD'', JBool False), (''GROWATT_CLOUD_CONFIG_FILTER'', JBool False),
      (''LOG_LEVEL'', JStr ''ERROR''), (''DUMP_MESSAGES'', JBool False),
      (''DUMP_DIR'', JStr ''/share/GroBro/dump''), (''REGISTER_DEBUG'', JBool False),
      (''REGISTER_DEBUG_DIR'', JStr ''/share/GroBro/register_debug''),
      (''REGISTER_DEBUG_MAX_REGISTER'', JInt 65535), (''REGISTER_DEBUG_CHANGES_ONLY'', JBool True),
      (''DEVICE_TIMEOUT'', JInt 120), (''MAX_SLOTS'', JInt 1), (''MAX_BAT'', JStr ''auto''),
      (''AVAILABILITY_SENSOR'', JBool False), (''TZ'', JStr ''''),
      (''KEEP_BATTERY_POSITION'', JBool False)]"

definition allowed_options :: "string list" where
  "allowed_options =
     [''SOURCE_MQTT_HOST'', ''SOURCE_MQTT_PORT'', ''SOURCE_MQTT_TLS'', ''SOURCE_MQTT_USER'',
      ''SOURCE_MQTT_PASS'', ''TARGET_MQTT_HOST'', ''TARGET_MQTT_PORT'', ''TARGET_MQTT_TLS'',
      ''TARGET_MQTT_USER'', ''TARGET_MQTT_PASS'', ''MQTT_CLIENT_SUFFIX'', ''HA_BASE_TOPIC'',
      ''GROWATT_CLOUD'', ''GROWATT_CLOUD_CONFIG_FILTER'', ''LOG_LEVEL'', ''DUMP_MESSAGES'',
      ''DUMP_DIR'', ''REGISTER_DEBUG'', ''REGISTER_DEBUG_DIR'', ''REGISTER_DEBUG_MAX_REGISTER'',
      ''REGISTER_DEBUG_CHANGES_ONLY'', ''DEVICE_TIMEOUT'', ''MAX_SLOTS'', ''MAX_BAT'',
      ''AVAILABILITY_SENSOR'', ''TZ'', ''KEEP_BATTERY_POSITION'']"

definition retired_options :: "string list" where
  "retired_options = [''PUBLISH_SENSORS_RETAINED'', ''FILTER_DATA_GLITCHES'']"

fun is_jbool :: "'f json \<Rightarrow> bool" where
  "is_jbool (JBool b) = True"
| "is_jbool _ = False"

definition bool_options :: "string list" where
  "bool_options = map fst (filter (\<lambda>(k, v). is_jbool v) (option_defaults :: (string \<times> unit json) list))"

definition int_options :: "string list" where
  "int_options =
     [''SOURCE_MQTT_PORT'', ''TARGET_MQTT_PORT'', ''REGISTER_DEBUG_MAX_REGISTER'',
      ''DEVICE_TIMEOUT'', ''MAX_SLOTS'']"

definition bad_number :: "string \<Rightarrow> 'a sup" where
  "bad_number key = Inl (ConfigError (key @ '': ung'' @ u_umlaut @ ''ltige Zahl''))"

text \<open>A float that is no whole number.\<close>

definition fractional :: "('f, 'x) float_ops_scheme \<Rightarrow> 'f json \<Rightarrow> int \<Rightarrow> bool" where
  "fractional F v number = (case v of JFloat x \<Rightarrow> \<not> fl_eq F x (fl_of_int F number) | _ \<Rightarrow> False)"

definition normalize_int :: "('f, 'x) float_ops_scheme \<Rightarrow> string \<Rightarrow> 'f json \<Rightarrow> 'f json sup" where
  "normalize_int F key v =
     (if is_jbool v then Inl (ConfigError (key @ '': Zahl erwartet''))
      else case json_int F v of
             None \<Rightarrow> bad_number key
           | Some number \<Rightarrow>
               if fractional F v number then bad_number key
               else if key \<in> {''SOURCE_MQTT_PORT'', ''TARGET_MQTT_PORT''} \<and> \<not> (1 \<le> number \<and> number \<le> 65535)
               then Inl (ConfigError (key @ '': Port muss zwischen 1 und 65535 liegen''))
               else if key = ''REGISTER_DEBUG_MAX_REGISTER'' \<and> \<not> (0 \<le> number \<and> number \<le> 65535)
               then Inl (ConfigError ''REGISTER_DEBUG_MAX_REGISTER muss zwischen 0 und 65535 liegen'')
               else if key = ''DEVICE_TIMEOUT'' \<and> number < 0
               then Inl (ConfigError ''DEVICE_TIMEOUT darf nicht negativ sein'')
               else if key = ''MAX_SLOTS'' \<and> \<not> (1 \<le> number \<and> number \<le> 9)
               then Inl (ConfigError ''MAX_SLOTS muss zwischen 1 und 9 liegen'')
               else Inr (JInt number))"

text \<open>A lone surrogate is an \<open>ED\<close> byte followed by one from \<open>A0\<close> up: \<open>str.encode("utf-8")\<close> refuses it.\<close>

fun has_surrogate :: "string \<Rightarrow> bool" where
  "has_surrogate (c # d # cs) = (c = CHR 0xED \<and> byte_in 160 191 d \<or> has_surrogate (d # cs))"
| "has_surrogate _ = False"

definition option_text :: "('f, 'x) float_ops_scheme \<Rightarrow> ('f json \<Rightarrow> string) \<Rightarrow> string \<Rightarrow> 'f json \<Rightarrow> string" where
  "option_text F rp key v =
     (let s = (case v of JNull \<Rightarrow> [] | _ \<Rightarrow> json_str F rp v)
      in if key \<in> {''SOURCE_MQTT_PASS'', ''TARGET_MQTT_PASS''} then s else py_strip s)"

text \<open>The checks of one text option after stripping, each key its own.\<close>

definition check_text :: "string \<Rightarrow> string \<Rightarrow> string sup" where
  "check_text key s =
     (if key \<in> {''SOURCE_MQTT_HOST'', ''TARGET_MQTT_HOST''} \<and> s = []
      then Inl (ConfigError (key @ '': MQTT-Host darf nicht leer sein''))
      else if key = ''HA_BASE_TOPIC'' \<and> (CHR ''+'' \<in> set s \<or> CHR ''#'' \<in> set s \<or> CHR 0x00 \<in> set s)
      then Inl (ConfigError (''HA_BASE_TOPIC enth'' @ [CHR 0xC3, CHR 0xA4] @ ''lt ung'' @ u_umlaut @
             ''ltige MQTT-Zeichen''))
      else if key = ''HA_BASE_TOPIC'' \<and> has_surrogate s
      then Inl (ConfigError (''HA_BASE_TOPIC ist kein g'' @ u_umlaut @ ''ltiger UTF-8-Text''))
      else if key = ''LOG_LEVEL''
      then (if py_upper s \<in> {''ERROR'', ''INFO'', ''DEBUG''} then Inr (py_upper s)
            else Inl (ConfigError (''LOG_LEVEL ist ung'' @ u_umlaut @ ''ltig'')))
      else if key = ''MAX_BAT'' \<and> s \<noteq> ''auto''
      then (case py_int_of_str s of
              None \<Rightarrow> Inl (ConfigError (''MAX_BAT ist ung'' @ u_umlaut @ ''ltig''))
            | Some count \<Rightarrow>
                if 1 \<le> count \<and> count \<le> 4 then Inr (str_of_int count)
                else Inl (ConfigError ''MAX_BAT muss auto oder 1 bis 4 sein''))
      else Inr s)"

definition normalize_option ::
    "('f, 'x) float_ops_scheme \<Rightarrow> ('f json \<Rightarrow> string) \<Rightarrow> string \<Rightarrow> 'f json \<Rightarrow> 'f json sup" where
  "normalize_option F rp key v =
     (if key \<in> set bool_options
      then (if is_jbool v then Inr v else Inl (ConfigError (key @ '': boolescher Wert erwartet'')))
      else if key \<in> set int_options then normalize_int F key v
      else case v of
             JArr xs \<Rightarrow> Inl (ConfigError (key @ '': Text erwartet''))
           | JObj d \<Rightarrow> Inl (ConfigError (key @ '': Text erwartet''))
           | _ \<Rightarrow> bindE (check_text key (option_text F rp key v)) (\<lambda>s. Inr (JStr s)))"

fun normalize_items ::
    "('f, 'x) float_ops_scheme \<Rightarrow> ('f json \<Rightarrow> string) \<Rightarrow> (string \<times> 'f json) list \<Rightarrow>
      (string \<times> 'f json) list sup" where
  "normalize_items F rp [] = Inr []"
| "normalize_items F rp ((key, v) # items) =
     (if key \<notin> set allowed_options then normalize_items F rp items
      else bindE (normalize_option F rp key v)
             (\<lambda>w. bindE (normalize_items F rp items) (\<lambda>rest. Inr ((key, w) # rest))))"

definition normalize_options ::
    "('f, 'x) float_ops_scheme \<Rightarrow> ('f json \<Rightarrow> string) \<Rightarrow> 'f json \<Rightarrow> (string \<times> 'f json) list sup" where
  "normalize_options F rp raw =
     (case raw of
        JObj items \<Rightarrow> normalize_items F rp items
      | _ \<Rightarrow> Inl (ConfigError (''Ung'' @ u_umlaut @ ''ltige Optionen'')))"

section \<open>Reading and saving\<close>

definition get_home_assistant_language ::
    "('f, 'x) float_ops_scheme \<Rightarrow> ('f, 't) sup_env \<Rightarrow> string \<Rightarrow> 'f sup_log \<Rightarrow> 'f sup_log \<times> string sup" where
  "get_home_assistant_language F E fallback calls =
     (case supervisor_request F E ''GET'' ''/homeassistant/api/config'' None calls of
        (calls', Inl (ConfigError m)) \<Rightarrow> (calls', Inr fallback)
      | (calls', Inl e) \<Rightarrow> (calls', Inl e)
      | (calls', Inr config) \<Rightarrow>
          (calls', Inr
            (if \<not> json_true F config then fallback
             else case config of
                    JObj d \<Rightarrow>
                      (let language = (case dict_get d ''language'' of
                             Some v \<Rightarrow> if json_true F v then json_str F (se_repr E) v else fallback
                           | None \<Rightarrow> fallback);
                           tidy = map (\<lambda>c. if c = CHR ''_'' then CHR ''-'' else c) (py_strip language)
                       in if tidy = [] then fallback else tidy)
                  | _ \<Rightarrow> fallback)))"

definition addon_info ::
    "('f, 'x) float_ops_scheme \<Rightarrow> ('f, 't) sup_env \<Rightarrow> 'f sup_log \<Rightarrow>
      'f sup_log \<times> ((string \<times> 'f json) list \<times> (string \<times> 'f json) list) sup" where
  "addon_info F E calls =
     (case supervisor_request F E ''GET'' ''/addons/self/info'' None calls of
        (calls', Inl e) \<Rightarrow> (calls', Inl e)
      | (calls', Inr info) \<Rightarrow>
          (calls', case info of
             JObj d \<Rightarrow>
               (case dict_get d ''options'' of
                  Some (JObj options) \<Rightarrow> Inr (d, options)
                | _ \<Rightarrow> Inl (ConfigError bad_answer))
           | _ \<Rightarrow> Inl (ConfigError bad_answer)))"

definition without_retired :: "(string, 'v) dict \<Rightarrow> (string, 'v) dict" where
  "without_retired d = filter (\<lambda>(k, v). k \<notin> set retired_options) d"

definition timeout_valid :: "('f, 'x) float_ops_scheme \<Rightarrow> (string, 'f json) dict \<Rightarrow> bool" where
  "timeout_valid F options =
     (let v = (case dict_get options ''DEVICE_TIMEOUT'' of None \<Rightarrow> JInt 120 | Some v \<Rightarrow> v)
      in case json_int F (if json_true F v then v else JInt 0) of
           None \<Rightarrow> False
         | Some n \<Rightarrow> 0 < n)"

definition effective_options ::
    "('f, 'x) float_ops_scheme \<Rightarrow> (string, 'f json) dict \<Rightarrow> (string, 'f json) dict" where
  "effective_options F raw =
     (let options = dict_update option_defaults (without_retired raw)
      in if timeout_valid F options then options
         else dict_set ''DEVICE_TIMEOUT'' (JInt 120) options)"

definition get_addon_options ::
    "('f, 'x) float_ops_scheme \<Rightarrow> ('f, 't) sup_env \<Rightarrow> 'f sup_log \<Rightarrow>
      'f sup_log \<times> (string \<times> 'f json) list sup" where
  "get_addon_options F E calls =
     (case addon_info F E calls of
        (calls1, Inl e) \<Rightarrow> (calls1, Inl e)
      | (calls1, Inr (info, raw)) \<Rightarrow>
          (let pick = (\<lambda>k. case dict_get info k of None \<Rightarrow> JNull | Some v \<Rightarrow> v)
           in case get_home_assistant_language F E ''en'' calls1 of
                (calls2, Inl e) \<Rightarrow> (calls2, Inl e)
              | (calls2, Inr language) \<Rightarrow>
                  (calls2, Inr [(''options'', JObj (effective_options F raw)),
                     (''version'', pick ''version''), (''state'', pick ''state''),
                     (''language'', JStr language)])))"

definition save_addon_options ::
    "('f, 'x) float_ops_scheme \<Rightarrow> ('f, 't) sup_env \<Rightarrow> 'f json \<Rightarrow> 'f sup_log \<Rightarrow>
      'f sup_log \<times> (string \<times> 'f json) list sup" where
  "save_addon_options F E raw_changes calls =
     (case normalize_options F (se_repr E) raw_changes of
        Inl e \<Rightarrow> (calls, Inl e)
      | Inr changes \<Rightarrow>
          (case addon_info F E calls of
             (calls1, Inl e) \<Rightarrow> (calls1, Inl e)
           | (calls1, Inr (info, current)) \<Rightarrow>
               (let merged = dict_update (without_retired current) changes
                in case supervisor_request F E ''POST'' ''/addons/self/options''
                          (Some (JObj [(''options'', JObj merged)])) calls1 of
                     (calls2, Inl e) \<Rightarrow> (calls2, Inl e)
                   | (calls2, Inr answer) \<Rightarrow> (calls2, Inr merged))))"

text \<open>
  The restart: the worker's request, whose \<open>SupervisorConfigError\<close> is dropped. The worker runs in a
  thread of its own, later, or at once when no thread can be started.
\<close>

definition restart_worker ::
    "('f, 'x) float_ops_scheme \<Rightarrow> ('f, 't) sup_env \<Rightarrow> 'f sup_log \<Rightarrow> 'f sup_log \<times> unit sup" where
  "restart_worker F E calls =
     (case supervisor_request F E ''POST'' ''/addons/self/restart'' (Some (JObj [])) calls of
        (calls', Inl (ConfigError m)) \<Rightarrow> (calls', Inr ())
      | (calls', Inl e) \<Rightarrow> (calls', Inl e)
      | (calls', Inr answer) \<Rightarrow> (calls', Inr ()))"

definition schedule_restart ::
    "('f, 'x) float_ops_scheme \<Rightarrow> ('f, 't) sup_env \<Rightarrow> bool \<Rightarrow> nat \<times> 'f sup_log \<Rightarrow> (nat \<times> 'f sup_log) \<times> unit sup" where
  "schedule_restart F E thread_starts st =
     (case st of
        (waiting, calls) \<Rightarrow>
          if thread_starts then ((Suc waiting, calls), Inr ())
          else (case restart_worker F E calls of (calls', r) \<Rightarrow> ((waiting, calls'), r)))"

section \<open>What the options must satisfy\<close>

text \<open>
  The schema of the options, independent of the code's checks: the numbers an option may hold, the
  texts it may hold, the values it may hold once saved, and the values the page may send for it.
\<close>

definition number_ok :: "string \<Rightarrow> int \<Rightarrow> bool" where
  "number_ok key n \<longleftrightarrow>
     (if key = ''REGISTER_DEBUG_MAX_REGISTER'' then n \<in> {0..65535}
      else if key = ''DEVICE_TIMEOUT'' then 0 \<le> n
      else if key = ''MAX_SLOTS'' then n \<in> {1..9}
      else key \<in> {''SOURCE_MQTT_PORT'', ''TARGET_MQTT_PORT''} \<and> n \<in> {1..65535})"

definition text_ok :: "string \<Rightarrow> string \<Rightarrow> bool" where
  "text_ok key s \<longleftrightarrow>
     (if key = ''LOG_LEVEL'' then s \<in> {''ERROR'', ''INFO'', ''DEBUG''}
      else if key = ''MAX_BAT'' then s \<in> {''auto'', ''1'', ''2'', ''3'', ''4''}
      else if key = ''HA_BASE_TOPIC''
      then set s \<inter> {CHR ''+'', CHR ''#'', CHR 0x00} = {} \<and> \<not> has_surrogate s \<and> py_strip s = s
      else if key \<in> {''SOURCE_MQTT_HOST'', ''TARGET_MQTT_HOST''} then s \<noteq> [] \<and> py_strip s = s
      else key \<in> {''SOURCE_MQTT_PASS'', ''TARGET_MQTT_PASS''} \<or> py_strip s = s)"

definition option_ok :: "string \<Rightarrow> 'f json \<Rightarrow> bool" where
  "option_ok key v \<longleftrightarrow>
     (case v of
        JBool b \<Rightarrow> key \<in> set bool_options
      | JInt n \<Rightarrow> key \<in> set int_options \<and> number_ok key n
      | JStr s \<Rightarrow> key \<notin> set bool_options \<and> key \<notin> set int_options \<and> text_ok key s
      | _ \<Rightarrow> False)"

definition text_accepted :: "string \<Rightarrow> string \<Rightarrow> bool" where
  "text_accepted key s \<longleftrightarrow>
     (if key = ''LOG_LEVEL'' then py_upper s \<in> {''ERROR'', ''INFO'', ''DEBUG''}
      else if key = ''MAX_BAT'' then s = ''auto'' \<or> py_int_of_str s \<in> Some ` {1..4}
      else if key = ''HA_BASE_TOPIC''
      then set s \<inter> {CHR ''+'', CHR ''#'', CHR 0x00} = {} \<and> \<not> has_surrogate s
      else key \<in> {''SOURCE_MQTT_HOST'', ''TARGET_MQTT_HOST''} \<longrightarrow> s \<noteq> [])"

definition option_accepted ::
    "('f, 'x) float_ops_scheme \<Rightarrow> ('f json \<Rightarrow> string) \<Rightarrow> string \<Rightarrow> 'f json \<Rightarrow> bool" where
  "option_accepted F rp key v \<longleftrightarrow>
     (if key \<in> set bool_options then is_jbool v
      else if key \<in> set int_options
      then \<not> is_jbool v \<and>
           (case json_int F v of None \<Rightarrow> False | Some n \<Rightarrow> \<not> fractional F v n \<and> number_ok key n)
      else (case v of
              JArr xs \<Rightarrow> False
            | JObj d \<Rightarrow> False
            | _ \<Rightarrow> text_accepted key (option_text F rp key v)))"

definition options_accepted ::
    "('f, 'x) float_ops_scheme \<Rightarrow> ('f json \<Rightarrow> string) \<Rightarrow> 'f json \<Rightarrow> bool" where
  "options_accepted F rp raw \<longleftrightarrow>
     (case raw of
        JObj items \<Rightarrow>
          list_all (\<lambda>(k, v). k \<in> set allowed_options \<longrightarrow> option_accepted F rp k v) items
      | _ \<Rightarrow> False)"

section \<open>Lemmas\<close>

lemma bool_options_code:
  "bool_options =
     [''SOURCE_MQTT_TLS'', ''TARGET_MQTT_TLS'', ''GROWATT_CLOUD'', ''GROWATT_CLOUD_CONFIG_FILTER'',
      ''DUMP_MESSAGES'', ''REGISTER_DEBUG'', ''REGISTER_DEBUG_CHANGES_ONLY'', ''AVAILABILITY_SENSOR'',
      ''KEEP_BATTERY_POSITION'']"
  by (simp add: bool_options_def option_defaults_def)

lemma defaults_allowed: "map fst option_defaults = allowed_options"
  by (simp add: option_defaults_def allowed_options_def)

lemma bool_or_int: "k \<in> set int_options \<Longrightarrow> k \<notin> set bool_options"
  by (auto simp: int_options_def bool_options_code)

lemma upper_idem [simp]: "py_upper (py_upper s) = py_upper s"
proof -
  have "upper_char (upper_char c) = upper_char c" for c
    by (auto simp: upper_char_def Let_def)
  then show ?thesis by (simp add: py_upper_def)
qed

lemma level_upper: "s \<in> {''ERROR'', ''INFO'', ''DEBUG''} \<Longrightarrow> py_upper s = s \<and> py_strip s = s"
  by (auto simp: py_upper_def upper_char_def py_strip_def strip_by_def rstrip_by_def py_space_def)

lemma str_small:
  "str_of_int 1 = ''1''" "str_of_int 2 = ''2''" "str_of_int 3 = ''3''" "str_of_int 4 = ''4''"
  by code_simp+

lemma packs_text:
  assumes "1 \<le> n" "n \<le> (4 :: int)"
  shows "str_of_int n \<in> {''1'', ''2'', ''3'', ''4''}"
proof -
  from assms have "n \<in> {1, 2, 3, 4}" by auto
  then show ?thesis by (auto simp: str_small)
qed

lemma packs_parse:
  assumes "s \<in> {''auto'', ''1'', ''2'', ''3'', ''4''}"
  shows "py_strip s = s \<and>
    (s = ''auto'' \<or> (\<exists>n. py_int_of_str s = Some n \<and> 1 \<le> n \<and> n \<le> 4 \<and> str_of_int n = s))"
proof -
  have "{1..4 :: int} = {1, 2, 3, 4}" by auto
  with assms have "s = ''auto'' \<or> s \<in> str_of_int ` {1..4}" by (simp add: str_small)
  then consider "s = ''auto''" | n where "1 \<le> n" "n \<le> 4" "s = str_of_int n" by auto
  then show ?thesis
  proof cases
    case 1
    then show ?thesis by (simp add: py_strip_def strip_by_def rstrip_by_def py_space_def)
  next
    case 2
    have "py_strip (str_of_int n) = str_of_int n"
      using 2(1) by (simp add: str_of_int_def py_strip_str_of_nat)
    with 2 show ?thesis by (auto simp: py_int_str_of_int)
  qed
qed

lemma normalize_int_spec:
  assumes "key \<in> set int_options"
  shows "case normalize_int F key v of
    Inr w \<Rightarrow> (\<exists>n. json_int F v = Some n \<and> w = JInt n \<and> \<not> is_jbool v \<and> \<not> fractional F v n \<and> number_ok key n)
  | Inl e \<Rightarrow> (\<exists>m. e = ConfigError m) \<and>
      \<not> (\<not> is_jbool v \<and> (case json_int F v of None \<Rightarrow> False
          | Some n \<Rightarrow> \<not> fractional F v n \<and> number_ok key n))"
  using assms
  by (auto simp: normalize_int_def bad_number_def int_options_def number_ok_def split: option.splits)

text \<open>One equation per kind of text option.\<close>

lemma check_text_kinds:
  "check_text ''LOG_LEVEL'' s =
     (if py_upper s \<in> {''ERROR'', ''INFO'', ''DEBUG''} then Inr (py_upper s)
      else Inl (ConfigError (''LOG_LEVEL ist ung'' @ u_umlaut @ ''ltig'')))"
  "check_text ''MAX_BAT'' s =
     (if s = ''auto'' then Inr s
      else case py_int_of_str s of
              None \<Rightarrow> Inl (ConfigError (''MAX_BAT ist ung'' @ u_umlaut @ ''ltig''))
            | Some count \<Rightarrow>
                if 1 \<le> count \<and> count \<le> 4 then Inr (str_of_int count)
                else Inl (ConfigError ''MAX_BAT muss auto oder 1 bis 4 sein''))"
  "check_text ''HA_BASE_TOPIC'' s =
     (if CHR ''+'' \<in> set s \<or> CHR ''#'' \<in> set s \<or> CHR 0x00 \<in> set s
      then Inl (ConfigError (''HA_BASE_TOPIC enth'' @ [CHR 0xC3, CHR 0xA4] @ ''lt ung'' @ u_umlaut @
             ''ltige MQTT-Zeichen''))
      else if has_surrogate s
      then Inl (ConfigError (''HA_BASE_TOPIC ist kein g'' @ u_umlaut @ ''ltiger UTF-8-Text''))
      else Inr s)"
  "key \<in> {''SOURCE_MQTT_HOST'', ''TARGET_MQTT_HOST''} \<Longrightarrow>
   check_text key s = (if s = [] then Inl (ConfigError (key @ '': MQTT-Host darf nicht leer sein'')) else Inr s)"
  "key \<notin> {''LOG_LEVEL'', ''MAX_BAT'', ''HA_BASE_TOPIC'', ''SOURCE_MQTT_HOST'', ''TARGET_MQTT_HOST''} \<Longrightarrow>
   check_text key s = Inr s"
  by (simp_all add: check_text_def, auto)

lemma five_cases:
  "(k = a \<Longrightarrow> P) \<Longrightarrow> (k = b \<Longrightarrow> P) \<Longrightarrow> (k = c \<Longrightarrow> P) \<Longrightarrow> (k \<in> {d, e} \<Longrightarrow> P) \<Longrightarrow>
   (k \<notin> {a, b, c, d, e} \<Longrightarrow> P) \<Longrightarrow> P"
  by blast

lemmas text_kind_cases =
  five_cases [of _ "''LOG_LEVEL''" _ "''MAX_BAT''" "''HA_BASE_TOPIC''" "''SOURCE_MQTT_HOST''"
    "''TARGET_MQTT_HOST''", case_names 1 2 3 4 5]

lemma check_text_spec:
  "case check_text key s of
     Inr w \<Rightarrow> text_accepted key s
   | Inl e \<Rightarrow> (\<exists>m. e = ConfigError m) \<and> \<not> text_accepted key s"
proof (cases key rule: text_kind_cases)
  case 4
  then show ?thesis by (simp only: check_text_kinds(4) [OF 4]) (auto simp: text_accepted_def)
next
  case 5
  then show ?thesis by (simp only: check_text_kinds(5) [OF 5]) (auto simp: text_accepted_def)
qed (auto simp: check_text_kinds(1-3) text_accepted_def image_iff split: option.splits)

lemma check_text_ok:
  assumes "check_text key s = Inr w" and "key \<in> {''SOURCE_MQTT_PASS'', ''TARGET_MQTT_PASS''} \<or> py_strip s = s"
  shows "text_ok key w"
proof (cases key rule: text_kind_cases)
  case 2
  then show ?thesis
    using assms(1) packs_text by (auto simp: check_text_kinds(2) text_ok_def split: option.splits if_splits)
next
  case 4
  then show ?thesis using assms by (simp only: check_text_kinds(4) [OF 4]) (auto simp: text_ok_def split: if_splits)
next
  case 5
  then show ?thesis using assms by (simp only: check_text_kinds(5) [OF 5]) (auto simp: text_ok_def)
qed (use assms in \<open>auto simp: check_text_kinds(1-3) text_ok_def split: if_splits\<close>)

lemma check_text_fixed:
  assumes "text_ok key s"
  shows "check_text key s = Inr s"
proof (cases key rule: text_kind_cases)
  case 1
  with assms show ?thesis using level_upper [of s] by (auto simp: check_text_kinds(1) text_ok_def)
next
  case 2
  with assms show ?thesis using packs_parse [of s] by (auto simp: check_text_kinds(2) text_ok_def)
next
  case 4
  with assms show ?thesis by (simp only: check_text_kinds(4) [OF 4]) (auto simp: text_ok_def)
next
  case 5
  with assms show ?thesis by (simp only: check_text_kinds(5) [OF 5])
qed (use assms in \<open>auto simp: check_text_kinds(3) text_ok_def\<close>)

lemma text_ok_stripped:
  "text_ok key s \<Longrightarrow> key \<in> {''SOURCE_MQTT_PASS'', ''TARGET_MQTT_PASS''} \<or> py_strip s = s"
  using level_upper [of s] packs_parse [of s] by (auto simp: text_ok_def split: if_splits)

lemma option_text_stripped:
  "key \<in> {''SOURCE_MQTT_PASS'', ''TARGET_MQTT_PASS''} \<or> py_strip (option_text F rp key v) = option_text F rp key v"
  by (simp add: option_text_def Let_def py_strip_def)

lemma normalize_text:
  fixes v :: "'f json"
  assumes "key \<notin> set bool_options" "key \<notin> set int_options"
  shows "case bindE (check_text key (option_text F rp key v)) (\<lambda>s. Inr (JStr s) :: 'f json sup) of
    Inr w \<Rightarrow> text_accepted key (option_text F rp key v) \<and> option_ok key w
  | Inl e \<Rightarrow> (\<exists>m. e = ConfigError m) \<and> \<not> text_accepted key (option_text F rp key v)"
  using assms check_text_spec [of key "option_text F rp key v"]
    check_text_ok [of key "option_text F rp key v", OF _ option_text_stripped]
  by (cases "check_text key (option_text F rp key v)") (auto simp: option_ok_def)

lemma normalize_option_spec:
  "case normalize_option F rp key v of
     Inr w \<Rightarrow> option_accepted F rp key v \<and> option_ok key w
   | Inl e \<Rightarrow> (\<exists>m. e = ConfigError m) \<and> \<not> option_accepted F rp key v"
proof (cases "key \<in> set bool_options")
  case True
  then show ?thesis
    by (cases v) (auto simp: normalize_option_def option_accepted_def option_ok_def)
next
  case nb: False
  show ?thesis
  proof (cases "key \<in> set int_options")
    case True
    with nb normalize_int_spec [OF True, where F = F and v = v] show ?thesis
      by (auto simp: normalize_option_def option_accepted_def option_ok_def split: sum.splits)
  next
    case False
    with nb normalize_text [of key F rp v] show ?thesis
      by (cases v) (auto simp: normalize_option_def option_accepted_def split: sum.splits)
  qed
qed

lemma normalize_option_fixed:
  assumes "option_ok key w"
  shows "normalize_option F rp key w = Inr w"
proof (cases w)
  case (JInt n)
  with assms have "key \<in> set int_options" "number_ok key n" by (auto simp: option_ok_def)
  moreover have "normalize_int F key (JInt n) = Inr (JInt n)"
    using calculation
    by (auto simp: normalize_int_def json_int_def fractional_def number_ok_def split: if_splits)
  ultimately show ?thesis using JInt bool_or_int by (simp add: normalize_option_def)
next
  case (JStr s)
  with assms have k: "key \<notin> set bool_options" "key \<notin> set int_options" and ok: "text_ok key s"
    by (auto simp: option_ok_def)
  have "option_text F rp key (JStr s) = s"
    using text_ok_stripped [OF ok] by (auto simp: option_text_def json_str_def)
  with k ok JStr show ?thesis by (simp add: normalize_option_def check_text_fixed)
qed (use assms in \<open>auto simp: option_ok_def normalize_option_def\<close>)

lemma normalize_items_spec:
  "case normalize_items F rp items of
     Inr d \<Rightarrow> map fst d = filter (\<lambda>k. k \<in> set allowed_options) (map fst items) \<and>
       list_all (\<lambda>(k, w). k \<in> set allowed_options \<and> option_ok k w) d \<and>
       list_all (\<lambda>(k, v). k \<in> set allowed_options \<longrightarrow> option_accepted F rp k v) items
   | Inl e \<Rightarrow> (\<exists>m. e = ConfigError m) \<and>
       \<not> list_all (\<lambda>(k, v). k \<in> set allowed_options \<longrightarrow> option_accepted F rp k v) items"
proof (induction items)
  case (Cons item items)
  obtain key v where item: "item = (key, v)" by (cases item)
  with Cons normalize_option_spec [of F rp key v] show ?case
    by (cases "normalize_option F rp key v"; cases "normalize_items F rp items") auto
qed simp

lemma normalize_items_fixed:
  "list_all (\<lambda>(k, w). k \<in> set allowed_options \<and> option_ok k w) d \<Longrightarrow> normalize_items F rp d = Inr d"
  by (induction d) (auto simp: normalize_option_fixed)

text \<open>An item the page sends reaches the result with its normal form.\<close>

lemma normalize_items_get:
  "normalize_items F rp items = Inr d \<Longrightarrow>
   dict_get d k = (if k \<in> set allowed_options
     then (case dict_get items k of None \<Rightarrow> None
           | Some v \<Rightarrow> (case normalize_option F rp k v of Inr w \<Rightarrow> Some w | Inl e \<Rightarrow> None))
     else None)"
  by (induction items arbitrary: d) (auto simp: bindE_Inr_iff split: if_splits)

lemma dict_get_update_distinct:
  assumes "distinct (map fst e)"
  shows "dict_get (dict_update d e) key = (case dict_get e key of None \<Rightarrow> dict_get d key | Some v \<Rightarrow> Some v)"
proof -
  have "dict_get (rev e) = dict_get e"
    using assms by (intro map_of_inject_set [THEN iffD2]) (simp_all add: rev_map [symmetric])
  then show ?thesis by (simp add: dict_get_update map_add_def)
qed

lemma dict_get_without_retired:
  "dict_get (without_retired d) key = (if key \<in> set retired_options then None else dict_get d key)"
  by (induction d) (auto simp: without_retired_def)

lemma timeout_fallback: "timeout_valid F (dict_set ''DEVICE_TIMEOUT'' (JInt 120) d)"
  by (simp add: timeout_valid_def json_true_def json_int_def)

lemma dict_update_keeps: "dict_get d k \<noteq> None \<Longrightarrow> dict_get (dict_update d e) k \<noteq> None"
  by (simp add: dict_get_update map_add_def split: option.splits)

lemma dict_update_absent:
  "dict_get d k = None \<Longrightarrow> k \<notin> set (map fst e) \<Longrightarrow> dict_get (dict_update d e) k = None"
  using map_of_eq_None_iff [of "rev e" k] by (simp add: dict_get_update map_add_def)

lemma keys_without_retired: "k \<in> set (map fst (without_retired d)) \<Longrightarrow> k \<notin> set retired_options"
  by (auto simp: without_retired_def)

lemma default_present: "k \<in> set allowed_options \<Longrightarrow> dict_get option_defaults k \<noteq> None"
  unfolding map_of_eq_None_iff by (metis defaults_allowed image_set)

lemma retired_not_allowed: "k \<in> set retired_options \<Longrightarrow> k \<notin> set allowed_options"
  by (auto simp: retired_options_def allowed_options_def)

lemma effective_options_cover:
  assumes "k \<in> set allowed_options"
  shows "dict_get (effective_options F raw) k \<noteq> None"
  using dict_update_keeps [OF default_present [OF assms]]
  by (auto simp: effective_options_def Let_def update_conv')

lemma effective_options_retired:
  assumes "k \<in> set retired_options"
  shows "dict_get (effective_options F raw) k = None"
proof -
  have "dict_get option_defaults k = None"
    unfolding map_of_eq_None_iff using retired_not_allowed [OF assms] by (metis defaults_allowed image_set)
  then have "dict_get (dict_update option_defaults (without_retired raw)) k = None"
    using keys_without_retired assms by (blast intro: dict_update_absent)
  moreover have "k \<noteq> ''DEVICE_TIMEOUT''" using assms by (auto simp: retired_options_def)
  ultimately show ?thesis by (auto simp: effective_options_def Let_def update_conv')
qed

lemma effective_options_timeout: "timeout_valid F (effective_options F raw)"
  by (simp add: effective_options_def Let_def timeout_fallback)

text \<open>A request is recorded once, under the token, whatever it answers.\<close>

lemma supervisor_request_calls:
  "supervisor_request F E meth path payload calls = (calls', r) \<Longrightarrow>
   case sup_token E of
     Inl e \<Rightarrow> calls' = calls \<and> r = Inl e
   | Inr token \<Rightarrow>
       (\<exists>ans. calls' = calls @ [(\<lparr>sq_token = token, sq_accept = ''application/json'', sq_method = meth,
          sq_path = path, sq_body = payload\<rparr>, ans)])"
  by (auto simp: supervisor_request_def Let_def split: sum.splits)

lemma supervisor_request_grows:
  "supervisor_request F E meth path payload calls = (calls', r) \<Longrightarrow> prefix calls calls'"
  using supervisor_request_calls [of F E meth path payload calls calls' r] by (auto split: sum.splits)

lemma addon_info_grows: "addon_info F E calls = (calls', r) \<Longrightarrow> prefix calls calls'"
  by (auto simp: addon_info_def split: prod.splits sum.splits dest: supervisor_request_grows)

lemma language_grows: "get_home_assistant_language F E d calls = (calls', r) \<Longrightarrow> prefix calls calls'"
  by (auto simp: get_home_assistant_language_def split: prod.splits sum.splits sup_error.splits
      dest: supervisor_request_grows)

lemma supervisor_request_Inr:
  assumes "supervisor_request F E meth path payload calls = (calls', Inr v)"
  obtains token ans where "sup_token E = Inr token"
    "calls' = calls @ [(\<lparr>sq_token = token, sq_accept = ''application/json'', sq_method = meth,
      sq_path = path, sq_body = payload\<rparr>, ans)]"
  using supervisor_request_calls [OF assms] that by (auto split: sum.splits)

lemma addon_info_Inr:
  assumes "addon_info F E calls = (calls', Inr (info, options))"
  shows "supervisor_request F E ''GET'' ''/addons/self/info'' None calls = (calls', Inr (JObj info))"
    and "dict_get info ''options'' = Some (JObj options)"
  using assms by (auto simp: addon_info_def split: prod.splits sum.splits json.splits option.splits)

text \<open>The last occurrence of a marker.\<close>

lemma after_last_None: "after_last m s = None \<Longrightarrow> s \<noteq> p @ m @ r"
proof (induction s arbitrary: p)
  case Nil
  then show ?case by (auto split: if_splits)
next
  case (Cons c s)
  then show ?case by (cases p) (auto split: option.splits if_splits)
qed

lemma after_last_Some:
  "after_last m s = Some rest \<Longrightarrow>
   (\<exists>p. s = p @ m @ rest) \<and> (\<forall>p r. s = p @ m @ r \<longrightarrow> length rest \<le> length r)"
proof (induction s arbitrary: rest)
  case (Cons c s)
  show ?case
  proof (cases "after_last m s")
    case (Some r1)
    with Cons.prems have "r1 = rest" by simp
    note ih = Cons.IH [OF Some [unfolded this]]
    from ih obtain q where q: "s = q @ m @ rest" by blast
    then have "c # s = (c # q) @ m @ rest" by simp
    moreover have "length rest \<le> length r" if "c # s = p @ m @ r" for p r
    proof (cases p)
      case Nil
      with that q have "length m + length r = Suc (length q + length m + length rest)"
        by (metis append_Nil length_Cons length_append add.assoc)
      then show ?thesis by simp
    qed (use that ih in auto)
    ultimately show ?thesis by blast
  next
    case None
    with Cons.prems have t: "take (length m) (c # s) = m" "rest = drop (length m) (c # s)"
      by (auto split: if_splits)
    then have "c # s = [] @ m @ rest" by (metis append_Nil append_take_drop_id)
    moreover have "length rest \<le> length r" if "c # s = p @ m @ r" for p r
    proof (cases p)
      case Nil
      with that t show ?thesis by (simp add: append_eq_conv_conj)
    qed (use that after_last_None [OF None] in auto)
    ultimately show ?thesis by blast
  qed
qed (auto split: if_splits)

lemma append_split_shorter:
  "xs @ ys = zs @ ts \<Longrightarrow> length xs \<le> length zs \<Longrightarrow> \<exists>us. zs = xs @ us \<and> ys = us @ ts"
  by (auto simp: append_eq_append_conv2)

lemma after_last_found:
  assumes "\<And>p r. tl m @ t \<noteq> p @ m @ r" and "m \<noteq> []"
  shows "after_last m (old @ m @ t) = Some t"
proof (cases "after_last m (old @ m @ t)")
  case None
  then show ?thesis using after_last_None by blast
next
  case (Some rest)
  from after_last_Some [OF Some] obtain p where p: "old @ m @ t = p @ m @ rest"
    and short: "length rest \<le> length t" by blast
  have "length old \<le> length p"
  proof -
    have "length old + length t = length p + length rest"
      using arg_cong [OF p, of length] by simp
    with short show ?thesis by simp
  qed
  with p obtain q where q: "p = old @ q" "m @ t = q @ m @ rest"
    using append_split_shorter by blast
  show ?thesis
  proof (cases q)
    case Nil
    with q Some show ?thesis by simp
  next
    case (Cons c q1)
    with q(2) assms(2) have "tl m @ t = q1 @ m @ rest" by (cases m) auto
    with assms(1) show ?thesis by blast
  qed
qed

text \<open>A marker without a line break cannot begin inside its own line.\<close>

lemma marker_line_last:
  assumes "nl \<notin> set m" "m \<noteq> []" "after_last m new = None"
  shows "tl m @ nl # new \<noteq> p @ m @ r"
proof
  assume eq: "tl m @ nl # new = p @ m @ r"
  then consider us where "tl m @ us = p" "nl # new = us @ m @ r" | us where "tl m = p @ us" "us @ nl # new = m @ r"
    using append_eq_append_conv2 [THEN iffD1, OF eq] by blast
  then show False
  proof cases
    case 1
    then show False
    proof (cases us)
      case Nil
      with 1(2) assms(1,2) show False by (cases m) auto
    next
      case (Cons c vs)
      with 1(2) have "new = vs @ m @ r" by simp
      with after_last_None [OF assms(3)] show False by blast
    qed
  next
    case 2
    have "length us < length m"
    proof -
      have "length us \<le> length (tl m)" using 2(1) by simp
      with assms(2) show ?thesis by (cases m) auto
    qed
    then have "(us @ nl # new) ! length us \<in> set m"
      unfolding 2(2) by (simp add: nth_append)
    with assms(1) show False by simp
  qed
qed

lemma split_tail: "after_last m (old @ m @ nl # new) = Some (nl # new)"
  if "nl \<notin> set m" "m \<noteq> []" "after_last m new = None"
  by (rule after_last_found) (use that marker_line_last in auto)

lemma save_refused:
  assumes "\<not> options_accepted F (se_repr E) raw"
  shows "\<exists>m. save_addon_options F E raw calls = (calls, Inl (ConfigError m))"
proof (cases raw)
  case (JObj items)
  with assms normalize_items_spec [of F "se_repr E" items] show ?thesis
    by (auto simp: save_addon_options_def normalize_options_def options_accepted_def split: sum.splits)
qed (auto simp: save_addon_options_def normalize_options_def)

text \<open>The value a key of the saved options has: the normal form of a change, or what was there.\<close>

definition saved_value ::
    "('f, 'x) float_ops_scheme \<Rightarrow> ('f json \<Rightarrow> string) \<Rightarrow> (string, 'f json) dict \<Rightarrow> (string, 'f json) dict \<Rightarrow>
      string \<Rightarrow> 'f json option" where
  "saved_value F rp items current k =
     (case dict_get items k of
        Some v \<Rightarrow>
          if k \<in> set allowed_options
          then (case normalize_option F rp k v of Inr w \<Rightarrow> Some w | Inl e \<Rightarrow> None)
          else if k \<in> set retired_options then None else dict_get current k
      | None \<Rightarrow> if k \<in> set retired_options then None else dict_get current k)"

lemma merged_value:
  assumes "normalize_items F rp items = Inr changes" and "dict_wf items"
  shows "dict_get (dict_update (without_retired current) changes) k = saved_value F rp items current k"
proof -
  have "distinct (map fst changes)"
    using normalize_items_spec [of F rp items] assms by (simp add: dict_wf_def distinct_filter)
  moreover have "normalize_option F rp k v = Inl e \<Longrightarrow> k \<in> set allowed_options \<Longrightarrow>
      dict_get items k = Some v \<Longrightarrow> False" for v e
  proof -
    assume bad: "normalize_option F rp k v = Inl e" "k \<in> set allowed_options" "dict_get items k = Some v"
    have "option_accepted F rp k v"
      using normalize_items_spec [of F rp items] assms(1) map_of_SomeD [OF bad(3)] bad(2)
      by (auto simp: list_all_iff)
    with bad(1) normalize_option_spec [of F rp k v] show False by simp
  qed
  ultimately show ?thesis
    using normalize_items_get [OF assms(1), of k] retired_not_allowed [of k]
    by (auto simp: dict_get_update_distinct dict_get_without_retired saved_value_def split: option.splits sum.splits)
qed

section \<open>Properties\<close>

text \<open>C11: The options the page sends are accepted exactly when every known one of them obeys its schema, and
  the only other outcome is a configuration error. What is accepted holds the known options in the order
  they came, each within its type and range, and normalising it again changes nothing.\<close>

theorem options_normalised:
  "case normalize_options F rp raw of
     Inr d \<Rightarrow>
       options_accepted F rp raw \<and>
       (case raw of
          JObj items \<Rightarrow> map fst d = filter (\<lambda>k. k \<in> set allowed_options) (map fst items)
        | _ \<Rightarrow> False) \<and>
       list_all (\<lambda>(k, w). option_ok k w) d \<and>
       normalize_options F rp (JObj d) = Inr d
   | Inl e \<Rightarrow> (\<exists>m. e = ConfigError m) \<and> \<not> options_accepted F rp raw"
proof (cases raw)
  case (JObj items)
  then show ?thesis
    using normalize_items_spec [of F rp items]
    by (auto simp: normalize_options_def options_accepted_def list_all_iff normalize_items_fixed
        split: sum.splits)
qed (simp_all add: normalize_options_def options_accepted_def)

text \<open>C22: Saving options validates them before the Supervisor hears anything: refused options cause no request.
  A save that succeeds made two requests, a read and a write of exactly the options it returns: every change in
  its normal form, no retired option, and every other option, known or not, as the Supervisor had it.\<close>

theorem options_saved:
  assumes "dict_wf items"
  shows "case save_addon_options F E (JObj items) calls of
      (calls', Inr merged) \<Rightarrow>
        options_accepted F (se_repr E) (JObj items) \<and>
        (\<exists>token ans1 ans2 info current.
           snd (addon_info F E calls) = Inr (info, current) \<and>
           calls' = calls @
             [(\<lparr>sq_token = token, sq_accept = ''application/json'', sq_method = ''GET'',
                sq_path = ''/addons/self/info'', sq_body = None\<rparr>, ans1),
              (\<lparr>sq_token = token, sq_accept = ''application/json'', sq_method = ''POST'',
                sq_path = ''/addons/self/options'', sq_body = Some (JObj [(''options'', JObj merged)])\<rparr>, ans2)] \<and>
           dict_get merged = saved_value F (se_repr E) items current)
    | (calls', Inl e) \<Rightarrow>
        if options_accepted F (se_repr E) (JObj items) then prefix calls calls'
        else calls' = calls \<and> (\<exists>m. e = ConfigError m)"
proof (cases "normalize_items F (se_repr E) items")
  case (Inl e)
  then have "\<not> options_accepted F (se_repr E) (JObj items)"
    using normalize_items_spec [of F "se_repr E" items] by (simp add: options_accepted_def)
  with save_refused [of F E "JObj items" calls] show ?thesis by auto
next
  case (Inr changes)
  then have acc: "options_accepted F (se_repr E) (JObj items)"
    using normalize_items_spec [of F "se_repr E" items] by (simp add: options_accepted_def)
  show ?thesis
  proof (cases "addon_info F E calls")
    case (Pair calls1 r1)
    show ?thesis
    proof (cases r1)
      case (Inl e)
      with addon_info_grows [OF Pair] Pair Inr acc show ?thesis
        by (simp add: save_addon_options_def normalize_options_def)
    next
      case r1: (Inr got)
      obtain info current where got: "got = (info, current)" by (cases got)
      define merged where "merged = dict_update (without_retired current) changes"
      note info = addon_info_Inr [OF Pair [unfolded r1 got]]
      obtain token ans1 where tok: "sup_token E = Inr token"
        and calls1: "calls1 = calls @ [(\<lparr>sq_token = token, sq_accept = ''application/json'',
          sq_method = ''GET'', sq_path = ''/addons/self/info'', sq_body = None\<rparr>, ans1)]"
        using supervisor_request_Inr [OF info(1)] by metis
      let ?post = "supervisor_request F E ''POST'' ''/addons/self/options'' (Some (JObj [(''options'', JObj merged)])) calls1"
      obtain calls2 r2 where post: "?post = (calls2, r2)" by (cases ?post)
      obtain ans2 where "calls2 = calls1 @ [(\<lparr>sq_token = token, sq_accept = ''application/json'',
          sq_method = ''POST'', sq_path = ''/addons/self/options'',
          sq_body = Some (JObj [(''options'', JObj merged)])\<rparr>, ans2)]"
        using supervisor_request_calls [OF post] tok by auto
      moreover have "dict_get merged = saved_value F (se_repr E) items current"
        using merged_value [OF Inr assms] by (auto simp: merged_def)
      ultimately show ?thesis
        using Pair r1 got Inr acc post calls1
        by (cases r2) (auto simp: save_addon_options_def normalize_options_def merged_def [symmetric])
    qed
  qed
qed

text \<open>A Supervisor with one unknown and one retired option, whose settings are a fixed answer.\<close>

definition sample_supervisor :: "(int, int) sup_env" where
  "sample_supervisor =
     \<lparr>se_token = Some ''secret'', se_marker = ''SESSION'', se_started = ''2026-01-01T00:00:00+00:00'',
      se_threshold = Some 5, se_stamp = (\<lambda>s. None),
      se_loads = (\<lambda>s. if s = ''info''
        then Parsed (JObj [(''result'', JStr ''ok''), (''data'', JObj [(''options'', JObj
          [(''SOURCE_MQTT_HOST'', JStr ''old.local''), (''FUTURE_OPTION'', JStr ''keep''),
           (''PUBLISH_SENSORS_RETAINED'', JBool True)])])])
        else NotJson),
      se_loads_text = (\<lambda>s. NotJson), se_repr = no_repr,
      se_service = (\<lambda>calls rq. if sq_path rq = ''/addons/self/info'' then Body ''info''
        else if sq_path rq = ''/addons/self/logs'' then Body (''before'' @ ''--- SESSION ---'' @ CHR 0x0A # ''after'')
        else Body '''')\<rparr>"

definition sample_changes :: "(string, int json) dict" where
  "sample_changes =
     [(''SOURCE_MQTT_HOST'', JStr '' new.local ''), (''MAX_SLOTS'', JStr ''3''), (''OTHER'', JInt 1)]"

theorem options_saved_witness:
  "dict_wf sample_changes \<and>
   (case save_addon_options whole_floats sample_supervisor (JObj sample_changes) [] of
      (calls', Inr merged) \<Rightarrow>
        length calls' = 2 \<and>
        merged = [(''SOURCE_MQTT_HOST'', JStr ''new.local''), (''FUTURE_OPTION'', JStr ''keep''),
          (''MAX_SLOTS'', JInt 3)]
    | (calls', Inl e) \<Rightarrow> False)"
proof -
  have wf: "dict_wf sample_changes" by (simp add: dict_wf_def sample_changes_def)
  have run: "snd (save_addon_options whole_floats sample_supervisor (JObj sample_changes) []) =
      Inr [(''SOURCE_MQTT_HOST'', JStr ''new.local''), (''FUTURE_OPTION'', JStr ''keep''), (''MAX_SLOTS'', JInt 3)]"
    by code_simp
  then show ?thesis
    using wf options_saved [OF wf, of whole_floats sample_supervisor "[]"]
    by (auto split: prod.splits sum.splits)
qed

text \<open>The options the page is shown are complete: every known option has a value, no retired one appears and
  the device timeout is positive, whatever the Supervisor stored.\<close>

theorem options_complete:
  "case get_addon_options F E calls of
     (calls', Inl e) \<Rightarrow> prefix calls calls'
   | (calls', Inr view) \<Rightarrow>
       (case dict_get view ''options'' of
          Some (JObj options) \<Rightarrow>
            list_all (\<lambda>k. dict_get options k \<noteq> None) allowed_options \<and>
            list_all (\<lambda>k. dict_get options k = None) retired_options \<and>
            timeout_valid F options
        | _ \<Rightarrow> False)"
  using effective_options_cover effective_options_retired effective_options_timeout
  by (auto simp: get_addon_options_def list_all_iff Let_def split: prod.splits sum.splits
      dest!: addon_info_grows language_grows intro: prefix_order.trans)

text \<open>The log view shows exactly what this process wrote: the text after the line that marks its start.\<close>

theorem session_log:
  assumes "snd (supervisor_text_request E ''/addons/self/logs'' calls) = Inr (old @ mark_process_log_start E @ new)"
    and "CHR 0x0A \<notin> set (se_marker E)" and "after_last (log_marker E) new = None"
  shows "snd (get_current_process_logs E calls) =
    Inr (log_view (dropWhile line_end new) (se_started E) True)"
proof -
  have "CHR 0x0A \<notin> set (log_marker E)" "log_marker E \<noteq> []"
    using assms(2) by (auto simp: log_marker_def)
  then have "after_last (log_marker E) (old @ mark_process_log_start E @ new) = Some (CHR 0x0A # new)"
    using split_tail assms(3) by (simp add: mark_process_log_start_def)
  then show ?thesis
    using assms(1)
    by (cases "supervisor_text_request E ''/addons/self/logs'' calls")
      (simp add: get_current_process_logs_def line_end_def)
qed

theorem session_log_witness:
  "snd (get_current_process_logs sample_supervisor []) =
   Inr (log_view ''after'' ''2026-01-01T00:00:00+00:00'' True :: (string \<times> int json) list)"
proof -
  have a: "snd (supervisor_text_request sample_supervisor ''/addons/self/logs'' []) =
      Inr (''before'' @ mark_process_log_start sample_supervisor @ ''after'')"
    by code_simp
  have b: "CHR 0x0A \<notin> set (se_marker sample_supervisor)" by (simp add: sample_supervisor_def)
  have c: "after_last (log_marker sample_supervisor) ''after'' = None" by code_simp
  have "se_started sample_supervisor = ''2026-01-01T00:00:00+00:00''" by (simp add: sample_supervisor_def)
  then show ?thesis using session_log [OF a b c] by (simp add: line_end_def)
qed

end
