(* ===== verification/RegisterDebug.thy ===== *)
theory RegisterDebug
  imports ModbusMessage ConfigParser NoahPackets Diagnostics
begin

text \<open>
  \<open>grobro/grobro/register_debug.py\<close>: the passive capture of register values. Every capture holds one lock and
  is atomic; what it appends is handed to the writer of \<open>diagnostic_io.py\<close> as one text. The two settings
  are constants of the process; the clock, \<open>json.dumps\<close> and whether the append raises (which is caught,
  after the caches have changed) are arguments.

  The block cache lets an unchanged block be skipped without looking at its registers. The theorem at
  the end says that it never changes what is written.
\<close>

section \<open>Definitions\<close>

record 'f capture_env =
  cap_changes_only :: bool
  cap_max_register :: int
  cap_dump :: "'f json \<Rightarrow> string"

record register_capture =
  cap_values :: "(string \<times> int \<times> int, int) dict"
  cap_blocks :: "(string \<times> int \<times> int \<times> int, bytes) dict"
  cap_written :: "string list"

definition no_capture :: register_capture where
  "no_capture = \<lparr>cap_values = [], cap_blocks = [], cap_written = []\<rparr>"

text \<open>\<open>REGISTER_DEBUG_MAX_REGISTER\<close> from its setting.\<close>

definition max_register_setting :: "string \<Rightarrow> int" where
  "max_register_setting setting =
     max 0 (min 65535 (case py_int_of_str (py_strip setting) of None \<Rightarrow> 65535 | Some n \<Rightarrow> n))"

definition signed_16 :: "int \<Rightarrow> int" where
  "signed_16 v = (if v \<ge> 32768 then v - 65536 else v)"

definition hex_04 :: "int \<Rightarrow> string" where
  "hex_04 v = ''0x'' @ map (\<lambda>d. upper_char (hex_char d)) [v div 4096, v div 256 mod 16, v div 16 mod 16, v mod 16]"

definition canonical_0103_device_id :: "string \<Rightarrow> string" where
  "canonical_0103_device_id raw_device_id =
     (let d = py_strip raw_device_id in if length d = 10 \<and> list_all is_alnum d then ''QMN000'' @ d else d)"

definition padded :: "nat \<Rightarrow> int \<Rightarrow> string" where
  "padded n v = (let s = str_of_int v in replicate (n - length s) (CHR ''0'') @ s)"

text \<open>\<open>datetime.isoformat()\<close>.\<close>

definition isoformat :: "datetime \<Rightarrow> string" where
  "isoformat t =
     padded 4 (dt_year t) @ ''-'' @ padded 2 (dt_month t) @ ''-'' @ padded 2 (dt_day t) @ ''T'' @
     padded 2 (dt_hour t) @ '':'' @ padded 2 (dt_minute t) @ '':'' @ padded 2 (dt_second t) @
     (if dt_micro t = 0 then [] else ''.'' @ padded 6 (dt_micro t))"

definition null_or :: "('a \<Rightarrow> 'f json) \<Rightarrow> 'a option \<Rightarrow> 'f json" where
  "null_or f v = (case v of None \<Rightarrow> JNull | Some x \<Rightarrow> f x)"

text \<open>The fields every record ends with.\<close>

definition value_fields :: "int \<Rightarrow> int option \<Rightarrow> bool \<Rightarrow> (string \<times> 'f json) list" where
  "value_fields v previous changed =
     [(''uint16'', JInt v), (''int16'', JInt (signed_16 v)), (''hex'', JStr (hex_04 v)),
      (''high_byte'', JInt (v div 256 mod 256)), (''low_byte'', JInt (v mod 256)),
      (''previous'', null_or JInt previous), (''changed'', JBool changed)]"

text \<open>One value under a key of \<open>_LAST_VALUES\<close>: the record is written unless only changes are asked for.\<close>

definition capture_value ::
    "('f, 'm) capture_env_scheme \<Rightarrow> string \<times> int \<times> int \<Rightarrow> int \<Rightarrow> (int option \<Rightarrow> bool \<Rightarrow> 'f json) \<Rightarrow>
     register_capture \<times> 'f json list \<Rightarrow> register_capture \<times> 'f json list" where
  "capture_value E key v entry acc =
     (let (st, records) = acc;
          previous = dict_get (cap_values st) key;
          changed = (previous \<noteq> Some v);
          st1 = st\<lparr>cap_values := dict_set key v (cap_values st)\<rparr>
      in if cap_changes_only E \<and> \<not> changed then (st1, records) else (st1, records @ [entry previous changed]))"

definition append_records ::
    "('f, 'm) capture_env_scheme \<Rightarrow> bool \<Rightarrow> register_capture \<times> 'f json list \<Rightarrow> register_capture" where
  "append_records E append_ok acc =
     (let (st, records) = acc in
      if records = [] \<or> \<not> append_ok then st
      else st\<lparr>cap_written := cap_written st @ [concat (map (\<lambda>r. cap_dump E r @ [newline]) records)]\<rparr>)"

definition modbus_record ::
    "string \<Rightarrow> string option \<Rightarrow> string \<Rightarrow> int \<Rightarrow> modbus_block \<Rightarrow> int \<Rightarrow> int \<Rightarrow> int option \<Rightarrow> bool \<Rightarrow> 'f json" where
  "modbus_record now timestamp d function_code block register_no v previous changed = JObj
     ([(''captured_at'', JStr now), (''device_timestamp'', null_or JStr timestamp), (''device_id'', JStr d),
       (''source'', JStr ''modbus''), (''function'', JInt function_code), (''block_start'', JInt (blk_start block)),
       (''block_end'', JInt (blk_end block)), (''register'', JInt register_no)] @ value_fields v previous changed)"

definition capture_register ::
    "('f, 'm) capture_env_scheme \<Rightarrow> string \<Rightarrow> string option \<Rightarrow> string \<Rightarrow> int \<Rightarrow> modbus_block \<Rightarrow>
     register_capture \<times> 'f json list \<Rightarrow> int \<Rightarrow> register_capture \<times> 'f json list" where
  "capture_register E now timestamp d function_code block acc register_no =
     (if register_no < 0 \<or> register_no > cap_max_register E then acc
      else (let offset = (register_no - blk_start block) * 2 in
            if offset + 2 > int (length (blk_values block)) then acc
            else (case u16_at (blk_values block) offset of
                None \<Rightarrow> acc
              | Some v \<Rightarrow> capture_value E (d, function_code, register_no) v
                  (modbus_record now timestamp d function_code block register_no v) acc)))"

definition capture_registers ::
    "('f, 'm) capture_env_scheme \<Rightarrow> string \<Rightarrow> string option \<Rightarrow> string \<Rightarrow> int \<Rightarrow>
     register_capture \<times> 'f json list \<Rightarrow> modbus_block \<Rightarrow> register_capture \<times> 'f json list" where
  "capture_registers E now timestamp d function_code acc block =
     foldl (capture_register E now timestamp d function_code block) acc [blk_start block..blk_end block]"

text \<open>The cached layouts of the same device and function that share a register with the block.\<close>

definition overlaps :: "string \<Rightarrow> int \<Rightarrow> modbus_block \<Rightarrow> string \<times> int \<times> int \<times> int \<Rightarrow> bool" where
  "overlaps d function_code block key =
     (let (cached_device, cached_function, start, stop) = key in
      cached_device = d \<and> cached_function = function_code \<and> start \<le> blk_end block \<and> blk_start block \<le> stop)"

definition remember_block :: "string \<Rightarrow> int \<Rightarrow> modbus_block \<Rightarrow> register_capture \<Rightarrow> register_capture" where
  "remember_block d function_code block st =
     st\<lparr>cap_blocks := dict_set (d, function_code, blk_start block, blk_end block) (blk_values block)
          (filter (\<lambda>(key, b). \<not> overlaps d function_code block key) (cap_blocks st))\<rparr>"

definition capture_block ::
    "('f, 'm) capture_env_scheme \<Rightarrow> string \<Rightarrow> string option \<Rightarrow> string \<Rightarrow> int \<Rightarrow>
     register_capture \<times> 'f json list \<Rightarrow> modbus_block \<Rightarrow> register_capture \<times> 'f json list" where
  "capture_block E now timestamp d function_code acc block =
     (let (st, records) = acc in
      if \<not> cap_changes_only E then capture_registers E now timestamp d function_code acc block
      else if dict_get (cap_blocks st) (d, function_code, blk_start block, blk_end block) = Some (blk_values block)
      then acc
      else capture_registers E now timestamp d function_code (remember_block d function_code block st, records) block)"

definition message_time :: "modbus_message \<Rightarrow> string option" where
  "message_time m = map_option isoformat (Option.bind (msg_metadata m) md_timestamp)"

definition write_modbus_message ::
    "('f, 'm) capture_env_scheme \<Rightarrow> string \<Rightarrow> bool \<Rightarrow> modbus_message \<Rightarrow> register_capture \<Rightarrow> register_capture" where
  "write_modbus_message E now append_ok m st =
     append_records E append_ok
       (foldl (capture_block E now (message_time m) (msg_device_id m) (fn_code (msg_function m))) (st, []) (msg_blocks m))"

section \<open>NOAH 0x0103 packets\<close>

definition raw_id_field :: "string \<Rightarrow> string \<Rightarrow> (string \<times> 'f json) list" where
  "raw_id_field raw d = (if raw \<noteq> d then [(''raw_device_id'', JStr raw)] else [])"

definition raw_value_record ::
    "string \<Rightarrow> string \<Rightarrow> int \<Rightarrow> int \<Rightarrow> int \<Rightarrow> int option \<Rightarrow> bool \<Rightarrow> 'f json" where
  "raw_value_record now raw value_index count v previous changed =
     (let d = canonical_0103_device_id raw in JObj
     ([(''captured_at'', JStr now), (''device_timestamp'', JNull), (''device_id'', JStr d)] @ raw_id_field raw d @
      [(''source'', JStr ''noah_0103''), (''message_type'', JStr ''0x0103''), (''addressing'', JStr ''unknown''),
       (''value_index'', JInt value_index), (''value_count'', JInt count)] @ value_fields v previous changed))"

definition watch_reason :: string where
  "watch_reason = ''Unknown NOAH 0x0103 descriptor candidate; observed R299=800, R300=257, R301-R304=0xFFFF''"

definition watch_fields :: "int \<Rightarrow> (string \<times> 'f json) list" where
  "watch_fields register_no =
     (if 299 \<le> register_no \<and> register_no \<le> 304
      then [(''watch_register'', JBool True), (''watch_group'', JStr ''noah_r299_r304_unknown_descriptor''),
            (''watch_reason'', JStr watch_reason)]
      else [])"

definition embedded_record ::
    "string \<Rightarrow> string \<Rightarrow> embedded_block \<Rightarrow> int \<Rightarrow> int \<Rightarrow> int option \<Rightarrow> bool \<Rightarrow> 'f json" where
  "embedded_record now raw b register_no v previous changed =
     (let d = canonical_0103_device_id raw in JObj
     ([(''captured_at'', JStr now), (''device_timestamp'', JNull), (''device_id'', JStr d)] @ raw_id_field raw d @
      [(''source'', JStr ''noah_0103_modbus''), (''message_type'', JStr ''0x0103''), (''function'', JInt 3),
       (''block_offset'', JInt (int (eb_offset b))), (''block_start'', JInt (eb_start b)), (''block_end'', JInt (eb_end b)),
       (''register'', JInt register_no)] @ value_fields v previous changed @ watch_fields register_no))"

definition capture_raw_values ::
    "('f, 'm) capture_env_scheme \<Rightarrow> string \<Rightarrow> string \<Rightarrow> int list \<Rightarrow>
     register_capture \<times> 'f json list \<Rightarrow> register_capture \<times> 'f json list" where
  "capture_raw_values E now raw values acc =
     foldl (\<lambda>acc (i, v). capture_value E (canonical_0103_device_id raw, 0x0103, i) v
         (raw_value_record now raw i (int (length values)) v) acc)
       acc (zip (map int [0..<length values]) values)"

text \<open>The loop leaves at the first register beyond the end or the limit.\<close>

definition capture_embedded ::
    "('f, 'm) capture_env_scheme \<Rightarrow> string \<Rightarrow> string \<Rightarrow> embedded_block \<Rightarrow>
     register_capture \<times> 'f json list \<Rightarrow> register_capture \<times> 'f json list" where
  "capture_embedded E now raw b acc =
     foldl (\<lambda>acc (register_no, v). capture_value E (canonical_0103_device_id raw, 0x010303, register_no) v
         (embedded_record now raw b register_no v) acc)
       acc (takeWhile (\<lambda>(register_no, v). register_no \<le> eb_end b \<and> register_no \<le> cap_max_register E) (embedded_registers b))"

definition write_noah_0103 ::
    "('f, 'm) capture_env_scheme \<Rightarrow> string \<Rightarrow> bool \<Rightarrow> bytes \<Rightarrow> string \<Rightarrow> int list \<Rightarrow> register_capture \<Rightarrow> register_capture" where
  "write_noah_0103 E now append_ok packet raw values st =
     (let acc = capture_raw_values E now raw values (st, []) in
      append_records E append_ok
        (case find_embedded_register_block packet of None \<Rightarrow> acc | Some b \<Rightarrow> capture_embedded E now raw b acc))"

section \<open>Entry points\<close>

text \<open>A packet the source client has unscrambled: a parsed Modbus message, or a packet of type 0x0103.\<close>

datatype captured =
    ModbusSeen "modbus_message option"
  | Noah0103Seen bytes

definition capture_packet ::
    "('f, 'm) capture_env_scheme \<Rightarrow> bool \<Rightarrow> string \<times> bool \<times> captured \<Rightarrow> register_capture \<Rightarrow> register_capture" where
  "capture_packet E enabled ev st =
     (case ev of (now, append_ok, packet) \<Rightarrow>
        (case packet of
           ModbusSeen None \<Rightarrow> st
         | ModbusSeen (Some m) \<Rightarrow> if enabled then write_modbus_message E now append_ok m st else st
         | Noah0103Seen dat \<Rightarrow>
             (case parse_noah_0103 dat of
                Noah0103 raw values \<Rightarrow> if enabled then write_noah_0103 E now append_ok dat raw values st else st
              | _ \<Rightarrow> st)))"

section \<open>The block cache\<close>

text \<open>The same capture without the block cache: every register of every block is looked at.\<close>

definition plain_modbus_message ::
    "('f, 'm) capture_env_scheme \<Rightarrow> string \<Rightarrow> bool \<Rightarrow> modbus_message \<Rightarrow> register_capture \<Rightarrow> register_capture" where
  "plain_modbus_message E now append_ok m st =
     append_records E append_ok
       (foldl (capture_registers E now (message_time m) (msg_device_id m) (fn_code (msg_function m))) (st, []) (msg_blocks m))"

definition plain_packet ::
    "('f, 'm) capture_env_scheme \<Rightarrow> bool \<Rightarrow> string \<times> bool \<times> captured \<Rightarrow> register_capture \<Rightarrow> register_capture" where
  "plain_packet E enabled ev st =
     (case ev of
        (now, append_ok, ModbusSeen (Some m)) \<Rightarrow> if enabled then plain_modbus_message E now append_ok m st else st
      | _ \<Rightarrow> capture_packet E enabled ev st)"

definition forget :: "register_capture \<Rightarrow> register_capture" where
  "forget st = st\<lparr>cap_blocks := []\<rparr>"

definition forget_acc :: "register_capture \<times> 'f json list \<Rightarrow> register_capture \<times> 'f json list" where
  "forget_acc acc = (forget (fst acc), snd acc)"

lemma foldl_commute: "(\<And>a x. h (f a x) = f (h a) x) \<Longrightarrow> h (foldl f a xs) = foldl f (h a) xs"
  by (induction xs arbitrary: a) simp_all

lemma capture_value_forget: "forget_acc (capture_value E key v entry acc) = capture_value E key v entry (forget_acc acc)"
  by (cases acc) (simp add: capture_value_def Let_def forget_def forget_acc_def)

lemma capture_registers_forget:
  "forget_acc (capture_registers E now ts d f acc b) = capture_registers E now ts d f (forget_acc acc) b"
  unfolding capture_registers_def
  by (rule foldl_commute) (simp add: capture_register_def Let_def capture_value_forget split: option.split)

lemma append_records_forget: "forget (append_records E ok acc) = append_records E ok (forget_acc acc)"
  by (cases acc) (simp add: append_records_def forget_def forget_acc_def)

lemma write_noah_forget: "forget (write_noah_0103 E now ok dat raw values st) = write_noah_0103 E now ok dat raw values (forget st)"
proof -
  have raw: "forget_acc (capture_raw_values E now raw values acc) = capture_raw_values E now raw values (forget_acc acc)" for acc
    unfolding capture_raw_values_def by (rule foldl_commute) (auto simp: capture_value_forget)
  have emb: "forget_acc (capture_embedded E now raw b acc) = capture_embedded E now raw b (forget_acc acc)" for b acc
    unfolding capture_embedded_def by (rule foldl_commute) (auto simp: capture_value_forget)
  have start: "forget_acc (st, []) = (forget st, [])" by (simp add: forget_acc_def)
  show ?thesis
    by (simp add: write_noah_0103_def Let_def append_records_forget raw emb start split: option.split)
qed

text \<open>A cached block describes the last values of its registers.\<close>

definition reading :: "('f, 'm) capture_env_scheme \<Rightarrow> int \<Rightarrow> bytes \<Rightarrow> int \<Rightarrow> int option" where
  "reading E start b register_no =
     (if register_no < 0 \<or> register_no > cap_max_register E \<or> (register_no - start) * 2 + 2 > int (length b) then None
      else u16_at b ((register_no - start) * 2))"

definition describes ::
    "('f, 'm) capture_env_scheme \<Rightarrow> (string \<times> int \<times> int, int) dict \<Rightarrow> string \<times> int \<times> int \<times> int \<Rightarrow> bytes \<Rightarrow> bool" where
  "describes E values key b \<longleftrightarrow>
     (case key of (d, f, start, stop) \<Rightarrow>
        f \<le> 100 \<and> (\<forall>r v. start \<le> r \<and> r \<le> stop \<and> reading E start b r = Some v \<longrightarrow> dict_get values (d, f, r) = Some v))"

definition blocks_ok :: "('f, 'm) capture_env_scheme \<Rightarrow> register_capture \<Rightarrow> bool" where
  "blocks_ok E st \<longleftrightarrow> (\<forall>key b. dict_get (cap_blocks st) key = Some b \<longrightarrow> describes E (cap_values st) key b)"

lemma capture_register_reading:
  "capture_register E now ts d f b acc r =
     (case reading E (blk_start b) (blk_values b) r of
        None \<Rightarrow> acc | Some v \<Rightarrow> capture_value E (d, f, r) v (modbus_record now ts d f b r v) acc)"
  by (simp add: capture_register_def reading_def Let_def)

lemma capture_value_state [simp]:
  "cap_values (fst (capture_value E key v entry acc)) = dict_set key v (cap_values (fst acc))"
  "cap_blocks (fst (capture_value E key v entry acc)) = cap_blocks (fst acc)"
  by (cases acc, simp add: capture_value_def Let_def)+

lemma capture_registers_values:
  "dict_get (cap_values (fst (foldl (capture_register E now ts d f b) acc rs))) (d', f', r) =
     (case if d' = d \<and> f' = f \<and> r \<in> set rs then reading E (blk_start b) (blk_values b) r else None of
        None \<Rightarrow> dict_get (cap_values (fst acc)) (d', f', r) | Some v \<Rightarrow> Some v)"
  by (induction rs arbitrary: acc) (auto simp: capture_register_reading split: option.splits)

lemma capture_registers_blocks: "cap_blocks (fst (foldl (capture_register E now ts d f b) acc rs)) = cap_blocks (fst acc)"
  by (induction rs arbitrary: acc) (simp_all add: capture_register_reading split: option.splits)

lemma map_of_filter_keys: "map_of (filter (\<lambda>(k, v). P k) xs) k = (if P k then map_of xs k else None)"
  by (induction xs) auto

lemma capture_value_known:
  "cap_changes_only E \<Longrightarrow> dict_get (cap_values (fst acc)) key = Some v \<Longrightarrow> capture_value E key v entry acc = acc"
  by (cases acc) (simp add: capture_value_def Let_def update_triv)

lemma capture_known:
  assumes "cap_changes_only E" "describes E (cap_values (fst acc)) (d, f, blk_start b, blk_end b) (blk_values b)"
  shows "capture_registers E now ts d f acc b = acc"
proof -
  have "foldl (capture_register E now ts d f b) acc rs = acc" if "set rs \<subseteq> {blk_start b..blk_end b}" for rs
    using that
  proof (induction rs)
    case (Cons r rs)
    then have "capture_register E now ts d f b acc r = acc"
      using assms by (auto simp: capture_register_reading describes_def capture_value_known split: option.split)
    then show ?case using Cons by simp
  qed simp
  then show ?thesis by (simp add: capture_registers_def)
qed

lemma capture_block_ok:
  assumes "cap_changes_only E" "blocks_ok E (fst acc)" "f \<le> 100"
  shows "blocks_ok E (fst (capture_block E now ts d f acc b))"
proof (cases "dict_get (cap_blocks (fst acc)) (d, f, blk_start b, blk_end b) = Some (blk_values b)")
  case True
  then show ?thesis using assms by (cases acc) (simp add: capture_block_def)
next
  case False
  define st where "st = remember_block d f b (fst acc)"
  let ?out = "capture_registers E now ts d f (st, snd acc) b"
  have out: "capture_block E now ts d f acc b = ?out"
    using False assms(1) by (cases acc) (simp add: capture_block_def st_def)
  have blocks: "cap_blocks (fst ?out) = cap_blocks st"
    by (simp add: capture_registers_def capture_registers_blocks)
  have "describes E (cap_values (fst ?out)) key bs" if k: "dict_get (cap_blocks st) key = Some bs" for key bs
  proof (cases "key = (d, f, blk_start b, blk_end b)")
    case True
    then have "bs = blk_values b" using k by (simp add: st_def remember_block_def)
    then show ?thesis
      using True assms(3) by (auto simp: describes_def capture_registers_def capture_registers_values)
  next
    case other: False
    then have old: "\<not> overlaps d f b key" "dict_get (cap_blocks (fst acc)) key = Some bs"
      using k by (auto simp: st_def remember_block_def map_of_filter_keys split: if_splits)
    then have "describes E (cap_values (fst acc)) key bs" using assms(2) unfolding blocks_ok_def by blast
    moreover have "cap_values st = cap_values (fst acc)" by (simp add: st_def remember_block_def)
    ultimately show ?thesis
      using old(1)
      by (cases key) (auto simp: describes_def capture_registers_def capture_registers_values overlaps_def split: option.split)
  qed
  then show ?thesis unfolding out blocks_ok_def blocks by blast
qed

lemma capture_block_forget:
  assumes "cap_changes_only E \<Longrightarrow> blocks_ok E (fst acc)"
  shows "forget_acc (capture_block E now ts d f acc b) = capture_registers E now ts d f (forget_acc acc) b"
proof (cases "cap_changes_only E \<and>
    dict_get (cap_blocks (fst acc)) (d, f, blk_start b, blk_end b) = Some (blk_values b)")
  case True
  then have "describes E (cap_values (fst acc)) (d, f, blk_start b, blk_end b) (blk_values b)"
    using assms by (simp add: blocks_ok_def)
  then have "capture_registers E now ts d f acc b = acc" using True capture_known by blast
  then show ?thesis
    using True capture_registers_forget [of E now ts d f acc b] by (cases acc) (simp add: capture_block_def)
next
  case False
  obtain st records where acc: "acc = (st, records)" by fastforce
  have "forget_acc (remember_block d f b st, records) = forget_acc acc"
    by (simp add: acc forget_acc_def forget_def remember_block_def)
  moreover have "capture_block E now ts d f acc b = capture_registers E now ts d f
      (if cap_changes_only E then (remember_block d f b st, records) else acc) b"
    using False by (simp add: capture_block_def acc)
  ultimately show ?thesis by (simp add: capture_registers_forget)
qed

text \<open>The state of the process: nothing is asked of the block cache when every value is written anyway.\<close>

definition capture_ok :: "('f, 'm) capture_env_scheme \<Rightarrow> register_capture \<Rightarrow> bool" where
  "capture_ok E st \<longleftrightarrow> (cap_changes_only E \<longrightarrow> blocks_ok E st)"

lemma append_records_state [simp]:
  "cap_values (append_records E ok acc) = cap_values (fst acc)"
  "cap_blocks (append_records E ok acc) = cap_blocks (fst acc)"
  by (cases acc, simp add: append_records_def)+

lemma capture_ok_append: "capture_ok E (append_records E ok acc) = capture_ok E (fst acc)"
  by (simp add: capture_ok_def blocks_ok_def)

lemma fn_code_le: "fn_code f \<le> 100"
  by (cases f) simp_all

lemma capture_blocks_exact:
  assumes "capture_ok E (fst acc)" "f \<le> 100"
  shows "capture_ok E (fst (foldl (capture_block E now ts d f) acc bs)) \<and>
    forget_acc (foldl (capture_block E now ts d f) acc bs) = foldl (capture_registers E now ts d f) (forget_acc acc) bs"
  using assms(1)
proof (induction bs arbitrary: acc)
  case (Cons b bs)
  have "capture_ok E (fst (capture_block E now ts d f acc b))"
    using Cons.prems assms(2) capture_block_ok [of E acc f now ts d b] by (auto simp: capture_ok_def)
  moreover have "forget_acc (capture_block E now ts d f acc b) = capture_registers E now ts d f (forget_acc acc) b"
    using Cons.prems by (intro capture_block_forget) (simp add: capture_ok_def)
  ultimately show ?case using Cons.IH by simp
qed simp

text \<open>The keys of the NOAH packets are apart from those of every function code.\<close>

lemma capture_value_ok:
  assumes "capture_ok E (fst acc)" "n > 100"
  shows "capture_ok E (fst (capture_value E (d, n, i) v entry acc))"
proof -
  have "describes E (dict_set (d, n, i) v vs) key b" if "describes E vs key b" for vs key b
    using that assms(2) by (cases key) (auto simp: describes_def)
  then show ?thesis using assms(1) unfolding capture_ok_def blocks_ok_def by simp
qed

lemma capture_values_ok:
  assumes "n > 100" "capture_ok E (fst acc)"
  shows "capture_ok E (fst (foldl (\<lambda>acc (i, v). capture_value E (d, n, i) v (entry i v) acc) acc ivs))"
  using assms(2)
proof (induction ivs arbitrary: acc)
  case (Cons iv ivs)
  then show ?case using capture_value_ok [OF Cons.prems assms(1)] by (cases iv) simp
qed simp

lemma write_noah_ok: "capture_ok E st \<Longrightarrow> capture_ok E (write_noah_0103 E now ok dat raw values st)"
  by (simp add: write_noah_0103_def Let_def capture_ok_append capture_raw_values_def capture_embedded_def
      capture_values_ok split: option.split)

lemma capture_packet_exact:
  assumes "capture_ok E st"
  shows "capture_ok E (capture_packet E enabled ev st) \<and>
    forget (capture_packet E enabled ev st) = plain_packet E enabled ev (forget st)"
proof -
  obtain now ok packet where ev: "ev = (now, ok, packet)" by (metis prod.collapse)
  show ?thesis
  proof (cases packet)
    case (ModbusSeen m)
    show ?thesis
    proof (cases m)
      case (Some msg)
      let ?ts = "message_time msg" let ?d = "msg_device_id msg" let ?f = "fn_code (msg_function msg)"
      have "capture_ok E (fst (foldl (capture_block E now ?ts ?d ?f) (st, []) (msg_blocks msg))) \<and>
          forget_acc (foldl (capture_block E now ?ts ?d ?f) (st, []) (msg_blocks msg)) =
          foldl (capture_registers E now ?ts ?d ?f) (forget_acc (st, [])) (msg_blocks msg)"
        using assms fn_code_le by (intro capture_blocks_exact) simp_all
      then show ?thesis
        using assms by (simp add: ev ModbusSeen Some capture_packet_def plain_packet_def write_modbus_message_def
            plain_modbus_message_def capture_ok_append append_records_forget forget_acc_def)
    qed (simp add: ev ModbusSeen capture_packet_def plain_packet_def assms)
  next
    case (Noah0103Seen dat)
    then show ?thesis
      using assms by (simp add: ev capture_packet_def plain_packet_def parse_noah_0103_def write_noah_ok write_noah_forget)
  qed
qed

section \<open>Properties\<close>

text \<open>C35: Whatever packets arrive, in either mode, and whether or not appending fails: the capture with the block
  cache writes the same records and remembers the same values as the capture that looks at every register.\<close>

theorem block_cache_transparent:
  "let captured = foldl (\<lambda>st ev. capture_packet E enabled ev st) no_capture events;
       plain = foldl (\<lambda>st ev. plain_packet E enabled ev st) no_capture events
   in cap_written captured = cap_written plain \<and> cap_values captured = cap_values plain"
proof -
  have run: "forget (foldl (\<lambda>st ev. capture_packet E enabled ev st) st events) =
      foldl (\<lambda>st ev. plain_packet E enabled ev st) (forget st) events" if "capture_ok E st" for st
    using that
  proof (induction events arbitrary: st)
    case (Cons ev events)
    then show ?case using capture_packet_exact [of E st enabled ev] by simp
  qed simp
  have "capture_ok E no_capture" by (simp add: capture_ok_def blocks_ok_def no_capture_def)
  then have eq: "forget (foldl (\<lambda>st ev. capture_packet E enabled ev st) no_capture events) =
      foldl (\<lambda>st ev. plain_packet E enabled ev st) no_capture events"
    using run [of no_capture] by (simp add: forget_def no_capture_def)
  show ?thesis unfolding Let_def eq [symmetric] by (simp add: forget_def)
qed

end
