(* ===== verification/Startup.thy ===== *)
theory Startup
  imports SupervisorConfig MqttResult CloudPolicy RegisterDebug
begin

text \<open>
  The start and the end of the process: the options of the add-on as \<open>run.sh\<close> exports them, the settings
  every module reads from the environment when it is imported, the logging level, the settings of the
  three brokers, the identities of the clients, and \<open>ha_bridge.py\<close> as the sequence of calls it makes,
  whatever raises. What is shown: options saved by the page start the program, with these settings.
\<close>

section \<open>Settings\<close>

type_synonym environ = "string \<Rightarrow> string option"

definition getenv :: "environ \<Rightarrow> string \<Rightarrow> string \<Rightarrow> string" where
  "getenv env key fallback = (case env key of None \<Rightarrow> fallback | Some s \<Rightarrow> s)"

definition env_flag :: "environ \<Rightarrow> string \<Rightarrow> string \<Rightarrow> bool" where
  "env_flag env key fallback \<longleftrightarrow> py_lower (getenv env key fallback) = ''true''"

definition env_int :: "environ \<Rightarrow> string \<Rightarrow> string \<Rightarrow> int py" where
  "env_int env key fallback =
     (case py_int_of_str (getenv env key fallback) of None \<Rightarrow> Inl ValueError | Some n \<Rightarrow> Inr n)"

text \<open>The upper case attributes of \<open>logging\<close> that are numbers.\<close>

definition logging_levels :: "(string \<times> int) list" where
  "logging_levels =
     [(''CRITICAL'', 50), (''FATAL'', 50), (''ERROR'', 40), (''WARNING'', 30), (''WARN'', 30),
      (''INFO'', 20), (''DEBUG'', 10), (''NOTSET'', 0)]"

definition configure_logging :: "environ \<Rightarrow> string \<times> int" where
  "configure_logging env =
     (let log_level = py_upper (getenv env ''LOG_LEVEL'' ''ERROR'')
      in case dict_get logging_levels log_level of
           Some level \<Rightarrow> (log_level, level)
         | None \<Rightarrow> (''ERROR'', 40))"

definition load_bridge_mqtt_configs :: "environ \<Rightarrow> (mqtt_config \<times> mqtt_config \<times> mqtt_config) py" where
  "load_bridge_mqtt_configs env =
     bindE (mqtt_config_from_env env ''SOURCE''
              \<lparr>mq_host = ''localhost'', mq_port = 1883, mq_use_tls = False, mq_username = None, mq_password = None\<rparr>)
       (\<lambda>source. bindE (mqtt_config_from_env env ''TARGET'' source)
       (\<lambda>target. bindE (mqtt_config_from_env env ''FORWARD''
              \<lparr>mq_host = ''mqtt.growatt.com'', mq_port = 7006, mq_use_tls = False, mq_username = None,
               mq_password = None\<rparr>)
       (\<lambda>forward. Inr (source, target, forward))))"

text \<open>A setting of zero or less is the default; \<open>MAX_BAT\<close> is a number or detected.\<close>

definition device_timeout_setting :: "int \<Rightarrow> int" where
  "device_timeout_setting value = (if 0 < value then value else 120)"

definition max_bat_setting :: "environ \<Rightarrow> int option" where
  "max_bat_setting env = py_int_of_str (getenv env ''MAX_BAT'' ''auto'')"

definition cloud_setting :: "environ \<Rightarrow> cloud_policy" where
  "cloud_setting env =
     parse_cloud_policy (Some (py_strip (getenv env ''GROWATT_CLOUD'' ''false'')))
       (Some (py_lower (getenv env ''GROWATT_CLOUD_CONFIG_FILTER'' ''false'')))"

record settings =
  cfg_source :: mqtt_config
  cfg_target :: mqtt_config
  cfg_forward :: mqtt_config
  cfg_suffix :: string
  cfg_base_topic :: string
  cfg_cloud :: cloud_policy
  cfg_log_level :: "string \<times> int"
  cfg_dump_messages :: bool
  cfg_dump_dir :: string
  cfg_register_debug :: bool
  cfg_register_dir :: string
  cfg_max_register :: int
  cfg_changes_only :: bool
  cfg_device_timeout :: int
  cfg_max_slots :: int
  cfg_max_bat :: "int option"
  cfg_availability_sensor :: bool
  cfg_keep_positions :: bool
  cfg_ingress_port :: int

text \<open>
  What the modules read while they are imported, in the order of the imports: three numbers and the
  broker ports may make the start fail, with \<open>ValueError\<close>.
\<close>

definition read_settings :: "environ \<Rightarrow> settings py" where
  "read_settings env =
     bindE (env_int env ''DEVICE_TIMEOUT'' ''120'') (\<lambda>timeout.
     bindE (env_int env ''MAX_SLOTS'' ''1'') (\<lambda>slots.
     bindE (env_int env ''INGRESS_PORT'' ''8099'') (\<lambda>port.
     bindE (load_bridge_mqtt_configs env) (\<lambda>(source, target, forward).
       Inr \<lparr>cfg_source = source, cfg_target = target, cfg_forward = forward,
            cfg_suffix = getenv env ''MQTT_CLIENT_SUFFIX'' '''',
            cfg_base_topic = getenv env ''HA_BASE_TOPIC'' ''homeassistant'',
            cfg_cloud = cloud_setting env,
            cfg_log_level = configure_logging env,
            cfg_dump_messages = env_flag env ''DUMP_MESSAGES'' ''false'',
            cfg_dump_dir = getenv env ''DUMP_DIR'' ''/dump'',
            cfg_register_debug = env_flag env ''REGISTER_DEBUG'' ''false'',
            cfg_register_dir = getenv env ''REGISTER_DEBUG_DIR'' ''/share/GroBro/register_debug'',
            cfg_max_register = max_register_setting (getenv env ''REGISTER_DEBUG_MAX_REGISTER'' ''65535''),
            cfg_changes_only = env_flag env ''REGISTER_DEBUG_CHANGES_ONLY'' ''true'',
            cfg_device_timeout = device_timeout_setting timeout,
            cfg_max_slots = slots,
            cfg_max_bat = max_bat_setting env,
            cfg_availability_sensor = env_flag env ''AVAILABILITY_SENSOR'' ''False'',
            cfg_keep_positions = env_flag env ''KEEP_BATTERY_POSITION'' ''False'',
            cfg_ingress_port = port\<rparr>))))"

section \<open>Identities\<close>

definition source_client_id :: "string \<Rightarrow> string" where
  "source_client_id sfx = ''grobro-grobro'' @ (if sfx = [] then [] else ''-'' @ sfx)"

definition home_client_id :: "string \<Rightarrow> string" where
  "home_client_id sfx = ''grobro-ha'' @ (if sfx = [] then [] else ''-'' @ sfx)"

definition home_availability_topic :: "string \<Rightarrow> string \<Rightarrow> string" where
  "home_availability_topic base sfx = base @ ''/grobro/'' @ home_client_id sfx @ ''/availability''"

section \<open>The exported options\<close>

text \<open>
  \<open>run.sh\<close> exports every option of the stored file under its own name, over what the container was
  started with; \<open>to_text\<close> is the \<open>tostring\<close> of \<open>jq\<close>.
\<close>

definition exported :: "('f json \<Rightarrow> string) \<Rightarrow> (string, 'f json) dict \<Rightarrow> environ \<Rightarrow> environ" where
  "exported to_text options env key =
     (case dict_get options key of Some v \<Rightarrow> Some (to_text v) | None \<Rightarrow> env key)"

text \<open>
  The settings read back under the names and in the types of the options; \<open>TZ\<close> is the time zone of
  the process and no setting of the program.
\<close>

definition text_of :: "string option \<Rightarrow> 'f json" where
  "text_of s = JStr (case s of None \<Rightarrow> '''' | Some t \<Rightarrow> t)"

definition shown_settings :: "settings \<Rightarrow> (string \<times> 'f json) list" where
  "shown_settings st =
     [(''SOURCE_MQTT_HOST'', JStr (mq_host (cfg_source st))), (''SOURCE_MQTT_PORT'', JInt (mq_port (cfg_source st))),
      (''SOURCE_MQTT_TLS'', JBool (mq_use_tls (cfg_source st))),
      (''SOURCE_MQTT_USER'', text_of (mq_username (cfg_source st))),
      (''SOURCE_MQTT_PASS'', text_of (mq_password (cfg_source st))),
      (''TARGET_MQTT_HOST'', JStr (mq_host (cfg_target st))), (''TARGET_MQTT_PORT'', JInt (mq_port (cfg_target st))),
      (''TARGET_MQTT_TLS'', JBool (mq_use_tls (cfg_target st))),
      (''TARGET_MQTT_USER'', text_of (mq_username (cfg_target st))),
      (''TARGET_MQTT_PASS'', text_of (mq_password (cfg_target st))),
      (''MQTT_CLIENT_SUFFIX'', JStr (cfg_suffix st)), (''HA_BASE_TOPIC'', JStr (cfg_base_topic st)),
      (''GROWATT_CLOUD'', JBool (forwards_all_devices (cfg_cloud st))),
      (''GROWATT_CLOUD_CONFIG_FILTER'', JBool (cp_block_config (cfg_cloud st))),
      (''LOG_LEVEL'', JStr (fst (cfg_log_level st))), (''DUMP_MESSAGES'', JBool (cfg_dump_messages st)),
      (''DUMP_DIR'', JStr (cfg_dump_dir st)), (''REGISTER_DEBUG'', JBool (cfg_register_debug st)),
      (''REGISTER_DEBUG_DIR'', JStr (cfg_register_dir st)),
      (''REGISTER_DEBUG_MAX_REGISTER'', JInt (cfg_max_register st)),
      (''REGISTER_DEBUG_CHANGES_ONLY'', JBool (cfg_changes_only st)),
      (''DEVICE_TIMEOUT'', JInt (cfg_device_timeout st)), (''MAX_SLOTS'', JInt (cfg_max_slots st)),
      (''MAX_BAT'', JStr (case cfg_max_bat st of None \<Rightarrow> ''auto'' | Some n \<Rightarrow> str_of_int n)),
      (''AVAILABILITY_SENSOR'', JBool (cfg_availability_sensor st)),
      (''KEEP_BATTERY_POSITION'', JBool (cfg_keep_positions st))]"

text \<open>An option as it takes effect: a timeout of zero is the default.\<close>

definition effective_option :: "string \<Rightarrow> 'f json \<Rightarrow> 'f json" where
  "effective_option key v = (if key = ''DEVICE_TIMEOUT'' \<and> v = JInt 0 then JInt 120 else v)"

text \<open>What \<open>jq\<close> documents: strings as they are, \<open>true\<close> and \<open>false\<close>, whole numbers exact up to 2 to the 53rd.\<close>

definition text_law :: "('f json \<Rightarrow> string) \<Rightarrow> bool" where
  "text_law to_text \<longleftrightarrow>
     (\<forall>s. to_text (JStr s) = s) \<and>
     (\<forall>b. to_text (JBool b) = (if b then ''true'' else ''false'')) \<and>
     (\<forall>n. \<bar>n\<bar> \<le> 2 ^ 53 \<longrightarrow> to_text (JInt n) = str_of_int n)"

definition number_exact :: "'f json \<Rightarrow> bool" where
  "number_exact v \<longleftrightarrow> (case v of JInt n \<Rightarrow> \<bar>n\<bar> \<le> 2 ^ 53 | _ \<Rightarrow> True)"

text \<open>Options within the schema of the page, and numbers \<open>jq\<close> prints exactly.\<close>

definition options_ok :: "(string, 'f json) dict \<Rightarrow> bool" where
  "options_ok options \<longleftrightarrow>
     list_all (\<lambda>k. case dict_get options k of None \<Rightarrow> True | Some v \<Rightarrow> option_ok k v) allowed_options"

definition numbers_exact :: "(string, 'f json) dict \<Rightarrow> bool" where
  "numbers_exact options \<longleftrightarrow>
     list_all (\<lambda>k. case dict_get options k of None \<Rightarrow> True | Some v \<Rightarrow> number_exact v) int_options"

text \<open>The numbers the container itself sets, which no option of the page overrides.\<close>

definition numbers_unset :: "environ \<Rightarrow> string list \<Rightarrow> bool" where
  "numbers_unset env keys \<longleftrightarrow> list_all (\<lambda>k. env k = None) keys"

section \<open>Options in the environment\<close>

lemma exported_Some: "dict_get options k = Some v \<Longrightarrow> exported to_text options env k = Some (to_text v)"
  by (simp add: exported_def)

lemma exported_None: "dict_get options k = None \<Longrightarrow> exported to_text options env k = env k"
  by (simp add: exported_def)

lemma option_kinds:
  assumes "options_ok options" "dict_get options k = Some v" "k \<in> set allowed_options"
  shows "k \<in> set bool_options \<Longrightarrow> \<exists>b. v = JBool b"
    and "k \<in> set int_options \<Longrightarrow> \<exists>n. v = JInt n \<and> number_ok k n"
    and "k \<notin> set bool_options \<Longrightarrow> k \<notin> set int_options \<Longrightarrow> \<exists>s. v = JStr s \<and> text_ok k s"
proof -
  have "option_ok k v" using assms by (auto simp: options_ok_def list_all_iff split: option.splits)
  then show "k \<in> set bool_options \<Longrightarrow> \<exists>b. v = JBool b"
    "k \<in> set int_options \<Longrightarrow> \<exists>n. v = JInt n \<and> number_ok k n"
    "k \<notin> set bool_options \<Longrightarrow> k \<notin> set int_options \<Longrightarrow> \<exists>s. v = JStr s \<and> text_ok k s"
    using bool_or_int [of k] by (auto simp: option_ok_def split: json.splits)
qed

lemma ints_allowed: "k \<in> set int_options \<Longrightarrow> k \<in> set allowed_options"
  by (auto simp: int_options_def allowed_options_def)

lemma bools_allowed: "k \<in> set bool_options \<Longrightarrow> k \<in> set allowed_options"
  by (auto simp: bool_options_code allowed_options_def)

text \<open>A number option is read as it is stored, and as its default when it is not.\<close>

definition option_number :: "(string, 'f json) dict \<Rightarrow> string \<Rightarrow> int \<Rightarrow> int" where
  "option_number options k fallback = (case dict_get options k of Some (JInt n) \<Rightarrow> n | _ \<Rightarrow> fallback)"

lemma exported_number:
  assumes "options_ok options" "numbers_exact options" "text_law to_text" "numbers_unset env int_options"
    and "k \<in> set int_options"
  shows "exported to_text options env k =
    (case dict_get options k of Some (JInt n) \<Rightarrow> Some (str_of_int n) | _ \<Rightarrow> None)"
proof (cases "dict_get options k")
  case None
  with assms show ?thesis by (simp add: exported_None numbers_unset_def list_all_iff)
next
  case (Some v)
  obtain n where n: "v = JInt n"
    using option_kinds(2) [OF assms(1) Some ints_allowed [OF assms(5)] assms(5)] by blast
  have "\<bar>n\<bar> \<le> 2 ^ 53" using assms(2,5) Some n by (auto simp: numbers_exact_def list_all_iff number_exact_def)
  then show ?thesis using assms(3) Some n by (simp add: exported_Some text_law_def)
qed

lemma env_int_exported:
  assumes "options_ok options" "numbers_exact options" "text_law to_text" "numbers_unset env int_options"
    and "k \<in> set int_options" "py_int_of_str fallback = Some m"
  shows "env_int (exported to_text options env) k fallback = Inr (option_number options k m)"
  using exported_number [OF assms(1-5)] assms(6)
  by (simp add: env_int_def getenv_def option_number_def py_int_str_of_int split: option.splits json.splits)

lemma env_flag_exported:
  assumes "options_ok options" "text_law to_text" "k \<in> set bool_options" "dict_get options k = Some v"
  shows "v = JBool (env_flag (exported to_text options env) k fallback)"
proof -
  obtain b where b: "v = JBool b" using option_kinds(1) [OF assms(1,4) bools_allowed [OF assms(3)] assms(3)] by blast
  have "py_lower ''true'' = ''true''" "py_lower ''false'' = ''false''" by code_simp+
  then show ?thesis using assms(2,4) b by (simp add: env_flag_def getenv_def exported_Some text_law_def)
qed

lemma getenv_exported:
  assumes "options_ok options" "text_law to_text" "k \<in> set allowed_options"
    and "k \<notin> set bool_options" "k \<notin> set int_options" "dict_get options k = Some v"
  shows "v = JStr (getenv (exported to_text options env) k fallback) \<and>
    text_ok k (getenv (exported to_text options env) k fallback)"
proof -
  obtain s where "v = JStr s" "text_ok k s" using option_kinds(3) [OF assms(1,6,3-5)] by blast
  then show ?thesis using assms(2,6) by (simp add: getenv_def exported_Some text_law_def)
qed

text \<open>The settings of one broker, from exported options and from an environment without its port.\<close>

definition broker_settings :: "environ \<Rightarrow> string \<Rightarrow> mqtt_config \<Rightarrow> int \<Rightarrow> mqtt_config" where
  "broker_settings env pre defaults port =
     \<lparr>mq_host = getenv env (pre @ ''_MQTT_HOST'') (mq_host defaults), mq_port = port,
      mq_use_tls = env_flag env (pre @ ''_MQTT_TLS'') (if mq_use_tls defaults then ''True'' else ''False''),
      mq_username = (case env (pre @ ''_MQTT_USER'') of Some u \<Rightarrow> Some u | None \<Rightarrow> mq_username defaults),
      mq_password = (case env (pre @ ''_MQTT_PASS'') of Some u \<Rightarrow> Some u | None \<Rightarrow> mq_password defaults)\<rparr>"

lemma broker_from_env:
  assumes "env (pre @ ''_MQTT_PORT'') = map_option str_of_int n"
  shows "mqtt_config_from_env env pre defaults =
    Inr (broker_settings env pre defaults (case n of None \<Rightarrow> mq_port defaults | Some m \<Rightarrow> m))"
  using assms
  by (cases n) (simp_all add: mqtt_config_from_env_def broker_settings_def getenv_def env_flag_def
      py_int_str_of_int cong: option.case_cong)

lemma broker_exported:
  assumes "options_ok options" "numbers_exact options" "text_law to_text" "numbers_unset env int_options"
    and "pre @ ''_MQTT_PORT'' \<in> set int_options"
  shows "mqtt_config_from_env (exported to_text options env) pre defaults =
    Inr (broker_settings (exported to_text options env) pre defaults
      (option_number options (pre @ ''_MQTT_PORT'') (mq_port defaults)))"
proof -
  have "exported to_text options env (pre @ ''_MQTT_PORT'') =
      map_option str_of_int (case dict_get options (pre @ ''_MQTT_PORT'') of Some (JInt n) \<Rightarrow> Some n | _ \<Rightarrow> None)"
    unfolding exported_number [OF assms] by (simp split: option.splits json.splits)
  from broker_from_env [where env = "exported to_text options env" and pre = pre, OF this] show ?thesis
    by (simp add: option_number_def split: option.splits json.splits)
qed

text \<open>A text option that is optional for a broker.\<close>

lemma broker_text:
  assumes "options_ok options" "text_law to_text" "k \<in> set allowed_options"
    and "k \<notin> set bool_options" "k \<notin> set int_options" "dict_get options k = Some v"
  shows "v = text_of (case exported to_text options env k of Some u \<Rightarrow> Some u | None \<Rightarrow> u')"
proof -
  obtain s where "v = JStr s" using option_kinds(3) [OF assms(1,6,3-5)] by blast
  then show ?thesis using assms(2,6) by (simp add: exported_Some text_law_def text_of_def)
qed

text \<open>The switches of the cloud: the page offers them as two booleans.\<close>

lemma cloud_exported:
  assumes "options_ok options" "text_law to_text"
  shows "dict_get options ''GROWATT_CLOUD'' = Some v \<Longrightarrow>
      v = JBool (forwards_all_devices (cloud_setting (exported to_text options env)))"
    and "dict_get options ''GROWATT_CLOUD_CONFIG_FILTER'' = Some v \<Longrightarrow>
      v = JBool (cp_block_config (cloud_setting (exported to_text options env)))"
proof -
  have keys: "''GROWATT_CLOUD'' \<in> set bool_options" "''GROWATT_CLOUD_CONFIG_FILTER'' \<in> set bool_options"
    by (simp_all add: bool_options_code)
  have on: "forwards_all_devices (parse_cloud_policy (Some (py_strip (if b then ''true'' else ''false''))) x) = b" for b x
  proof -
    have "py_strip ''true'' = ''true''" "py_strip ''false'' = ''false''" "py_lower ''true'' = ''true''"
      "py_lower ''false'' = ''false''" "or_false (Some ''true'') = ''true''" "or_false (Some ''false'') = ''false''"
      by code_simp+
    then show ?thesis
      by (cases b) (simp_all add: parse_cloud_policy_def Let_def forwards_all_devices_def false_values_def)
  qed
  have filt: "cp_block_config (parse_cloud_policy x (Some (py_lower (if b then ''true'' else ''false'')))) = b" for b x
  proof -
    have "py_lower (py_strip (or_false (Some (py_lower ''true'')))) = ''true''"
      "py_lower (py_strip (or_false (Some (py_lower ''false'')))) = ''false''" by code_simp+
    then show ?thesis by (cases b) (simp_all add: parse_cloud_policy_def Let_def)
  qed
  { assume v: "dict_get options ''GROWATT_CLOUD'' = Some v"
    obtain b where "v = JBool b" using option_kinds(1) [OF assms(1) v bools_allowed [OF keys(1)] keys(1)] by blast
    then show "v = JBool (forwards_all_devices (cloud_setting (exported to_text options env)))"
      using on assms(2) v by (simp add: cloud_setting_def getenv_def exported_Some text_law_def) }
  { assume v: "dict_get options ''GROWATT_CLOUD_CONFIG_FILTER'' = Some v"
    obtain b where "v = JBool b" using option_kinds(1) [OF assms(1) v bools_allowed [OF keys(2)] keys(2)] by blast
    then show "v = JBool (cp_block_config (cloud_setting (exported to_text options env)))"
      using filt assms(2) v by (simp add: cloud_setting_def getenv_def exported_Some text_law_def) }
qed

lemma level_shown:
  assumes "text_ok ''LOG_LEVEL'' (getenv env ''LOG_LEVEL'' ''ERROR'')"
  shows "fst (configure_logging env) = getenv env ''LOG_LEVEL'' ''ERROR''"
proof -
  define s where "s = getenv env ''LOG_LEVEL'' ''ERROR''"
  have s: "s \<in> {''ERROR'', ''INFO'', ''DEBUG''}" using assms by (simp add: text_ok_def s_def)
  then have "py_upper s = s" by (simp only: level_upper)
  moreover have "dict_get logging_levels s \<noteq> None" using s by (auto simp: logging_levels_def)
  ultimately show ?thesis by (auto simp: configure_logging_def s_def [symmetric] Let_def)
qed

lemma max_bat_shown:
  "s \<in> {''auto'', ''1'', ''2'', ''3'', ''4''} \<Longrightarrow>
   (case py_int_of_str s of None \<Rightarrow> ''auto'' | Some n \<Rightarrow> str_of_int n) = s"
proof -
  have "py_int_of_str ''auto'' = None" "py_int_of_str ''1'' = Some 1" "py_int_of_str ''2'' = Some 2"
    "py_int_of_str ''3'' = Some 3" "py_int_of_str ''4'' = Some 4" "str_of_int 1 = ''1''" "str_of_int 2 = ''2''"
    "str_of_int 3 = ''3''" "str_of_int 4 = ''4''" by code_simp+
  then show "s \<in> {''auto'', ''1'', ''2'', ''3'', ''4''} \<Longrightarrow> ?thesis" by auto
qed

text \<open>An option agrees with a setting: it is not stored, or it is that setting.\<close>

definition agrees :: "(string, 'f json) dict \<Rightarrow> string \<Rightarrow> 'f json \<Rightarrow> bool" where
  "agrees options k w \<longleftrightarrow>
     (case dict_get options k of None \<Rightarrow> True | Some v \<Rightarrow> w = effective_option k v)"

lemma agreesI: "(\<And>v. dict_get options k = Some v \<Longrightarrow> v = w) \<Longrightarrow> k \<noteq> ''DEVICE_TIMEOUT'' \<Longrightarrow> agrees options k w"
  by (auto simp: agrees_def effective_option_def split: option.splits)

lemma agrees_flag:
  assumes "options_ok options" "text_law to_text" "k \<in> set bool_options"
  shows "agrees options k (JBool (env_flag (exported to_text options env) k fallback))"
  using env_flag_exported [OF assms] assms(3) by (intro agreesI) (auto simp: bool_options_code)

lemma agrees_getenv:
  assumes "options_ok options" "text_law to_text" "k \<in> set allowed_options"
    and "k \<notin> set bool_options" "k \<notin> set int_options"
  shows "agrees options k (JStr (getenv (exported to_text options env) k fallback))"
  using getenv_exported [OF assms] assms(5) by (intro agreesI) (auto simp: int_options_def)

lemma agrees_broker_text:
  assumes "options_ok options" "text_law to_text" "k \<in> set allowed_options"
    and "k \<notin> set bool_options" "k \<notin> set int_options"
  shows "agrees options k (text_of (case exported to_text options env k of Some u \<Rightarrow> Some u | None \<Rightarrow> u'))"
  using broker_text [OF assms] assms(5) by (intro agreesI) (auto simp: int_options_def)

lemma agrees_number:
  assumes "options_ok options" "k \<in> set int_options" "k \<noteq> ''DEVICE_TIMEOUT''"
  shows "agrees options k (JInt (option_number options k m))"
proof (rule agreesI)
  fix v
  assume v: "dict_get options k = Some v"
  obtain n where "v = JInt n" using option_kinds(2) [OF assms(1) v ints_allowed [OF assms(2)] assms(2)] by blast
  then show "v = JInt (option_number options k m)" by (simp add: option_number_def v)
qed (rule assms(3))

lemma agrees_timeout:
  assumes "options_ok options"
  shows "agrees options ''DEVICE_TIMEOUT'' (JInt (device_timeout_setting (option_number options ''DEVICE_TIMEOUT'' m)))"
proof -
  have k: "''DEVICE_TIMEOUT'' \<in> set int_options" by (simp add: int_options_def)
  { fix v
    assume v: "dict_get options ''DEVICE_TIMEOUT'' = Some v"
    obtain n where "v = JInt n" "number_ok ''DEVICE_TIMEOUT'' n"
      using option_kinds(2) [OF assms v ints_allowed [OF k] k] by blast
    then have "JInt (device_timeout_setting (option_number options ''DEVICE_TIMEOUT'' m)) =
        effective_option ''DEVICE_TIMEOUT'' v"
      using v by (auto simp: option_number_def device_timeout_setting_def effective_option_def number_ok_def) }
  then show ?thesis by (auto simp: agrees_def split: option.split)
qed

lemma agrees_max_register:
  assumes "options_ok options" "numbers_exact options" "text_law to_text" "numbers_unset env int_options"
  shows "agrees options ''REGISTER_DEBUG_MAX_REGISTER''
    (JInt (max_register_setting (getenv (exported to_text options env) ''REGISTER_DEBUG_MAX_REGISTER'' fallback)))"
proof (rule agreesI)
  let ?k = "''REGISTER_DEBUG_MAX_REGISTER''"
  fix v
  assume v: "dict_get options ?k = Some v"
  have k: "?k \<in> set int_options" by (simp add: int_options_def)
  obtain n where n: "v = JInt n" "number_ok ?k n" using option_kinds(2) [OF assms(1) v ints_allowed [OF k] k] by blast
  have "py_int_of_str (py_strip (str_of_int n)) = Some n"
    using py_int_str_of_int [of n] by (simp add: py_int_of_str_def strip_by_idem py_strip_def)
  then show "v = JInt (max_register_setting (getenv (exported to_text options env) ?k fallback))"
    using exported_number [OF assms k] v n by (simp add: max_register_setting_def getenv_def number_ok_def)
qed simp

lemma agrees_level:
  assumes "options_ok options" "text_law to_text"
  shows "agrees options ''LOG_LEVEL'' (JStr (fst (configure_logging (exported to_text options env))))"
proof (rule agreesI)
  fix v
  assume v: "dict_get options ''LOG_LEVEL'' = Some v"
  have "v = JStr (getenv (exported to_text options env) ''LOG_LEVEL'' ''ERROR'') \<and>
      text_ok ''LOG_LEVEL'' (getenv (exported to_text options env) ''LOG_LEVEL'' ''ERROR'')"
    by (rule getenv_exported [OF assms _ _ _ v]) (simp_all add: allowed_options_def bool_options_code int_options_def)
  then show "v = JStr (fst (configure_logging (exported to_text options env)))"
    by (metis level_shown)
qed simp

lemma agrees_max_bat:
  assumes "options_ok options" "text_law to_text"
  shows "agrees options ''MAX_BAT''
    (JStr (case max_bat_setting (exported to_text options env) of None \<Rightarrow> ''auto'' | Some n \<Rightarrow> str_of_int n))"
proof (rule agreesI)
  fix v
  assume v: "dict_get options ''MAX_BAT'' = Some v"
  have "v = JStr (getenv (exported to_text options env) ''MAX_BAT'' ''auto'') \<and>
      text_ok ''MAX_BAT'' (getenv (exported to_text options env) ''MAX_BAT'' ''auto'')"
    by (rule getenv_exported [OF assms _ _ _ v]) (simp_all add: allowed_options_def bool_options_code int_options_def)
  then show "v = JStr (case max_bat_setting (exported to_text options env) of None \<Rightarrow> ''auto'' | Some n \<Rightarrow> str_of_int n)"
    using max_bat_shown [of "getenv (exported to_text options env) ''MAX_BAT'' ''auto''"]
    by (simp add: max_bat_setting_def text_ok_def)
qed simp

lemma agrees_cloud:
  assumes "options_ok options" "text_law to_text"
  shows "agrees options ''GROWATT_CLOUD'' (JBool (forwards_all_devices (cloud_setting (exported to_text options env))))"
    and "agrees options ''GROWATT_CLOUD_CONFIG_FILTER''
      (JBool (cp_block_config (cloud_setting (exported to_text options env))))"
  by (auto intro: agreesI cloud_exported [OF assms])

section \<open>Options start the program\<close>

text \<open>The settings the exported options amount to.\<close>

definition source_from :: "(string, 'f json) dict \<Rightarrow> environ \<Rightarrow> mqtt_config" where
  "source_from options env =
     broker_settings env ''SOURCE''
       \<lparr>mq_host = ''localhost'', mq_port = 1883, mq_use_tls = False, mq_username = None, mq_password = None\<rparr>
       (option_number options ''SOURCE_MQTT_PORT'' 1883)"

definition target_from :: "(string, 'f json) dict \<Rightarrow> environ \<Rightarrow> mqtt_config" where
  "target_from options env =
     broker_settings env ''TARGET'' (source_from options env)
       (option_number options ''TARGET_MQTT_PORT'' (mq_port (source_from options env)))"

definition settings_from :: "(string, 'f json) dict \<Rightarrow> environ \<Rightarrow> settings" where
  "settings_from options env =
     \<lparr>cfg_source = source_from options env, cfg_target = target_from options env,
      cfg_forward = broker_settings env ''FORWARD''
        \<lparr>mq_host = ''mqtt.growatt.com'', mq_port = 7006, mq_use_tls = False, mq_username = None,
         mq_password = None\<rparr> 7006,
      cfg_suffix = getenv env ''MQTT_CLIENT_SUFFIX'' '''',
      cfg_base_topic = getenv env ''HA_BASE_TOPIC'' ''homeassistant'',
      cfg_cloud = cloud_setting env, cfg_log_level = configure_logging env,
      cfg_dump_messages = env_flag env ''DUMP_MESSAGES'' ''false'',
      cfg_dump_dir = getenv env ''DUMP_DIR'' ''/dump'',
      cfg_register_debug = env_flag env ''REGISTER_DEBUG'' ''false'',
      cfg_register_dir = getenv env ''REGISTER_DEBUG_DIR'' ''/share/GroBro/register_debug'',
      cfg_max_register = max_register_setting (getenv env ''REGISTER_DEBUG_MAX_REGISTER'' ''65535''),
      cfg_changes_only = env_flag env ''REGISTER_DEBUG_CHANGES_ONLY'' ''true'',
      cfg_device_timeout = device_timeout_setting (option_number options ''DEVICE_TIMEOUT'' 120),
      cfg_max_slots = option_number options ''MAX_SLOTS'' 1, cfg_max_bat = max_bat_setting env,
      cfg_availability_sensor = env_flag env ''AVAILABILITY_SENSOR'' ''False'',
      cfg_keep_positions = env_flag env ''KEEP_BATTERY_POSITION'' ''False'', cfg_ingress_port = 8099\<rparr>"

lemma read_settings_exported:
  assumes ok: "options_ok options" and exact: "numbers_exact options" and law: "text_law to_text"
    and base: "numbers_unset env int_options"
    and own: "numbers_unset (exported to_text options env) [''FORWARD_MQTT_PORT'', ''INGRESS_PORT'']"
  shows "read_settings (exported to_text options env) = Inr (settings_from options (exported to_text options env))"
proof -
  let ?env = "exported to_text options env"
  have ints: "k \<in> set int_options" if "k \<in> {''DEVICE_TIMEOUT'', ''MAX_SLOTS'', ''SOURCE_MQTT_PORT'', ''TARGET_MQTT_PORT''}" for k
    using that by (auto simp: int_options_def)
  have nums: "py_int_of_str ''120'' = Some 120" "py_int_of_str ''1'' = Some 1" "py_int_of_str ''8099'' = Some 8099"
    by code_simp+
  have timeout: "env_int ?env ''DEVICE_TIMEOUT'' ''120'' = Inr (option_number options ''DEVICE_TIMEOUT'' 120)"
    and slots: "env_int ?env ''MAX_SLOTS'' ''1'' = Inr (option_number options ''MAX_SLOTS'' 1)"
    using env_int_exported [OF ok exact law base ints] nums by simp_all
  have port: "env_int ?env ''INGRESS_PORT'' ''8099'' = Inr 8099"
    using own nums by (simp add: env_int_def getenv_def numbers_unset_def)
  have source: "mqtt_config_from_env ?env ''SOURCE'' d =
      Inr (broker_settings ?env ''SOURCE'' d (option_number options ''SOURCE_MQTT_PORT'' (mq_port d)))"
    and target: "mqtt_config_from_env ?env ''TARGET'' d =
      Inr (broker_settings ?env ''TARGET'' d (option_number options ''TARGET_MQTT_PORT'' (mq_port d)))" for d
    using broker_exported [OF ok exact law base, of "''SOURCE''" d] broker_exported [OF ok exact law base, of "''TARGET''" d]
      ints by simp_all
  have forward: "mqtt_config_from_env ?env ''FORWARD'' d = Inr (broker_settings ?env ''FORWARD'' d (mq_port d))" for d
    using broker_from_env [of ?env "''FORWARD''" None d] own by (simp add: numbers_unset_def)
  show ?thesis
    by (simp add: read_settings_def load_bridge_mqtt_configs_def settings_from_def source_from_def target_from_def
        timeout slots port source target forward)
qed

lemma broker_settings_fields:
  "mq_host (broker_settings e pre d n) = getenv e (pre @ ''_MQTT_HOST'') (mq_host d)"
  "mq_port (broker_settings e pre d n) = n"
  "mq_use_tls (broker_settings e pre d n) =
     env_flag e (pre @ ''_MQTT_TLS'') (if mq_use_tls d then ''True'' else ''False'')"
  "mq_username (broker_settings e pre d n) =
     (case e (pre @ ''_MQTT_USER'') of Some u \<Rightarrow> Some u | None \<Rightarrow> mq_username d)"
  "mq_password (broker_settings e pre d n) =
     (case e (pre @ ''_MQTT_PASS'') of Some u \<Rightarrow> Some u | None \<Rightarrow> mq_password d)"
  by (simp_all add: broker_settings_def)

lemma settings_agree:
  assumes ok: "options_ok options" and exact: "numbers_exact options" and law: "text_law to_text"
    and base: "numbers_unset env int_options"
  shows "list_all (\<lambda>(k, w). agrees options k w) (shown_settings (settings_from options (exported to_text options env)))"
  unfolding shown_settings_def settings_from_def settings.simps list.pred_inject prod.case source_from_def
    target_from_def broker_settings_fields append.simps
  by (intro conjI TrueI agrees_getenv [OF ok law] agrees_flag [OF ok law] agrees_broker_text [OF ok law]
      agrees_number [OF ok] agrees_timeout [OF ok] agrees_max_register [OF ok exact law base]
      agrees_level [OF ok law] agrees_max_bat [OF ok law] agrees_cloud [OF ok law])
    (simp_all add: allowed_options_def bool_options_code int_options_def)

lemma shown_settings_keys: "map fst (shown_settings st) = filter (\<lambda>k. k \<noteq> ''TZ'') allowed_options"
  by (simp add: shown_settings_def allowed_options_def)

text \<open>The schema holds of saved options when it held of the options before.\<close>

lemma saved_options_ok:
  assumes "normalize_items F rp items = Inr changes" "dict_wf items" "options_ok current"
  shows "options_ok (dict_update (without_retired current) changes)"
proof -
  have "case saved_value F rp items current k of None \<Rightarrow> True | Some v \<Rightarrow> option_ok k v"
    if k: "k \<in> set allowed_options" for k
  proof (cases "dict_get changes k")
    case None
    then show ?thesis
      using assms(3) k retired_not_allowed [of k] normalize_items_get [OF assms(1), of k]
      by (auto simp: saved_value_def options_ok_def list_all_iff split: option.splits sum.splits)
  next
    case (Some w)
    have "option_ok k w"
      using normalize_items_spec [of F rp items] assms(1) map_of_SomeD [OF Some] by (auto simp: list_all_iff)
    moreover have "saved_value F rp items current k = Some w"
      using Some normalize_items_get [OF assms(1), of k] k
      by (auto simp: saved_value_def split: option.splits sum.splits)
    ultimately show ?thesis by simp
  qed
  then show ?thesis
    by (simp add: options_ok_def merged_value [OF assms(1,2)] list_all_iff)
qed

text \<open>C23: Options saved by the page start the program: when the Supervisor accepted a save over stored options
  that are within the schema of the page, the next start reads the exported options without an error, and
  every setting is the option as it was saved (the change of the page in its normal form, or what was stored
  before), except that a saved \<open>DEVICE_TIMEOUT\<close> of 0 takes effect as 120. The conditions: the numbers of the
  saved options are at most 2 to the 53rd, which \<open>jq\<close> prints exactly; and no number is set outside the
  options: the environment of the start sets none of the page's numbers, and neither it nor an option
  outside the page's schema sets \<open>FORWARD_MQTT_PORT\<close> or \<open>INGRESS_PORT\<close>.\<close>

theorem saved_options_take_effect:
  assumes "text_law to_text" "dict_wf items" "options_ok current"
    and "snd (addon_info F E calls) = Inr (info, current)"
    and "snd (save_addon_options F E (JObj items) calls) = Inr merged" "numbers_exact merged"
    and "numbers_unset env int_options"
    and "numbers_unset (exported to_text merged env) [''FORWARD_MQTT_PORT'', ''INGRESS_PORT'']"
  shows "case read_settings (exported to_text merged env) of
      Inl e \<Rightarrow> False
    | Inr st \<Rightarrow>
        list_all (\<lambda>(k, w). case saved_value F (se_repr E) items current k of
            None \<Rightarrow> True
          | Some v \<Rightarrow> w = effective_option k v) (shown_settings st)"
proof -
  obtain changes where changes: "normalize_items F (se_repr E) items = Inr changes"
    and merged: "merged = dict_update (without_retired current) changes"
    using assms(4,5)
    by (auto simp: save_addon_options_def normalize_options_def Let_def split: sum.splits prod.splits)
  note get = merged_value [OF changes assms(2), where current = current, folded merged]
  have ok: "options_ok merged" using saved_options_ok [OF changes assms(2,3)] by (simp add: merged)
  show ?thesis
    using settings_agree [OF ok assms(6,1,7)]
    by (simp add: read_settings_exported [OF ok assms(6,1,7,8)] agrees_def get)
qed

fun sample_text :: "int json \<Rightarrow> string" where
  "sample_text (JStr s) = s"
| "sample_text (JBool b) = (if b then ''true'' else ''false'')"
| "sample_text (JInt n) = str_of_int n"
| "sample_text _ = ''null''"

definition sample_merged :: "(string, int json) dict" where
  "sample_merged = [(''SOURCE_MQTT_HOST'', JStr ''new.local''), (''FUTURE_OPTION'', JStr ''keep''), (''MAX_SLOTS'', JInt 3)]"

theorem saved_options_take_effect_witness:
  "text_law sample_text \<and> dict_wf sample_changes \<and>
   snd (save_addon_options whole_floats sample_supervisor (JObj sample_changes) []) = Inr sample_merged \<and>
   (case read_settings (exported sample_text sample_merged (\<lambda>_. None)) of
      Inl e \<Rightarrow> False
    | Inr st \<Rightarrow>
        mq_host (cfg_source st) = ''new.local'' \<and> cfg_max_slots st = 3 \<and>
        list_all (\<lambda>(k, w). case saved_value whole_floats no_repr sample_changes
            [(''SOURCE_MQTT_HOST'', JStr ''old.local''), (''FUTURE_OPTION'', JStr ''keep''),
             (''PUBLISH_SENSORS_RETAINED'', JBool True)] k of
            None \<Rightarrow> True
          | Some v \<Rightarrow> w = effective_option k v) (shown_settings st))"
proof -
  let ?current = "[(''SOURCE_MQTT_HOST'', JStr ''old.local''), (''FUTURE_OPTION'', JStr ''keep''),
    (''PUBLISH_SENSORS_RETAINED'', JBool True)]"
  have law: "text_law sample_text" by (simp add: text_law_def)
  have wf: "dict_wf sample_changes" by (simp add: dict_wf_def sample_changes_def)
  have ok: "options_ok ?current" by code_simp
  obtain info where info: "snd (addon_info whole_floats sample_supervisor []) = Inr (info, ?current)"
  proof -
    have "snd (addon_info whole_floats sample_supervisor []) = Inr ([(''options'', JObj ?current)], ?current)"
      by code_simp
    then show ?thesis by (rule that)
  qed
  have saved: "snd (save_addon_options whole_floats sample_supervisor (JObj sample_changes) []) = Inr sample_merged"
    by code_simp
  have exact: "numbers_exact sample_merged" by code_simp
  have base: "numbers_unset (\<lambda>_. None) int_options" by (simp add: numbers_unset_def list_all_iff)
  have own: "numbers_unset (exported sample_text sample_merged (\<lambda>_. None)) [''FORWARD_MQTT_PORT'', ''INGRESS_PORT'']"
    by code_simp
  have ok': "options_ok sample_merged" by code_simp
  define st where "st = settings_from sample_merged (exported sample_text sample_merged (\<lambda>_. None))"
  have run: "read_settings (exported sample_text sample_merged (\<lambda>_. None)) = Inr st"
    unfolding st_def by (rule read_settings_exported [OF ok' exact law base own])
  have fields: "mq_host (cfg_source st) = ''new.local''" "cfg_max_slots st = 3"
    by (simp_all add: st_def settings_from_def source_from_def broker_settings_fields getenv_def exported_def
        option_number_def sample_merged_def)
  have repr: "se_repr sample_supervisor = no_repr" by (simp add: sample_supervisor_def)
  note effect = saved_options_take_effect [OF law wf ok info saved exact base own, unfolded run repr sum.case]
  show ?thesis
    unfolding run sum.case by (intro conjI law wf saved fields effect)
qed

end
