(* ===== verification/Lifecycle.thy ===== *)
theory Lifecycle
  imports Prelude
begin

text \<open>
  The run of the process: \<open>ha_bridge.py\<close> as the calls it makes, in order, whatever raises, and the signal
  handler of \<open>signals.py\<close> that ends the wait in between. A piece of the program is a function of the
  calls made so far that returns the calls made then and the exception it ends with; \<open>then_do\<close> is
  sequence, \<open>finally_do\<close> is \<open>try ... finally\<close>.
\<close>

section \<open>Signals\<close>

record signal_handler =
  sh_stop_event :: bool

definition new_signal_handler :: signal_handler where
  "new_signal_handler = \<lparr>sh_stop_event = False\<rparr>"

definition handle_signal :: "int \<Rightarrow> signal_handler \<Rightarrow> signal_handler" where
  "handle_signal signum h = h\<lparr>sh_stop_event := True\<rparr>"

definition keeps_running :: "signal_handler \<Rightarrow> bool" where
  "keeps_running h \<longleftrightarrow> \<not> sh_stop_event h"

definition wait_returns :: "signal_handler \<Rightarrow> bool" where
  "wait_returns h \<longleftrightarrow> sh_stop_event h"

text \<open>The wait ends exactly when a signal came, and stays ended.\<close>

lemma wait_ends_with_signal:
  "wait_returns (foldl (\<lambda>h s. handle_signal s h) new_signal_handler signals) \<longleftrightarrow> signals \<noteq> []"
  by (induction signals rule: rev_induct)
    (simp_all add: wait_returns_def handle_signal_def new_signal_handler_def)

section \<open>Calls that may raise\<close>

datatype program_call =
    MarkLogStart | MakeHomeClient | MakeSourceClient | WireClients | StartServer | MakeSignals
  | StartHome | StartSource | WaitForSignal | StopHome | StopSource | ShutdownServer | CloseServer

type_synonym 'e piece = "program_call list \<Rightarrow> program_call list \<times> 'e option"

definition make_call :: "(program_call \<Rightarrow> 'e option) \<Rightarrow> program_call \<Rightarrow> 'e piece" where
  "make_call raises c calls = (calls @ [c], raises c)"

definition then_do :: "'e piece \<Rightarrow> 'e piece \<Rightarrow> 'e piece" where
  "then_do a b calls =
     (case a calls of (calls', None) \<Rightarrow> b calls' | (calls', Some e) \<Rightarrow> (calls', Some e))"

definition finally_do :: "'e piece \<Rightarrow> 'e piece \<Rightarrow> 'e piece" where
  "finally_do a b calls =
     (case a calls of (calls', r) \<Rightarrow>
        (case b calls' of (calls'', None) \<Rightarrow> (calls'', r) | (calls'', Some e) \<Rightarrow> (calls'', Some e)))"

definition run_clients :: "(program_call \<Rightarrow> 'e option) \<Rightarrow> 'e piece" where
  "run_clients raises =
     finally_do
       (then_do (make_call raises StartHome)
         (then_do (make_call raises StartSource) (make_call raises WaitForSignal)))
       (finally_do (make_call raises StopHome) (make_call raises StopSource))"

definition run_program :: "(program_call \<Rightarrow> 'e option) \<Rightarrow> 'e piece" where
  "run_program raises =
     then_do (make_call raises MarkLogStart)
      (then_do (make_call raises MakeHomeClient)
       (then_do (make_call raises MakeSourceClient)
        (then_do (make_call raises WireClients)
         (then_do (make_call raises StartServer)
           (finally_do
             (then_do (make_call raises MakeSignals) (run_clients raises))
             (then_do (make_call raises ShutdownServer) (make_call raises CloseServer)))))))"

section \<open>What a run amounts to\<close>

text \<open>The exception a run ends with is that of the last call that raised.\<close>

definition latest :: "(program_call \<Rightarrow> 'e option) \<Rightarrow> program_call list \<Rightarrow> 'e option" where
  "latest raises cs = foldl (\<lambda>r c. case raises c of None \<Rightarrow> r | Some e \<Rightarrow> Some e) None cs"

definition reports_latest :: "(program_call \<Rightarrow> 'e option) \<Rightarrow> 'e piece \<Rightarrow> bool" where
  "reports_latest raises a \<longleftrightarrow> (\<forall>calls. \<exists>cs. a calls = (calls @ cs, latest raises cs))"

lemma latest_append:
  "latest raises (cs @ ds) = (case latest raises ds of None \<Rightarrow> latest raises cs | Some e \<Rightarrow> Some e)"
  by (induction ds rule: rev_induct) (simp_all add: latest_def split: option.splits)

lemma latest_None: "latest raises cs = None \<longleftrightarrow> list_all (\<lambda>c. raises c = None) cs"
  by (induction cs rule: rev_induct) (simp_all add: latest_def split: option.splits)

lemma reports_call: "reports_latest raises (make_call raises c)"
  by (simp add: reports_latest_def make_call_def latest_def split: option.splits)

lemma reports_then:
  assumes "reports_latest raises a" "reports_latest raises b"
  shows "reports_latest raises (then_do a b)"
  unfolding reports_latest_def
proof
  fix calls
  obtain cs where a: "a calls = (calls @ cs, latest raises cs)" using assms(1) by (auto simp: reports_latest_def)
  obtain ds where b: "b (calls @ cs) = ((calls @ cs) @ ds, latest raises ds)"
    using assms(2) unfolding reports_latest_def by blast
  show "\<exists>cs. then_do a b calls = (calls @ cs, latest raises cs)"
  proof (cases "latest raises cs")
    case None
    then have "then_do a b calls = (calls @ (cs @ ds), latest raises (cs @ ds))"
      by (simp add: then_do_def a b latest_append split: option.splits)
    then show ?thesis by blast
  next
    case (Some e)
    then show ?thesis by (intro exI [of _ cs]) (simp add: then_do_def a)
  qed
qed

lemma reports_finally:
  assumes "reports_latest raises a" "reports_latest raises b"
  shows "reports_latest raises (finally_do a b)"
  unfolding reports_latest_def
proof
  fix calls
  obtain cs where a: "a calls = (calls @ cs, latest raises cs)" using assms(1) by (auto simp: reports_latest_def)
  obtain ds where b: "b (calls @ cs) = ((calls @ cs) @ ds, latest raises ds)"
    using assms(2) unfolding reports_latest_def by blast
  have "finally_do a b calls = (calls @ (cs @ ds), latest raises (cs @ ds))"
    by (simp add: finally_do_def a b latest_append split: option.splits)
  then show "\<exists>cs. finally_do a b calls = (calls @ cs, latest raises cs)" by blast
qed

lemma program_reports_latest: "reports_latest raises (run_program raises)"
  unfolding run_program_def run_clients_def by (intro reports_then reports_finally reports_call)

text \<open>The calls of a run, as far as they depend on what raises.\<close>

fun until_raise :: "(program_call \<Rightarrow> 'e option) \<Rightarrow> program_call list \<Rightarrow> program_call list" where
  "until_raise raises [] = []"
| "until_raise raises (c # cs) = c # (if raises c = None then until_raise raises cs else [])"

lemma run_clients_calls:
  "fst (run_clients raises calls) =
     calls @ until_raise raises [StartHome, StartSource, WaitForSignal] @ [StopHome, StopSource]"
  by (simp add: run_clients_def finally_do_def then_do_def make_call_def split: option.splits)

text \<open>
  However the program ends: a client that may have been started is stopped, exactly once, Home Assistant
  before the source; a server that was started is shut down; and the exception the process ends with, if any, is
  the last one that was raised.
\<close>

theorem program_always_stops:
  "let (calls, r) = run_program raises [];
       opening = [MarkLogStart, MakeHomeClient, MakeSourceClient, WireClients, StartServer]
   in r = latest raises calls \<and>
      calls =
        until_raise raises opening @
        (if list_all (\<lambda>c. raises c = None) opening
         then MakeSignals #
              (if raises MakeSignals = None
               then until_raise raises [StartHome, StartSource, WaitForSignal] @ [StopHome, StopSource] else []) @
              until_raise raises [ShutdownServer, CloseServer]
         else [])"
proof -
  obtain calls r where run: "run_program raises [] = (calls, r)" by force
  have "r = latest raises calls"
    using program_reports_latest [of raises] run unfolding reports_latest_def
    by (metis append_Nil prod.inject)
  moreover have "fst (run_program raises []) =
        until_raise raises [MarkLogStart, MakeHomeClient, MakeSourceClient, WireClients, StartServer] @
        (if list_all (\<lambda>c. raises c = None)
            [MarkLogStart, MakeHomeClient, MakeSourceClient, WireClients, StartServer]
         then MakeSignals #
              (if raises MakeSignals = None
               then until_raise raises [StartHome, StartSource, WaitForSignal] @ [StopHome, StopSource] else []) @
              until_raise raises [ShutdownServer, CloseServer]
         else [])"
  proof -
    have clients: "\<exists>r. run_clients raises cs =
        (cs @ until_raise raises [StartHome, StartSource, WaitForSignal] @ [StopHome, StopSource], r)" for cs
      using run_clients_calls [of raises cs] by (metis prod.collapse)
    obtain ends where ends: "\<And>cs. run_clients raises cs =
        (cs @ until_raise raises [StartHome, StartSource, WaitForSignal] @ [StopHome, StopSource], ends cs)"
      using clients by metis
    show ?thesis
      by (simp add: run_program_def finally_do_def then_do_def make_call_def ends del: until_raise.simps(2)
          split: option.split) (simp split: option.splits)
  qed
  ultimately show ?thesis by (simp add: run Let_def)
qed

end
