(* ===== verification/Bridge.thy ===== *)
theory Bridge
  imports SourceClient HaClient
begin

text \<open>
  The program as a whole, \<open>grobro/ha_bridge.py\<close>: the source client and the Home Assistant client, wired to
  each other by \<open>wire_clients\<close>. What the source client hands out is an event of the Home Assistant client;
  what that one asks for becomes packets to devices.

  Callbacks run inside the handler that makes them. The packets a handler asks for depend on the gateways
  and the pending writes of the source client, which the handler itself does not change, so they are sent
  here after the handler. How the source broker takes a packet is an argument, and what a callback
  answers is an argument of each handler.
\<close>

section \<open>Definitions\<close>

record ('f, 'sig, 't) bridge =
  br_source :: source_client
  br_home :: "('f, 'sig, 't) ha_client"
  br_ready :: bool
  br_sent :: "(string \<times> bytes) list"

record ('f, 'sig, 't) bridge_env =
  be_source :: "'f source_env"
  be_home :: "('f, 'sig, 't) client_env"
  be_connected :: bool
  be_crc :: "bytes \<Rightarrow> int"
  be_publish :: "string \<Rightarrow> bytes \<Rightarrow> answer"

text \<open>Both clients use the same register maps.\<close>

definition source_env_of :: "('f, 'sig, 't, 'm) bridge_env_scheme \<Rightarrow> 'f source_env" where
  "source_env_of E = (be_source E)\<lparr>sv_maps := he_maps (be_home E)\<rparr>"

definition config_reads_ready :: "('f, 'sig, 't, 'm) bridge_env_scheme \<Rightarrow> ('f, 'sig, 't) bridge \<Rightarrow> bool" where
  "config_reads_ready E b \<longleftrightarrow> br_ready b \<and> be_connected E"

definition home_env_of ::
    "('f, 'sig, 't, 'm) bridge_env_scheme \<Rightarrow> ('f, 'sig, 't) bridge \<Rightarrow> ('f, 'sig, 't) client_env" where
  "home_env_of E b = (be_home E)\<lparr>he_reads := (he_reads (be_home E))\<lparr>re_wired := True, re_ready := (\<lambda>d. config_reads_ready E b)\<rparr>\<rparr>"

text \<open>From the source client to Home Assistant; a password register arrives here already emptied.\<close>

fun home_event :: "'f source_out \<Rightarrow> 'f client_event option" where
  "home_event (OnConfig d config) = Some (ReportConfig d config)"
| "home_event (OnConfigValue d register_no v retain) = Some (ReportConfigValue d register_no (entry_text v) retain)"
| "home_event (OnReadResponse d register_no) = Some (ReportRead d register_no)"
| "home_event (OnSmartMeter d payload) = Some (ReportMeter d payload)"
| "home_event (OnHolding input) = Some (ReportHolding input)"
| "home_event (OnInput state) = Some (ReportTelemetry (ist_device state) (ist_payload state))"
| "home_event (ToCloud d topic payload) = None"
| "home_event (ToDevice topic payload) = None"

text \<open>From Home Assistant to the devices.\<close>

definition send_config_read_message :: "(bytes \<Rightarrow> int) \<Rightarrow> string \<Rightarrow> int \<Rightarrow> (string \<times> bytes) py" where
  "send_config_read_message crc d register_no =
     bindE (build_config_read_packet crc d register_no) (\<lambda>packet. Inr (''s/33/'' @ d, packet))"

definition sent_packets :: "(string \<times> bytes) option py \<Rightarrow> (string \<times> bytes) list" where
  "sent_packets r = (case r of Inr (Some p) \<Rightarrow> [p] | _ \<Rightarrow> [])"

definition send_call ::
    "('f, 'sig, 't, 'm) bridge_env_scheme \<Rightarrow> client_call \<Rightarrow> source_client \<Rightarrow> source_client \<times> (string \<times> bytes) list" where
  "send_call E call src =
     (case call of
        Command (Modbus cmd) \<Rightarrow> (src, sent_packets (send_command (be_crc E) cmd src))
      | Command (ConfigCommand d register_no v) \<Rightarrow>
          (src\<lparr>sc_writes := fst (send_config_message (be_crc E) (be_publish E) d register_no v (sc_writes src))\<rparr>,
           if pw_stopped (sc_writes src) then []
           else sent_packets (bindE (build_config_write_packet (be_crc E) d register_no v) (\<lambda>packet.
             Inr (Some (''s/33/'' @ d, packet)))))
      | Command (SwitchState d v) \<Rightarrow> (src, [])
      | ConfigRead d register_no \<Rightarrow>
          (src, sent_packets (bindE (send_config_read_message (be_crc E) d register_no) (\<lambda>p. Inr (Some p)))))"

fun send_calls ::
    "('f, 'sig, 't, 'm) bridge_env_scheme \<Rightarrow> client_call list \<Rightarrow> source_client \<Rightarrow> source_client \<times> (string \<times> bytes) list" where
  "send_calls E [] src = (src, [])"
| "send_calls E (call # calls) src =
     (let (src1, sent) = send_call E call src; (src2, more) = send_calls E calls src1 in (src2, sent @ more))"

definition home_step ::
    "string \<Rightarrow> string \<Rightarrow> bool \<Rightarrow> ('f, 'sig, 't::linordered_field) bridge_env \<Rightarrow> 'f client_event \<Rightarrow> ('f, 'sig, 't) bridge \<Rightarrow>
     ('f, 'sig, 't) bridge" where
  "home_step base c avs E ev b =
     (let home = client_step base c avs (br_home b) (home_env_of E b, ev);
          (src, sent) = send_calls E (drop (length (hs_calls (br_home b))) (hs_calls home)) (br_source b)
      in b\<lparr>br_home := home, br_source := src, br_sent := br_sent b @ sent\<rparr>)"

text \<open>A message of a device: every output goes to Home Assistant in order.\<close>

definition home_outputs ::
    "string \<Rightarrow> string \<Rightarrow> bool \<Rightarrow> ('f, 'sig, 't::linordered_field) bridge_env \<Rightarrow> 'f source_out list \<Rightarrow> ('f, 'sig, 't) bridge \<Rightarrow>
     ('f, 'sig, 't) bridge" where
  "home_outputs base c avs E outs b =
     foldl (\<lambda>b out. case home_event out of None \<Rightarrow> b | Some ev \<Rightarrow> home_step base c avs E ev b) b outs"

definition device_message ::
    "string \<Rightarrow> string \<Rightarrow> bool \<Rightarrow> ('f, 'sig, 't::linordered_field) bridge_env \<Rightarrow> mqtt_message \<Rightarrow> ('f, 'sig, 't) bridge \<Rightarrow>
     ('f, 'sig, 't) bridge" where
  "device_message base c avs E msg b =
     (let (src, outs) = on_message (he_floats (be_home E)) (source_env_of E) msg (br_source b)
      in home_outputs base c avs E outs (b\<lparr>br_source := src\<rparr>))"

definition cloud_message ::
    "('f, 'sig, 't, 'm) bridge_env_scheme \<Rightarrow> mqtt_message \<Rightarrow> ('f, 'sig, 't) bridge \<Rightarrow> ('f, 'sig, 't) bridge" where
  "cloud_message E msg b =
     b\<lparr>br_sent := br_sent b @
        List.map_filter (\<lambda>out. case out of ToDevice topic payload \<Rightarrow> Some (topic, payload) | _ \<Rightarrow> None)
          (on_cloud_message (source_env_of E) msg (br_source b))\<rparr>"

text \<open>The connection to the source broker: reads wait until the subscription is acknowledged.\<close>

definition source_subscribed ::
    "string \<Rightarrow> string \<Rightarrow> bool \<Rightarrow> ('f, 'sig, 't::linordered_field) bridge_env \<Rightarrow> bool \<Rightarrow> ('f, 'sig, 't) bridge \<Rightarrow>
     ('f, 'sig, 't) bridge" where
  "source_subscribed base c avs E rejected b =
     (if sc_stopped (br_source b) then b
      else if rejected then b\<lparr>br_ready := False\<rparr>
      else home_step base c avs E SourceReady (b\<lparr>br_ready := True\<rparr>))"

text \<open>\<open>run_clients\<close>: the Home Assistant client is stopped first.\<close>

definition stop_bridge ::
    "string \<Rightarrow> string \<Rightarrow> bool \<Rightarrow> ('f, 'sig, 't::linordered_field) bridge_env \<Rightarrow> ('f, 'sig, 't) bridge \<Rightarrow> ('f, 'sig, 't) bridge" where
  "stop_bridge base c avs E b =
     (let b1 = home_step base c avs E ClientStops b
      in b1\<lparr>br_ready := False, br_source := stop_source (br_source b1)\<rparr>)"

datatype 'f bridge_event =
    DeviceSends mqtt_message
  | CloudSends mqtt_message
  | SourceConnects
  | SourceDisconnects
  | SourceSubscribes bool
  | HomeConnects bool
  | HomeSays string bytes
  | DeviceTimer nat
  | ReadTimer nat
  | ClockTimer nat
  | NeoTimer nat
  | BridgeStarts bool
  | BridgeStops

fun bridge_step ::
    "string \<Rightarrow> string \<Rightarrow> bool \<Rightarrow> ('f, 'sig, 't::linordered_field) bridge \<Rightarrow> ('f, 'sig, 't) bridge_env \<times> 'f bridge_event \<Rightarrow>
     ('f, 'sig, 't) bridge" where
  "bridge_step base c avs b (E, DeviceSends msg) = device_message base c avs E msg b"
| "bridge_step base c avs b (E, CloudSends msg) = cloud_message E msg b"
| "bridge_step base c avs b (E, SourceConnects) = b\<lparr>br_ready := False\<rparr>"
| "bridge_step base c avs b (E, SourceDisconnects) = b\<lparr>br_ready := False\<rparr>"
| "bridge_step base c avs b (E, SourceSubscribes rejected) = source_subscribed base c avs E rejected b"
| "bridge_step base c avs b (E, HomeConnects failed) = home_step base c avs E (ConnectAnswer failed) b"
| "bridge_step base c avs b (E, HomeSays topic payload) = home_step base c avs E (HaMessage topic payload) b"
| "bridge_step base c avs b (E, DeviceTimer n) = home_step base c avs E (DeviceTimerFires n) b"
| "bridge_step base c avs b (E, ReadTimer n) = home_step base c avs E (ReadTimerFires n) b"
| "bridge_step base c avs b (E, ClockTimer n) = home_step base c avs E (ClockTimerFires n) b"
| "bridge_step base c avs b (E, NeoTimer n) = home_step base c avs E (NeoTimerFires n) b"
| "bridge_step base c avs b (E, BridgeStarts loop_ok) = home_step base c avs E (ClientStarts loop_ok) b"
| "bridge_step base c avs b (E, BridgeStops) = stop_bridge base c avs E b"

text \<open>The start: the configurations and the gateway links found on disk.\<close>

definition new_bridge ::
    "(string \<Rightarrow> device_config option) \<Rightarrow> string list \<Rightarrow> (string \<times> device_config option) list \<Rightarrow> ('f, 'sig, 't) bridge" where
  "new_bridge load filenames found =
     (let home = new_client; disc = hs_disc home
      in \<lparr>br_source = restore_gateways found new_source,
          br_home = home\<lparr>hs_disc := disc\<lparr>ds_store := fst (restore_config_cache load filenames (ds_store disc, []))\<rparr>\<rparr>,
          br_ready = False, br_sent = []\<rparr>)"

section \<open>The invariant\<close>

definition bridge_ok :: "string \<Rightarrow> string \<Rightarrow> bool \<Rightarrow> ('f, 'sig, 't) bridge \<Rightarrow> bool" where
  "bridge_ok base c avs b \<longleftrightarrow> source_ok (br_source b) \<and> client_ok base c avs (br_home b)"

lemma send_config_message_ok:
  assumes "writes_ok w"
  shows "writes_ok (fst (send_config_message crc publish_to d r v w))"
proof (cases "build_config_write_packet crc d r v")
  case (Inr packet)
  obtain w1 n where r: "reserve_write d r w = (w1, n)" by fastforce
  then have "writes_ok w1" using reserve_write_ok [OF assms, of d r] by simp
  then show ?thesis
    by (simp add: send_config_message_def Inr r settle_write_ok split: option.split answer.split)
qed (simp add: send_config_message_def assms)

lemma send_call_ok: "source_ok src \<Longrightarrow> source_ok (fst (send_call E call src))"
  by (auto simp: send_call_def source_ok_def send_config_message_ok split: client_call.split command_call.split)

lemma send_calls_ok: "source_ok src \<Longrightarrow> source_ok (fst (send_calls E calls src))"
proof (induction calls arbitrary: src)
  case (Cons call calls)
  then show ?case using send_call_ok [OF Cons.prems, of E call] by (simp add: split_def Let_def)
qed simp

lemma home_step_ok: "bridge_ok base c avs b \<Longrightarrow> bridge_ok base c avs (home_step base c avs E ev b)"
  by (simp add: bridge_ok_def home_step_def Let_def split_def send_calls_ok client_step_ok)

lemma home_outputs_ok: "bridge_ok base c avs b \<Longrightarrow> bridge_ok base c avs (home_outputs base c avs E outs b)"
  unfolding home_outputs_def
  by (induction outs arbitrary: b) (auto simp: home_step_ok split: option.split)

lemma source_message_ok:
  "bridge_ok base c avs b \<Longrightarrow> bridge_ok base c avs (b\<lparr>br_source := fst (on_message F S msg (br_source b))\<rparr>)"
  by (simp add: bridge_ok_def on_message_ok)

lemma bridge_step_ok: "bridge_ok base c avs b \<Longrightarrow> bridge_ok base c avs (bridge_step base c avs b ev)"
proof -
  assume ok: "bridge_ok base c avs b"
  have ready: "bridge_ok base c avs (b\<lparr>br_ready := r\<rparr>)" for r using ok by (simp add: bridge_ok_def)
  obtain E e where ev: "ev = (E, e)" by fastforce
  show ?thesis
  proof (cases e)
    case (DeviceSends msg)
    then show ?thesis using ev ok by (simp add: device_message_def split_def Let_def home_outputs_ok source_message_ok)
  next
    case BridgeStops
    have "bridge_ok base c avs (home_step base c avs E ClientStops b)" by (rule home_step_ok [OF ok])
    moreover have "source_ok (stop_source src)" if "source_ok src" for src
      using source_step_ok [OF that, of undefined SourceStopped] by simp
    ultimately show ?thesis using ev BridgeStops by (simp add: stop_bridge_def Let_def bridge_ok_def)
  qed (use ok ready in \<open>simp_all add: ev home_step_ok source_subscribed_def cloud_message_def bridge_ok_def [of base c avs "b\<lparr>br_sent := _\<rparr>"] bridge_ok_def [of base c avs b]\<close>)
qed

interpretation bridges: step_machine "bridge_step base c avs" "bridge_ok base c avs"
  by unfold_locales (rule bridge_step_ok)

lemma new_bridge_ok: "bridge_ok base c avs (new_bridge load filenames found)"
  using restored_ok [of found] new_client_ok [of base c avs] by (simp add: new_bridge_def bridge_ok_def Let_def)

section \<open>What the Home Assistant client asks for\<close>

definition asks :: "(client_call \<Rightarrow> bool) \<Rightarrow> ('f, 'sig, 't) ha_client \<Rightarrow> ('f, 'sig, 't) ha_client \<Rightarrow> bool" where
  "asks P s s' \<longleftrightarrow> (\<exists>new. hs_calls s' = hs_calls s @ new \<and> list_all P new)"

lemma asks_refl: "hs_calls s' = hs_calls s \<Longrightarrow> asks P s s'"
  by (simp add: asks_def)

lemma asks_trans: "asks P s s' \<Longrightarrow> asks P s' s'' \<Longrightarrow> asks P s s''"
  by (fastforce simp: asks_def)

lemma asks_append: "hs_calls s' = hs_calls s @ new \<Longrightarrow> list_all P new \<Longrightarrow> asks P s s'"
  by (auto simp: asks_def)

lemma calls_same [simp]:
  "hs_calls (with_av f s) = hs_calls s" "hs_calls (fst (with_disc g s)) = hs_calls s"
  "hs_calls (fst (announce E d n s)) = hs_calls s" "hs_calls (fst (with_pub h s)) = hs_calls s"
  "hs_calls (refresh_reads E d s) = hs_calls s" "hs_calls (note_device E d s) = hs_calls s"
  by (simp_all add: with_av_def with_disc_def with_pub_def announce_def refresh_reads_def note_device_def
      Let_def split_def split: option.split)

lemma calls_firmware [simp]: "hs_calls (fst (add_firmware E d payload s)) = hs_calls s"
  by (simp add: add_firmware_def split: option.split)

lemma calls_place [simp]: "hs_calls (fst (place_batteries E d payload s)) = hs_calls s"
  by (simp add: place_batteries_def split_def Let_def)

lemma calls_activity [simp]: "hs_calls (activity E d s) = hs_calls s"
  by (simp add: activity_def)

lemma calls_prepare [simp]: "hs_calls (fst (prepare_telemetry E d payload s)) = hs_calls s"
proof -
  obtain s1 p1 where a: "add_firmware E d payload (note_device E d s) = (s1, p1)" by fastforce
  obtain s2 p2 m where b: "place_batteries E d p1 s1 = (s2, p2, m)" by (metis prod.collapse)
  have "hs_calls s2 = hs_calls s"
    using calls_firmware [of E d payload "note_device E d s"] calls_place [of E d p1 s1] by (simp add: a b)
  then show ?thesis by (simp add: prepare_telemetry_def a b Let_def split: prod.split sum.split)
qed

text \<open>Configuration reads are asked for by the answer to one and by the timers of a sequence, only when the
  source is ready.\<close>

definition no_config_read :: "client_call \<Rightarrow> bool" where
  "no_config_read call \<longleftrightarrow> (case call of ConfigRead d r \<Rightarrow> False | Command k \<Rightarrow> True)"

lemma kickoff_not_ready: "source_not_ready E d \<Longrightarrow> snd (fst (kickoff_next_config_read E d st)) = []"
  by (simp add: kickoff_next_config_read_def)

lemma no_read_sent:
  assumes "\<And>d. source_not_ready E d"
  shows "snd (fst (config_read_response E d r st)) = []" "snd (fst (fire_read_timer E n st)) = []"
  using assms by (simp_all add: config_read_response_def fire_read_timer_def config_read_timeout_def kickoff_not_ready
      split: read_timer.split)

lemma asks_prepare:
  "asks P (fst (prepare_telemetry E d payload s)) s' \<Longrightarrow> asks P s s'"
  using asks_trans [OF asks_refl [OF calls_prepare]] by blast

lemma mirror_calls: "hs_calls (foldl (mirror_call E) s calls) =
    hs_calls s @ map Command (filter (\<lambda>call. case call of SwitchState d v \<Rightarrow> False | _ \<Rightarrow> True) calls)"
proof (induction calls arbitrary: s)
  case (Cons call calls)
  then show ?case by (cases call) (simp_all add: mirror_call_def Let_def)
qed simp

definition reads_allowed :: "(client_call \<Rightarrow> bool) \<Rightarrow> read_env \<Rightarrow> bool" where
  "reads_allowed P R \<longleftrightarrow> (\<forall>k. P (Command k)) \<and> ((\<forall>d r. P (ConfigRead d r)) \<or> (\<forall>d. source_not_ready R d))"

lemma asks_commands: "reads_allowed P R \<Longrightarrow> hs_calls s' = hs_calls s @ map (\<lambda>c. Command (f c)) cs \<Longrightarrow> asks P s s'"
  by (rule asks_append) (auto simp: reads_allowed_def list_all_iff)

lemma asks_note_reads:
  assumes "reads_allowed P R" "hs_calls t = hs_calls s" "(\<forall>d. source_not_ready R d) \<Longrightarrow> sent = []"
  shows "asks P s (note_reads sent t)"
proof (rule asks_append)
  show "hs_calls (note_reads sent t) = hs_calls s @ map (\<lambda>(d, r). ConfigRead d r) sent"
    by (simp add: note_reads_def assms(2))
  show "list_all P (map (\<lambda>(d, r). ConfigRead d r) sent)"
    using assms(1,3) by (auto simp: reads_allowed_def list_all_iff)
qed

lemma asks_telemetry:
  assumes "reads_allowed P R"
  shows "asks P s (fst (publish_input_register E d payload s))"
proof -
  have neo: "asks P t (request_neo_power E d t)" for t
    by (rule asks_commands [OF assms, of _ _ Modbus "snd (fst (request_initial_neo_inverter_power (env_neo E t) d (hs_neo t)))"])
       (simp add: request_neo_power_def split_def Let_def)
  have tel: "asks P t (fst (publish_telemetry E d payload' shown t))" for payload' shown t
  proof -
    define t2 where "t2 = fst (with_pub (publish_state (he_floats E) (he_state_json E) (he_broker E) (he_base E) d
        (telemetry_payload (he_floats E) (client_registers E d) (is_family d ''noah'') shown payload'))
      ((activity E d (fst (announce E d shown t)))\<lparr>hs_devices := observe_telemetry (he_floats E) d
         (prepare_payload (he_floats E) (register_rules (client_registers E d)) shown payload') shown
         (hs_devices (activity E d (fst (announce E d shown t))))\<rparr>))"
    have t2: "asks P t t2" by (rule asks_refl) (simp add: t2_def)
    have "fst (publish_telemetry E d payload' shown t) = t2 \<or> fst (publish_telemetry E d payload' shown t) = request_neo_power E d t2"
      by (simp add: publish_telemetry_def Let_def split_def t2_def split: sum.split)
    then show ?thesis using t2 asks_trans [OF t2 neo] by auto
  qed
  obtain s1 r where p: "prepare_telemetry E d payload s = (s1, r)" by fastforce
  have "asks P s s1" using calls_prepare [of E d payload s] p by (intro asks_refl) simp
  then show ?thesis
    using asks_trans [OF _ tel] asks_refl [of s s P]
    by (cases r) (auto simp: publish_input_register_def guarded_def bindA_def p)
qed

lemma asks_config:
  "asks P s (fst (set_config E d config s))"
  by (rule asks_refl) (simp add: set_config_def guarded_def Let_def split_def)

lemma calls_recover: "hs_calls (recover E reconnected s) = hs_calls s"
  by (simp add: recover_def Let_def)

lemma asks_recover: "asks P s (recover E reconnected s)"
  by (rule asks_refl) (rule calls_recover)

lemma asks_message:
  assumes "reads_allowed P R"
  shows "asks P s (fst (on_ha_message E topic payload s))"
proof -
  have cmd: "asks P s (foldl (mirror_call E) (s\<lparr>hs_reads := rd\<rparr>) calls)" for rd calls
    by (rule asks_append [OF mirror_calls [of E "s\<lparr>hs_reads := rd\<rparr>" calls, simplified]])
       (use assms in \<open>simp add: reads_allowed_def list_all_iff\<close>)
  show ?thesis
    using cmd asks_recover [of P s E False] asks_refl [of s s P]
    by (auto simp: on_ha_message_def guarded_def split: ha_topic.split prod.split)
qed

lemma step_asks:
  assumes "reads_allowed P (env_reads (settle base c avs E))"
  shows "asks P s (client_step base c avs s (E, ev))"
proof -
  let ?E = "settle base c avs E" let ?R = "env_reads (settle base c avs E)"
  have none: "snd (fst (config_read_response ?R d r st)) = []" "snd (fst (fire_read_timer ?R n st)) = []"
    if "\<forall>d. source_not_ready ?R d" for d r n st
    using no_read_sent [of ?R] that by blast+
  have same: "asks P s s" by (rule asks_refl) simp
  show ?thesis
  proof (cases ev)
    case (ReportRead d r)
    obtain reads sent res where c: "config_read_response ?R d r (hs_reads (activity ?E d s)) = ((reads, sent), res)"
      by (metis prod.collapse)
    have "asks P s (note_reads sent ((activity ?E d s)\<lparr>hs_reads := reads\<rparr>))"
      using none(1) [of d r "hs_reads (activity ?E d s)"] c by (intro asks_note_reads [OF assms]) simp_all
    then show ?thesis using ReportRead same
      by (simp add: client_step_def handle_config_read_response_def guarded_def c Let_def)
  next
    case (ReadTimerFires n)
    obtain reads sent res where c: "fire_read_timer ?R n (hs_reads s) = ((reads, sent), res)" by (metis prod.collapse)
    have "asks P s (note_reads sent (s\<lparr>hs_reads := reads\<rparr>))"
      using none(2) [of n "hs_reads s"] c by (intro asks_note_reads [OF assms]) simp_all
    then show ?thesis using ReadTimerFires same by (simp add: client_step_def read_timer_def guarded_def c)
  next
    case (ClockTimerFires n)
    have "asks P s (s\<lparr>hs_clock := k, hs_calls := hs_calls s @ map (\<lambda>(d, r, v). Command (ConfigCommand d r v)) sent\<rparr>)" for k sent
      by (rule asks_append) (use assms in \<open>auto simp: reads_allowed_def list_all_iff\<close>)
    then show ?thesis using ClockTimerFires same by (simp add: client_step_def clock_timer_def guarded_def split_def Let_def)
  next
    case (NeoTimerFires n)
    have "asks P s (s\<lparr>hs_neo := k, hs_calls := hs_calls s @ map (\<lambda>c. Command (Modbus c)) sent\<rparr>)" for k sent
      by (rule asks_append) (use assms in \<open>auto simp: reads_allowed_def list_all_iff\<close>)
    then show ?thesis using NeoTimerFires same by (simp add: client_step_def neo_timer_def guarded_def split_def Let_def)
  next
    case (ConnectAnswer failed)
    then show ?thesis using same by (simp add: client_step_def on_connect_def guarded_def asks_recover)
  next
    case (ReportTelemetry d payload)
    then show ?thesis using asks_telemetry [OF assms] by (simp add: client_step_def)
  next
    case (HaMessage topic payload)
    then show ?thesis using asks_message [OF assms] by (simp add: client_step_def)
  next
    case (ReportConfig d config)
    then show ?thesis using asks_config by (simp add: client_step_def)
  qed (intro asks_refl; simp add: client_step_def publish_holding_register_input_def publish_config_register_value_def
      publish_meter_def source_ready_def device_timer_def start_client_def stop_client_def guarded_def Let_def split_def
      schedule_known_neo_state_probe_def)+
qed

lemma settle_reads: "env_reads (settle base c avs E) = env_reads E"
  by (simp add: env_reads_def settle_def client_registers_def cong: option.case_cong)

lemma not_ready_reads: "\<not> config_reads_ready E b \<Longrightarrow> source_not_ready (env_reads (settle base c avs (home_env_of E b))) d"
  by (simp add: settle_reads source_not_ready_def env_reads_def home_env_of_def settle_def)

lemma home_step_asks:
  assumes "\<not> config_reads_ready E b"
  shows "asks no_config_read (br_home b) (br_home (home_step base c avs E ev b))"
proof -
  have "reads_allowed no_config_read (env_reads (settle base c avs (home_env_of E b)))"
    using assms by (simp add: reads_allowed_def no_config_read_def not_ready_reads)
  then show ?thesis using step_asks by (simp add: home_step_def split_def Let_def)
qed

lemma home_step_ready [simp]: "br_ready (home_step base c avs E ev b) = br_ready b"
  by (simp add: home_step_def split_def Let_def)

lemma home_outputs_asks:
  "\<not> config_reads_ready E b \<Longrightarrow> asks no_config_read (br_home b) (br_home (home_outputs base c avs E outs b))"
proof (induction outs arbitrary: b)
  case (Cons out outs)
  let ?b = "case home_event out of None \<Rightarrow> b | Some ev \<Rightarrow> home_step base c avs E ev b"
  have "\<not> config_reads_ready E ?b" using Cons.prems by (simp add: config_reads_ready_def split: option.split)
  then have "asks no_config_read (br_home ?b) (br_home (home_outputs base c avs E outs ?b))" by (rule Cons.IH)
  moreover have "asks no_config_read (br_home b) (br_home ?b)"
    using Cons.prems by (simp add: home_step_asks asks_refl split: option.split)
  ultimately show ?case by (simp add: home_outputs_def asks_trans)
qed (simp add: home_outputs_def asks_refl)

text \<open>The acknowledged subscription only starts the timers of the sequences.\<close>

lemma source_ready_asks: "asks P s (client_step base c avs s (E, SourceReady))"
  by (rule asks_refl) (simp add: client_step_def source_ready_def guarded_def)

lemma bridge_step_asks:
  assumes "\<not> config_reads_ready E b"
  shows "asks no_config_read (br_home b) (br_home (bridge_step base c avs b (E, ev)))"
proof (cases ev)
  case (DeviceSends msg)
  then show ?thesis
    using home_outputs_asks [of E "b\<lparr>br_source := fst (on_message (he_floats (be_home E)) (source_env_of E) msg (br_source b))\<rparr>" base c avs]
      assms by (simp add: device_message_def split_def Let_def config_reads_ready_def)
next
  case (SourceSubscribes rejected)
  then show ?thesis
    by (simp add: source_subscribed_def home_step_def split_def Let_def source_ready_asks asks_refl)
qed (use assms in \<open>simp_all add: home_step_asks asks_refl cloud_message_def stop_bridge_def Let_def\<close>)

section \<open>Packets to devices\<close>

lemma send_command_gateways: "sc_gateways src = sc_gateways src' \<Longrightarrow> send_command crc cmd src = send_command crc cmd src'"
  by (simp add: send_command_def command_target_def)

lemma send_call_gateways: "sc_gateways (fst (send_call E call src)) = sc_gateways src"
  by (simp add: send_call_def split: client_call.split command_call.split)

text \<open>Where a packet comes from: the call it was sent for, at the gateways known before.\<close>

definition packet_of_call ::
    "('f, 'sig, 't, 'm) bridge_env_scheme \<Rightarrow> source_client \<Rightarrow> client_call \<Rightarrow> string \<times> bytes \<Rightarrow> bool" where
  "packet_of_call E src call p \<longleftrightarrow>
     (case call of
        Command (Modbus cmd) \<Rightarrow> send_command (be_crc E) cmd src = Inr (Some p)
      | Command (ConfigCommand d register_no v) \<Rightarrow>
          build_config_write_packet (be_crc E) d register_no v = Inr (snd p) \<and> fst p = ''s/33/'' @ d
      | Command (SwitchState d v) \<Rightarrow> False
      | ConfigRead d register_no \<Rightarrow>
          build_config_read_packet (be_crc E) d register_no = Inr (snd p) \<and> fst p = ''s/33/'' @ d)"

lemma sent_packets_iff: "p \<in> set (sent_packets r) \<longleftrightarrow> r = Inr (Some p)"
  by (cases p) (auto simp: sent_packets_def split: sum.split option.split)

lemma send_call_packets: "p \<in> set (snd (send_call E call src)) \<Longrightarrow> packet_of_call E src call p"
  by (auto simp: send_call_def packet_of_call_def sent_packets_iff bindE_Inr_iff send_config_read_message_def
      split: client_call.splits command_call.splits if_splits)

lemma packet_of_call_gateways:
  "sc_gateways src = sc_gateways src' \<Longrightarrow> packet_of_call E src call p = packet_of_call E src' call p"
  by (simp add: packet_of_call_def send_command_gateways [of src src'] split: client_call.split command_call.split)

lemma send_calls_packets: "p \<in> set (snd (send_calls E calls src)) \<Longrightarrow> \<exists>call \<in> set calls. packet_of_call E src call p"
proof (induction calls arbitrary: src)
  case (Cons call calls)
  show ?case
  proof (cases "p \<in> set (snd (send_call E call src))")
    case True
    then show ?thesis using send_call_packets [of p E call src] by auto
  next
    case False
    then have "p \<in> set (snd (send_calls E calls (fst (send_call E call src))))"
      using Cons.prems by (auto simp: split_def Let_def)
    then show ?thesis
      using Cons.IH packet_of_call_gateways [OF send_call_gateways [of E call src]] by fastforce
  qed
qed simp

section \<open>Stopping\<close>

lemma home_step_stopped:
  assumes "hs_stopped (br_home b)" "ev \<noteq> ClientStops" "\<forall>l. ev \<noteq> ClientStarts l"
  shows "home_step base c avs E ev b = b"
  using stopped_step [OF assms, of base c avs "home_env_of E b"] by (simp add: home_step_def)

lemma home_outputs_stopped:
  assumes "hs_stopped (br_home b)"
  shows "home_outputs base c avs E outs b = b"
proof (induction outs)
  case (Cons out outs)
  have "ev \<noteq> ClientStops \<and> (\<forall>l. ev \<noteq> ClientStarts l)" if "home_event out = Some ev" for ev
    using that by (cases out) auto
  then have "(case home_event out of None \<Rightarrow> b | Some ev \<Rightarrow> home_step base c avs E ev b) = b"
    using home_step_stopped [OF assms] by (simp split: option.split)
  then show ?case using Cons by (simp add: home_outputs_def)
qed (simp add: home_outputs_def)

lemma stopped_bridge_step:
  assumes "hs_stopped (br_home b)" "sc_stopped (br_source b)" "\<not> br_ready b"
    and "e \<noteq> BridgeStops" "\<forall>l. e \<noteq> BridgeStarts l"
  shows "bridge_step base c avs b (E, e) = b"
proof (cases e)
  case (DeviceSends msg)
  then show ?thesis using assms by (simp add: device_message_def on_message_def Let_def home_outputs_stopped)
next
  case (CloudSends msg)
  then show ?thesis using assms by (simp add: cloud_message_def on_cloud_message_def Let_def List.map_filter_def)
next
  case (BridgeStarts l)
  then show ?thesis using assms(5) by blast
qed (use assms in \<open>simp_all add: home_step_stopped source_subscribed_def\<close>)

section \<open>A data packet\<close>

lemma home_outputs_home: "home_outputs base c avs E (home_outs outs) b = home_outputs base c avs E outs b"
proof (induction outs arbitrary: b)
  case (Cons out outs)
  then show ?case by (cases out) (simp_all add: home_outputs_def home_outs_def)
qed (simp add: home_outputs_def home_outs_def)

lemma home_env_source [simp]: "home_env_of E (b\<lparr>br_source := src\<rparr>) = home_env_of E b"
  by (simp add: home_env_of_def config_reads_ready_def)

lemma source_registers:
  "known_registers (source_env_of E) d = client_registers (settle base c avs (home_env_of E b)) d"
  by (simp add: known_registers_def client_registers_def source_env_of_def settle_def home_env_of_def)

lemma home_env_simps:
  "he_broker (settle base c avs (home_env_of E b)) = he_broker (be_home E)"
  "he_floats (settle base c avs (home_env_of E b)) = he_floats (be_home E)"
  "he_state_json (settle base c avs (home_env_of E b)) = he_state_json (be_home E)"
  "he_base (settle base c avs (home_env_of E b)) = base"
  by (simp_all add: settle_def home_env_of_def)

lemma telemetry_step_log:
  assumes "\<not> hs_stopped s" "prepare_telemetry E d vals s = (s', Inr (payload, shown))"
    and "dict_get (pc_payload (hs_pub s)) d = None" "dict_get (pc_json (hs_pub s)) d = None"
  shows "\<exists>lg. hs_log (fst (publish_input_register E d vals s)) =
    send (he_broker E) (state_message (he_base E) d (he_state_json E
      (telemetry_payload (he_floats E) (client_registers E d) (is_family d ''noah'') shown payload))) lg"
proof -
  have "hs_pub s' = hs_pub s" using prepare_telemetry_frame [of E d vals s] assms(2) by simp
  then have "should_serialize_state F (hs_pub s') d x" "should_publish_state (hs_pub s') d y" for F x y
    using assms(3,4) by (simp_all add: should_serialize_state_def should_publish_state_def)
  moreover have "fst (publish_input_register E d vals s) = fst (publish_telemetry E d payload shown s')"
    using assms(1,2) by (simp add: publish_input_register_def guarded_def bindA_def)
  ultimately show ?thesis using publish_telemetry_offered [OF _ _ refl] by metis
qed

section \<open>Properties\<close>

text \<open>C3: However device messages, cloud messages, connections, commands and timers interleave, and whatever
  brokers and callbacks answer, with or without the extra availability sensor, both clients keep their
  invariants: the links lead from gateways to inverters, the queues of writes and reads are in order, the
  battery maps and the inventory are consistent, the state and meter messages held for published are what
  the broker holds, and so is the availability when the extra sensor is off.\<close>

theorem bridge_invariant:
  "let b = foldl (bridge_step base c avs) (new_bridge load filenames found) events; s = br_home b in
   (case dict_get (sc_gateways (br_source b)) g of None \<Rightarrow> True | Some e \<Rightarrow> is_gateway g \<and> prefix ''PTQ'' e) \<and>
   writes_ok (sc_writes (br_source b)) \<and> reads_ok (hs_reads s) \<and> battery_inv (hs_battery s, hs_writes s) \<and>
   inventory_ok (hs_devices s) \<and> caches_sound base (hs_pub s, hs_log s) \<and>
   (if avs then True
    else case dict_get (av_last (hs_av s)) d of None \<Rightarrow> True
    | Some online \<Rightarrow> d = c \<or> broker_state (hs_log s) (availability_topic base d) = Some (availability_text online))"
proof -
  define b where "b = foldl (bridge_step base c avs) (new_bridge load filenames found) events"
  have "bridge_ok base c avs b" unfolding b_def by (rule bridges.run_inv [OF new_bridge_ok])
  then have ok: "source_ok (br_source b)" "client_ok base c avs (br_home b)" by (simp_all add: bridge_ok_def)
  have "case dict_get (sc_gateways (br_source b)) g of None \<Rightarrow> True | Some e \<Rightarrow> is_gateway g \<and> prefix ''PTQ'' e"
    using ok(1) by (simp add: source_ok_def split: option.split)
  then show ?thesis
    using ok by (auto simp: b_def [symmetric] Let_def client_ok_def source_ok_def cache_sound_def split: option.split)
qed

text \<open>C2: A command of Home Assistant leads only to packets for the device of its topic, or for the inverter behind
  that gateway: a read of a holding register of its map, a write of the holding register the topic names, or
  a write of the configuration register whose number the topic gives, which need not be one of its map. No
  other message of Home Assistant leads to any packet.\<close>

theorem home_command_packets:
  "let b' = bridge_step base c avs b (E, HomeSays topic payload);
       E' = settle base c avs (home_env_of E b);
       sent = drop (length (br_sent b)) (br_sent b') in
   case parse_ha_topic base topic of
     CommandTopic kind d entity action \<Rightarrow>
       list_all (\<lambda>(t, packet).
         (\<exists>cmd. call_of_device (env_command E' (br_home b)) kind d entity action (Modbus cmd) \<and>
            send_command (be_crc E) cmd (br_source b) = Inr (Some (t, packet))) \<or>
         (\<exists>r v. call_of_device (env_command E' (br_home b)) kind d entity action (ConfigCommand d r v) \<and>
            build_config_write_packet (be_crc E) d r v = Inr packet \<and> t = ''s/33/'' @ d)) sent
   | _ \<Rightarrow> sent = []"
proof -
  let ?E = "settle base c avs (home_env_of E b)" let ?s = "br_home b"
  let ?calls = "drop (length (hs_calls ?s)) (hs_calls (client_step base c avs ?s (home_env_of E b, HaMessage topic payload)))"
  have sent: "drop (length (br_sent b)) (br_sent (bridge_step base c avs b (E, HomeSays topic payload))) =
      snd (send_calls E ?calls (br_source b))"
    by (simp add: home_step_def split_def Let_def)
  have base: "he_base ?E = base" by (simp add: settle_simps)
  show ?thesis
  proof (cases "parse_ha_topic base topic")
    case (CommandTopic kind d entity action)
    let ?ok = "call_of_device (env_command ?E ?s) kind d entity action"
    obtain reads calls r where h: "handle_command (env_command ?E ?s) kind d entity action payload (hs_reads ?s) = ((reads, calls), r)"
      by (metis prod.collapse)
    have "list_all ?ok calls"
      using command_calls_only [of "env_command ?E ?s" kind d entity action payload "hs_reads ?s"] h by simp
    moreover have "set ?calls \<subseteq> Command ` set calls"
      using CommandTopic base by (auto simp: client_step_def on_ha_message_def guarded_def h mirror_calls)
    ultimately have "\<exists>k. call = Command k \<and> ?ok k" if "call \<in> set ?calls" for call
      using that by (auto simp: list_all_iff)
    then have *: "\<exists>k. ?ok k \<and> packet_of_call E (br_source b) (Command k) p"
      if "p \<in> set (snd (send_calls E ?calls (br_source b)))" for p
      using send_calls_packets [OF that] by blast
    have each: "(\<exists>cmd. ?ok (Modbus cmd) \<and> send_command (be_crc E) cmd (br_source b) = Inr (Some (t, packet))) \<or>
        (\<exists>r v. ?ok (ConfigCommand d r v) \<and> build_config_write_packet (be_crc E) d r v = Inr packet \<and> t = ''s/33/'' @ d)"
      if "(t, packet) \<in> set (snd (send_calls E ?calls (br_source b)))" for t packet
    proof -
      note in_sent = that
      obtain k where k: "?ok k" "packet_of_call E (br_source b) (Command k) (t, packet)"
        using * [OF in_sent] by blast
      show ?thesis
      proof (cases k)
        case (ConfigCommand d' r v)
        then have "d' = d" using k(1) by (simp add: call_of_device_def)
        then show ?thesis using k by (auto simp: ConfigCommand packet_of_call_def)
      qed (use k in \<open>auto simp: packet_of_call_def\<close>)
    qed
    show ?thesis
      unfolding sent Let_def CommandTopic ha_topic.case list_all_iff
    proof
      fix p assume p: "p \<in> set (snd (send_calls E ?calls (br_source b)))"
      obtain t packet where tp: "p = (t, packet)" by fastforce
      show "case p of (t, packet) \<Rightarrow>
          (\<exists>cmd. ?ok (Modbus cmd) \<and> send_command (be_crc E) cmd (br_source b) = Inr (Some (t, packet))) \<or>
          (\<exists>r v. ?ok (ConfigCommand d r v) \<and> build_config_write_packet (be_crc E) d r v = Inr packet \<and> t = ''s/33/'' @ d)"
        unfolding tp prod.case by (rule each) (use p tp in simp)
    qed
  next
    case StatusTopic
    then have "?calls = []"
      using base by (simp add: client_step_def on_ha_message_def guarded_def calls_recover)
    then show ?thesis unfolding sent Let_def by (simp add: StatusTopic)
  next
    case OtherTopic
    then have "?calls = []" using base by (simp add: client_step_def on_ha_message_def guarded_def)
    then show ?thesis unfolding sent Let_def by (simp add: OtherTopic)
  qed
qed

text \<open>No configuration register is asked for while the source broker is disconnected or has not
  acknowledged the subscription on which the answers arrive.\<close>

theorem reads_need_subscription:
  "if config_reads_ready E b then True
   else list_all (\<lambda>call. case call of ConfigRead d r \<Rightarrow> False | Command k \<Rightarrow> True)
     (drop (length (hs_calls (br_home b))) (hs_calls (br_home (bridge_step base c avs b (E, ev)))))"
  using bridge_step_asks [of E b base c avs ev] by (auto simp: asks_def no_config_read_def [abs_def])

text \<open>After the shutdown the whole program is at rest: whatever still arrives, from devices, the cloud, Home
  Assistant or a timer, nothing is sent and nothing changes.\<close>

theorem stopped_bridge_rests:
  "foldl (bridge_step base c avs) (stop_bridge base c avs E b)
     (filter (\<lambda>(E', e). e \<noteq> BridgeStops \<and> (case e of BridgeStarts l \<Rightarrow> False | _ \<Rightarrow> True)) events) = stop_bridge base c avs E b"
proof (induction events)
  case (Cons ev events)
  have "hs_stopped (br_home (stop_bridge base c avs E b))" "sc_stopped (br_source (stop_bridge base c avs E b))"
    "\<not> br_ready (stop_bridge base c avs E b)"
    by (simp_all add: stop_bridge_def Let_def home_step_def split_def client_step_def stop_client_def with_av_frame stop_source_def)
  then have "bridge_step base c avs (stop_bridge base c avs E b) (E', e) = stop_bridge base c avs E b"
    if "e \<noteq> BridgeStops" "case e of BridgeStarts l \<Rightarrow> False | _ \<Rightarrow> True" for E' e
    using that by (intro stopped_bridge_step) auto
  then show ?case using Cons by (auto split: prod.split)
qed simp

text \<open>C1: From the wire to Home Assistant: a well-formed input-register message of a known device, scrambled, is
  answered by a state message of that device, the last message of the handler: the JSON of the values its
  registers have under the map of the device, after \<open>prepare_telemetry\<close> (firmware, battery slots) and
  the publication filter \<open>telemetry_payload\<close>. The conditions: the message names a device, has not one of the
  lengths that are taken for a configuration, was not forwarded by the program itself, and carries a register
  of the map and no impossible power (\<open>input_values\<close>); both clients run, preparing does not raise, and nothing is cached as published for the device, as after a restart of Home
  Assistant.\<close>

theorem device_data_published:
  assumes "valid_message m" "msg_function m = READ_INPUT_REGISTER" "message_build m = Inr bs" "length tail = 2"
    and "mm_payload msg = scramble (bs @ tail)" "\<not> is_config_length (msg_len m)"
    and "extract_device_id (mm_topic msg) \<noteq> []" "\<not> forwarded_by_us msg"
    and "\<not> sc_stopped (br_source b)" "\<not> hs_stopped (br_home b)"
    and "d = or_else (dict_get (sc_gateways (br_source b)) (extract_device_id (mm_topic msg))) (extract_device_id (mm_topic msg))"
    and "client_registers (settle base c avs (home_env_of E b)) d = Some known"
    and "input_values (he_floats (be_home E)) m (input_registers known) = Some vals" "vals \<noteq> []"
    and "prepare_telemetry (settle base c avs (home_env_of E b)) d vals (br_home b) = (s', Inr (payload, shown))"
    and "dict_get (pc_payload (hs_pub (br_home b))) d = None" "dict_get (pc_json (hs_pub (br_home b))) d = None"
  shows "\<exists>lg. hs_log (br_home (bridge_step base c avs b (E, DeviceSends msg))) =
    send (he_broker (be_home E)) (state_message base d (he_state_json (be_home E)
      (telemetry_payload (he_floats (be_home E)) (Some known) (is_family d ''noah'') shown payload))) lg"
proof -
  let ?F = "he_floats (be_home E)" let ?S = "source_env_of E"
  obtain src outs where om: "on_message ?F ?S msg (br_source b) = (src, outs)" by fastforce
  have "home_outs outs = modbus_outs ?F ?S (extract_device_id (mm_topic msg)) m (br_source b)"
    using data_packet_outs [OF assms(1) disjI1 [OF assms(2)] assms(3-9), of ?F ?S] om by simp
  also have "\<dots> = [OnInput \<lparr>ist_device = d, ist_payload = vals\<rparr>]"
    using assms(2,12-14) unfolding modbus_outs_def Let_def assms(11) [symmetric] source_registers [of E d base c avs b]
    by simp
  finally have outs: "home_outputs base c avs E outs b1 = home_step base c avs E (ReportTelemetry d vals) b1" for b1
    using home_outputs_home [of base c avs E outs b1] by (simp add: home_outputs_def)
  have "br_home (bridge_step base c avs b (E, DeviceSends msg)) =
      client_step base c avs (br_home b) (home_env_of E b, ReportTelemetry d vals)"
    by (simp add: device_message_def om outs home_step_def split_def Let_def)
  then show ?thesis
    using telemetry_step_log [OF assms(10,15-17)] assms(12) by (simp add: client_step_def home_env_simps)
qed

definition sample_client_env :: "(int, unit, rat) client_env" where
  "sample_client_env =
     \<lparr>he_base = ''ha'', he_id = ''client'', he_broker = accept_all, he_floats = whole_floats,
      he_state_json = (\<lambda>x. concat (map (\<lambda>(k, v). k @ ''='' @ (case v of VInt n \<Rightarrow> str_of_int n | _ \<Rightarrow> ''other'') @ '';'') x)), he_repr = (\<lambda>x. []),
      he_maps = (\<lambda>k. \<lparr>input_registers = [(''limit'', second_battery)], holding_registers = [], config_registers = []\<rparr>),
      he_max_bat = Some 1, he_keep_positions = False, he_timeout = 120, he_minutes = (\<lambda>s. None), he_av = late_env,
      he_reads = sample_env, he_disc = sample_announce_env accept_all,
      he_battery = \<lparr>io_manual_stat = None, io_manual = RMissing, io_detected = RMissing, io_positions = RMissing,
        io_save_detected = True, io_save_positions = True\<rparr>,
      he_neo = sample_neo_env,
      he_clock = \<lparr>ke_maps = (\<lambda>k. \<lparr>input_registers = [], holding_registers = [], config_registers = []\<rparr>), ke_devices = [],
        ke_command = None, ke_now = co_now sample_command_env, ke_now_later = co_now sample_command_env,
        ke_timer_ok = (\<lambda>n. True)\<rparr>,
      he_command = sample_command_env\<rparr>"

definition sample_bridge_env :: "(int, unit, rat) bridge_env" where
  "sample_bridge_env =
     \<lparr>be_source = sample_source_env, be_home = sample_client_env, be_connected = True, be_crc = (\<lambda>b. 0),
      be_publish = (\<lambda>t p. Answer ResNone)\<rparr>"

definition sample_telemetry :: modbus_message where
  "sample_telemetry =
     \<lparr>msg_unknown = 1, msg_device_id = ''QMN1'', msg_metadata = Some \<lparr>md_device_sn = ''QMN1'', md_timestamp = Some (co_now sample_command_env)\<rparr>,
      msg_function = READ_INPUT_REGISTER, msg_blocks = [\<lparr>blk_start = 1, blk_end = 1, blk_values = [0, 7]\<rparr>],
      msg_write_ack = None\<rparr>"

lemma sample_telemetry_ok: "valid_message sample_telemetry" "\<not> is_config_length (msg_len sample_telemetry)"
  by code_simp+

lemma sample_prepared:
  "\<exists>s'. prepare_telemetry (settle ''ha'' ''client'' False (home_env_of sample_bridge_env b)) ''QMN1'' [(''limit'', VInt 7)] s =
     (s', Inr ([(''limit'', VInt 7)], 1))"
proof -
  let ?E = "settle ''ha'' ''client'' False (home_env_of sample_bridge_env b)"
  have d: "\<not> uses_noah_protocol ''QMN1''" by code_simp
  have E: "he_floats ?E = whole_floats" "he_max_bat ?E = Some 1"
    by (simp_all add: settle_def home_env_of_def sample_bridge_env_def sample_client_env_def)
  have pv: "detect_neo_pv_count whole_floats dyn ''QMN1'' [(''limit'', VInt 7)] counts = Inr counts" for dyn counts
    by (simp add: detect_neo_pv_count_def power_value_def bindE_def)
  show ?thesis
    by (simp add: prepare_telemetry_def add_firmware_def firmware_of_def supports_combined_firmware_def place_batteries_def d E pv resolve_max_bat_def Let_def)
qed

lemma sample_digit: "str_of_int 7 = ''7''"
  by code_simp

theorem device_data_published_witness:
  "\<exists>bs lg. hs_log (br_home (bridge_step ''ha'' ''client'' False (new_bridge (\<lambda>f. None) [] [])
       (sample_bridge_env, DeviceSends \<lparr>mm_topic = ''c/QMN1'', mm_payload = scramble (bs @ [1, 2]), mm_properties = []\<rparr>))) =
     send accept_all (state_message ''ha'' ''QMN1'' ''limit=7;'') lg"
proof -
  let ?b = "new_bridge (\<lambda>f. None) [] [] :: (int, unit, rat) bridge"
  obtain bs where bs: "message_build sample_telemetry = Inr bs" using message_build_valid [OF sample_telemetry_ok(1)] by blast
  let ?msg = "\<lparr>mm_topic = ''c/QMN1'', mm_payload = scramble (bs @ [1, 2]), mm_properties = []\<rparr>"
  have f: "msg_function sample_telemetry = READ_INPUT_REGISTER" by (simp add: sample_telemetry_def)
  have d: "extract_device_id ''c/QMN1'' = ''QMN1''" by code_simp
  have src: "br_source ?b = new_source" by (simp add: new_bridge_def Let_def restore_gateways_def)
  have quiet: "\<not> forwarded_by_us ?msg" "\<not> sc_stopped (br_source ?b)" "\<not> hs_stopped (br_home ?b)"
    "dict_get (pc_payload (hs_pub (br_home ?b))) ''QMN1'' = None" "dict_get (pc_json (hs_pub (br_home ?b))) ''QMN1'' = None"
    by (simp_all add: forwarded_by_us_def new_bridge_def Let_def restore_gateways_def new_source_def new_client_def no_publish_caches_def)
  have known: "client_registers (settle ''ha'' ''client'' False (home_env_of sample_bridge_env ?b)) ''QMN1'' =
      Some \<lparr>input_registers = [(''limit'', second_battery)], holding_registers = [], config_registers = []\<rparr>"
  proof -
    have "get_known_registers ''QMN1'' \<noteq> None" by code_simp
    then obtain k where "get_known_registers ''QMN1'' = Some k" by blast
    then show ?thesis by (simp add: client_registers_def settle_def home_env_of_def sample_bridge_env_def sample_client_env_def)
  qed
  have vals: "input_values whole_floats sample_telemetry [(''limit'', second_battery)] = Some [(''limit'', VInt 7)]"
    by code_simp
  have out: "telemetry_payload whole_floats (Some \<lparr>input_registers = [(''limit'', second_battery)], holding_registers = [],
      config_registers = []\<rparr>) (is_family ''QMN1'' ''noah'') 1 [(''limit'', VInt 7)] = [(''limit'', VInt 7)]"
    by code_simp
  have E: "he_floats (be_home sample_bridge_env) = whole_floats" "he_broker (be_home sample_bridge_env) = accept_all"
    "he_state_json (be_home sample_bridge_env) [(''limit'', VInt 7)] = ''limit=7;''"
    by (simp_all add: sample_bridge_env_def sample_client_env_def sample_digit)
  obtain s' where p: "prepare_telemetry (settle ''ha'' ''client'' False (home_env_of sample_bridge_env ?b)) ''QMN1''
      [(''limit'', VInt 7)] (br_home ?b) = (s', Inr ([(''limit'', VInt 7)], 1))"
    using sample_prepared [of ?b "br_home ?b"] by blast
  have "dict_get (sc_gateways (br_source ?b)) ''QMN1'' = None" by (simp add: src new_source_def)
  then have dev: "''QMN1'' = or_else (dict_get (sc_gateways (br_source ?b)) (extract_device_id (mm_topic ?msg)))
      (extract_device_id (mm_topic ?msg))" by (simp add: d or_else_def)
  have "\<exists>lg. hs_log (br_home (bridge_step ''ha'' ''client'' False ?b (sample_bridge_env, DeviceSends ?msg))) =
     send accept_all (state_message ''ha'' ''QMN1'' ''limit=7;'') lg"
    using device_data_published [OF sample_telemetry_ok(1) f bs _ _ sample_telemetry_ok(2) _ quiet(1-3) dev known _ _ p quiet(4,5),
        of "[1, 2]"] vals out by (simp add: E d)
  then show ?thesis by blast
qed

end
