(* ===== verification/IngressStream.thy ===== *)
theory IngressStream
  imports Storage
begin

text \<open>
  The request stream of \<open>grobro/ha/battery_ingress.py\<close>: the header reader with one deadline for all
  lines and the reader of the request body. A stream is the bytes already buffered and the arrivals
  still to come, each after a gap; one arrival is what one receive call returns. Time is a number of
  seconds that passes only while a receive waits. A receive that would wait as long as the socket's
  timeout, or longer, raises \<open>TimeoutError\<close>.
\<close>

section \<open>Definitions\<close>

datatype arrival = Arrived string | Closed | Broken

record 't stream =
  sm_buffer :: string
  sm_arrivals :: "('t \<times> arrival) list"
  sm_now :: 't
  sm_timeout :: "'t option"

datatype stream_error = TimedOut | StreamFails py_error

text \<open>Making sure that something is buffered; after the end of the stream nothing is.\<close>

definition fill_buffer :: "'t::linordered_idom \<Rightarrow> 't stream \<Rightarrow> 't stream \<times> (stream_error + unit)" where
  "fill_buffer budget s =
     (if sm_buffer s \<noteq> [] then (s, Inr ())
      else case sm_arrivals s of
             [] \<Rightarrow> (s\<lparr>sm_now := sm_now s + budget\<rparr>, Inl TimedOut)
           | (gap, a) # rest \<Rightarrow>
               if budget \<le> gap
               then (s\<lparr>sm_now := sm_now s + budget, sm_arrivals := (gap - budget, a) # rest\<rparr>, Inl TimedOut)
               else (let s1 = s\<lparr>sm_now := sm_now s + gap\<rparr>
                     in case a of
                          Arrived b \<Rightarrow> (s1\<lparr>sm_buffer := b, sm_arrivals := rest\<rparr>, Inr ())
                        | Closed \<Rightarrow> (s1\<lparr>sm_arrivals := (0, Closed) # rest\<rparr>, Inr ())
                        | Broken \<Rightarrow> (s1\<lparr>sm_arrivals := rest\<rparr>, Inl (StreamFails OSError))))"

definition set_timeout :: "'t option \<Rightarrow> 't stream \<Rightarrow> 't stream" where
  "set_timeout t s = s\<lparr>sm_timeout := t\<rparr>"

definition take_buffer :: "nat \<Rightarrow> 't stream \<Rightarrow> string \<times> 't stream" where
  "take_buffer n s = (take n (sm_buffer s), s\<lparr>sm_buffer := drop n (sm_buffer s)\<rparr>)"

text \<open>How much of a buffer belongs to the line: up to and including a line feed, all of it otherwise.\<close>

definition line_part :: "string \<Rightarrow> nat" where
  "line_part b =
     (let before = length (takeWhile (\<lambda>c. c \<noteq> CHR 0x0A) b)
      in if before < length b then Suc before else length b)"

definition read_size :: "bool \<Rightarrow> int \<Rightarrow> string \<Rightarrow> string \<Rightarrow> nat" where
  "read_size peeks limit line b =
     (if peeks
      then (if 0 \<le> limit then min (line_part b) (nat limit - length line) else line_part b)
      else 1)"

text \<open>The work left in a stream, which every byte read makes smaller.\<close>

fun arrival_size :: "'t \<times> arrival \<Rightarrow> nat" where
  "arrival_size (gap, a) = (case a of Arrived b \<Rightarrow> Suc (length b) | _ \<Rightarrow> 0)"

definition stream_size :: "'t stream \<Rightarrow> nat" where
  "stream_size s = length (sm_buffer s) + sum_list (map arrival_size (sm_arrivals s))"

lemma fill_buffer_size: "fill_buffer budget s = (s1, r) \<Longrightarrow> stream_size s1 \<le> stream_size s"
  by (auto simp: fill_buffer_def stream_size_def Let_def split: if_splits list.splits arrival.splits)

lemma take_buffer_size:
  "take_buffer n s = (v, s1) \<Longrightarrow> v \<noteq> [] \<Longrightarrow> stream_size s1 < stream_size s"
  by (auto simp: take_buffer_def stream_size_def)

text \<open>
  The loop of \<open>_HeaderDeadlineReader.readline\<close>. With \<open>peeks\<close> it takes a whole piece of the line out
  of the buffer at once, without it one byte at a time.
\<close>

function readline_loop ::
    "bool \<Rightarrow> int \<Rightarrow> 't::linordered_idom \<Rightarrow> string \<Rightarrow> 't stream \<Rightarrow> 't stream \<times> (stream_error + string)" where
  "readline_loop peeks limit deadline line s =
     (if limit < 0 \<or> int (length line) < limit
      then (let remaining = deadline - sm_now s
            in if remaining \<le> 0 then (s, Inl TimedOut)
               else case fill_buffer remaining (set_timeout (Some remaining) s) of
                      (s1, Inl e) \<Rightarrow> (s1, Inl e)
                    | (s1, Inr _) \<Rightarrow>
                        (case take_buffer (read_size peeks limit line (sm_buffer s1)) s1 of
                           (piece, s2) \<Rightarrow>
                             if piece = [] then (s2, Inr line)
                             else if last piece = CHR 0x0A then (s2, Inr (line @ piece))
                             else readline_loop peeks limit deadline (line @ piece) s2))
      else (s, Inr line))"
  by pat_completeness auto

lemma set_timeout_size [simp]: "stream_size (set_timeout t s) = stream_size s"
  by (simp add: stream_size_def set_timeout_def)

termination readline_loop
  by (relation "measure (\<lambda>(peeks, limit, deadline, line, s). stream_size s)")
    (auto dest!: fill_buffer_size [OF sym] take_buffer_size [OF sym])

declare readline_loop.simps [simp del]

definition readline :: "bool \<Rightarrow> int \<Rightarrow> 't::linordered_idom \<Rightarrow> 't stream \<Rightarrow> 't stream \<times> (stream_error + string)" where
  "readline peeks limit deadline s =
     (case readline_loop peeks limit deadline [] s of
        (s1, r) \<Rightarrow> (set_timeout (sm_timeout s) s1, r))"

text \<open>
  The body loop of \<open>_read_json_body\<close>, under its own deadline: \<open>None\<close> in place of the bytes is the
  \<open>ValueError\<close> of an incomplete body.
\<close>

function body_loop ::
    "'t::linordered_idom \<Rightarrow> nat \<Rightarrow> string \<Rightarrow> 't stream \<Rightarrow> 't stream \<times> (stream_error + string option)" where
  "body_loop deadline remaining chunks s =
     (if remaining = 0 then (s, Inr (Some chunks))
      else let budget = deadline - sm_now s
           in if budget \<le> 0 then (s, Inl TimedOut)
              else case fill_buffer budget (set_timeout (Some budget) s) of
                     (s1, Inl e) \<Rightarrow> (s1, Inl e)
                   | (s1, Inr _) \<Rightarrow>
                       (case take_buffer remaining s1 of
                          (chunk, s2) \<Rightarrow>
                            if chunk = [] then (s2, Inr None)
                            else body_loop deadline (remaining - length chunk) (chunks @ chunk) s2))"
  by pat_completeness auto

termination body_loop
  by (relation "measure (\<lambda>(deadline, remaining, chunks, s). remaining)") auto

declare body_loop.simps [simp del]

definition read_body :: "nat \<Rightarrow> 't::linordered_idom stream \<Rightarrow> 't stream \<times> (stream_error + string option)" where
  "read_body n s =
     (case body_loop (sm_now s + 30) n [] (set_timeout (Some 30) s) of
        (s1, r) \<Rightarrow> (set_timeout (sm_timeout s) s1, r))"

section \<open>What is in the stream\<close>

text \<open>
  The bytes a reader with a deadline can still get: the buffer, then the arrivals before the deadline
  up to one that ends the stream. Together with how it ends.
\<close>

datatype stream_end = EndsAtDeadline | EndsClosed | EndsBroken

fun arriving :: "'t::linordered_idom \<Rightarrow> ('t \<times> arrival) list \<Rightarrow> string \<times> stream_end" where
  "arriving budget [] = ([], EndsAtDeadline)"
| "arriving budget ((gap, a) # rest) =
     (if budget \<le> gap then ([], EndsAtDeadline)
      else case a of
             Closed \<Rightarrow> ([], EndsClosed)
           | Broken \<Rightarrow> ([], EndsBroken)
           | Arrived b \<Rightarrow> (case arriving (budget - gap) rest of (bs, e) \<Rightarrow> (b @ bs, e)))"

definition readable :: "'t::linordered_idom \<Rightarrow> 't stream \<Rightarrow> string \<times> stream_end" where
  "readable deadline s =
     (if deadline \<le> sm_now s then ([], EndsAtDeadline)
      else case arriving (deadline - sm_now s) (sm_arrivals s) of (bs, e) \<Rightarrow> (sm_buffer s @ bs, e))"

definition stream_live :: "'t::linordered_idom stream \<Rightarrow> bool" where
  "stream_live s \<longleftrightarrow> list_all (\<lambda>(gap, a). 0 \<le> gap \<and> a \<noteq> Arrived []) (sm_arrivals s)"

text \<open>What the loops return, read off those bytes.\<close>

definition ended :: "stream_end \<Rightarrow> 'a \<Rightarrow> stream_error + 'a" where
  "ended e a =
     (case e of EndsAtDeadline \<Rightarrow> Inl TimedOut | EndsClosed \<Rightarrow> Inr a | EndsBroken \<Rightarrow> Inl (StreamFails OSError))"

definition body_result :: "nat \<Rightarrow> string \<times> stream_end \<Rightarrow> stream_error + string option" where
  "body_result n r =
     (if n \<le> length (fst r) then Inr (Some (take n (fst r))) else ended (snd r) None)"

section \<open>The body reader\<close>

lemma readable_timeout [simp]: "readable d (set_timeout t s) = readable d s"
  "stream_live (set_timeout t s) = stream_live s" "sm_now (set_timeout t s) = sm_now s"
  "sm_buffer (set_timeout t s) = sm_buffer s" "sm_timeout (set_timeout t s) = t"
  by (simp_all add: readable_def stream_live_def set_timeout_def)

lemma fill_readable:
  assumes "fill_buffer (deadline - sm_now s) s = (s1, r)" "sm_now s < deadline" "stream_live s"
  shows "case r of
      Inl e \<Rightarrow>
        e = TimedOut \<and> readable deadline s = ([], EndsAtDeadline) \<or>
        e = StreamFails OSError \<and> readable deadline s = ([], EndsBroken)
    | Inr _ \<Rightarrow>
        sm_now s1 < deadline \<and> stream_live s1 \<and> readable deadline s1 = readable deadline s \<and>
        (sm_buffer s1 = [] \<longrightarrow> readable deadline s = ([], EndsClosed))"
  using assms
  by (auto simp: fill_buffer_def readable_def stream_live_def Let_def algebra_simps
      split: if_splits list.splits arrival.splits prod.splits)

lemma take_readable:
  assumes "take_buffer n s = (piece, s1)" "sm_now s < deadline" "stream_live s"
  shows "sm_now s1 = sm_now s \<and> stream_live s1 \<and> piece = take n (sm_buffer s) \<and>
    readable deadline s = (piece @ fst (readable deadline s1), snd (readable deadline s1))"
  using assms
  by (auto simp: take_buffer_def readable_def stream_live_def split: prod.splits)

lemma take_whole: "take_buffer n s = (piece, s1) \<Longrightarrow> sm_buffer s \<noteq> [] \<Longrightarrow> 0 < n \<Longrightarrow> piece \<noteq> []"
  by (auto simp: take_buffer_def)

definition prepend_body :: "string \<Rightarrow> stream_error + string option \<Rightarrow> stream_error + string option" where
  "prepend_body chunks r = (case r of Inr (Some b) \<Rightarrow> Inr (Some (chunks @ b)) | _ \<Rightarrow> r)"

lemma body_loop_result:
  "stream_live s \<Longrightarrow>
   snd (body_loop deadline n chunks s) = prepend_body chunks (body_result n (readable deadline s))"
proof (induction deadline n chunks s rule: body_loop.induct)
  case (1 deadline n chunks s)
  let ?b = "deadline - sm_now s"
  consider "n = 0" | "n \<noteq> 0" "deadline \<le> sm_now s" | "n \<noteq> 0" "sm_now s < deadline" by fastforce
  then show ?case
  proof cases
    case 1
    then show ?thesis by (simp add: body_loop.simps prepend_body_def body_result_def)
  next
    case 2
    then show ?thesis
      by (simp add: body_loop.simps prepend_body_def body_result_def readable_def ended_def Let_def)
  next
    case 3
    obtain s1 r where fill: "fill_buffer ?b (set_timeout (Some ?b) s) = (s1, r)" by fastforce
    have fr: "case r of
      Inl e \<Rightarrow>
        e = TimedOut \<and> readable deadline s = ([], EndsAtDeadline) \<or>
        e = StreamFails OSError \<and> readable deadline s = ([], EndsBroken)
    | Inr _ \<Rightarrow>
        sm_now s1 < deadline \<and> stream_live s1 \<and> readable deadline s1 = readable deadline s \<and>
        (sm_buffer s1 = [] \<longrightarrow> readable deadline s = ([], EndsClosed))"
      using fill_readable [of deadline "set_timeout (Some ?b) s" s1 r] fill 3 1(2)
      by (simp split: sum.splits)
    show ?thesis
    proof (cases r)
      case (Inl e)
      with 3 fill fr show ?thesis
        by (auto simp: body_loop.simps Let_def prepend_body_def body_result_def ended_def)
    next
      case (Inr u)
      obtain piece s2 where tk: "take_buffer n s1 = (piece, s2)" by fastforce
      have live: "sm_now s1 < deadline" "stream_live s1" and same: "readable deadline s1 = readable deadline s"
        using fr Inr by auto
      note t = take_readable [OF tk live]
      show ?thesis
      proof (cases "piece = []")
        case True
        with take_whole [OF tk] 3(1) have "readable deadline s = ([], EndsClosed)" using fr Inr by auto
        with 3 fill Inr tk True show ?thesis
          by (auto simp: body_loop.simps Let_def prepend_body_def body_result_def ended_def)
      next
        case False
        have "snd (body_loop deadline n chunks s) = snd (body_loop deadline (n - length piece) (chunks @ piece) s2)"
          using 3 fill Inr tk False by (subst body_loop.simps) (simp add: Let_def)
        also have "\<dots> = prepend_body (chunks @ piece) (body_result (n - length piece) (readable deadline s2))"
          using 1(1) 3 fill Inr tk False t by (simp add: Let_def)
        also have "\<dots> = prepend_body chunks (body_result n (readable deadline s))"
        proof -
          have "length piece \<le> n" using t by simp
          then show ?thesis
            using t same by (auto simp: prepend_body_def body_result_def ended_def split: stream_end.splits)
        qed
        finally show ?thesis .
      qed
    qed
  qed
qed

section \<open>The line reader\<close>

text \<open>The loops set the socket's timeout themselves, so results are compared up to it.\<close>

definition unset :: "'t stream \<times> 'a \<Rightarrow> 't stream \<times> 'a" where
  "unset = map_prod (set_timeout None) id"

lemma set_timeout_twice [simp]: "set_timeout t (set_timeout u s) = set_timeout t s"
  by (simp add: set_timeout_def)

lemma unset_simp [simp]: "unset (s, r) = (set_timeout None s, r)"
  by (simp add: unset_def)

lemma fill_set_timeout:
  "fill_buffer b (set_timeout t s) = map_prod (set_timeout t) id (fill_buffer b s)"
  by (auto simp: fill_buffer_def set_timeout_def Let_def split: list.splits arrival.splits)

lemma take_set_timeout:
  "take_buffer n (set_timeout t s) = map_prod id (set_timeout t) (take_buffer n s)"
  by (simp add: take_buffer_def set_timeout_def)

lemma loop_set_timeout:
  "unset (readline_loop p l d line (set_timeout t s)) = unset (readline_loop p l d line s)"
  by (subst (1 2) readline_loop.simps) (simp add: Let_def)

lemma loop_eq_timeout:
  assumes "set_timeout None s = set_timeout None s'"
  shows "unset (readline_loop p l d line s) = unset (readline_loop p l d line s')"
  using loop_set_timeout [of p l d line None s] loop_set_timeout [of p l d line None s'] assms by simp

abbreviation room :: "int \<Rightarrow> string \<Rightarrow> bool" where
  "room limit line \<equiv> limit < 0 \<or> int (length line) < limit"

text \<open>One turn of the loop once something is buffered.\<close>

lemma loop_buffered:
  assumes "room limit line" "sm_now s < d" "sm_buffer s \<noteq> []"
    "take_buffer (read_size p limit line (sm_buffer s)) s = (piece, s2)" "piece \<noteq> []"
  shows "unset (readline_loop p limit d line s) =
    (if last piece = CHR 0x0A then (set_timeout None s2, Inr (line @ piece))
     else unset (readline_loop p limit d (line @ piece) s2))"
proof -
  let ?t = "set_timeout (Some (d - sm_now s))"
  have "fill_buffer (d - sm_now s) (?t s) = (?t s, Inr ())"
    using assms(3) by (simp add: fill_buffer_def set_timeout_def)
  moreover have "take_buffer (read_size p limit line (sm_buffer s)) (?t s) = (piece, ?t s2)"
    using assms(4) by (simp add: take_set_timeout)
  ultimately have "readline_loop p limit d line s =
      (if last piece = CHR 0x0A then (?t s2, Inr (line @ piece))
       else readline_loop p limit d (line @ piece) (?t s2))"
    using assms(1,2,5) by (subst readline_loop.simps) (simp add: Let_def)
  then show ?thesis by (simp add: loop_set_timeout)
qed

lemma loop_filled:
  assumes "room limit line" "sm_now s < d" "fill_buffer (d - sm_now s) s = (s1, Inr ())"
    "sm_buffer s1 \<noteq> []" "sm_now s1 < d"
  shows "unset (readline_loop p limit d line s) = unset (readline_loop p limit d line s1)"
proof -
  obtain piece s2 where tk: "take_buffer (read_size p limit line (sm_buffer s1)) s1 = (piece, s2)"
    by fastforce
  have turn: "unset (readline_loop p limit d line z) =
      (if piece = [] then (set_timeout None s2, Inr line)
       else if last piece = CHR 0x0A then (set_timeout None s2, Inr (line @ piece))
       else unset (readline_loop p limit d (line @ piece) s2))"
    if "sm_now z < d" "fill_buffer (d - sm_now z) z = (s1, Inr ())" for z
    using that assms(1) tk
    by (subst readline_loop.simps) (simp add: Let_def fill_set_timeout take_set_timeout loop_set_timeout)
  have "fill_buffer (d - sm_now s1) s1 = (s1, Inr ())"
    using assms(4) by (simp add: fill_buffer_def)
  with turn assms(2,3,5) show ?thesis by metis
qed

text \<open>A piece of the line, byte by byte.\<close>

lemma loop_bytes:
  "piece \<noteq> [] \<Longrightarrow> CHR 0x0A \<notin> set (butlast piece) \<Longrightarrow> sm_now s < d \<Longrightarrow> sm_buffer s = piece @ rest \<Longrightarrow>
   limit < 0 \<or> int (length line) + int (length piece) \<le> limit \<Longrightarrow>
   unset (readline_loop False limit d line s) =
     (if last piece = CHR 0x0A then (set_timeout None (s\<lparr>sm_buffer := rest\<rparr>), Inr (line @ piece))
      else unset (readline_loop False limit d (line @ piece) (s\<lparr>sm_buffer := rest\<rparr>)))"
proof (induction piece arbitrary: s line)
  case (Cons c piece)
  let ?s = "s\<lparr>sm_buffer := piece @ rest\<rparr>"
  have step: "unset (readline_loop False limit d line s) =
      (if c = CHR 0x0A then (set_timeout None ?s, Inr (line @ [c]))
       else unset (readline_loop False limit d (line @ [c]) ?s))"
    using loop_buffered [of limit line s d False "[c]" ?s] Cons.prems
    by (auto simp: read_size_def take_buffer_def)
  show ?case
  proof (cases "piece = []")
    case True
    with step show ?thesis by simp
  next
    case False
    with Cons.prems have "c \<noteq> CHR 0x0A" by auto
    moreover have "unset (readline_loop False limit d (line @ [c]) ?s) =
        (if last piece = CHR 0x0A then (set_timeout None (s\<lparr>sm_buffer := rest\<rparr>), Inr (line @ c # piece))
         else unset (readline_loop False limit d (line @ c # piece) (s\<lparr>sm_buffer := rest\<rparr>)))"
      using Cons.IH [of ?s "line @ [c]"] Cons.prems False by auto
    ultimately show ?thesis using step False by simp
  qed
qed simp

lemma line_part_bounds: "line_part b \<le> length b" "b \<noteq> [] \<Longrightarrow> 0 < line_part b"
  by (auto simp: line_part_def Let_def)

lemma takeWhile_butlast: "CHR 0x0A \<notin> set (butlast (take k b))" if "k \<le> line_part b"
proof -
  let ?w = "takeWhile (\<lambda>c. c \<noteq> CHR 0x0A) b"
  have "k \<le> Suc (length ?w)" using that by (auto simp: line_part_def Let_def split: if_splits)
  moreover have "k \<le> length b" using that line_part_bounds(1) [of b] by simp
  ultimately have "set (butlast (take k b)) \<subseteq> set (take (length ?w) b)"
    by (simp add: butlast_take set_take_subset_set_take)
  also have "\<dots> \<subseteq> set ?w" by (metis order_refl takeWhile_eq_take)
  finally show ?thesis by (auto dest: set_takeWhileD)
qed

lemma readline_loop_peek:
  "unset (readline_loop True limit d line s) = unset (readline_loop False limit d line s)"
proof (induction "True" limit d line s rule: readline_loop.induct)
  case (1 limit d line s)
  consider "\<not> room limit line" | "room limit line" "d \<le> sm_now s" | "room limit line" "sm_now s < d"
    by fastforce
  then show ?case
  proof cases
    case 1
    then show ?thesis by (simp add: readline_loop.simps)
  next
    case 2
    then show ?thesis by (subst (1 2) readline_loop.simps) (simp add: Let_def)
  next
    case 3
    let ?b = "d - sm_now s" and ?s = "set_timeout (Some (d - sm_now s)) s"
    obtain s1 r where fill: "fill_buffer ?b ?s = (s1, r)" by fastforce
    show ?thesis
    proof (cases r)
      case (Inl e)
      with 3 fill show ?thesis by (subst (1 2) readline_loop.simps) (simp add: Let_def)
    next
      case (Inr u)
      have now: "sm_now s1 < d"
        using fill Inr 3 by (auto simp: fill_buffer_def Let_def algebra_simps
            split: if_splits list.splits arrival.splits)
      show ?thesis
      proof (cases "sm_buffer s1 = []")
        case True
        with 3 fill Inr show ?thesis
          by (subst (1 2) readline_loop.simps) (simp add: Let_def read_size_def take_buffer_def line_part_def)
      next
        case False
        let ?k = "read_size True limit line (sm_buffer s1)"
        define piece where "piece = take ?k (sm_buffer s1)"
        define s2 where "s2 = s1\<lparr>sm_buffer := drop ?k (sm_buffer s1)\<rparr>"
        have tk: "take_buffer ?k s1 = (piece, s2)" by (simp add: take_buffer_def piece_def s2_def)
        have k: "0 < ?k" "?k \<le> line_part (sm_buffer s1)"
          and lim: "limit < 0 \<or> int (length line) + int (length piece) \<le> limit"
          using 3(1) line_part_bounds [of "sm_buffer s1"] False by (auto simp: read_size_def piece_def)
        have ne: "piece \<noteq> []" using k False by (simp add: piece_def)
        have filled: "unset (readline_loop p limit d line s) = unset (readline_loop p limit d line s1)" for p
          using loop_filled [of limit line ?s d s1 p] 3 fill Inr False now loop_set_timeout [of p limit d line _ s]
          by simp
        have T: "unset (readline_loop True limit d line s1) =
            (if last piece = CHR 0x0A then (set_timeout None s2, Inr (line @ piece))
             else unset (readline_loop True limit d (line @ piece) s2))"
          by (rule loop_buffered [OF 3(1) now False tk ne])
        have F: "unset (readline_loop False limit d line s1) =
            (if last piece = CHR 0x0A then (set_timeout None s2, Inr (line @ piece))
             else unset (readline_loop False limit d (line @ piece) s2))"
          unfolding s2_def
          by (rule loop_bytes [OF ne _ now _ lim])
            (use takeWhile_butlast [OF k(2)] in \<open>simp_all add: piece_def\<close>)
        have "unset (readline_loop True limit d (line @ piece) s2) = unset (readline_loop False limit d (line @ piece) s2)"
          if "last piece \<noteq> CHR 0x0A"
          using 1 3 fill Inr tk ne that by (simp add: Let_def)
        with filled T F show ?thesis by simp
      qed
    qed
  qed
qed

lemma set_timeout_cong: "set_timeout None s = set_timeout None s' \<Longrightarrow> set_timeout t s = set_timeout t s'"
  by (metis set_timeout_twice)

lemma prepend_Nil: "prepend_body [] r = r"
  by (simp add: prepend_body_def split: sum.splits option.splits)

section \<open>Properties\<close>

text \<open>C13: The header reader that takes a whole piece of a line out of the buffer behaves exactly like the one
  that reads a byte at a time: the same line or error, the same bytes left for the body reader and the same
  time, however the bytes were cut into packets and whatever the length limit.\<close>

theorem header_reader_equivalent:
  "readline True limit deadline s = readline False limit deadline s"
  using readline_loop_peek [of limit deadline "[]" s]
  by (auto simp: readline_def unset_def map_prod_def intro: set_timeout_cong split: prod.splits)

text \<open>C25: Reading a request body of a given length depends only on the bytes that arrive within 30 seconds, not on
  how they are cut into packets: it returns exactly the first bytes of that length; it times out when fewer
  arrive in time, reports an incomplete body when the client closes before, and fails when the connection
  breaks. The socket's timeout is put back in every case.\<close>

theorem request_body_read:
  assumes "stream_live s"
  shows "snd (read_body n s) = body_result n (readable (sm_now s + 30) s) \<and>
    sm_timeout (fst (read_body n s)) = sm_timeout s"
  using body_loop_result [of "set_timeout (Some 30) s" "sm_now s + 30" n "[]"] assms
  by (auto simp: read_body_def prepend_Nil split: prod.splits)

definition sample_stream :: "int stream" where
  "sample_stream =
     \<lparr>sm_buffer = ''{'', sm_arrivals = [(3, Arrived ''}POST''), (1, Closed)], sm_now = 100, sm_timeout = Some 10\<rparr>"

theorem request_body_read_witness:
  "stream_live sample_stream \<and> snd (read_body 2 sample_stream) = Inr (Some ''{}'') \<and>
   snd (read_body 9 sample_stream) = Inr None"
proof -
  have live: "stream_live sample_stream" by code_simp
  have "body_result 2 (readable (sm_now sample_stream + 30) sample_stream) = Inr (Some ''{}'')"
    "body_result 9 (readable (sm_now sample_stream + 30) sample_stream) = Inr None"
    by code_simp+
  with live request_body_read [OF live] show ?thesis by simp
qed

end
