(* ===== verification/Ingress.thy ===== *)
theory Ingress
  imports SupervisorConfig IngressStream BatteryRuntime DeviceInventory
begin

text \<open>
  \<open>grobro/ha/battery_ingress.py\<close> without its page: the request handler of the add-on's web interface
  and the server that bounds its threads. A request is handled in one step; its stream, whether the
  reply can be written, a thread started and a file saved are parts of the request. The text of the
  page is the reply \<open>Page\<close>; an exception that escapes a handler is its result.
\<close>

section \<open>Requests, replies, state\<close>

datatype 'f page_reply = Json int "'f json" | Page | ErrorPage int

record 't page_request =
  pr_client :: string
  pr_target :: string
  pr_length :: "string option"
  pr_stream :: "'t stream"
  pr_write_ok :: bool
  pr_thread_ok :: bool
  pr_save_ok :: bool

record 'f ingress =
  ig_calls :: "'f sup_log"
  ig_waiting :: nat
  ig_positions :: "'f json_read"
  ig_manual :: "'f json_read"
  ig_detected :: "'f json_read"
  ig_devices :: "'f inventory"

type_synonym 'f handled = "'f ingress \<times> 'f page_reply list \<times> unit py"

record ('f, 't) ingress_env =
  ie_sup :: "('f, 't) sup_env"
  ie_keep :: "string option"
  ie_netloc :: "string \<Rightarrow> bool"

definition allowed_clients :: "string list" where
  "allowed_clients = [''172.30.32.2'', ''127.0.0.1'', ''::1'']"

definition send_reply :: "'t page_request \<Rightarrow> 'f page_reply \<Rightarrow> 'f ingress \<Rightarrow> 'f handled" where
  "send_reply rq r st = (if pr_write_ok rq then (st, [r], Inr ()) else (st, [], Inl OSError))"

definition error_json :: "string \<Rightarrow> 'f json" where
  "error_json message = JObj [(''error'', JStr message)]"

section \<open>The requested path\<close>

text \<open>\<open>urlsplit(url).path\<close>; \<open>None\<close> is the \<open>ValueError\<close> for a host it refuses.\<close>

definition url_path :: "(string \<Rightarrow> bool) \<Rightarrow> string \<Rightarrow> string option" where
  "url_path netloc_ok url =
     (let u0 = filter (\<lambda>c. c \<notin> {CHR 0x09, CHR 0x0A, CHR 0x0D}) (dropWhile (\<lambda>c. of_char c \<le> (32 :: nat)) url);
          scheme = takeWhile (\<lambda>c. c \<noteq> CHR '':'') u0;
          u1 = (if scheme \<noteq> [] \<and> length scheme < length u0 \<and> ascii_letter (hd u0) \<and>
                   list_all (\<lambda>c. is_alnum c \<or> c \<in> set ''+-.'') scheme
                then drop (Suc (length scheme)) u0 else u0);
          cut = takeWhile (\<lambda>c. c \<notin> set ''#?'')
      in if take 2 u1 = ''//''
         then (let netloc = takeWhile (\<lambda>c. c \<notin> set ''/?#'') (drop 2 u1)
               in if netloc_ok netloc then Some (cut (drop (2 + length netloc) u1)) else None)
         else Some (cut u1))"

definition request_path :: "('f, 't) ingress_env \<Rightarrow> 'u page_request \<Rightarrow> string option" where
  "request_path N rq =
     map_option (rstrip_by (\<lambda>c. c = CHR ''/'')) (url_path (ie_netloc N) (pr_target rq))"

definition ends_with :: "string \<Rightarrow> string \<Rightarrow> bool" where
  "ends_with s t \<longleftrightarrow> drop (length s - length t) s = t"

section \<open>The state of the page\<close>

fun val_json :: "'f pyval \<Rightarrow> 'f json" where
  "val_json VNone = JNull"
| "val_json (VBool b) = JBool b"
| "val_json (VInt n) = JInt n"
| "val_json (VFloat x) = JFloat x"
| "val_json (VStr s) = JStr s"

definition opt_field :: "string \<Rightarrow> 'f json option \<Rightarrow> (string \<times> 'f json) list" where
  "opt_field k v = (case v of None \<Rightarrow> [] | Some j \<Rightarrow> [(k, j)])"

definition battery_json :: "'f battery_view \<Rightarrow> 'f json" where
  "battery_json b =
     JObj ([(''slot'', JInt (bw_slot b))] @ opt_field ''serial'' (map_option JStr (bw_serial b)) @
       opt_field ''soc'' (map_option val_json (bw_soc b)) @
       opt_field ''temperature'' (map_option val_json (bw_temperature b)))"

definition device_json :: "string \<times> 'f device_view \<Rightarrow> 'f json" where
  "device_json p =
     (case p of
        (d, item) \<Rightarrow>
          JObj ([(''device_id'', JStr d), (''family'', JStr (dw_family item)), (''display_name'', JStr (dw_name item))] @
            opt_field ''wifi_signal_strength'' (map_option JInt (dw_wifi item)) @
            opt_field ''wifi_signal'' (map_option JInt (dw_wifi item)) @
            opt_field ''batteries'' (map_option (\<lambda>bs. JArr (map battery_json bs)) (dw_batteries item)) @
            map (\<lambda>(k, v). (k, val_json v)) (dw_values item)))"

definition text_object :: "(string, string) dict \<Rightarrow> 'f json" where
  "text_object d = JObj (map (\<lambda>(k, v). (k, JStr v)) d)"

definition ui_device_json :: "battery_ui_device \<Rightarrow> 'f json" where
  "ui_device_json u =
     JObj [(''device_id'', JStr (ui_device u)), 
       (''detected'', JArr (map (\<lambda>(slot, serial).
          JObj [(''physical_slot'', JInt slot), (''serial'', JStr serial)]) (ui_detected u))),
       (''automatic'', text_object (ui_automatic u)), (''manual'', text_object (ui_manual u))]"

definition page_state ::
    "('f, 'x) float_ops_scheme \<Rightarrow> ('f, 't) ingress_env \<Rightarrow> 'f ingress \<Rightarrow> 'f json py" where
  "page_state F N st =
     bindE (battery_ui_devices F (se_repr (ie_sup N)) (ig_positions st) (ig_manual st) (ig_detected st))
       (\<lambda>devices. Inr (JObj
          [(''keep_battery_position'',
             JBool (py_lower (case ie_keep N of None \<Rightarrow> ''False'' | Some s \<Rightarrow> s) = ''true'')),
           (''devices'', JArr (map ui_device_json devices)),
           (''inventory'', JArr (map device_json (get_device_inventory (ig_devices st))))]))"

section \<open>Reading requests\<close>

definition do_GET ::
    "('f, 'x) float_ops_scheme \<Rightarrow> ('f, 't::linorder) ingress_env \<Rightarrow> 'u page_request \<Rightarrow> 'f ingress \<Rightarrow> 'f handled" where
  "do_GET F N rq st =
     (if pr_client rq \<notin> set allowed_clients then send_reply rq (ErrorPage 403) st
      else case request_path N rq of
             None \<Rightarrow> (st, [], Inl ValueError)
           | Some path \<Rightarrow>
               if ends_with path ''/api/state''
               then (case page_state F N st of
                       Inl e \<Rightarrow> (st, [], Inl e)
                     | Inr j \<Rightarrow> send_reply rq (Json 200 j) st)
               else if ends_with path ''/api/config''
               then (case get_addon_options F (ie_sup N) (ig_calls st) of
                       (calls, Inr view) \<Rightarrow> send_reply rq (Json 200 (JObj view)) (st\<lparr>ig_calls := calls\<rparr>)
                     | (calls, Inl (ConfigError m)) \<Rightarrow> send_reply rq (Json 502 (error_json m)) (st\<lparr>ig_calls := calls\<rparr>)
                     | (calls, Inl (Other e)) \<Rightarrow> (st\<lparr>ig_calls := calls\<rparr>, [], Inl e))
               else if ends_with path ''/api/logs''
               then (case get_current_process_logs (ie_sup N) (ig_calls st) of
                       (calls, Inr view) \<Rightarrow> send_reply rq (Json 200 (JObj view)) (st\<lparr>ig_calls := calls\<rparr>)
                     | (calls, Inl (ConfigError m)) \<Rightarrow> send_reply rq (Json 502 (error_json m)) (st\<lparr>ig_calls := calls\<rparr>)
                     | (calls, Inl (Other e)) \<Rightarrow> (st\<lparr>ig_calls := calls\<rparr>, [], Inl e))
               else if path \<in> {'''', ''/''} \<or> after_last ''/api/hassio_ingress/'' path \<noteq> None
               then send_reply rq Page st
               else send_reply rq (ErrorPage 404) st)"

section \<open>Changing requests\<close>

definition bad_request :: string where
  "bad_request = ''Ung'' @ u_umlaut @ ''ltige Anfrage''"

text \<open>\<open>Inl\<close> is a request that has been answered already, \<open>Inr\<close> the object it carries.\<close>

definition read_json_body ::
    "('f, 't) ingress_env \<Rightarrow> 'u::linordered_idom page_request \<Rightarrow> 'f ingress \<Rightarrow>
      'f handled + (string \<times> 'f json) list" where
  "read_json_body N rq st =
     (case py_int_of_str (case pr_length rq of None \<Rightarrow> ''0'' | Some s \<Rightarrow> s) of
        None \<Rightarrow> Inl (send_reply rq (Json 400 (error_json bad_request)) st)
      | Some n \<Rightarrow>
          if n \<le> 0 \<or> 65536 < n
          then Inl (send_reply rq (Json 400 (error_json (''Ung'' @ u_umlaut @ ''ltige Anfragegr'' @
                 [CHR 0xC3, CHR 0xB6, CHR 0xC3, CHR 0x9F] @ ''e''))) st)
          else (let bad_json = Inl (send_reply rq (Json 400 (error_json (''Ung'' @ u_umlaut @ ''ltiges JSON''))) st)
                in case snd (read_body (nat n) (pr_stream rq)) of
                     Inl TimedOut \<Rightarrow> Inl (send_reply rq (Json 408 (error_json bad_request)) st)
                   | Inl (StreamFails e) \<Rightarrow> Inl (st, [], Inl e)
                   | Inr None \<Rightarrow> bad_json
                   | Inr (Some body) \<Rightarrow>
                       (case se_loads (ie_sup N) body of
                          Parsed (JObj payload) \<Rightarrow> Inr payload
                        | Parsed v \<Rightarrow> Inl (send_reply rq (Json 400 (error_json bad_request)) st)
                        | NotJson \<Rightarrow> bad_json
                        | ParseRaises e \<Rightarrow>
                            if e \<in> {ValueError, UnicodeError} then bad_json else Inl (st, [], Inl e))))"

definition post_config ::
    "('f, 'x) float_ops_scheme \<Rightarrow> ('f, 't) ingress_env \<Rightarrow> 'u page_request \<Rightarrow> (string \<times> 'f json) list \<Rightarrow>
      'f ingress \<Rightarrow> 'f handled" where
  "post_config F N rq payload st =
     (case dict_get payload ''options'' of
        Some (JObj options) \<Rightarrow>
          (case save_addon_options F (ie_sup N) (JObj options) (ig_calls st) of
             (calls, Inl (ConfigError m)) \<Rightarrow> send_reply rq (Json 400 (error_json m)) (st\<lparr>ig_calls := calls\<rparr>)
           | (calls, Inl (Other e)) \<Rightarrow> (st\<lparr>ig_calls := calls\<rparr>, [], Inl e)
           | (calls, Inr merged) \<Rightarrow>
               (case send_reply rq (Json 200 (JObj [(''ok'', JBool True), (''restart'', JBool True)]))
                       (st\<lparr>ig_calls := calls\<rparr>) of
                  (st1, sent, Inl e) \<Rightarrow> (st1, sent, Inl e)
                | (st1, sent, Inr _) \<Rightarrow>
                    (case schedule_restart F (ie_sup N) (pr_thread_ok rq) (ig_waiting st1, ig_calls st1) of
                       ((waiting, calls2), r) \<Rightarrow>
                         (st1\<lparr>ig_waiting := waiting, ig_calls := calls2\<rparr>, sent,
                          case r of Inl (Other e) \<Rightarrow> Inl e | _ \<Rightarrow> Inr ()))))
      | _ \<Rightarrow> send_reply rq (Json 400 (error_json (''Ung'' @ u_umlaut @ ''ltige Optionen''))) st)"

definition choice_ok :: "('f, 'x) float_ops_scheme \<Rightarrow> ('f json \<Rightarrow> string) \<Rightarrow> (string \<times> 'f json) list \<Rightarrow> string \<Rightarrow> bool" where
  "choice_ok F rp assignments slot =
     (case dict_get assignments slot of
        None \<Rightarrow> True
      | Some (JArr xs) \<Rightarrow> False
      | Some (JObj d) \<Rightarrow> False
      | Some (JStr s) \<Rightarrow> s \<in> {auto_assignment, empty_assignment} \<or> is_plausible_serial s
      | Some v \<Rightarrow> is_plausible_serial (json_str F rp v))"

definition checked_assignments ::
    "('f, 'x) float_ops_scheme \<Rightarrow> ('f json \<Rightarrow> string) \<Rightarrow> 'f json_read \<Rightarrow> bool \<Rightarrow> (string \<times> 'f json) list \<Rightarrow>
      (string, (int, string) dict) dict py" where
  "checked_assignments F rp on_disk save_ok payload =
     (case dict_get payload ''device_id'' of
        None \<Rightarrow> Inl KeyError
      | Some d \<Rightarrow>
          (case dict_get payload ''assignments'' of
             None \<Rightarrow> Inl KeyError
           | Some (JObj assignments) \<Rightarrow>
               if py_strip (json_str F rp d) = [] then Inl ValueError
               else if list_all (choice_ok F rp assignments) [''2'', ''3'', ''4'']
               then save_manual_assignments F rp on_disk save_ok (py_strip (json_str F rp d)) assignments
               else Inl ValueError
           | Some _ \<Rightarrow> Inl ValueError))"

definition post_assignments ::
    "('f, 'x) float_ops_scheme \<Rightarrow> ('f, 't) ingress_env \<Rightarrow> 'u page_request \<Rightarrow> (string \<times> 'f json) list \<Rightarrow>
      'f ingress \<Rightarrow> 'f handled" where
  "post_assignments F N rq payload st =
     (let refused = error_json (''Ung'' @ u_umlaut @ ''ltige Batterie-Zuordnung'')
      in case checked_assignments F (se_repr (ie_sup N)) (ig_manual st) (pr_save_ok rq) payload of
           Inr updated \<Rightarrow>
             send_reply rq (Json 200 (JObj [(''ok'', JBool True)]))
               (st\<lparr>ig_manual := RData (manual_json updated)\<rparr>)
         | Inl e \<Rightarrow>
             if e = OSError then send_reply rq (Json 500 refused) st
             else if e \<in> {KeyError, TypeError, ValueError, UnicodeError} then send_reply rq (Json 400 refused) st
             else (st, [], Inl e))"

definition do_POST ::
    "('f, 'x) float_ops_scheme \<Rightarrow> ('f, 't) ingress_env \<Rightarrow> 'u::linordered_idom page_request \<Rightarrow> 'f ingress \<Rightarrow> 'f handled" where
  "do_POST F N rq st =
     (if pr_client rq \<notin> set allowed_clients then send_reply rq (ErrorPage 403) st
      else case request_path N rq of
             None \<Rightarrow> (st, [], Inl ValueError)
           | Some path \<Rightarrow>
               (case read_json_body N rq st of
                  Inl done \<Rightarrow> done
                | Inr payload \<Rightarrow>
                    if ends_with path ''/api/config'' then post_config F N rq payload st
                    else if ends_with path ''/api/assignments'' then post_assignments F N rq payload st
                    else send_reply rq (ErrorPage 404) st))"

section \<open>The server's threads\<close>

text \<open>
  \<open>BoundedIngressServer\<close>: the free slots of its semaphore and the request threads that run. A request
  without a slot is answered with 503 and closed. A thread that cannot be started gives its slot back;
  releasing more than was acquired is the \<open>ValueError\<close> of a bounded semaphore.
\<close>

record pool =
  pl_max :: nat
  pl_free :: nat
  pl_active :: nat

datatype fate = Unavailable | Running | StartFails py_error

definition new_pool :: "nat \<Rightarrow> pool" where
  "new_pool n = \<lparr>pl_max = n, pl_free = n, pl_active = 0\<rparr>"

definition release_slot :: "pool \<Rightarrow> pool py" where
  "release_slot p =
     (if pl_free p < pl_max p then Inr (p\<lparr>pl_free := Suc (pl_free p)\<rparr>) else Inl ValueError)"

definition process_request :: "py_error option \<Rightarrow> pool \<Rightarrow> pool \<times> fate" where
  "process_request failure p =
     (if pl_free p = 0 then (p, Unavailable)
      else let acquired = p\<lparr>pl_free := pl_free p - 1\<rparr>
           in case failure of
                None \<Rightarrow> (acquired\<lparr>pl_active := Suc (pl_active acquired)\<rparr>, Running)
              | Some e \<Rightarrow>
                  (case release_slot acquired of
                     Inr p1 \<Rightarrow> (p1, StartFails e)
                   | Inl e1 \<Rightarrow> (acquired, StartFails e1)))"

definition process_request_thread :: "pool \<Rightarrow> pool py" where
  "process_request_thread p = release_slot (p\<lparr>pl_active := pl_active p - 1\<rparr>)"

inductive pool_step :: "pool \<Rightarrow> pool \<Rightarrow> bool" where
  request_comes: "process_request failure p = (p1, f) \<Longrightarrow> pool_step p p1"
| thread_ends: "0 < pl_active p \<Longrightarrow> process_request_thread p = Inr p1 \<Longrightarrow> pool_step p p1"

text \<open>Starting the service: the socket is closed again when its thread cannot be started.\<close>

datatype service = Serving pool | SocketClosed py_error | NotBound py_error

definition start_battery_ingress_server :: "py_error option \<Rightarrow> py_error option \<Rightarrow> service" where
  "start_battery_ingress_server bind_failure thread_failure =
     (case bind_failure of
        Some e \<Rightarrow> NotBound e
      | None \<Rightarrow>
          (case thread_failure of
             Some e \<Rightarrow> SocketClosed e
           | None \<Rightarrow> Serving (new_pool 8)))"

section \<open>A run of the service\<close>

datatype 't page_event = Gets "'t page_request" | Posts "'t page_request" | RestartRuns

definition run_restart :: "('f, 'x) float_ops_scheme \<Rightarrow> ('f, 't) ingress_env \<Rightarrow> 'f ingress \<Rightarrow> 'f ingress" where
  "run_restart F N st =
     (if ig_waiting st = 0 then st
      else st\<lparr>ig_waiting := ig_waiting st - 1, ig_calls := fst (restart_worker F (ie_sup N) (ig_calls st))\<rparr>)"

fun ingress_step ::
    "('f, 'x) float_ops_scheme \<Rightarrow> ('f, 't::linorder) ingress_env \<Rightarrow> 'f ingress \<Rightarrow>
      'u::linordered_idom page_event \<Rightarrow> 'f ingress" where
  "ingress_step F N st (Gets rq) = fst (do_GET F N rq st)"
| "ingress_step F N st (Posts rq) = fst (do_POST F N rq st)"
| "ingress_step F N st RestartRuns = run_restart F N st"

text \<open>The restarts asked for, and the saves of the options that the Supervisor accepted.\<close>

definition posts_to :: "string \<Rightarrow> 'f sup_log \<Rightarrow> nat" where
  "posts_to path calls = length (filter (\<lambda>(rq, ans). sq_method rq = ''POST'' \<and> sq_path rq = path) calls)"

definition accepted_saves :: "('f, 'x) float_ops_scheme \<Rightarrow> ('f, 't) sup_env \<Rightarrow> 'f sup_log \<Rightarrow> nat" where
  "accepted_saves F E calls =
     length (filter (\<lambda>(rq, ans). sq_method rq = ''POST'' \<and> sq_path rq = ''/addons/self/options'' \<and>
       \<not> isl (answer_value F E ans)) calls)"

definition restarts_owed :: "('f, 'x) float_ops_scheme \<Rightarrow> ('f, 't) ingress_env \<Rightarrow> 'f ingress \<Rightarrow> bool" where
  "restarts_owed F N st \<longleftrightarrow>
     ig_waiting st + posts_to ''/addons/self/restart'' (ig_calls st)
       \<le> accepted_saves F (ie_sup N) (ig_calls st)"

definition ingress_start ::
    "'f json_read \<Rightarrow> 'f json_read \<Rightarrow> 'f json_read \<Rightarrow> 'f inventory \<Rightarrow> 'f ingress" where
  "ingress_start positions manual detected devices =
     \<lparr>ig_calls = [], ig_waiting = 0, ig_positions = positions, ig_manual = manual,
      ig_detected = detected, ig_devices = devices\<rparr>"

section \<open>Lemmas\<close>

text \<open>A request counts where it is posted to, once; a save counts when its answer is a value.\<close>

lemma request_posts:
  "supervisor_request F E meth path payload calls = (calls', r) \<Longrightarrow>
   posts_to q calls' = posts_to q calls + (if isl (sup_token E) then 0 else if meth = ''POST'' \<and> path = q then 1 else 0) \<and>
   accepted_saves F E calls' = accepted_saves F E calls +
     (if meth = ''POST'' \<and> path = ''/addons/self/options'' \<and> \<not> isl r then 1 else 0)"
  by (auto simp: posts_to_def accepted_saves_def supervisor_request_def Let_def split: sum.splits)

lemma request_gets:
  "supervisor_request F E ''GET'' path payload calls = (calls', r) \<Longrightarrow>
   posts_to q calls' = posts_to q calls \<and> accepted_saves F E calls' = accepted_saves F E calls"
  by (auto dest: request_posts [where q = q])

lemma text_request_posts:
  "supervisor_text_request E path calls = (calls', r) \<Longrightarrow>
   posts_to q calls' = posts_to q calls \<and> accepted_saves F E calls' = accepted_saves F E calls"
  by (auto simp: posts_to_def accepted_saves_def supervisor_text_request_def Let_def split: sum.splits)

lemma addon_info_posts:
  "addon_info F E calls = (calls', r) \<Longrightarrow>
   posts_to q calls' = posts_to q calls \<and> accepted_saves F E calls' = accepted_saves F E calls"
  by (auto simp: addon_info_def split: prod.splits sum.splits dest: request_gets [where q = q])

lemma language_posts:
  "get_home_assistant_language F E d calls = (calls', r) \<Longrightarrow>
   posts_to q calls' = posts_to q calls \<and> accepted_saves F E calls' = accepted_saves F E calls"
  by (auto simp: get_home_assistant_language_def split: prod.splits sum.splits sup_error.splits
      dest: request_gets [where q = q])

lemma options_posts:
  "get_addon_options F E calls = (calls', r) \<Longrightarrow>
   posts_to q calls' = posts_to q calls \<and> accepted_saves F E calls' = accepted_saves F E calls"
  by (auto simp: get_addon_options_def Let_def split: prod.splits sum.splits
      dest!: addon_info_posts [where q = q] language_posts [where q = q])

lemma logs_posts:
  "get_current_process_logs E calls = (calls', r) \<Longrightarrow>
   posts_to q calls' = posts_to q calls \<and> accepted_saves F E calls' = accepted_saves F E calls"
  by (auto simp: get_current_process_logs_def Let_def split: prod.splits sum.splits option.splits
      dest!: text_request_posts [where q = q and F = F])

lemma save_posts:
  assumes "save_addon_options F E raw calls = (calls', r)"
  shows "posts_to ''/addons/self/restart'' calls' = posts_to ''/addons/self/restart'' calls \<and>
    accepted_saves F E calls' = accepted_saves F E calls + (if isl r then 0 else 1)"
proof (cases "normalize_options F (se_repr E) raw")
  case (Inl e)
  with assms have "calls' = calls" "r = Inl e" by (simp_all add: save_addon_options_def)
  then show ?thesis by simp
next
  case (Inr changes)
  show ?thesis
  proof (cases "addon_info F E calls")
    case (Pair calls1 r1)
    note info = addon_info_posts [OF Pair, of "''/addons/self/restart''"]
    show ?thesis
    proof (cases r1)
      case (Inl e)
      with assms Inr Pair info show ?thesis by (auto simp: save_addon_options_def)
    next
      case r1: (Inr got)
      then show ?thesis
        using assms Inr Pair info
        by (auto simp: save_addon_options_def Let_def split: prod.splits sum.splits
            dest!: request_posts [where q = "''/addons/self/restart''"])
    qed
  qed
qed

lemma send_reply_state [simp]: "fst (send_reply rq r st) = st"
  by (simp add: send_reply_def)

lemma send_reply_keeps: "send_reply rq r st = (st', sent, e) \<Longrightarrow> st' = st"
  by (auto simp: send_reply_def split: if_splits)

lemma get_keeps:
  "posts_to q (ig_calls (fst (do_GET F N rq st))) = posts_to q (ig_calls st) \<and>
   accepted_saves F (ie_sup N) (ig_calls (fst (do_GET F N rq st))) = accepted_saves F (ie_sup N) (ig_calls st) \<and>
   ig_waiting (fst (do_GET F N rq st)) = ig_waiting st"
  by (auto simp: do_GET_def split: option.splits sum.splits prod.splits sup_error.splits
      dest!: options_posts [where q = q] logs_posts [where q = q and F = F])

lemma read_json_body_keeps: "read_json_body N rq st = Inl done \<Longrightarrow> fst done = st"
  by (auto simp: read_json_body_def Let_def split: option.splits sum.splits if_splits
      stream_error.splits parsed.splits json.splits)

lemma post_assignments_keeps:
  "ig_calls (fst (post_assignments F N rq payload st)) = ig_calls st"
  "ig_waiting (fst (post_assignments F N rq payload st)) = ig_waiting st"
  by (auto simp: post_assignments_def Let_def split: sum.splits)

lemma restart_worker_posts:
  assumes "restart_worker F E calls = (calls', r)"
  shows "accepted_saves F E calls' = accepted_saves F E calls \<and>
    posts_to ''/addons/self/restart'' calls' \<le> Suc (posts_to ''/addons/self/restart'' calls)"
proof -
  obtain r1 where "supervisor_request F E ''POST'' ''/addons/self/restart'' (Some (JObj [])) calls = (calls', r1)"
    using assms by (auto simp: restart_worker_def split: prod.splits sum.splits sup_error.splits)
  from request_posts [OF this, of "''/addons/self/restart''"] show ?thesis by auto
qed

lemma post_config_owed:
  assumes "restarts_owed F N st"
  shows "restarts_owed F N (fst (post_config F N rq payload st))"
proof (cases "dict_get payload ''options''")
  case (Some v)
  show ?thesis
  proof (cases v)
    case (JObj options)
    obtain calls r where save: "save_addon_options F (ie_sup N) (JObj options) (ig_calls st) = (calls, r)"
      by fastforce
    note posts = save_posts [OF save]
    show ?thesis
    proof (cases r)
      case (Inl e)
      with Some JObj save posts assms show ?thesis
        by (auto simp: post_config_def restarts_owed_def split: sup_error.splits)
    next
      case (Inr merged)
      let ?st = "st\<lparr>ig_calls := calls\<rparr>"
      have slack: "Suc (ig_waiting ?st + posts_to ''/addons/self/restart'' (ig_calls ?st))
          \<le> accepted_saves F (ie_sup N) (ig_calls ?st)"
        using posts Inr assms by (simp add: restarts_owed_def)
      obtain calls2 r2 where work: "restart_worker F (ie_sup N) calls = (calls2, r2)" by fastforce
      show ?thesis
        using Some JObj save Inr slack work restart_worker_posts [OF work]
        by (auto simp: post_config_def restarts_owed_def send_reply_def schedule_restart_def)
    qed
  qed (use Some assms in \<open>simp_all add: post_config_def\<close>)
qed (use assms in \<open>simp add: post_config_def\<close>)

lemma post_owed:
  assumes "restarts_owed F N st"
  shows "restarts_owed F N (fst (do_POST F N rq st))"
proof -
  have "restarts_owed F N (fst (post_assignments F N rq payload st))" for payload
    using assms by (simp add: restarts_owed_def post_assignments_keeps)
  then show ?thesis
    using assms post_config_owed [OF assms, of rq] read_json_body_keeps [of N rq st]
    by (auto simp: do_POST_def split: option.splits sum.splits)
qed

lemma restart_owed:
  assumes "restarts_owed F N st"
  shows "restarts_owed F N (run_restart F N st)"
proof -
  obtain calls2 r2 where work: "restart_worker F (ie_sup N) (ig_calls st) = (calls2, r2)" by fastforce
  from assms work restart_worker_posts [OF work] show ?thesis
    by (auto simp: run_restart_def restarts_owed_def)
qed

interpretation restarts: step_machine "ingress_step F N" "restarts_owed F N" for F N
proof (unfold_locales, goal_cases)
  case (1 st ev)
  then show ?case
    by (cases ev) (simp_all add: post_owed restart_owed, simp add: restarts_owed_def get_keeps)
qed

section \<open>Properties\<close>

text \<open>C12: Over any sequence of page requests and restart workers, every restart of the add-on that has been asked
  for or is waiting stands for a save of the options that the Supervisor accepted: reading requests,
  refused or failed saves and lost replies never cause one.\<close>

theorem restarts_follow_saves:
  "restarts_owed F N (foldl (ingress_step F N) (ingress_start positions manual detected devices) events)"
  by (rule restarts.run_inv) (simp add: restarts_owed_def ingress_start_def posts_to_def)

inductive_cases pool_stepE: "pool_step p p1"

definition pool_ok :: "nat \<Rightarrow> pool \<Rightarrow> bool" where
  "pool_ok n p \<longleftrightarrow> pl_max p = n \<and> pl_free p + pl_active p = n"

lemma pool_step_ok: "pool_step p p1 \<Longrightarrow> pool_ok n p \<Longrightarrow> pool_ok n p1"
  by (elim pool_stepE)
    (auto simp: pool_ok_def process_request_def process_request_thread_def release_slot_def Let_def
      split: if_splits option.splits)

lemma pool_reachable_ok: "pool_step\<^sup>*\<^sup>* (new_pool n) p \<Longrightarrow> pool_ok n p"
proof (induction rule: rtranclp_induct)
  case base
  show ?case by (simp add: pool_ok_def new_pool_def)
qed (rule pool_step_ok)

text \<open>C26: However requests come, fail to start and end, a server with n slots never runs more than n of them,
  refuses one exactly when n are running, and neither the end of a request nor a thread that cannot be
  started ever releases a slot that was not taken.\<close>

theorem request_threads_bounded:
  assumes "pool_step\<^sup>*\<^sup>* (new_pool n) p"
  shows "pl_active p \<le> n \<and>
    (snd (process_request failure p) = Unavailable \<longleftrightarrow> pl_active p = n) \<and>
    (case failure of
       Some e \<Rightarrow> fst (process_request failure p) = p \<and> snd (process_request failure p) \<in> {Unavailable, StartFails e}
     | None \<Rightarrow> pl_active (fst (process_request failure p)) = min n (Suc (pl_active p))) \<and>
    (if 0 < pl_active p then process_request_thread p = Inr (p\<lparr>pl_active := pl_active p - 1, pl_free := Suc (pl_free p)\<rparr>)
     else pl_free p = n)"
  using pool_reachable_ok [OF assms]
  by (auto simp: pool_ok_def process_request_def process_request_thread_def release_slot_def Let_def
      split: option.splits)

theorem request_threads_bounded_witness:
  "\<exists>p. pool_step\<^sup>*\<^sup>* (new_pool 1) p \<and> snd (process_request None p) = Unavailable"
proof -
  let ?p = "\<lparr>pl_max = 1, pl_free = 0, pl_active = 1\<rparr>"
  have "process_request None (new_pool 1) = (?p, Running)" by code_simp
  then have r: "pool_step\<^sup>*\<^sup>* (new_pool 1) ?p" by (intro r_into_rtranclp request_comes)
  with request_threads_bounded [OF r, of None] show ?thesis by auto
qed

lemma positions_readable: "\<exists>automatic. load_all_positions F False r = Inr automatic"
  by (cases r) (auto simp: load_all_positions_def json_object_def split: json.splits)

text \<open>What an accepted assignment stored.\<close>

lemma checked_assignments_Inr:
  assumes "checked_assignments F rp on_disk save_ok payload = Inr updated"
  obtains d assignments where "dict_get payload ''device_id'' = Some d"
    "dict_get payload ''assignments'' = Some (JObj assignments)"
    "save_manual_assignments F rp on_disk True (py_strip (json_str F rp d)) assignments = Inr updated"
proof -
  from assms obtain d assignments where d: "dict_get payload ''device_id'' = Some d"
    "dict_get payload ''assignments'' = Some (JObj assignments)"
    and saved: "save_manual_assignments F rp on_disk save_ok (py_strip (json_str F rp d)) assignments = Inr updated"
    by (auto simp: checked_assignments_def split: option.splits json.splits if_splits)
  from saved have "save_ok"
    by (auto simp: save_manual_assignments_def Let_def bindE_Inr_iff split: if_splits option.splits)
  with d saved that show thesis by simp
qed

text \<open>An assignment the page was told is saved is what the page shows from then on: the device has exactly the
  choices that were sent for its three slots, automatic where none was, and it is listed as soon as one of
  them is not automatic.\<close>

theorem assignments_shown:
  assumes "post_assignments F N rq payload st = (st', [Json 200 j], r)"
  shows "case (dict_get payload ''device_id'', dict_get payload ''assignments'',
      battery_ui_devices F (se_repr (ie_sup N)) (ig_positions st') (ig_manual st') (ig_detected st')) of
    (Some d, Some (JObj assignments), Inr devices) \<Rightarrow>
      (let device = py_strip (json_str F (se_repr (ie_sup N)) d);
           choices = map (\<lambda>slot. (slot, manual_choice F (se_repr (ie_sup N)) assignments slot)) tracked_slots
       in list_all (\<lambda>u. if ui_device u = device
              then ui_manual u = map (\<lambda>(slot, v). (str_of_int slot, v)) choices else True) devices \<and>
          (if list_all (\<lambda>(slot, v). v = auto_assignment) choices then True
           else list_ex (\<lambda>u. ui_device u = device) devices))
  | _ \<Rightarrow> False"
proof -
  let ?rp = "se_repr (ie_sup N)"
  obtain updated where up: "checked_assignments F ?rp (ig_manual st) (pr_save_ok rq) payload = Inr updated"
    and st': "ig_positions st' = ig_positions st" "ig_detected st' = ig_detected st"
      "ig_manual st' = RData (manual_json updated)"
    using assms by (auto simp: post_assignments_def Let_def send_reply_def split: sum.splits if_splits)
  obtain d assignments where d: "dict_get payload ''device_id'' = Some d"
    "dict_get payload ''assignments'' = Some (JObj assignments)"
    and saved: "save_manual_assignments F ?rp (ig_manual st) True (py_strip (json_str F ?rp d)) assignments = Inr updated"
    using checked_assignments_Inr [OF up] .
  let ?d = "py_strip (json_str F ?rp d)" and ?c = "manual_choice F ?rp assignments"
  have load: "load_manual_positions F ?rp False (RData (manual_json updated)) = Inr updated"
    and entry: "dict_get updated ?d = (if \<forall>slot \<in> set tracked_slots. ?c slot = auto_assignment then None
       else Some (map (\<lambda>slot. (slot, ?c slot)) tracked_slots))"
    using manual_assignments_saved [OF saved, of False] by (simp_all add: py_strip_def)
  obtain automatic where auto: "load_all_positions F False (ig_positions st) = Inr automatic"
    using positions_readable by blast
  have shown: "map (\<lambda>slot. (str_of_int slot,
      case dict_get (device_assignments updated ?d) slot of Some v \<Rightarrow> v | None \<Rightarrow> auto_assignment)) tracked_slots
    = map (\<lambda>slot. (str_of_int slot, ?c slot)) tracked_slots"
    using entry by (auto simp: device_assignments_def tracked_slots_def)
  have listed: "?d \<in> fst ` set updated" if "\<not> (\<forall>slot \<in> set tracked_slots. ?c slot = auto_assignment)"
    using entry that map_of_eq_None_iff [of updated ?d] by (simp split: if_splits)
  show ?thesis
    using d st' load auto shown listed
    by (auto simp: battery_ui_devices_def Let_def list_all_iff list_ex_iff comp_def)
qed

definition sample_page_env :: "(int, int) ingress_env" where
  "sample_page_env = \<lparr>ie_sup = sample_supervisor, ie_keep = None, ie_netloc = (\<lambda>s. True)\<rparr>"

definition sample_assignment :: "int page_request" where
  "sample_assignment =
     \<lparr>pr_client = ''127.0.0.1'', pr_target = ''/api/assignments'', pr_length = Some ''2'', pr_stream = sample_stream,
      pr_write_ok = True, pr_thread_ok = True, pr_save_ok = True\<rparr>"

definition sample_choices :: "(string \<times> int json) list" where
  "sample_choices =
     [(''device_id'', JStr ''QMN1''), (''assignments'', JObj [(''3'', JStr ''PACKAAAA''), (''4'', JStr ''__empty__'')])]"

theorem assignments_shown_witness:
  "\<exists>st'. post_assignments whole_floats sample_page_env sample_assignment sample_choices
       (ingress_start RMissing RMissing RMissing []) = (st', [Json 200 (JObj [(''ok'', JBool True)])], Inr ()) \<and>
     (case battery_ui_devices whole_floats no_repr RMissing (ig_manual st') RMissing of
        Inr devices \<Rightarrow> list_ex (\<lambda>u. ui_device u = ''QMN1'') devices
      | Inl e \<Rightarrow> False)"
proof -
  let ?run = "post_assignments whole_floats sample_page_env sample_assignment sample_choices
       (ingress_start RMissing RMissing RMissing [])"
  have run: "?run = (fst ?run, [Json 200 (JObj [(''ok'', JBool True)])], Inr ())" by code_simp
  have st: "ig_positions (fst ?run) = RMissing" "ig_detected (fst ?run) = RMissing"
    by (simp_all add: post_assignments_def ingress_start_def Let_def split: sum.splits)
  have env: "se_repr (ie_sup sample_page_env) = no_repr"
    by (simp add: sample_page_env_def sample_supervisor_def)
  let ?choices = "[(''3'', JStr ''PACKAAAA''), (''4'', JStr ''__empty__'')] :: (string \<times> int json) list"
  have keys: "dict_get sample_choices ''device_id'' = Some (JStr ''QMN1'')"
    "dict_get sample_choices ''assignments'' = Some (JObj ?choices)"
    by (simp_all add: sample_choices_def)
  have c: "py_strip (json_str whole_floats no_repr (JStr ''QMN1'')) = ''QMN1''"
    "\<not> list_all (\<lambda>(slot, v). v = auto_assignment)
       (map (\<lambda>slot. (slot, manual_choice whole_floats no_repr ?choices slot)) tracked_slots)"
    by code_simp+
  have "case battery_ui_devices whole_floats no_repr RMissing (ig_manual (fst ?run)) RMissing of
        Inr devices \<Rightarrow> list_ex (\<lambda>u. ui_device u = ''QMN1'') devices
      | Inl e \<Rightarrow> False"
    using assignments_shown [OF run, unfolded keys st env] c(2) by (auto simp: Let_def c(1) split: sum.splits)
  with run show ?thesis by blast
qed

text \<open>A save whose reply cannot be written leaves the new options stored and the add-on running with the old
  ones: no restart is scheduled, although the options were accepted.\<close>

theorem lost_reply_no_restart:
  assumes "save_addon_options F (ie_sup N) (JObj options) (ig_calls st) = (calls, Inr merged)"
    and "dict_get payload ''options'' = Some (JObj options)" and "\<not> pr_write_ok rq"
  shows "post_config F N rq payload st = (st\<lparr>ig_calls := calls\<rparr>, [], Inl OSError) \<and>
    accepted_saves F (ie_sup N) calls = Suc (accepted_saves F (ie_sup N) (ig_calls st))"
  using assms save_posts [OF assms(1)] by (simp add: post_config_def send_reply_def)

text \<open>A client outside the list gets the error page and reaches nothing.\<close>

lemma untrusted_refused:
  "pr_client rq \<notin> set allowed_clients \<Longrightarrow>
   do_GET F N rq st = send_reply rq (ErrorPage 403) st \<and> do_POST F N rq st = send_reply rq (ErrorPage 403) st"
  by (simp add: do_GET_def do_POST_def)

end
