(* ===== verification/LocalizationTables.thy ===== *)
theory LocalizationTables
  imports Prelude
begin

text \<open>
  The translation tables of \<open>grobro/ha/localization.py\<close>: exact names, phrases, words and idiomatic names of
  the four languages other than English. Letters beyond ASCII are the bytes of their UTF-8 form.
\<close>

section \<open>Tables\<close>

definition exact_de :: "(string, string) dict" where
  "exact_de =
     [(''Restart Datalogger'', ''Datenlogger neu starten''), (''Sync Time'', ''Zeit synchronisieren''),
      (''Read All Values'', ''Alle Werte lesen''), (''Firmware Version'', ''Firmware-Version''),
      (''Device SN'', ''Ger'' @ [CHR 0xC3, CHR 0xA4] @ ''te-Seriennummer''),
      (''Device Type'', ''Ger'' @ [CHR 0xC3, CHR 0xA4] @ ''tetyp''), (''Online'', ''Online''),
      (''Grid frequency'', ''Netzfrequenz''), (''Output power'', ''Ausgangsleistung''),
      (''Output Power Limit'', ''Ausgangsleistungsgrenze''), (''Inverter Power'', ''Wechselrichterleistung''),
      (''Inverter temperature'', ''Wechselrichtertemperatur''), (''Boost temperature'', ''Boost-Temperatur''),
      (''PV total power'', ''PV-Gesamtleistung''), (''Battery power'', ''Batterieleistung''),
      (''Battery voltage'', ''Batteriespannung''), (''Battery current'', ''Batteriestrom''),
      (''Wi-Fi Signal Strength'', ''WLAN-Signalst'' @ [CHR 0xC3, CHR 0xA4] @ ''rke''),
      (''Update Interval'', ''Aktualisierungsintervall''), (''System Time'', ''Systemzeit''),
      (''Time Zone'', ''Zeitzone''), (''MQTT Broker'', ''MQTT-Broker''), (''MQTT Port'', ''MQTT-Port''),
      (''MQTT IP'', ''MQTT-IP''), (''DNS Server'', ''DNS-Server''), (''Charge Limit'', ''Ladegrenze''),
      (''Discharge Limit'', ''Entladegrenze''), (''Default Out Power'', ''Standard-Ausgangsleistung''),
      (''Work Mode'', ''Betriebsmodus''), (''Priority Mode'', ''Priorit'' @ [CHR 0xC3, CHR 0xA4] @ ''tsmodus'')]"

definition exact_fr :: "(string, string) dict" where
  "exact_fr =
     [(''Restart Datalogger'', ''Red'' @ [CHR 0xC3, CHR 0xA9] @ ''marrer l'' @ [CHR 0x27] @ ''enregistreur''),
      (''Sync Time'', ''Synchroniser l'' @ [CHR 0x27] @ ''heure''),
      (''Read All Values'', ''Lire toutes les valeurs''), (''Firmware Version'', ''Version du firmware''),
      (''Device SN'', ''Num'' @ [CHR 0xC3, CHR 0xA9] @ ''ro de s'' @ [CHR 0xC3, CHR 0xA9] @ ''rie de l'' @ [CHR 0x27] @ ''appareil''),
      (''Device Type'', ''Type d'' @ [CHR 0x27] @ ''appareil''), (''Online'', ''En ligne''),
      (''Grid frequency'', ''Fr'' @ [CHR 0xC3, CHR 0xA9] @ ''quence du r'' @ [CHR 0xC3, CHR 0xA9] @ ''seau''),
      (''Output power'', ''Puissance de sortie''), (''Output Power Limit'', ''Limite de puissance de sortie''),
      (''Inverter Power'', ''Puissance de l'' @ [CHR 0x27] @ ''onduleur''),
      (''Inverter temperature'', ''Temp'' @ [CHR 0xC3, CHR 0xA9] @ ''rature de l'' @ [CHR 0x27] @ ''onduleur''),
      (''Boost temperature'', ''Temp'' @ [CHR 0xC3, CHR 0xA9] @ ''rature boost''),
      (''PV total power'', ''Puissance PV totale''), (''Battery power'', ''Puissance batterie''),
      (''Battery voltage'', ''Tension batterie''), (''Battery current'', ''Courant batterie''),
      (''Wi-Fi Signal Strength'', ''Force du signal Wi-Fi''),
      (''Update Interval'', ''Intervalle de mise '' @ [CHR 0xC3, CHR 0xA0] @ '' jour''),
      (''System Time'', ''Heure syst'' @ [CHR 0xC3, CHR 0xA8] @ ''me''), (''Time Zone'', ''Fuseau horaire''),
      (''MQTT Broker'', ''Courtier MQTT''), (''MQTT Port'', ''Port MQTT''), (''MQTT IP'', ''IP MQTT''),
      (''DNS Server'', ''Serveur DNS''), (''Charge Limit'', ''Limite de charge''),
      (''Discharge Limit'', ''Limite de d'' @ [CHR 0xC3, CHR 0xA9] @ ''charge''),
      (''Default Out Power'', ''Puissance de sortie par d'' @ [CHR 0xC3, CHR 0xA9] @ ''faut''),
      (''Work Mode'', ''Mode de fonctionnement''), (''Priority Mode'', ''Mode de priorit'' @ [CHR 0xC3, CHR 0xA9])]"

definition exact_es :: "(string, string) dict" where
  "exact_es =
     [(''Restart Datalogger'', ''Reiniciar registrador''), (''Sync Time'', ''Sincronizar hora''),
      (''Read All Values'', ''Leer todos los valores''),
      (''Firmware Version'', ''Versi'' @ [CHR 0xC3, CHR 0xB3] @ ''n de firmware''),
      (''Device SN'', ''N'' @ [CHR 0xC3, CHR 0xBA] @ ''mero de serie del dispositivo''),
      (''Device Type'', ''Tipo de dispositivo''), (''Online'', ''En l'' @ [CHR 0xC3, CHR 0xAD] @ ''nea''),
      (''Grid frequency'', ''Frecuencia de red''), (''Output power'', ''Potencia de salida''),
      (''Output Power Limit'', ''L'' @ [CHR 0xC3, CHR 0xAD] @ ''mite de potencia de salida''),
      (''Inverter Power'', ''Potencia del inversor''), (''Inverter temperature'', ''Temperatura del inversor''),
      (''Boost temperature'', ''Temperatura boost''), (''PV total power'', ''Potencia FV total''),
      (''Battery power'', ''Potencia de bater'' @ [CHR 0xC3, CHR 0xAD] @ ''a''),
      (''Battery voltage'', ''Tensi'' @ [CHR 0xC3, CHR 0xB3] @ ''n de bater'' @ [CHR 0xC3, CHR 0xAD] @ ''a''),
      (''Battery current'', ''Corriente de bater'' @ [CHR 0xC3, CHR 0xAD] @ ''a''),
      (''Wi-Fi Signal Strength'', ''Intensidad de se'' @ [CHR 0xC3, CHR 0xB1] @ ''al Wi-Fi''),
      (''Update Interval'', ''Intervalo de actualizaci'' @ [CHR 0xC3, CHR 0xB3] @ ''n''),
      (''System Time'', ''Hora del sistema''), (''Time Zone'', ''Zona horaria''), (''MQTT Broker'', ''Broker MQTT''),
      (''MQTT Port'', ''Puerto MQTT''), (''MQTT IP'', ''IP MQTT''), (''DNS Server'', ''Servidor DNS''),
      (''Charge Limit'', ''L'' @ [CHR 0xC3, CHR 0xAD] @ ''mite de carga''),
      (''Discharge Limit'', ''L'' @ [CHR 0xC3, CHR 0xAD] @ ''mite de descarga''),
      (''Default Out Power'', ''Potencia de salida predeterminada''), (''Work Mode'', ''Modo de trabajo''),
      (''Priority Mode'', ''Modo de prioridad'')]"

definition exact_nl :: "(string, string) dict" where
  "exact_nl =
     [(''Restart Datalogger'', ''Datalogger herstarten''), (''Sync Time'', ''Tijd synchroniseren''),
      (''Read All Values'', ''Alle waarden lezen''), (''Firmware Version'', ''Firmwareversie''),
      (''Device SN'', ''Serienummer apparaat''), (''Device Type'', ''Apparaattype''), (''Online'', ''Online''),
      (''Grid frequency'', ''Netfrequentie''), (''Output power'', ''Uitgangsvermogen''),
      (''Output Power Limit'', ''Limiet uitgangsvermogen''), (''Inverter Power'', ''Omvormervermogen''),
      (''Inverter temperature'', ''Omvormertemperatuur''), (''Boost temperature'', ''Boosttemperatuur''),
      (''PV total power'', ''Totaal PV-vermogen''), (''Battery power'', ''Batterijvermogen''),
      (''Battery voltage'', ''Batterijspanning''), (''Battery current'', ''Batterijstroom''),
      (''Wi-Fi Signal Strength'', ''Wi-Fi-signaalsterkte''), (''Update Interval'', ''Update-interval''),
      (''System Time'', ''Systeemtijd''), (''Time Zone'', ''Tijdzone''), (''MQTT Broker'', ''MQTT-broker''),
      (''MQTT Port'', ''MQTT-poort''), (''MQTT IP'', ''MQTT-IP''), (''DNS Server'', ''DNS-server''),
      (''Charge Limit'', ''Laadlimiet''), (''Discharge Limit'', ''Ontlaadlimiet''),
      (''Default Out Power'', ''Standaard uitgangsvermogen''), (''Work Mode'', ''Werkmodus''),
      (''Priority Mode'', ''Prioriteitsmodus'')]"

definition phrases_de :: "(string, string) dict" where
  "phrases_de =
     [(''battery discharge'', ''Batterieentladung''), (''battery charge'', ''Batterieladung''),
      (''grid import'', ''Netzbezug''), (''grid export'', ''Netzeinspeisung''),
      (''input voltage'', ''Eingangsspannung''), (''output voltage'', ''Ausgangsspannung''),
      (''input current'', ''Eingangsstrom''), (''output current'', ''Ausgangsstrom''),
      (''input power'', ''Eingangsleistung''), (''output power'', ''Ausgangsleistung''),
      (''apparent power'', ''Scheinleistung''), (''active power'', ''Wirkleistung''),
      (''energy today'', ''Energie heute''), (''energy total'', ''Gesamtenergie''),
      (''state of health'', ''Gesundheitszustand''), (''state of charge'', ''Ladezustand''),
      (''serial part'', ''Seriennummer Teil''), (''start time'', ''Startzeit''), (''end time'', ''Endzeit''),
      (''fault code'', ''Fehlercode''), (''warning code'', ''Warncode''), (''system status'', ''Systemstatus'')]"

definition phrases_fr :: "(string, string) dict" where
  "phrases_fr =
     [(''battery discharge'', ''d'' @ [CHR 0xC3, CHR 0xA9] @ ''charge batterie''),
      (''battery charge'', ''charge batterie''), (''grid import'', ''import r'' @ [CHR 0xC3, CHR 0xA9] @ ''seau''),
      (''grid export'', ''injection r'' @ [CHR 0xC3, CHR 0xA9] @ ''seau''),
      (''input voltage'', ''tension d'' @ [CHR 0x27] @ ''entr'' @ [CHR 0xC3, CHR 0xA9] @ ''e''),
      (''output voltage'', ''tension de sortie''),
      (''input current'', ''courant d'' @ [CHR 0x27] @ ''entr'' @ [CHR 0xC3, CHR 0xA9] @ ''e''),
      (''output current'', ''courant de sortie''),
      (''input power'', ''puissance d'' @ [CHR 0x27] @ ''entr'' @ [CHR 0xC3, CHR 0xA9] @ ''e''),
      (''output power'', ''puissance de sortie''), (''apparent power'', ''puissance apparente''),
      (''active power'', ''puissance active''),
      (''energy today'', [CHR 0xC3, CHR 0xA9] @ ''nergie aujourd'' @ [CHR 0x27] @ ''hui''),
      (''energy total'', [CHR 0xC3, CHR 0xA9] @ ''nergie totale''),
      (''state of health'', [CHR 0xC3, CHR 0xA9] @ ''tat de sant'' @ [CHR 0xC3, CHR 0xA9]),
      (''state of charge'', [CHR 0xC3, CHR 0xA9] @ ''tat de charge''),
      (''serial part'', ''partie du num'' @ [CHR 0xC3, CHR 0xA9] @ ''ro de s'' @ [CHR 0xC3, CHR 0xA9] @ ''rie''),
      (''start time'', ''heure de d'' @ [CHR 0xC3, CHR 0xA9] @ ''but''), (''end time'', ''heure de fin''),
      (''fault code'', ''code de d'' @ [CHR 0xC3, CHR 0xA9] @ ''faut''),
      (''warning code'', ''code d'' @ [CHR 0x27] @ ''avertissement''),
      (''system status'', [CHR 0xC3, CHR 0xA9] @ ''tat syst'' @ [CHR 0xC3, CHR 0xA8] @ ''me'')]"

definition phrases_es :: "(string, string) dict" where
  "phrases_es =
     [(''battery discharge'', ''descarga de bater'' @ [CHR 0xC3, CHR 0xAD] @ ''a''),
      (''battery charge'', ''carga de bater'' @ [CHR 0xC3, CHR 0xAD] @ ''a''),
      (''grid import'', ''importaci'' @ [CHR 0xC3, CHR 0xB3] @ ''n de red''),
      (''grid export'', ''exportaci'' @ [CHR 0xC3, CHR 0xB3] @ ''n a red''),
      (''input voltage'', ''tensi'' @ [CHR 0xC3, CHR 0xB3] @ ''n de entrada''),
      (''output voltage'', ''tensi'' @ [CHR 0xC3, CHR 0xB3] @ ''n de salida''),
      (''input current'', ''corriente de entrada''), (''output current'', ''corriente de salida''),
      (''input power'', ''potencia de entrada''), (''output power'', ''potencia de salida''),
      (''apparent power'', ''potencia aparente''), (''active power'', ''potencia activa''),
      (''energy today'', ''energ'' @ [CHR 0xC3, CHR 0xAD] @ ''a de hoy''),
      (''energy total'', ''energ'' @ [CHR 0xC3, CHR 0xAD] @ ''a total''), (''state of health'', ''estado de salud''),
      (''state of charge'', ''estado de carga''),
      (''serial part'', ''parte del n'' @ [CHR 0xC3, CHR 0xBA] @ ''mero de serie''),
      (''start time'', ''hora de inicio''), (''end time'', ''hora de fin''),
      (''fault code'', ''c'' @ [CHR 0xC3, CHR 0xB3] @ ''digo de fallo''),
      (''warning code'', ''c'' @ [CHR 0xC3, CHR 0xB3] @ ''digo de aviso''),
      (''system status'', ''estado del sistema'')]"

definition phrases_nl :: "(string, string) dict" where
  "phrases_nl =
     [(''battery discharge'', ''batterijontlading''), (''battery charge'', ''batterijlading''),
      (''grid import'', ''netafname''), (''grid export'', ''teruglevering''),
      (''input voltage'', ''ingangsspanning''), (''output voltage'', ''uitgangsspanning''),
      (''input current'', ''ingangsstroom''), (''output current'', ''uitgangsstroom''),
      (''input power'', ''ingangsvermogen''), (''output power'', ''uitgangsvermogen''),
      (''apparent power'', ''schijnbaar vermogen''), (''active power'', ''actief vermogen''),
      (''energy today'', ''energie vandaag''), (''energy total'', ''totale energie''),
      (''state of health'', ''gezondheidstoestand''), (''state of charge'', ''laadtoestand''),
      (''serial part'', ''serienummer deel''), (''start time'', ''starttijd''), (''end time'', ''eindtijd''),
      (''fault code'', ''foutcode''), (''warning code'', ''waarschuwingscode''),
      (''system status'', ''systeemstatus'')]"

definition words_de :: "(string, string) dict" where
  "words_de =
     [(''battery'', ''Batterie''), (''temperature'', ''Temperatur''), (''temp'', ''Temperatur''),
      (''power'', ''Leistung''), (''voltage'', ''Spannung''), (''current'', ''Strom''), (''energy'', ''Energie''),
      (''today'', ''heute''), (''total'', ''gesamt''), (''input'', ''Eingang''), (''output'', ''Ausgang''),
      (''grid'', ''Netz''), (''charge'', ''Laden''), (''charging'', ''Laden''), (''discharge'', ''Entladen''),
      (''charged'', ''geladen''), (''discharged'', ''entladen''), (''load'', ''Last''),
      (''frequency'', ''Frequenz''), (''status'', ''Status''), (''state'', ''Zustand''), (''system'', ''System''),
      (''work'', ''Betrieb''), (''mode'', ''Modus''), (''enabled'', ''aktiviert''), (''start'', ''Start''),
      (''end'', ''Ende''), (''time'', ''Zeit''), (''limit'', ''Grenze''), (''default'', ''Standard''),
      (''smart'', ''Smart''), (''priority'', ''Priorit'' @ [CHR 0xC3, CHR 0xA4] @ ''t''), (''fault'', ''Fehler''),
      (''warning'', ''Warnung''), (''code'', ''Code''), (''cycle'', ''Zyklus''), (''count'', ''Anzahl''),
      (''health'', ''Gesundheit''), (''signal'', ''Signal''),
      (''strength'', ''St'' @ [CHR 0xC3, CHR 0xA4] @ ''rke''), (''serial'', ''Seriennummer''), (''part'', ''Teil''),
      (''device'', ''Ger'' @ [CHR 0xC3, CHR 0xA4] @ ''t''), (''type'', ''Typ''), (''firmware'', ''Firmware''),
      (''version'', ''Version''), (''reserved'', ''Reserviert''), (''household'', ''Haushalt''),
      (''consumption'', ''Verbrauch''), (''allowed'', ''Erlaubt''), (''operating'', ''Betrieb''),
      (''capacity'', ''Kapazit'' @ [CHR 0xC3, CHR 0xA4] @ ''t''), (''communication'', ''Kommunikation''),
      (''from'', ''von''), (''inside'', ''intern''), (''phase'', ''Phase''),
      (''forward'', ''Vorw'' @ [CHR 0xC3, CHR 0xA4] @ ''rts''),
      (''reverse'', ''R'' @ [CHR 0xC3, CHR 0xBC] @ ''ckw'' @ [CHR 0xC3, CHR 0xA4] @ ''rts''),
      (''generate'', ''Erzeugung''), (''storage'', ''Speicher''), (''storge'', ''Speicher''),
      (''maximum'', ''Maximum''), (''max'', ''Max.''), (''minimum'', ''Minimum''), (''min'', ''Min.''),
      (''cell'', ''Zelle''), (''heater'', ''Heizung''), (''fan'', ''L'' @ [CHR 0xC3, CHR 0xBC] @ ''fter''),
      (''speed'', ''Drehzahl''), (''information'', ''Information''), (''software'', ''Software''),
      (''using'', ''Verwendet''), (''drycontact'', ''Trockenkontakt''), (''connect'', ''Verbindung'')]"

definition words_fr :: "(string, string) dict" where
  "words_fr =
     [(''battery'', ''batterie''), (''temperature'', ''temp'' @ [CHR 0xC3, CHR 0xA9] @ ''rature''),
      (''temp'', ''temp'' @ [CHR 0xC3, CHR 0xA9] @ ''rature''), (''power'', ''puissance''),
      (''voltage'', ''tension''), (''current'', ''courant''), (''energy'', [CHR 0xC3, CHR 0xA9] @ ''nergie''),
      (''today'', ''aujourd'' @ [CHR 0x27] @ ''hui''), (''total'', ''total''),
      (''input'', ''entr'' @ [CHR 0xC3, CHR 0xA9] @ ''e''), (''output'', ''sortie''),
      (''grid'', ''r'' @ [CHR 0xC3, CHR 0xA9] @ ''seau''), (''charge'', ''charge''), (''charging'', ''charge''),
      (''discharge'', ''d'' @ [CHR 0xC3, CHR 0xA9] @ ''charge''),
      (''charged'', ''charg'' @ [CHR 0xC3, CHR 0xA9] @ ''e''),
      (''discharged'', ''d'' @ [CHR 0xC3, CHR 0xA9] @ ''charg'' @ [CHR 0xC3, CHR 0xA9] @ ''e''),
      (''load'', ''charge''), (''frequency'', ''fr'' @ [CHR 0xC3, CHR 0xA9] @ ''quence''),
      (''status'', [CHR 0xC3, CHR 0xA9] @ ''tat''), (''state'', [CHR 0xC3, CHR 0xA9] @ ''tat''),
      (''system'', ''syst'' @ [CHR 0xC3, CHR 0xA8] @ ''me''), (''work'', ''fonctionnement''), (''mode'', ''mode''),
      (''enabled'', ''activ'' @ [CHR 0xC3, CHR 0xA9]), (''start'', ''d'' @ [CHR 0xC3, CHR 0xA9] @ ''but''),
      (''end'', ''fin''), (''time'', ''heure''), (''limit'', ''limite''),
      (''default'', ''d'' @ [CHR 0xC3, CHR 0xA9] @ ''faut''), (''smart'', ''intelligent''),
      (''priority'', ''priorit'' @ [CHR 0xC3, CHR 0xA9]), (''fault'', ''d'' @ [CHR 0xC3, CHR 0xA9] @ ''faut''),
      (''warning'', ''avertissement''), (''code'', ''code''), (''cycle'', ''cycle''), (''count'', ''nombre''),
      (''health'', ''sant'' @ [CHR 0xC3, CHR 0xA9]), (''signal'', ''signal''), (''strength'', ''force''),
      (''serial'', ''s'' @ [CHR 0xC3, CHR 0xA9] @ ''rie''), (''part'', ''partie''), (''device'', ''appareil''),
      (''type'', ''type''), (''firmware'', ''firmware''), (''version'', ''version''),
      (''reserved'', ''r'' @ [CHR 0xC3, CHR 0xA9] @ ''serv'' @ [CHR 0xC3, CHR 0xA9]), (''household'', ''foyer''),
      (''consumption'', ''consommation''), (''allowed'', ''autoris'' @ [CHR 0xC3, CHR 0xA9]),
      (''operating'', ''fonctionnement''), (''capacity'', ''capacit'' @ [CHR 0xC3, CHR 0xA9]),
      (''communication'', ''communication''), (''from'', ''de''), (''inside'', ''interne''), (''phase'', ''phase''),
      (''forward'', ''direct''), (''reverse'', ''inverse''), (''generate'', ''production''),
      (''storage'', ''stockage''), (''storge'', ''stockage''), (''maximum'', ''maximum''), (''max'', ''max.''),
      (''minimum'', ''minimum''), (''min'', ''min.''), (''cell'', ''cellule''), (''heater'', ''chauffage''),
      (''fan'', ''ventilateur''), (''speed'', ''vitesse''), (''information'', ''information''),
      (''software'', ''logiciel''), (''using'', ''utilis'' @ [CHR 0xC3, CHR 0xA9] @ ''e''),
      (''connect'', ''connexion'')]"

definition words_es :: "(string, string) dict" where
  "words_es =
     [(''battery'', ''bater'' @ [CHR 0xC3, CHR 0xAD] @ ''a''), (''temperature'', ''temperatura''),
      (''temp'', ''temperatura''), (''power'', ''potencia''),
      (''voltage'', ''tensi'' @ [CHR 0xC3, CHR 0xB3] @ ''n''), (''current'', ''corriente''),
      (''energy'', ''energ'' @ [CHR 0xC3, CHR 0xAD] @ ''a''), (''today'', ''hoy''), (''total'', ''total''),
      (''input'', ''entrada''), (''output'', ''salida''), (''grid'', ''red''), (''charge'', ''carga''),
      (''charging'', ''carga''), (''discharge'', ''descarga''), (''charged'', ''cargada''),
      (''discharged'', ''descargada''), (''load'', ''carga''), (''frequency'', ''frecuencia''),
      (''status'', ''estado''), (''state'', ''estado''), (''system'', ''sistema''), (''work'', ''trabajo''),
      (''mode'', ''modo''), (''enabled'', ''activado''), (''start'', ''inicio''), (''end'', ''fin''),
      (''time'', ''hora''), (''limit'', ''l'' @ [CHR 0xC3, CHR 0xAD] @ ''mite''), (''default'', ''predeterminado''),
      (''smart'', ''inteligente''), (''priority'', ''prioridad''), (''fault'', ''fallo''), (''warning'', ''aviso''),
      (''code'', ''c'' @ [CHR 0xC3, CHR 0xB3] @ ''digo''), (''cycle'', ''ciclo''),
      (''count'', ''n'' @ [CHR 0xC3, CHR 0xBA] @ ''mero''), (''health'', ''salud''),
      (''signal'', ''se'' @ [CHR 0xC3, CHR 0xB1] @ ''al''), (''strength'', ''intensidad''), (''serial'', ''serie''),
      (''part'', ''parte''), (''device'', ''dispositivo''), (''type'', ''tipo''), (''firmware'', ''firmware''),
      (''version'', ''versi'' @ [CHR 0xC3, CHR 0xB3] @ ''n''), (''reserved'', ''reservado''),
      (''household'', ''hogar''), (''consumption'', ''consumo''), (''allowed'', ''permitido''),
      (''operating'', ''funcionamiento''), (''capacity'', ''capacidad''),
      (''communication'', ''comunicaci'' @ [CHR 0xC3, CHR 0xB3] @ ''n''), (''from'', ''de''),
      (''inside'', ''interna''), (''phase'', ''fase''), (''forward'', ''directa''), (''reverse'', ''inversa''),
      (''generate'', ''generaci'' @ [CHR 0xC3, CHR 0xB3] @ ''n''), (''storage'', ''almacenamiento''),
      (''storge'', ''almacenamiento''), (''maximum'', ''m'' @ [CHR 0xC3, CHR 0xA1] @ ''ximo''),
      (''max'', ''m'' @ [CHR 0xC3, CHR 0xA1] @ ''x.''), (''minimum'', ''m'' @ [CHR 0xC3, CHR 0xAD] @ ''nimo''),
      (''min'', ''m'' @ [CHR 0xC3, CHR 0xAD] @ ''n.''), (''cell'', ''celda''), (''heater'', ''calentador''),
      (''fan'', ''ventilador''), (''speed'', ''velocidad''),
      (''information'', ''informaci'' @ [CHR 0xC3, CHR 0xB3] @ ''n''), (''software'', ''software''),
      (''using'', ''utilizada''), (''connect'', ''conexi'' @ [CHR 0xC3, CHR 0xB3] @ ''n'')]"

definition words_nl :: "(string, string) dict" where
  "words_nl =
     [(''battery'', ''batterij''), (''temperature'', ''temperatuur''), (''temp'', ''temperatuur''),
      (''power'', ''vermogen''), (''voltage'', ''spanning''), (''current'', ''stroom''), (''energy'', ''energie''),
      (''today'', ''vandaag''), (''total'', ''totaal''), (''input'', ''ingang''), (''output'', ''uitgang''),
      (''grid'', ''net''), (''charge'', ''laden''), (''charging'', ''laden''), (''discharge'', ''ontladen''),
      (''charged'', ''geladen''), (''discharged'', ''ontladen''), (''load'', ''belasting''),
      (''frequency'', ''frequentie''), (''status'', ''status''), (''state'', ''toestand''),
      (''system'', ''systeem''), (''work'', ''werking''), (''mode'', ''modus''), (''enabled'', ''ingeschakeld''),
      (''start'', ''start''), (''end'', ''einde''), (''time'', ''tijd''), (''limit'', ''limiet''),
      (''default'', ''standaard''), (''smart'', ''slim''), (''priority'', ''prioriteit''), (''fault'', ''fout''),
      (''warning'', ''waarschuwing''), (''code'', ''code''), (''cycle'', ''cyclus''), (''count'', ''aantal''),
      (''health'', ''gezondheid''), (''signal'', ''signaal''), (''strength'', ''sterkte''),
      (''serial'', ''serienummer''), (''part'', ''deel''), (''device'', ''apparaat''), (''type'', ''type''),
      (''firmware'', ''firmware''), (''version'', ''versie''), (''reserved'', ''gereserveerd''),
      (''household'', ''huishouden''), (''consumption'', ''verbruik''), (''allowed'', ''toegestaan''),
      (''operating'', ''bedrijf''), (''capacity'', ''capaciteit''), (''communication'', ''communicatie''),
      (''from'', ''van''), (''inside'', ''intern''), (''phase'', ''fase''), (''forward'', ''voorwaarts''),
      (''reverse'', ''achterwaarts''), (''generate'', ''opwekking''), (''storage'', ''opslag''),
      (''storge'', ''opslag''), (''maximum'', ''maximum''), (''max'', ''max.''), (''minimum'', ''minimum''),
      (''min'', ''min.''), (''cell'', ''cel''), (''heater'', ''verwarming''), (''fan'', ''ventilator''),
      (''speed'', ''snelheid''), (''information'', ''informatie''), (''software'', ''software''),
      (''using'', ''gebruikt''), (''connect'', ''verbinding'')]"

definition idiomatic_de :: "(string, string) dict" where
  "idiomatic_de =
     [(''Battery SOC'', ''Ladezustand''), (''Total Battery SoC'', ''Gesamtladezustand''),
      (''Battery Charging Status'', ''Batterieladestatus''), (''Battery Health'', ''Batteriezustand (SoH)''),
      (''Battery Cycle Count'', ''Ladezyklen''),
      (''Battery 1 max. Cell Voltage'', ''Maximale Zellspannung Batterie 1''),
      (''Battery 2 max. Cell Voltage'', ''Maximale Zellspannung Batterie 2''),
      (''Battery 3 max. Cell Voltage'', ''Maximale Zellspannung Batterie 3''),
      (''Battery 4 max. Cell Voltage'', ''Maximale Zellspannung Batterie 4''),
      (''Battery 1 min. Cell Voltage'', ''Minimale Zellspannung Batterie 1''),
      (''Battery 2 min. Cell Voltage'', ''Minimale Zellspannung Batterie 2''),
      (''Battery 3 min. Cell Voltage'', ''Minimale Zellspannung Batterie 3''),
      (''Battery 4 min. Cell Voltage'', ''Minimale Zellspannung Batterie 4''),
      (''Charging Power'', ''Ladeleistung''), (''Charge power'', ''Ladeleistung''),
      (''Discharge power'', ''Entladeleistung''), (''Battery discharge power'', ''Batterie-Entladeleistung''),
      (''Battery charge power'', ''Batterie-Ladeleistung''), (''Grid import power'', ''Netzbezugsleistung''),
      (''Grid export power'', ''Netzeinspeiseleistung''), (''Load power'', ''Verbrauchsleistung''),
      (''Total load power'', ''Gesamtverbrauchsleistung''), (''Total Household Load'', ''Gesamter Hausverbrauch''),
      (''Household Load (excl. GroPlug)'', ''Hausverbrauch ohne GroPlug''),
      (''Grid Power Allowed'', ''Zul'' @ [CHR 0xC3, CHR 0xA4] @ ''ssige Netzleistung''),
      (''Derating Mode'', ''Leistungsreduzierungsmodus''), (''PV ISO value'', ''PV-Isolationswert''),
      (''GFCI Curr'', ''GFCI-Fehlerstrom''), (''R DCI Curr'', ''DC-Einspeisestrom Phase R''),
      (''S DCI Curr'', ''DC-Einspeisestrom Phase S''), (''T DCI Curr'', ''DC-Einspeisestrom Phase T''),
      (''Inverter output PF now'', ''Aktueller Wechselrichter-Leistungsfaktor''),
      (''BDC connect state'', ''BDC-Verbindungsstatus''),
      (''Battery DC coupler state'', ''Status des Batterie-DC-Kopplers''),
      (''Current status of DryContact'', ''Status des potentialfreien Kontakts''),
      (''BMSInformation from BMS'', ''BMS-Informationen''),
      (''Pack Information from BMS'', ''BMS-Batteriepack-Informationen''),
      (''Using Cap from BMS'', ''Nutzbare Kapazit'' @ [CHR 0xC3, CHR 0xA4] @ ''t laut BMS''),
      (''Delta V from BMS'', ''Zellspannungsdifferenz laut BMS''),
      (''Max. charge or discharge current from BMS (pylon)'', ''Max. Lade-/Entladestrom laut BMS''),
      (''SOH from BMS'', ''Batteriezustand (SoH) laut BMS''), (''Cycle Count from BMS'', ''Ladezyklen laut BMS''),
      (''BMS cycle count'', ''BMS-Ladezyklen''), (''BMS state of health'', ''BMS-Batteriezustand (SoH)''),
      (''Island Mode Enabled'', ''Inselbetrieb aktiviert''),
      (''AC always on Enabled'', ''AC-Dauerversorgung aktiviert''),
      (''Default Smart Mode Enabled'', ''Smart-Modus standardm'' @ [CHR 0xC3, CHR 0xA4, CHR 0xC3, CHR 0x9F] @ ''ig aktiviert''),
      (''Power factor'', ''Leistungsfaktor''), (''Load percentage'', ''Auslastung''),
      (''Work time total'', ''Gesamtbetriebszeit''), (''Total work time'', ''Gesamtbetriebszeit''),
      (''Inverter standby flag'', ''Wechselrichter im Standby''),
      (''inv start delay time'', ''Startverz'' @ [CHR 0xC3, CHR 0xB6] @ ''gerung des Wechselrichters''),
      (''Error information from BMS'', ''BMS-Fehlerinformation''),
      (''Warning information from BMS'', ''BMS-Warninformation''),
      (''BMS Communication Type'', ''BMS-Kommunikationsart''),
      (''MCU Software version from BMS'', ''MCU-Softwareversion laut BMS''),
      (''Firmware Version Part 1'', ''Firmware-Version Teil 1''),
      (''Firmware Version Part 2'', ''Firmware-Version Teil 2''),
      (''Firmware Version Part 3'', ''Firmware-Version Teil 3''),
      (''Firmware Version Part 4'', ''Firmware-Version Teil 4'')]"

definition idiomatic_fr :: "(string, string) dict" where
  "idiomatic_fr =
     [(''Battery SOC'', [CHR 0xC3, CHR 0x89] @ ''tat de charge''),
      (''Total Battery SoC'', [CHR 0xC3, CHR 0x89] @ ''tat de charge global''),
      (''Battery Charging Status'', [CHR 0xC3, CHR 0x89] @ ''tat de charge de la batterie''),
      (''Battery Health'', [CHR 0xC3, CHR 0x89] @ ''tat de sant'' @ [CHR 0xC3, CHR 0xA9] @ '' de la batterie (SoH)''),
      (''Battery Cycle Count'', ''Nombre de cycles de charge''),
      (''Battery 1 max. Cell Voltage'', ''Tension maximale de cellule de la batterie 1''),
      (''Battery 1 min. Cell Voltage'', ''Tension minimale de cellule de la batterie 1''),
      (''Battery 2 max. Cell Voltage'', ''Tension maximale de cellule de la batterie 2''),
      (''Battery 2 min. Cell Voltage'', ''Tension minimale de cellule de la batterie 2''),
      (''Battery 3 max. Cell Voltage'', ''Tension maximale de cellule de la batterie 3''),
      (''Battery 3 min. Cell Voltage'', ''Tension minimale de cellule de la batterie 3''),
      (''Battery 4 max. Cell Voltage'', ''Tension maximale de cellule de la batterie 4''),
      (''Battery 4 min. Cell Voltage'', ''Tension minimale de cellule de la batterie 4''),
      (''Charging Power'', ''Puissance de charge''), (''Charge power'', ''Puissance de charge''),
      (''Discharge power'', ''Puissance de d'' @ [CHR 0xC3, CHR 0xA9] @ ''charge''),
      (''Battery discharge power'', ''Puissance de d'' @ [CHR 0xC3, CHR 0xA9] @ ''charge de la batterie''),
      (''Battery charge power'', ''Puissance de charge de la batterie''),
      (''Grid import power'', ''Puissance pr'' @ [CHR 0xC3, CHR 0xA9] @ ''lev'' @ [CHR 0xC3, CHR 0xA9] @ ''e sur le r'' @ [CHR 0xC3, CHR 0xA9] @ ''seau''),
      (''Grid export power'', ''Puissance inject'' @ [CHR 0xC3, CHR 0xA9] @ ''e dans le r'' @ [CHR 0xC3, CHR 0xA9] @ ''seau''),
      (''Load power'', ''Puissance consomm'' @ [CHR 0xC3, CHR 0xA9] @ ''e''),
      (''Total load power'', ''Puissance totale consomm'' @ [CHR 0xC3, CHR 0xA9] @ ''e''),
      (''Total Household Load'', ''Consommation totale du foyer''),
      (''Household Load (excl. GroPlug)'', ''Consommation du foyer hors GroPlug''),
      (''Grid Power Allowed'', ''Puissance r'' @ [CHR 0xC3, CHR 0xA9] @ ''seau autoris'' @ [CHR 0xC3, CHR 0xA9] @ ''e''),
      (''Derating Mode'', ''Mode de limitation de puissance''),
      (''PV ISO value'', ''Valeur d'' @ [CHR 0x27] @ ''isolement PV''),
      (''GFCI Curr'', ''Courant de d'' @ [CHR 0xC3, CHR 0xA9] @ ''faut GFCI''),
      (''R DCI Curr'', ''Courant continu inject'' @ [CHR 0xC3, CHR 0xA9] @ '' phase R''),
      (''S DCI Curr'', ''Courant continu inject'' @ [CHR 0xC3, CHR 0xA9] @ '' phase S''),
      (''T DCI Curr'', ''Courant continu inject'' @ [CHR 0xC3, CHR 0xA9] @ '' phase T''),
      (''Inverter output PF now'', ''Facteur de puissance actuel de l'' @ [CHR 0x27] @ ''onduleur''),
      (''BDC connect state'', [CHR 0xC3, CHR 0x89] @ ''tat de connexion BDC''),
      (''Battery DC coupler state'', [CHR 0xC3, CHR 0x89] @ ''tat du coupleur DC de la batterie''),
      (''Current status of DryContact'', [CHR 0xC3, CHR 0x89] @ ''tat du contact sec''),
      (''BMSInformation from BMS'', ''Informations BMS''),
      (''Pack Information from BMS'', ''Informations du pack batterie BMS''),
      (''Using Cap from BMS'', ''Capacit'' @ [CHR 0xC3, CHR 0xA9] @ '' utilisable selon le BMS''),
      (''Delta V from BMS'', [CHR 0xC3, CHR 0x89] @ ''cart de tension des cellules selon le BMS''),
      (''Max. charge or discharge current from BMS (pylon)'', ''Courant maximal de charge/d'' @ [CHR 0xC3, CHR 0xA9] @ ''charge selon le BMS''),
      (''SOH from BMS'', [CHR 0xC3, CHR 0x89] @ ''tat de sant'' @ [CHR 0xC3, CHR 0xA9] @ '' (SoH) selon le BMS''),
      (''Cycle Count from BMS'', ''Nombre de cycles selon le BMS''), (''BMS cycle count'', ''Nombre de cycles BMS''),
      (''BMS state of health'', [CHR 0xC3, CHR 0x89] @ ''tat de sant'' @ [CHR 0xC3, CHR 0xA9] @ '' BMS (SoH)''),
      (''Island Mode Enabled'', ''Mode '' @ [CHR 0xC3, CHR 0xAE] @ ''lot activ'' @ [CHR 0xC3, CHR 0xA9]),
      (''AC always on Enabled'', ''Alimentation AC permanente activ'' @ [CHR 0xC3, CHR 0xA9] @ ''e''),
      (''Default Smart Mode Enabled'', ''Mode intelligent activ'' @ [CHR 0xC3, CHR 0xA9] @ '' par d'' @ [CHR 0xC3, CHR 0xA9] @ ''faut''),
      (''Power factor'', ''Facteur de puissance''), (''Load percentage'', ''Taux de charge''),
      (''Work time total'', ''Dur'' @ [CHR 0xC3, CHR 0xA9] @ ''e totale de fonctionnement''),
      (''Total work time'', ''Dur'' @ [CHR 0xC3, CHR 0xA9] @ ''e totale de fonctionnement''),
      (''Inverter standby flag'', ''Onduleur en veille''),
      (''inv start delay time'', ''Temporisation de d'' @ [CHR 0xC3, CHR 0xA9] @ ''marrage de l'' @ [CHR 0x27] @ ''onduleur''),
      (''Error information from BMS'', ''Informations d'' @ [CHR 0x27] @ ''erreur BMS''),
      (''Warning information from BMS'', ''Informations d'' @ [CHR 0x27] @ ''avertissement BMS''),
      (''BMS Communication Type'', ''Type de communication BMS''),
      (''MCU Software version from BMS'', ''Version du logiciel MCU selon le BMS''),
      (''Firmware Version Part 1'', ''Version du firmware partie 1''),
      (''Firmware Version Part 2'', ''Version du firmware partie 2''),
      (''Firmware Version Part 3'', ''Version du firmware partie 3''),
      (''Firmware Version Part 4'', ''Version du firmware partie 4'')]"

definition idiomatic_es :: "(string, string) dict" where
  "idiomatic_es =
     [(''Battery SOC'', ''Estado de carga''), (''Total Battery SoC'', ''Estado de carga total''),
      (''Battery Charging Status'', ''Estado de carga de la bater'' @ [CHR 0xC3, CHR 0xAD] @ ''a''),
      (''Battery Health'', ''Estado de salud de la bater'' @ [CHR 0xC3, CHR 0xAD] @ ''a (SoH)''),
      (''Battery Cycle Count'', ''N'' @ [CHR 0xC3, CHR 0xBA] @ ''mero de ciclos de carga''),
      (''Battery 1 max. Cell Voltage'', ''Tensi'' @ [CHR 0xC3, CHR 0xB3] @ ''n m'' @ [CHR 0xC3, CHR 0xA1] @ ''xima de celda de la bater'' @ [CHR 0xC3, CHR 0xAD] @ ''a 1''),
      (''Battery 1 min. Cell Voltage'', ''Tensi'' @ [CHR 0xC3, CHR 0xB3] @ ''n m'' @ [CHR 0xC3, CHR 0xAD] @ ''nima de celda de la bater'' @ [CHR 0xC3, CHR 0xAD] @ ''a 1''),
      (''Battery 2 max. Cell Voltage'', ''Tensi'' @ [CHR 0xC3, CHR 0xB3] @ ''n m'' @ [CHR 0xC3, CHR 0xA1] @ ''xima de celda de la bater'' @ [CHR 0xC3, CHR 0xAD] @ ''a 2''),
      (''Battery 2 min. Cell Voltage'', ''Tensi'' @ [CHR 0xC3, CHR 0xB3] @ ''n m'' @ [CHR 0xC3, CHR 0xAD] @ ''nima de celda de la bater'' @ [CHR 0xC3, CHR 0xAD] @ ''a 2''),
      (''Battery 3 max. Cell Voltage'', ''Tensi'' @ [CHR 0xC3, CHR 0xB3] @ ''n m'' @ [CHR 0xC3, CHR 0xA1] @ ''xima de celda de la bater'' @ [CHR 0xC3, CHR 0xAD] @ ''a 3''),
      (''Battery 3 min. Cell Voltage'', ''Tensi'' @ [CHR 0xC3, CHR 0xB3] @ ''n m'' @ [CHR 0xC3, CHR 0xAD] @ ''nima de celda de la bater'' @ [CHR 0xC3, CHR 0xAD] @ ''a 3''),
      (''Battery 4 max. Cell Voltage'', ''Tensi'' @ [CHR 0xC3, CHR 0xB3] @ ''n m'' @ [CHR 0xC3, CHR 0xA1] @ ''xima de celda de la bater'' @ [CHR 0xC3, CHR 0xAD] @ ''a 4''),
      (''Battery 4 min. Cell Voltage'', ''Tensi'' @ [CHR 0xC3, CHR 0xB3] @ ''n m'' @ [CHR 0xC3, CHR 0xAD] @ ''nima de celda de la bater'' @ [CHR 0xC3, CHR 0xAD] @ ''a 4''),
      (''Charging Power'', ''Potencia de carga''), (''Charge power'', ''Potencia de carga''),
      (''Discharge power'', ''Potencia de descarga''),
      (''Battery discharge power'', ''Potencia de descarga de la bater'' @ [CHR 0xC3, CHR 0xAD] @ ''a''),
      (''Battery charge power'', ''Potencia de carga de la bater'' @ [CHR 0xC3, CHR 0xAD] @ ''a''),
      (''Grid import power'', ''Potencia importada de la red''),
      (''Grid export power'', ''Potencia inyectada a la red''), (''Load power'', ''Potencia de consumo''),
      (''Total load power'', ''Potencia total de consumo''), (''Total Household Load'', ''Consumo total del hogar''),
      (''Household Load (excl. GroPlug)'', ''Consumo del hogar sin GroPlug''),
      (''Grid Power Allowed'', ''Potencia de red permitida''),
      (''Derating Mode'', ''Modo de limitaci'' @ [CHR 0xC3, CHR 0xB3] @ ''n de potencia''),
      (''PV ISO value'', ''Valor de aislamiento FV''), (''GFCI Curr'', ''Corriente de fuga GFCI''),
      (''R DCI Curr'', ''Corriente continua inyectada fase R''),
      (''S DCI Curr'', ''Corriente continua inyectada fase S''),
      (''T DCI Curr'', ''Corriente continua inyectada fase T''),
      (''Inverter output PF now'', ''Factor de potencia actual del inversor''),
      (''BDC connect state'', ''Estado de conexi'' @ [CHR 0xC3, CHR 0xB3] @ ''n BDC''),
      (''Battery DC coupler state'', ''Estado del acoplador CC de la bater'' @ [CHR 0xC3, CHR 0xAD] @ ''a''),
      (''Current status of DryContact'', ''Estado del contacto seco''),
      (''BMSInformation from BMS'', ''Informaci'' @ [CHR 0xC3, CHR 0xB3] @ ''n del BMS''),
      (''Pack Information from BMS'', ''Informaci'' @ [CHR 0xC3, CHR 0xB3] @ ''n del paquete de bater'' @ [CHR 0xC3, CHR 0xAD] @ ''a del BMS''),
      (''Using Cap from BMS'', ''Capacidad utilizable seg'' @ [CHR 0xC3, CHR 0xBA] @ ''n el BMS''),
      (''Delta V from BMS'', ''Diferencia de tensi'' @ [CHR 0xC3, CHR 0xB3] @ ''n entre celdas seg'' @ [CHR 0xC3, CHR 0xBA] @ ''n el BMS''),
      (''Max. charge or discharge current from BMS (pylon)'', ''Corriente m'' @ [CHR 0xC3, CHR 0xA1] @ ''xima de carga/descarga seg'' @ [CHR 0xC3, CHR 0xBA] @ ''n el BMS''),
      (''SOH from BMS'', ''Estado de salud (SoH) seg'' @ [CHR 0xC3, CHR 0xBA] @ ''n el BMS''),
      (''Cycle Count from BMS'', ''N'' @ [CHR 0xC3, CHR 0xBA] @ ''mero de ciclos seg'' @ [CHR 0xC3, CHR 0xBA] @ ''n el BMS''),
      (''BMS cycle count'', ''N'' @ [CHR 0xC3, CHR 0xBA] @ ''mero de ciclos del BMS''),
      (''BMS state of health'', ''Estado de salud del BMS (SoH)''),
      (''Island Mode Enabled'', ''Modo isla activado''),
      (''AC always on Enabled'', ''Alimentaci'' @ [CHR 0xC3, CHR 0xB3] @ ''n CA permanente activada''),
      (''Default Smart Mode Enabled'', ''Modo inteligente activado de forma predeterminada''),
      (''Power factor'', ''Factor de potencia''), (''Load percentage'', ''Porcentaje de carga''),
      (''Work time total'', ''Tiempo total de funcionamiento''),
      (''Total work time'', ''Tiempo total de funcionamiento''), (''Inverter standby flag'', ''Inversor en espera''),
      (''inv start delay time'', ''Retardo de arranque del inversor''),
      (''Error information from BMS'', ''Informaci'' @ [CHR 0xC3, CHR 0xB3] @ ''n de errores del BMS''),
      (''Warning information from BMS'', ''Informaci'' @ [CHR 0xC3, CHR 0xB3] @ ''n de avisos del BMS''),
      (''BMS Communication Type'', ''Tipo de comunicaci'' @ [CHR 0xC3, CHR 0xB3] @ ''n BMS''),
      (''MCU Software version from BMS'', ''Versi'' @ [CHR 0xC3, CHR 0xB3] @ ''n del software MCU seg'' @ [CHR 0xC3, CHR 0xBA] @ ''n el BMS''),
      (''Firmware Version Part 1'', ''Versi'' @ [CHR 0xC3, CHR 0xB3] @ ''n de firmware parte 1''),
      (''Firmware Version Part 2'', ''Versi'' @ [CHR 0xC3, CHR 0xB3] @ ''n de firmware parte 2''),
      (''Firmware Version Part 3'', ''Versi'' @ [CHR 0xC3, CHR 0xB3] @ ''n de firmware parte 3''),
      (''Firmware Version Part 4'', ''Versi'' @ [CHR 0xC3, CHR 0xB3] @ ''n de firmware parte 4'')]"

definition idiomatic_nl :: "(string, string) dict" where
  "idiomatic_nl =
     [(''Battery SOC'', ''Laadstatus''), (''Total Battery SoC'', ''Totale laadstatus''),
      (''Battery Charging Status'', ''Laadstatus van de accu''), (''Battery Health'', ''Accugezondheid (SoH)''),
      (''Battery Cycle Count'', ''Aantal laadcycli''),
      (''Battery 1 max. Cell Voltage'', ''Maximale celspanning van accu 1''),
      (''Battery 1 min. Cell Voltage'', ''Minimale celspanning van accu 1''),
      (''Battery 2 max. Cell Voltage'', ''Maximale celspanning van accu 2''),
      (''Battery 2 min. Cell Voltage'', ''Minimale celspanning van accu 2''),
      (''Battery 3 max. Cell Voltage'', ''Maximale celspanning van accu 3''),
      (''Battery 3 min. Cell Voltage'', ''Minimale celspanning van accu 3''),
      (''Battery 4 max. Cell Voltage'', ''Maximale celspanning van accu 4''),
      (''Battery 4 min. Cell Voltage'', ''Minimale celspanning van accu 4''), (''Charging Power'', ''Laadvermogen''),
      (''Charge power'', ''Laadvermogen''), (''Discharge power'', ''Ontlaadvermogen''),
      (''Battery discharge power'', ''Ontlaadvermogen van de accu''),
      (''Battery charge power'', ''Laadvermogen van de accu''), (''Grid import power'', ''Netafnamevermogen''),
      (''Grid export power'', ''Terugleververmogen''), (''Load power'', ''Verbruiksvermogen''),
      (''Total load power'', ''Totaal verbruiksvermogen''),
      (''Total Household Load'', ''Totaal huishoudelijk verbruik''),
      (''Household Load (excl. GroPlug)'', ''Huishoudelijk verbruik zonder GroPlug''),
      (''Grid Power Allowed'', ''Toegestaan netvermogen''), (''Derating Mode'', ''Vermogensbegrenzingsmodus''),
      (''PV ISO value'', ''PV-isolatiewaarde''), (''GFCI Curr'', ''GFCI-foutstroom''),
      (''R DCI Curr'', ''DC-injectiestroom fase R''), (''S DCI Curr'', ''DC-injectiestroom fase S''),
      (''T DCI Curr'', ''DC-injectiestroom fase T''),
      (''Inverter output PF now'', ''Huidige arbeidsfactor van de omvormer''),
      (''BDC connect state'', ''BDC-verbindingsstatus''),
      (''Battery DC coupler state'', ''Status van de DC-accukoppeling''),
      (''Current status of DryContact'', ''Status van het potentiaalvrije contact''),
      (''BMSInformation from BMS'', ''BMS-informatie''),
      (''Pack Information from BMS'', ''BMS-accupakketinformatie''),
      (''Using Cap from BMS'', ''Bruikbare capaciteit volgens het BMS''),
      (''Delta V from BMS'', ''Celspanningsverschil volgens het BMS''),
      (''Max. charge or discharge current from BMS (pylon)'', ''Max. laad-/ontlaadstroom volgens het BMS''),
      (''SOH from BMS'', ''Accugezondheid (SoH) volgens het BMS''),
      (''Cycle Count from BMS'', ''Aantal cycli volgens het BMS''), (''BMS cycle count'', ''Aantal BMS-cycli''),
      (''BMS state of health'', ''BMS-accugezondheid (SoH)''),
      (''Island Mode Enabled'', ''Eilandbedrijf ingeschakeld''),
      (''AC always on Enabled'', ''Permanente AC-voeding ingeschakeld''),
      (''Default Smart Mode Enabled'', ''Slimme modus standaard ingeschakeld''),
      (''Power factor'', ''Arbeidsfactor''), (''Load percentage'', ''Belastingspercentage''),
      (''Work time total'', ''Totale bedrijfstijd''), (''Total work time'', ''Totale bedrijfstijd''),
      (''Inverter standby flag'', ''Omvormer in stand-by''),
      (''inv start delay time'', ''Startvertraging van de omvormer''),
      (''Error information from BMS'', ''BMS-foutinformatie''),
      (''Warning information from BMS'', ''BMS-waarschuwingsinformatie''),
      (''BMS Communication Type'', ''BMS-communicatietype''),
      (''MCU Software version from BMS'', ''MCU-softwareversie volgens het BMS''),
      (''Firmware Version Part 1'', ''Firmwareversie deel 1''),
      (''Firmware Version Part 2'', ''Firmwareversie deel 2''),
      (''Firmware Version Part 3'', ''Firmwareversie deel 3''),
      (''Firmware Version Part 4'', ''Firmwareversie deel 4'')]"

section \<open>What the tables keep\<close>

text \<open>No translation adds, drops or changes a digit of a name, which tell batteries, slots and strings apart.\<close>

definition keeps_digits :: "(string, string) dict \<Rightarrow> bool" where
  "keeps_digits table = list_all (\<lambda>(s, t). filter is_digit s = filter is_digit t) table"

lemma is_digit_bits [code]:
  "is_digit (Char b0 b1 b2 b3 b4 b5 b6 b7) \<longleftrightarrow> \<not> b7 \<and> \<not> b6 \<and> b5 \<and> b4 \<and> (b3 \<longrightarrow> \<not> b2 \<and> \<not> b1)"
  by (cases b0; cases b1; cases b2; cases b3; cases b4; cases b5; cases b6; cases b7)
    (simp_all add: is_digit_def)

lemma keeps_digits_get:
  "keeps_digits table \<Longrightarrow> dict_get table s = Some t \<Longrightarrow> filter is_digit t = filter is_digit s"
  by (auto simp: keeps_digits_def list_all_iff dest!: map_of_SomeD)

lemma keeps_digits_exact:
  "keeps_digits exact_de"
  "keeps_digits exact_fr"
  "keeps_digits exact_es"
  "keeps_digits exact_nl"
  by code_simp+

lemma keeps_digits_phrases:
  "keeps_digits phrases_de"
  "keeps_digits phrases_fr"
  "keeps_digits phrases_es"
  "keeps_digits phrases_nl"
  by code_simp+

lemma keeps_digits_words:
  "keeps_digits words_de"
  "keeps_digits words_fr"
  "keeps_digits words_es"
  "keeps_digits words_nl"
  by code_simp+

lemma keeps_digits_idiomatic:
  "keeps_digits idiomatic_de"
  "keeps_digits idiomatic_fr"
  "keeps_digits idiomatic_es"
  "keeps_digits idiomatic_nl"
  by code_simp+

end
