(* ===== verification/Localization.thy ===== *)
theory Localization
  imports LocalizationTables SupervisorConfig
begin

text \<open>
  \<open>grobro/ha/localization.py\<close>: the language of the announcements, asked from Home Assistant once a
  minute, and the translation of entity names. Regular expressions match letters and digits of ASCII;
  a name is the string of its UTF-8 bytes, so a letter beyond ASCII separates words, as it does for
  the pattern \<open>[A-Za-z]+\<close>.
\<close>

section \<open>Languages\<close>

definition supported_languages :: "string list" where
  "supported_languages = [''de'', ''en'', ''fr'', ''es'', ''nl'']"

definition normalize_language :: "string option \<Rightarrow> string" where
  "normalize_language language =
     (let l = (case language of None \<Rightarrow> ''en'' | Some s \<Rightarrow> if s = [] then ''en'' else s);
          base = hd (split_on CHR ''-'' (map (\<lambda>c. if c = CHR ''_'' then CHR ''-'' else c) (py_lower (py_strip l))))
      in if base \<in> set supported_languages then base else ''en'')"

record 't language_cache =
  lc_value :: string
  lc_checked :: 't

definition reset_language_cache :: "'t::linordered_idom language_cache" where
  "reset_language_cache = \<lparr>lc_value = ''en'', lc_checked = 0\<rparr>"

type_synonym ('f, 't) language_state = "'t language_cache \<times> 'f sup_log"

definition runtime_language ::
    "('f, 'x) float_ops_scheme \<Rightarrow> ('f, 's) sup_env \<Rightarrow> 't::linordered_idom \<Rightarrow> ('f, 't) language_state \<Rightarrow>
      ('f, 't) language_state \<times> string sup" where
  "runtime_language F E now st =
     (case st of
        (cache, calls) \<Rightarrow>
          if now - lc_checked cache < 60 then (st, Inr (lc_value cache))
          else (case get_home_assistant_language F E (lc_value cache) calls of
                  (calls', Inl e) \<Rightarrow> ((cache, calls'), Inl e)
                | (calls', Inr language) \<Rightarrow>
                    (let l = normalize_language (Some language)
                     in ((\<lparr>lc_value = l, lc_checked = now\<rparr>, calls'), Inr l))))"

section \<open>Names\<close>

definition table_of ::
    "(string, string) dict \<Rightarrow> (string, string) dict \<Rightarrow> (string, string) dict \<Rightarrow> (string, string) dict \<Rightarrow>
      string \<Rightarrow> (string, string) dict" where
  "table_of de fr es nl lang =
     (if lang = ''de'' then de else if lang = ''fr'' then fr else if lang = ''es'' then es
      else if lang = ''nl'' then nl else [])"

definition exact_names :: "string \<Rightarrow> (string, string) dict" where
  "exact_names = table_of exact_de exact_fr exact_es exact_nl"

definition idiomatic_names :: "string \<Rightarrow> (string, string) dict" where
  "idiomatic_names = table_of idiomatic_de idiomatic_fr idiomatic_es idiomatic_nl"

definition phrases_of :: "string \<Rightarrow> (string, string) dict" where
  "phrases_of = table_of phrases_de phrases_fr phrases_es phrases_nl"

definition word_table :: "string \<Rightarrow> (string, string) dict" where
  "word_table = table_of words_de words_fr words_es words_nl"

text \<open>\<open>re.sub\<close> of a literal phrase, ignoring case.\<close>

function replace_phrase :: "string \<Rightarrow> string \<Rightarrow> string \<Rightarrow> string" where
  "replace_phrase source target [] = []"
| "replace_phrase source target (c # cs) =
     (if source \<noteq> [] \<and> py_lower (take (length source) (c # cs)) = py_lower source
      then target @ replace_phrase source target (drop (length source) (c # cs))
      else c # replace_phrase source target cs)"
  by pat_completeness auto

termination replace_phrase
  by (relation "measure (\<lambda>(source, target, text). length text)") auto

definition replace_phrases :: "string \<Rightarrow> string \<Rightarrow> string" where
  "replace_phrases lang name =
     foldl (\<lambda>body (source, target). replace_phrase source target body) name
       (sort_key (\<lambda>(source, target). - int (length source)) (phrases_of lang))"

function replace_words :: "(string, string) dict \<Rightarrow> string \<Rightarrow> string" where
  "replace_words ws [] = []"
| "replace_words ws (c # cs) =
     (if ascii_letter c
      then (let word = takeWhile ascii_letter (c # cs)
            in (case dict_get ws (py_lower word) of Some t \<Rightarrow> t | None \<Rightarrow> word) @
               replace_words ws (dropWhile ascii_letter cs))
      else c # replace_words ws cs)"
  by pat_completeness auto

termination replace_words
  by (relation "measure (\<lambda>(ws, text). length text)") (auto simp: le_imp_less_Suc length_dropWhile_le)

text \<open>The two generated patterns: \<open>Bat(\d+) Serial\<close> and \<open>Slot (\d+) field\<close>.\<close>

definition split_number :: "string \<Rightarrow> string \<Rightarrow> (string \<times> string) option" where
  "split_number before name =
     (let digits = takeWhile is_digit (drop (length before) name)
      in if take (length before) name = before \<and> digits \<noteq> []
         then Some (digits, drop (length before + length digits) name) else None)"

definition bat_serial :: "string \<Rightarrow> string option" where
  "bat_serial name =
     (case split_number ''Bat'' name of
        Some (n, rest) \<Rightarrow> if rest = '' Serial'' then Some n else None
      | None \<Rightarrow> None)"

definition bat_serial_name :: "string \<Rightarrow> string \<Rightarrow> string" where
  "bat_serial_name lang n =
     (if lang = ''de'' then ''Bat'' @ n @ '' Seriennummer''
      else if lang = ''fr'' then ''Num'' @ [CHR 0xC3, CHR 0xA9] @ ''ro de s'' @ [CHR 0xC3, CHR 0xA9] @ ''rie Bat'' @ n
      else if lang = ''es'' then ''N'' @ [CHR 0xC3, CHR 0xBA] @ ''mero de serie Bat'' @ n
      else ''Bat'' @ n @ '' serienummer'')"

definition slot_fields :: "string \<Rightarrow> (string, string) dict" where
  "slot_fields =
     table_of
       [(''Enabled'', ''Aktiviert''), (''Start Time'', ''Startzeit''), (''End Time'', ''Endzeit''),
        (''Mode'', ''Modus''), (''Power'', ''Leistung'')]
       [(''Enabled'', ''Activ'' @ [CHR 0xC3, CHR 0xA9]), (''Start Time'', ''Heure de d'' @ [CHR 0xC3, CHR 0xA9] @ ''but''),
        (''End Time'', ''Heure de fin''), (''Mode'', ''Mode''), (''Power'', ''Puissance'')]
       [(''Enabled'', ''Activado''), (''Start Time'', ''Hora de inicio''), (''End Time'', ''Hora de fin''),
        (''Mode'', ''Modo''), (''Power'', ''Potencia'')]
       [(''Enabled'', ''Ingeschakeld''), (''Start Time'', ''Starttijd''), (''End Time'', ''Eindtijd''),
        (''Mode'', ''Modus''), (''Power'', ''Vermogen'')]"

definition slot_name :: "string \<Rightarrow> string \<Rightarrow> string option" where
  "slot_name lang name =
     (case split_number ''Slot '' name of
        None \<Rightarrow> None
      | Some (n, rest) \<Rightarrow>
          if take 1 rest = '' ''
          then map_option (\<lambda>t. ''Slot '' @ n @ '' '' @ t) (dict_get (slot_fields lang) (drop 1 rest))
          else None)"

text \<open>The translation of a name into a normalised language.\<close>

definition translate_name :: "string \<Rightarrow> string \<Rightarrow> string" where
  "translate_name lang name =
     (if lang = ''en'' then name
      else case dict_get (idiomatic_names lang) name of
             Some t \<Rightarrow> t
           | None \<Rightarrow>
               (case dict_get (exact_names lang) name of
                  Some t \<Rightarrow> t
                | None \<Rightarrow>
                    (case bat_serial name of
                       Some n \<Rightarrow> bat_serial_name lang n
                     | None \<Rightarrow>
                         (case slot_name lang name of
                            Some t \<Rightarrow> t
                          | None \<Rightarrow> replace_words (word_table lang) (replace_phrases lang name)))))"

definition translate_entity_name ::
    "('f, 'x) float_ops_scheme \<Rightarrow> ('f, 's) sup_env \<Rightarrow> 't::linordered_idom \<Rightarrow> string option \<Rightarrow> string option \<Rightarrow>
      ('f, 't) language_state \<Rightarrow> ('f, 't) language_state \<times> string option sup" where
  "translate_entity_name F E now name language st =
     (case name of
        None \<Rightarrow> (st, Inr None)
      | Some [] \<Rightarrow> (st, Inr (Some []))
      | Some n \<Rightarrow>
          (case (case language of
                   Some (c # cs) \<Rightarrow> (st, Inr (c # cs))
                 | _ \<Rightarrow> runtime_language F E now st) of
             (st1, Inl e) \<Rightarrow> (st1, Inl e)
           | (st1, Inr l) \<Rightarrow> (st1, Inr (Some (translate_name (normalize_language (Some l)) n)))))"

section \<open>Lemmas\<close>

abbreviation digits_of :: "string \<Rightarrow> string" where
  "digits_of \<equiv> filter is_digit"

lemma keeps_digits_table:
  "keeps_digits de \<Longrightarrow> keeps_digits fr \<Longrightarrow> keeps_digits es \<Longrightarrow> keeps_digits nl \<Longrightarrow>
   keeps_digits (table_of de fr es nl lang)"
  by (simp add: table_of_def keeps_digits_def)

lemma keeps_digits_tables [simp]:
  "keeps_digits (exact_names lang)" "keeps_digits (idiomatic_names lang)"
  "keeps_digits (phrases_of lang)" "keeps_digits (word_table lang)" "keeps_digits (slot_fields lang)"
proof -
  show "keeps_digits (slot_fields lang)"
    unfolding slot_fields_def by (rule keeps_digits_table; code_simp)
qed (simp_all add: exact_names_def idiomatic_names_def phrases_of_def word_table_def keeps_digits_table
      keeps_digits_exact keeps_digits_idiomatic keeps_digits_phrases keeps_digits_words)

lemma digits_lower: "digits_of (py_lower s) = digits_of s"
proof (induction s)
  case (Cons c s)
  have "is_digit (lower_char c) = is_digit c"
    by (auto simp: lower_char_def is_digit_def Let_def)
  moreover have "is_digit c \<Longrightarrow> lower_char c = c" by (auto simp: lower_char_def is_digit_def Let_def)
  ultimately show ?case using Cons by (simp add: py_lower_def)
qed (simp add: py_lower_def)

lemma replace_phrase_digits:
  "digits_of target = digits_of source \<Longrightarrow> digits_of (replace_phrase source target body) = digits_of body"
proof (induction source target body rule: replace_phrase.induct)
  case (2 source target c cs)
  show ?case
  proof (cases "source \<noteq> [] \<and> py_lower (take (length source) (c # cs)) = py_lower source")
    case True
    then have "digits_of source = digits_of (take (length source) (c # cs))" by (metis digits_lower)
    moreover have "digits_of (c # cs) =
        digits_of (take (length source) (c # cs)) @ digits_of (drop (length source) (c # cs))"
      by (metis append_take_drop_id filter_append)
    ultimately show ?thesis
      using 2 True by (simp only: replace_phrase.simps if_True simp_thms filter_append)
  next
    case False
    with 2 show ?thesis by (subst replace_phrase.simps) (auto simp: if_not_P)
  qed
qed simp

lemma replace_phrases_digits: "digits_of (replace_phrases lang name) = digits_of name"
proof -
  have "digits_of (foldl (\<lambda>body (s, t). replace_phrase s t body) name table) = digits_of name"
    if "keeps_digits table" for table
    using that by (induction table arbitrary: name) (auto simp: keeps_digits_def replace_phrase_digits)
  moreover have "keeps_digits (sort_key (\<lambda>(s, t). - int (length s)) (phrases_of lang))"
    using keeps_digits_tables(3) [of lang] unfolding keeps_digits_def list_all_iff by simp
  ultimately show ?thesis by (simp add: replace_phrases_def)
qed

lemma replace_words_digits:
  "keeps_digits ws \<Longrightarrow> digits_of (replace_words ws body) = digits_of body"
proof (induction ws body rule: replace_words.induct)
  case (2 ws c cs)
  show ?case
  proof (cases "ascii_letter c")
    case True
    let ?w = "takeWhile ascii_letter (c # cs)"
    have "digits_of (case dict_get ws (py_lower ?w) of Some t \<Rightarrow> t | None \<Rightarrow> ?w) = digits_of ?w"
      using keeps_digits_get [OF 2(3)] by (auto simp: digits_lower split: option.splits)
    moreover have "digits_of (c # cs) = digits_of ?w @ digits_of (dropWhile ascii_letter cs)"
    proof -
      have "c # cs = ?w @ dropWhile ascii_letter cs" using True by simp
      then show ?thesis by (metis filter_append)
    qed
    ultimately show ?thesis
      using 2 True by (simp only: replace_words.simps if_True Let_def filter_append)
  next
    case False
    with 2 show ?thesis by simp
  qed
qed simp

lemma split_number_digits:
  assumes "split_number before name = Some (n, rest)"
  shows "name = before @ n @ rest \<and> digits_of n = n"
proof -
  let ?r = "drop (length before) name"
  have n: "n = takeWhile is_digit ?r" "rest = drop (length n) ?r" "take (length before) name = before"
    using assms by (auto simp: split_number_def Let_def add.commute split: if_splits)
  have "?r = n @ rest" unfolding n(1,2) by (metis dropWhile_eq_drop takeWhile_dropWhile_id)
  moreover have "name = before @ ?r" using n(3) by (metis append_take_drop_id)
  moreover have "digits_of n = n" unfolding n(1) by (simp add: filter_id_conv) (auto dest: set_takeWhileD)
  ultimately show ?thesis by metis
qed

lemma bat_serial_digits:
  assumes "bat_serial name = Some n"
  shows "digits_of (bat_serial_name lang n) = digits_of name"
proof -
  from assms have "split_number ''Bat'' name = Some (n, '' Serial'')"
    by (auto simp: bat_serial_def split: option.splits if_splits)
  from split_number_digits [OF this] show ?thesis
    by (auto simp: bat_serial_name_def is_digit_def)
qed

lemma slot_name_digits:
  assumes "slot_name lang name = Some t"
  shows "digits_of t = digits_of name"
proof -
  from assms obtain n rest u where sp: "split_number ''Slot '' name = Some (n, rest)" and space: "take 1 rest = '' ''"
    and u: "dict_get (slot_fields lang) (drop 1 rest) = Some u" and t: "t = ''Slot '' @ n @ '' '' @ u"
    by (auto simp: slot_name_def split: option.splits if_splits)
  obtain field where rest: "rest = CHR '' '' # field" using space by (cases rest) auto
  from split_number_digits [OF sp] keeps_digits_get [OF keeps_digits_tables(5) u] show ?thesis
    by (auto simp: t rest is_digit_def)
qed

text \<open>The cached language is always a supported one, and a Supervisor that cannot be reached leaves it.\<close>

lemma normalize_supported: "normalize_language l \<in> set supported_languages"
  by (simp add: normalize_language_def supported_languages_def Let_def)

lemma normalize_fixed: "l \<in> set supported_languages \<Longrightarrow> normalize_language (Some l) = l"
  by (auto simp: supported_languages_def normalize_language_def py_lower_def lower_char_def py_strip_def
      strip_by_def rstrip_by_def py_space_def)

interpretation languages: step_machine "\<lambda>st now. fst (runtime_language F E now st)"
  "\<lambda>(cache, calls). lc_value cache \<in> set supported_languages" for F E
proof (unfold_locales, goal_cases)
  case (1 st now)
  then show ?case
    using normalize_supported
    by (cases st) (auto simp: runtime_language_def Let_def split: prod.splits sum.splits)
qed

theorem cached_language_supported:
  "lc_value (fst (foldl (\<lambda>st now. fst (runtime_language F E now st)) (reset_language_cache, calls) moments))
    \<in> set supported_languages"
  using languages.run_inv [of "(reset_language_cache, calls)" F E moments]
  by (auto simp: reset_language_cache_def supported_languages_def split: prod.splits)

theorem unreachable_keeps_language:
  assumes "lc_value cache \<in> set supported_languages"
    and "supervisor_request F E ''GET'' ''/homeassistant/api/config'' None calls = (calls', Inl (ConfigError m))"
  shows "lc_value (fst (fst (runtime_language F E now (cache, calls)))) = lc_value cache"
  using assms by (simp add: runtime_language_def get_home_assistant_language_def normalize_fixed Let_def)

text \<open>The check time of a fresh cache is zero, so during the first minute of the monotonic clock it answers
  English without asking.\<close>

theorem fresh_cache_answers_english:
  "now < 60 \<Longrightarrow> runtime_language F E now (reset_language_cache, calls) = ((reset_language_cache, calls), Inr ''en'')"
  by (simp add: runtime_language_def reset_language_cache_def)

section \<open>Properties\<close>

text \<open>C27: Translating a name keeps its digits, in their order, in every language: what tells two batteries, slots
  or PV strings apart survives, whether the name is found in a table, matches a pattern or is translated
  phrase by phrase and word by word.\<close>

theorem translation_keeps_digits:
  "filter is_digit (translate_name lang name) = filter is_digit name"
  using keeps_digits_get [OF keeps_digits_tables(1)] keeps_digits_get [OF keeps_digits_tables(2)]
  by (auto simp: translate_name_def bat_serial_digits slot_name_digits replace_words_digits
      replace_phrases_digits split: option.splits)

end
