(* ===== verification/PageEffects.thy ===== *)
theory PageEffects
  imports Ingress
begin

text \<open>
  What the web page changes in the bridge: the manual battery assignments it stores are read by the
  telemetry of the Home Assistant client (\<open>grobro/ha/battery_ingress.py\<close> and
  \<open>grobro/ha/battery_position.py\<close> over one file).
\<close>

section \<open>Lemmas\<close>












section \<open>Properties\<close>




end
