(* ===== verification/Spec2Isabelle.thy ===== *)
theory Spec2Isabelle
  imports PacketBuilder Registers ModbusMessage ModbusFunction DeviceFamily
    DeviceConfig ConfigParser NoahPackets MqttResult CloudPolicy BatteryPosition BatteryRuntime
    ConfigReads Availability Telemetry PendingWrites SourceClient SourceConnection DiagnosticScope RulesCache HomeConnection Startup Lifecycle
    RuntimeTimers ClockSync NeoPower HaCommands Diagnostics Discovery DiscoveryRuntime
    DiscoveryPublish DeviceInventory HaClient RegisterDebug Captures Bridge
    SupervisorConfig IngressStream Ingress LocalizationTables Localization PageEffects
begin

text \<open>
  Better GroBro connects Growatt solar devices with Home Assistant. The devices speak a scrambled
  binary dialect of Modbus over MQTT; the program decodes their packets, publishes telemetry and
  entity announcements for Home Assistant, turns commands into register writes, forwards packets to
  the vendor's cloud as far as a policy allows, and serves a small web page. This library models its
  Python code (\<open>src/grobro/\<close>) as HOL functions over explicit state and proves what the parts and
  their composition guarantee.
\<close>

section \<open>The program and its theories\<close>

text \<open>
  \<^bold>\<open>Common vocabulary.\<close> \<open>Prelude\<close> holds exceptions as values, \<open>struct\<close> formats, Python slices and string
  methods, dictionaries with insertion order, and the interfaces that several components provide:
  \<open>wire_codec\<close> (what is built can be parsed back), \<open>step_machine\<close> (an invariant every step keeps,
  whence every run does) and \<open>last_value_cache\<close>. Each is interpreted where a component
  provides it. \<open>Storage\<close> has JSON values and the atomic replacement of a file as the list of file systems
  a crash could leave behind.

  \<^bold>\<open>Wire formats.\<close> \<open>PacketBuilder\<close> is \<open>grobro/builder.py\<close> (mask, checksum trailer, configuration
  packets); \<open>Registers\<close>, \<open>ModbusMessage\<close>, \<open>ModbusFunction\<close> and \<open>DeviceFamily\<close> are the modules of the
  same purpose under \<open>model/\<close>; \<open>ConfigParser\<close> is \<open>grobro/parser.py\<close>; \<open>NoahPackets\<close> is \<open>noah_0103.py\<close> and
  \<open>noah_protocol_debug.py\<close>. Their lemmas are round trips, exact acceptance conditions and bounds.

  \<^bold>\<open>Source side.\<close> \<open>SourceClient\<close> is \<open>grobro/client.py\<close>: one message of a device or of the cloud, the
  links from gateways to inverters, commands. It is composed of \<open>MqttResult\<close> (how the answer of a
  publish or subscribe call is read), \<open>CloudPolicy\<close> and \<open>PendingWrites\<close> (configuration writes waiting for
  their acknowledgements). \<open>SourceConnection\<close> holds its broker callbacks, the cloud connection of every
  forwarded device, the bounded shutdown. \<open>Diagnostics\<close>, \<open>RegisterDebug\<close> and \<open>Captures\<close> are the diagnostic files:
  the bounded queue with its worker, rotation and repair, register captures, raw dumps;
  \<open>DiagnosticScope\<close> is the choice of the writer a record goes to.

  \<^bold>\<open>Home Assistant side.\<close> \<open>HaClient\<close> is \<open>ha/client.py\<close> as one machine: every handler, timer, start and
  stop, composed of \<open>Telemetry\<close> (what is published of a packet and the caches that suppress repeated
  messages), \<open>Availability\<close>, \<open>ConfigReads\<close> (a queue of reads per device, one in flight), \<open>HaCommands\<close>,
  \<open>ClockSync\<close>, \<open>NeoPower\<close>, \<open>Discovery\<close>, \<open>DiscoveryRuntime\<close> and \<open>DiscoveryPublish\<close> (the entities, the
  cleaning and the announcing of them), \<open>DeviceConfig\<close> (the stored configurations),
  \<open>BatteryPosition\<close> and \<open>BatteryRuntime\<close> (which pack is shown at which slot), \<open>DeviceInventory\<close>.
  \<open>HomeConnection\<close> holds the connection callbacks around the machine, \<open>RulesCache\<close> the cache of what is
  known of a register map. \<open>RuntimeTimers\<close> is the timer discipline they share. \<open>Localization\<close> with \<open>LocalizationTables\<close> is the
  translation of entity names.

  \<^bold>\<open>Web page and options.\<close> \<open>SupervisorConfig\<close> is \<open>ha/supervisor_config.py\<close>; \<open>IngressStream\<close> and \<open>Ingress\<close>
  are \<open>ha/battery_ingress.py\<close>: reading a request under a deadline, every request with its
  replies and effects, the bounded request threads.

  \<^bold>\<open>Compositions.\<close> \<open>Bridge\<close> is \<open>ha_bridge.py\<close>: both clients wired to each other, with the connection
  callbacks that decide when configuration reads may start. \<open>PageEffects\<close> follows an assignment from
  the page through its file into every later telemetry packet. \<open>Startup\<close> is the environment the modules read at
  import and follows options from the page through \<open>run.sh\<close> into the settings of the next run;
  \<open>Lifecycle\<close> is the process from its first call to its last, whatever raises, with the signal handler.
\<close>

section \<open>How the code is read\<close>

text \<open>
  State is a record per component and every operation returns the new state with its outputs (packets,
  published messages, requests, file writes) and its result; an exception is a value of \<open>py_error\<close> or an
  error type of the component. A handler guarded by the runtime lock is one step. Where the code
  lets two threads interleave (configuration writes and their acknowledgements, the diagnostic worker,
  request threads) the parts between two locks are steps of their own.

  A Python string is the list of its UTF-8 bytes. Character classes and case mapping are those of ASCII:
  this is exact for serial numbers, topics and register names, which the code requires or makes ASCII,
  and an assumption for free text typed by a user. A dictionary is an association list in insertion
  order with distinct keys. Python integers are \<open>int\<close>, wire bytes are \<open>8 word\<close>. Floats are a
  record of the operations the code applies, with any type: the theorems hold for every implementation
  of them; examples use the integers.

  What is not in the repository, or is outside Python, is an argument: the MQTT brokers and the Supervisor
  answer as functions of everything they were sent before, the CRC of packets, \<open>json\<close>, \<open>repr\<close>,
  \<open>ipaddress\<close> and \<open>strptime\<close> are functions, the clock and whether a timer or thread can be
  started are parts of the environment of a step. The JSON register maps are arguments too.
  An environment may differ at every step of a run, except for what the program reads once when it starts:
  the base topic, the client id and the switch for the extra availability sensor are the arguments \<open>base\<close>,
  \<open>c\<close> and \<open>avs\<close> of the machines of the Home Assistant client and of the bridge.

  What a property needs of a file system is named where it is assumed: that the stat of a file stands for
  its content (\<open>stat_names_content\<close>, \<open>file_settled\<close>). What it needs of a packet as well: slots are exclusive
  when no serial number is reported in two physical slots (\<open>packs_ok\<close>); \<open>shared_serial_shares_slot\<close> is the
  case where one is.
\<close>

section \<open>What is shown\<close>

text \<open>
  Invariants over every run: of both clients and of the bridge, of the gateway links, of the reads in flight, of
  the caches against what the broker holds, of the battery history, of the inventory, of the cloud connections; that every restart
  of the add-on follows an accepted save. Functional behaviour: the decoded values of a packet reach Home Assistant, what
  telemetry publishes key by key (against a specification that does not use the rules of the code), announcements
  and the topics their controls name, options as they are saved and as they take effect, assignments as they take effect.
  Safety: which packets may leave for which device, what may pass between device and cloud, which
  options may reach the Supervisor. Equivalence with a reference: caches, bounded
  searches, the header reader, the repair of a file. Refinement: the diagnostic queue, the
  configuration snapshot. Round trips of messages and writes; bounds of queues and threads; the
  end of reading sequences and probes.

  Loops over data are structural recursions or functions with a termination proof; no fuel is used.
  Sequences driven by timers (configuration reads, probes) may be continued for ever by their
  environment, and the theorems that they end state after how many timers.
  The stream of a request ends or goes silent; a reader's deadline bounds it in either case.
\<close>

section \<open>Not modelled\<close>

text \<open>
  The text of the web page (HTML, CSS and JavaScript, about 970 lines of \<open>battery_ingress.py\<close>) and log
  messages; the set-up of the Paho clients with their TLS parameters and network threads, whose callbacks are
  the steps; the time zone \<open>run.sh\<close> asks the Supervisor for; compatibility aliases and hooks that do nothing;
  HTTP itself, which the standard library parses before a handler runs. Two requests of the page
  are handled one after the other, as are the handlers of one client; the locks the code takes make the operations
  on shared state atomic, but not a whole request.
\<close>

end
